(* ===== verification/Prelude.thy ===== *)
theory Prelude
  imports Complex_Main "HOL-Library.Char_ord" "HOL-Library.List_Lexorder" "HOL-Library.Sublist"
begin

text \<open>
  Shared vocabulary of the development: the dynamic Python values that facts, assessments and
  session documents hold, insertion-ordered dictionaries, the string operations of the standard
  library that the code uses, and the lemma collections the component theories extend.

  A string is a list of code points below 256, one character each, so lengths are Python's; code
  points above that range are not modelled (a dash in some messages is its UTF-8 bytes).  Numbers read from JSON are rationals, so every finite
  double is represented exactly.
\<close>

named_theorems invariant_intros \<open>preservation lemmas of component invariants\<close>
named_theorems dict_simps \<open>lookup and update laws of dictionaries\<close>

subsection \<open>Python values\<close>

datatype pyval =
    VNone
  | VBool bool
  | VNum rat
  | VStr string
  | VList "pyval list"
  | VDict "(string \<times> pyval) list"

fun truthy :: "pyval \<Rightarrow> bool" where
  "truthy VNone = False"
| "truthy (VBool b) = b"
| "truthy (VNum n) = (n \<noteq> 0)"
| "truthy (VStr s) = (s \<noteq> [])"
| "truthy (VList xs) = (xs \<noteq> [])"
| "truthy (VDict d) = (d \<noteq> [])"

definition VStrs :: "string list \<Rightarrow> pyval" where
  "VStrs ss = VList (map VStr ss)"

text \<open>The strings a value iterates over: the members of a list, the characters of a string.\<close>

fun str_members :: "pyval \<Rightarrow> string list" where
  "str_members (VList xs) = concat (map (\<lambda>v. case v of VStr s \<Rightarrow> [s] | _ \<Rightarrow> []) xs)"
| "str_members (VStr s) = map (\<lambda>c. [c]) s"
| "str_members (VDict d) = map fst d"
| "str_members _ = []"

text \<open>Python's \<open>s in v\<close> for a string \<open>s\<close>: membership, substring or key test.\<close>

fun py_in :: "string \<Rightarrow> pyval \<Rightarrow> bool" where
  "py_in s (VList xs) = (VStr s \<in> set xs)"
| "py_in s (VStr t) = sublist s t"
| "py_in s (VDict d) = (s \<in> set (map fst d))"
| "py_in s _ = False"

definition opt_str :: "string option \<Rightarrow> pyval" where
  "opt_str o' = (case o' of None \<Rightarrow> VNone | Some s \<Rightarrow> VStr s)"

lemma str_members_VStrs [simp]: "str_members (VStrs ss) = ss"
  by (induction ss) (auto simp: VStrs_def)

lemma truthy_VStrs [simp]: "truthy (VStrs ss) \<longleftrightarrow> ss \<noteq> []"
  by (simp add: VStrs_def)

lemma py_in_VStrs [simp]: "py_in s (VStrs ss) \<longleftrightarrow> s \<in> set ss"
  by (auto simp: VStrs_def)

lemma VStrs_inject [simp]: "VStrs xs = VStrs ys \<longleftrightarrow> xs = ys"
  by (metis str_members_VStrs)

lemma VStrs_neq [simp]:
  "VStrs xs \<noteq> VNone" "VStrs xs \<noteq> VStr s" "VStrs xs \<noteq> VBool b"
  "VNone \<noteq> VStrs xs" "VStr s \<noteq> VStrs xs" "VBool b \<noteq> VStrs xs"
  by (simp_all add: VStrs_def)

subsection \<open>Insertion-ordered dictionaries\<close>

type_synonym 'v dict = "(string \<times> 'v) list"
type_synonym pydict = "pyval dict"

definition dget :: "pydict \<Rightarrow> string \<Rightarrow> pyval" where
  "dget d k = (case map_of d k of None \<Rightarrow> VNone | Some v \<Rightarrow> v)"

definition dget_default :: "pydict \<Rightarrow> string \<Rightarrow> pyval \<Rightarrow> pyval" where
  "dget_default d k v0 = (case map_of d k of None \<Rightarrow> v0 | Some v \<Rightarrow> v)"

text \<open>\<open>v.get(key)\<close> of a nested dictionary, and the members of a list value.\<close>

fun vget :: "pyval \<Rightarrow> string \<Rightarrow> pyval" where
  "vget (VDict d) key = dget d key"
| "vget _ key = VNone"

fun items_of :: "pyval \<Rightarrow> pyval list" where
  "items_of (VList xs) = xs"
| "items_of _ = []"

fun entries_of :: "pyval \<Rightarrow> pydict" where
  "entries_of (VDict d) = d"
| "entries_of _ = []"

text \<open>The same of a dictionary that may be absent: \<open>(d or {}).get(key)\<close>.\<close>

definition oget :: "pydict option \<Rightarrow> string \<Rightarrow> pyval" where
  "oget d key = (case d of None \<Rightarrow> VNone | Some m \<Rightarrow> dget m key)"

definition dhas :: "'v dict \<Rightarrow> string \<Rightarrow> bool" where
  "dhas d k \<longleftrightarrow> k \<in> set (map fst d)"

text \<open>\<open>d[k] = v\<close>: an existing key keeps its place, a new one is appended.\<close>

fun dset :: "'v dict \<Rightarrow> string \<Rightarrow> 'v \<Rightarrow> 'v dict" where
  "dset [] k v = [(k, v)]"
| "dset ((k', v') # d) k v = (if k' = k then (k, v) # d else (k', v') # dset d k v)"

definition dmerge :: "'v dict \<Rightarrow> 'v dict \<Rightarrow> 'v dict" where
  "dmerge d e = foldl (\<lambda>acc kv. dset acc (fst kv) (snd kv)) d e"

definition dkeys :: "'v dict \<Rightarrow> string list" where
  "dkeys d = map fst d"

lemma map_of_dset [simp, dict_simps]: "map_of (dset d k v) = (map_of d)(k \<mapsto> v)"
  by (induction d k v rule: dset.induct) auto

lemma keys_dset [simp, dict_simps]: "fst ` set (dset d k v) = insert k (fst ` set d)"
  by (induction d k v rule: dset.induct) auto

lemma map_of_dmerge [dict_simps]: "map_of (dmerge d e) k = (map_of d ++ map_of (rev e)) k"
  unfolding dmerge_def
  by (induction e arbitrary: d) (auto simp: map_add_def split: option.splits)

lemma keys_dmerge [dict_simps]: "fst ` set (dmerge d e) = fst ` set d \<union> fst ` set e"
  unfolding dmerge_def by (induction e arbitrary: d) auto

lemma dget_dset [simp, dict_simps]: "dget (dset d k v) k' = (if k' = k then v else dget d k')"
  by (simp add: dget_def)

lemma dhas_iff_map_of: "dhas d k \<longleftrightarrow> map_of d k \<noteq> None"
  by (auto simp: dhas_def map_of_eq_None_iff)

lemma dmerge_Nil [simp]: "dmerge d [] = d"
  by (simp add: dmerge_def)

lemma dset_same: "map_of d k = Some v \<Longrightarrow> dset d k v = d"
  by (induction d k v rule: dset.induct) auto

lemma dmerge_same:
  assumes "\<forall>(k, v) \<in> set e. map_of d k = Some v"
  shows "dmerge d e = d"
  using assms unfolding dmerge_def
  by (induction e) (auto simp: dset_same)

subsection \<open>Strings\<close>

definition lower_char :: "char \<Rightarrow> char" where
  "lower_char c =
     (let n = (of_char c :: nat) in
      if (65 \<le> n \<and> n \<le> 90) \<or> (192 \<le> n \<and> n \<le> 222 \<and> n \<noteq> 215) then char_of (n + 32) else c)"

definition py_lower :: "string \<Rightarrow> string" where
  "py_lower s = map lower_char s"

text \<open>The white space of \<open>str.isspace\<close> and of \<open>\s\<close>.\<close>

definition is_space :: "char \<Rightarrow> bool" where
  "is_space c = (let n = (of_char c :: nat) in n = 32 \<or> (9 \<le> n \<and> n \<le> 13) \<or> (28 \<le> n \<and> n \<le> 31) \<or> n \<in> {133, 160})"

definition py_strip :: "string \<Rightarrow> string" where
  "py_strip s = rev (dropWhile is_space (rev (dropWhile is_space s)))"

text \<open>\<open>re.sub(r"\s+", " ", text)\<close>.\<close>

function squeeze_spaces :: "string \<Rightarrow> string" where
  "squeeze_spaces [] = []"
| "squeeze_spaces (c # cs) =
     (if is_space c then CHR 0x20 # squeeze_spaces (dropWhile is_space cs)
      else c # squeeze_spaces cs)"
  by pat_completeness auto
termination
  by (relation "measure length") (auto simp: le_imp_less_Suc length_dropWhile_le)

definition starts_with :: "string \<Rightarrow> string \<Rightarrow> bool" where
  "starts_with s p \<longleftrightarrow> take (length p) s = p"

definition ends_with :: "string \<Rightarrow> string \<Rightarrow> bool" where
  "ends_with s p \<longleftrightarrow> length p \<le> length s \<and> drop (length s - length p) s = p"

lemma starts_with_iff: "starts_with s p \<longleftrightarrow> (\<exists>t. s = p @ t)"
  by (metis append_eq_conv_conj append_take_drop_id starts_with_def)

lemma starts_with_append [simp]: "starts_with (p @ t) p"
  by (simp add: starts_with_def)

text \<open>Decimal digits of a natural number, as \<open>str(n)\<close> writes them.\<close>

fun nat_str :: "nat \<Rightarrow> string" where
  "nat_str n =
     (if n < 10 then [char_of (48 + n)] else nat_str (n div 10) @ [char_of (48 + n mod 10)])"

declare nat_str.simps [simp del]

text \<open>\<open>list(dict.fromkeys(xs))\<close>: the first occurrence of every member.\<close>

definition dedup :: "string list \<Rightarrow> string list" where
  "dedup xs = rev (remdups (rev xs))"

lemma set_dedup [simp]: "set (dedup xs) = set xs"
  by (simp add: dedup_def)

text \<open>Python's \<open>sorted\<close> of a set of strings.\<close>

definition sorted_set :: "string list \<Rightarrow> string list" where
  "sorted_set ss = sort (remdups ss)"

lemma set_sorted_set [simp]: "set (sorted_set ss) = set ss"
  by (simp add: sorted_set_def)

lemma sorted_set_empty [simp]: "sorted_set ss = [] \<longleftrightarrow> ss = []"
  by (metis set_empty set_sorted_set)

subsection \<open>Errors as values\<close>

definition bindE :: "'e + 'a \<Rightarrow> ('a \<Rightarrow> 'e + 'b) \<Rightarrow> 'e + 'b" where
  "bindE m f = (case m of Inl e \<Rightarrow> Inl e | Inr x \<Rightarrow> f x)"

lemma bindE_simps [simp]: "bindE (Inl e) f = Inl e" "bindE (Inr x) f = f x"
  by (simp_all add: bindE_def)

lemma bindE_eq_Inl:
  "bindE m f = Inl r \<longleftrightarrow> m = Inl r \<or> (\<exists>x. m = Inr x \<and> f x = Inl r)"
  by (auto simp: bindE_def split: sum.splits)

lemma bindE_eq_Inr: "bindE m f = Inr y \<longleftrightarrow> (\<exists>x. m = Inr x \<and> f x = Inr y)"
  by (auto simp: bindE_def split: sum.splits)

subsection \<open>Lists\<close>

lemma dropWhile_sorted_le:
  assumes "sorted xs"
  shows "dropWhile (\<lambda>t. t < c) xs = filter (\<lambda>t. c \<le> t) (xs :: 'a::linorder list)"
  using assms
proof (induction xs)
  case (Cons x xs)
  show ?case
  proof (cases "x < c")
    case True
    with Cons show ?thesis by simp
  next
    case False
    with Cons.prems have "filter (\<lambda>t. c \<le> t) (x # xs) = x # xs"
      by (intro filter_True) (auto intro: order_trans[of c x])
    with False show ?thesis by simp
  qed
qed simp

lemma sorted_snoc_max:
  "sorted xs \<Longrightarrow> \<forall>x \<in> set xs. x \<le> y \<Longrightarrow> sorted (xs @ [y :: 'a::linorder])"
  by (auto simp: sorted_append)

lemma find_map_of: "map_of (map (\<lambda>x. (f x, g x)) xs) k = map_option g (List.find (\<lambda>x. f x = k) xs)"
  by (induction xs) auto

end
