(* ===== verification/Predicates.thy ===== *)
theory Predicates
  imports Prelude
begin

text \<open>
  The rule language of \<^verbatim>\<open>intaris/hybrid.py\<close>: predicates and their validation, rules and
  their size bounds, the shell-style matching of \<^verbatim>\<open>fnmatch.fnmatchcase\<close>, the three-valued
  evaluation of a predicate over partial facts, and \<^verbatim>\<open>fields_for\<close> of
  \<^verbatim>\<open>intaris/policy_evidence.py\<close>.
\<close>

subsection \<open>Predicates and rules\<close>

datatype pop =
    OpAll | OpAny | OpNot | OpEq | OpIn | OpContains | OpTool | OpCommand | OpPath

datatype quantifier = QAny | QAll

datatype pred =
  Pred (p_op: pop) (p_children: "pred list option") (p_field: "string option")
    (p_value: pyval) (p_quantifier: "quantifier option")

datatype rule_effect = AllowRule | DenyRule | RequireApproval

record rule =
  r_id :: string
  r_effect :: rule_effect
  r_when :: pred
  r_description :: "string option"

definition children_of :: "pred \<Rightarrow> pred list" where
  "children_of p = (case p_children p of None \<Rightarrow> [] | Some cs \<Rightarrow> cs)"

lemma children_of_simps [simp]:
  "children_of (Pred op None f v q) = []" "children_of (Pred op (Some cs) f v q) = cs"
  by (simp_all add: children_of_def)

lemma size_children [termination_simp]:
  "p_children p = Some cs \<Longrightarrow> c \<in> set cs \<Longrightarrow> size c < size p"
  by (cases p) (auto dest: size_list_estimation' [where f = size, OF _ order_refl])

definition enum_fields :: "(string \<times> string list) list" where
  "enum_fields =
    [(''relationship'', [''directly_serves_intent'', ''supports_intent'', ''unrelated'',
        ''conflicts_with_intent'', ''unclear'']),
     (''risk'', [''low'', ''medium'', ''high'', ''critical'', ''unknown'']),
     (''authorization'', [''explicit'', ''implicit'', ''absent'', ''unclear'']),
     (''operation'', [''read'', ''write'', ''unknown'']),
     (''environment'', [''development'', ''production'', ''unknown'']),
     (''reversibility'', [''reversible'', ''irreversible'', ''unknown'']),
     (''side_effect_scope'', [''bounded'', ''unbounded'', ''unknown'']),
     (''mutation'', [''read_only'', ''mutating'', ''unclear'']),
     (''authorization_source'', [''session_intention'', ''latest_user_message'',
        ''parent_intention'', ''none'']),
     (''authorization_scope'', [''within_scope'', ''outside_scope'', ''unclear''])]"

definition effect_names :: "string list" where
  "effect_names = [''read'', ''write'', ''execute'', ''transmit'', ''delete'', ''unknown'']"

subsection \<open>Validation\<close>

definition is_matcher :: "pop \<Rightarrow> bool" where
  "is_matcher op \<longleftrightarrow> op \<in> {OpTool, OpCommand, OpPath}"

fun enum_member :: "string list \<Rightarrow> pyval \<Rightarrow> bool" where
  "enum_member allowed (VStr s) = (s \<in> set allowed)"
| "enum_member allowed _ = False"

text \<open>\<open>validate_operation\<close>: the message of the \<open>ValueError\<close>, or \<open>None\<close>.\<close>

definition validate_operation :: "pred \<Rightarrow> string option" where
  "validate_operation p =
     (let op = p_op p; children = p_children p; field = p_field p; value = p_value p in
      if p_quantifier p \<noteq> None \<and> op \<noteq> OpPath then
        Some ''Only path_matches accepts a quantifier''
      else if op \<in> {OpAll, OpAny, OpNot} then
        (if children_of p = [] \<or> field \<noteq> None \<or> value \<noteq> VNone then
           Some ''Boolean predicates require only nonempty children''
         else if op = OpNot \<and> length (children_of p) \<noteq> 1 then
           Some ''not requires exactly one child''
         else None)
      else if children \<noteq> None then Some ''Leaf predicates cannot have children''
      else if is_matcher op then
        (case value of
           VStr s \<Rightarrow>
             (if field \<noteq> None then Some ''Matchers require only a string value''
              else if s = [] \<or> length s > 1024 then Some ''Matcher length must be 1..1024''
              else None)
         | _ \<Rightarrow> Some ''Matchers require only a string value'')
      else if op = OpContains then
        (if field = Some ''effects'' \<and> enum_member effect_names value then None
         else Some ''contains requires an effects member'')
      else
        (case (case field of None \<Rightarrow> None | Some f \<Rightarrow> map_of enum_fields f) of
           None \<Rightarrow> Some ''Invalid enum field or value''
         | Some allowed \<Rightarrow>
             (case (if op = OpIn then value else VList [value]) of
                VList values \<Rightarrow>
                  (if values = [] \<or> (\<exists>v \<in> set values. \<not> enum_member allowed v) then
                     Some ''Invalid enum field or value''
                   else None)
              | _ \<Rightarrow> Some ''Invalid enum field or value'')))"

text \<open>Pydantic validates the children before their parent.\<close>

fun valid_pred :: "pred \<Rightarrow> bool" where
  "valid_pred (Pred op children f v q) \<longleftrightarrow>
     (\<forall>c \<in> set (case children of None \<Rightarrow> [] | Some cs \<Rightarrow> cs). valid_pred c) \<and>
     validate_operation (Pred op children f v q) = None"

text \<open>
  The size check of a rule.  \<open>walk\<close> threads the node counter and is \<open>None\<close> where the
  source raises.
\<close>

fun walk :: "pred \<Rightarrow> nat \<Rightarrow> nat \<Rightarrow> nat option"
and walk_all :: "pred list \<Rightarrow> nat \<Rightarrow> nat \<Rightarrow> nat option" where
  "walk (Pred op children f v q) depth count =
     (let count' = count + 1 in
      if count' > 32 \<or> depth > 6 then None
      else (case children of None \<Rightarrow> Some count' | Some cs \<Rightarrow> walk_all cs (depth + 1) count'))"
| "walk_all [] depth count = Some count"
| "walk_all (c # cs) depth count =
     (case walk c depth count of None \<Rightarrow> None | Some count' \<Rightarrow> walk_all cs depth count')"

definition valid_rule :: "rule \<Rightarrow> bool" where
  "valid_rule r \<longleftrightarrow>
     1 \<le> length (r_id r) \<and> length (r_id r) \<le> 128 \<and>
     (case r_description r of None \<Rightarrow> True | Some d \<Rightarrow> length d \<le> 2048) \<and>
     valid_pred (r_when r) \<and> walk (r_when r) 1 0 \<noteq> None"

datatype rules_error = TooManyRules | InvalidRule | DuplicateRuleIds

definition validate_rules :: "rule list \<Rightarrow> rules_error + rule list" where
  "validate_rules raw =
     (if length raw > 64 then Inl TooManyRules
      else if \<not> list_all valid_rule raw then Inl InvalidRule
      else if \<not> distinct (map r_id raw) then Inl DuplicateRuleIds
      else Inr raw)"

fun pred_nodes :: "pred \<Rightarrow> nat" where
  "pred_nodes (Pred op children f v q) =
     1 + sum_list (map pred_nodes (case children of None \<Rightarrow> [] | Some cs \<Rightarrow> cs))"

fun pred_depth :: "pred \<Rightarrow> nat" where
  "pred_depth (Pred op children f v q) =
     1 + Max (set (0 # map pred_depth (case children of None \<Rightarrow> [] | Some cs \<Rightarrow> cs)))"

subsection \<open>\<open>fnmatch.fnmatchcase\<close>\<close>

datatype glob = GStar | GAny | GLit char | GClass bool string

text \<open>
  The text of a bracket expression and what follows it; \<open>None\<close> when it is not closed.  A
  \<open>!\<close> and a \<open>]\<close> right after the bracket belong to the text.
\<close>

definition split_class :: "string \<Rightarrow> (string \<times> string) option" where
  "split_class rest =
     (let p0 = (if starts_with rest ''!'' then 1 else 0);
          p1 = (if starts_with (drop p0 rest) '']'' then p0 + 1 else p0);
          body = takeWhile (\<lambda>c. c \<noteq> CHR '']'') (drop p1 rest);
          after = drop (p1 + length body) rest
      in if after = [] then None else Some (take p1 rest @ body, tl after))"

lemma split_class_shorter: "split_class rest = Some (stuff, r) \<Longrightarrow> length r < length rest"
  by (auto simp: split_class_def Let_def split: if_splits)

text \<open>Membership in a class body: \<open>a-z\<close> is a range, a hyphen elsewhere is itself.\<close>

fun in_class :: "string \<Rightarrow> char \<Rightarrow> bool" where
  "in_class [] c = False"
| "in_class [a] c = (c = a)"
| "in_class [a, b] c = (c = a \<or> c = b)"
| "in_class (a # b # z # rest) c =
     (if b = CHR ''-'' then (a \<le> c \<and> c \<le> z) \<or> in_class rest c
      else c = a \<or> in_class (b # z # rest) c)"

function glob_parse :: "string \<Rightarrow> glob list" where
  "glob_parse [] = []"
| "glob_parse (c # cs) =
     (if c = CHR ''*'' then GStar # glob_parse cs
      else if c = CHR ''?'' then GAny # glob_parse cs
      else if c = CHR ''['' then
        (case split_class cs of
           None \<Rightarrow> GLit c # glob_parse cs
         | Some (stuff, rest) \<Rightarrow>
             (if starts_with stuff ''!'' then GClass True (tl stuff) else GClass False stuff)
               # glob_parse rest)
      else GLit c # glob_parse cs)"
  by pat_completeness auto
termination
  by (relation "measure length") (auto dest: split_class_shorter)

fun glob_match :: "glob list \<Rightarrow> string \<Rightarrow> bool" where
  "glob_match [] s = (s = [])"
| "glob_match (GStar # gs) [] = glob_match gs []"
| "glob_match (GStar # gs) (c # cs) = (glob_match gs (c # cs) \<or> glob_match (GStar # gs) cs)"
| "glob_match (GAny # gs) (c # cs) = glob_match gs cs"
| "glob_match (GLit a # gs) (c # cs) = (c = a \<and> glob_match gs cs)"
| "glob_match (GClass neg stuff # gs) (c # cs) = (in_class stuff c \<noteq> neg \<and> glob_match gs cs)"
| "glob_match _ [] = False"

definition fnmatchcase :: "string \<Rightarrow> string \<Rightarrow> bool" where
  "fnmatchcase name pat = glob_match (glob_parse pat) name"

fun fnmatch_value :: "pyval \<Rightarrow> pyval \<Rightarrow> bool" where
  "fnmatch_value (VStr name) (VStr pat) = fnmatchcase name pat"
| "fnmatch_value _ _ = False"

subsection \<open>Three-valued evaluation\<close>

datatype truth = TFalse | TTrue | TUnknown

fun truth_not :: "truth \<Rightarrow> truth" where
  "truth_not TFalse = TTrue"
| "truth_not TTrue = TFalse"
| "truth_not TUnknown = TUnknown"

definition bool_truth :: "bool \<Rightarrow> truth" where
  "bool_truth b = (if b then TTrue else TFalse)"

definition unknown_fact :: "pyval \<Rightarrow> bool" where
  "unknown_fact v \<longleftrightarrow> v \<in> {VNone, VStr ''unknown'', VStr ''unclear''}"

definition combine :: "pop \<Rightarrow> truth list \<Rightarrow> truth" where
  "combine op children =
     (if op = OpNot then (case children of [] \<Rightarrow> TUnknown | t # _ \<Rightarrow> truth_not t)
      else let decisive = (if op = OpAll then TFalse else TTrue) in
        if decisive \<in> set children then decisive
        else if TUnknown \<in> set children then TUnknown
        else if op = OpAll then TTrue else TFalse)"

fun list_members :: "pyval \<Rightarrow> pyval list" where
  "list_members (VList xs) = xs"
| "list_members _ = []"

definition test_matcher :: "pop \<Rightarrow> pyval \<Rightarrow> quantifier option \<Rightarrow> pydict \<Rightarrow> truth" where
  "test_matcher op pattern quant facts =
     (let field = (if op = OpTool then ''tool'' else if op = OpCommand then ''command'' else ''paths'');
          value = dget facts field;
          incomplete = (if truthy (dget facts ''paths_complete'') then TFalse else TUnknown)
      in if value = VNone then TUnknown
         else if op = OpPath then
           (if \<not> truthy value then incomplete
            else if quant = Some QAll then
              (if \<exists>path \<in> set (list_members value). \<not> fnmatch_value path pattern then TFalse
               else if truthy (dget facts ''paths_complete'') then TTrue else TUnknown)
            else if \<exists>path \<in> set (list_members value). fnmatch_value path pattern then TTrue
            else incomplete)
         else bool_truth (fnmatch_value value pattern))"

definition test_leaf :: "pop \<Rightarrow> string option \<Rightarrow> pyval \<Rightarrow> pydict \<Rightarrow> truth" where
  "test_leaf op field wanted facts =
     (let value = (case field of None \<Rightarrow> VNone | Some f \<Rightarrow> dget facts f) in
      if unknown_fact value then TUnknown
      else if op = OpContains then
        (if py_in (case wanted of VStr s \<Rightarrow> s | _ \<Rightarrow> []) value then TTrue
         else if py_in ''unknown'' value then TUnknown else TFalse)
      else if op = OpEq then bool_truth (value = wanted)
      else bool_truth (value \<in> set (list_members wanted)))"

fun test_predicate :: "pred \<Rightarrow> pydict \<Rightarrow> truth" where
  "test_predicate (Pred op children field value quant) facts =
     (if op \<in> {OpAll, OpAny, OpNot} then
        combine op (case children of None \<Rightarrow> [] | Some cs \<Rightarrow> map (\<lambda>c. test_predicate c facts) cs)
      else if is_matcher op then test_matcher op value quant facts
      else test_leaf op field value facts)"

fun fields_for :: "pred \<Rightarrow> string list" where
  "fields_for (Pred op children field value quant) =
     (case children of
        Some (c # cs) \<Rightarrow> remdups (concat (map fields_for (c # cs)))
      | _ \<Rightarrow>
        (case op of
           OpPath \<Rightarrow> [''paths'', ''paths_complete'']
         | OpTool \<Rightarrow> [''tool'']
         | OpCommand \<Rightarrow> [''command'']
         | _ \<Rightarrow> (case field of None \<Rightarrow> [] | Some f \<Rightarrow> if f = [] then [] else [f])))"

subsection \<open>The size check counts nodes and depth\<close>

lemma sum_list_ge_member: "x \<in> set xs \<Longrightarrow> f x \<le> sum_list (map f xs)" for f :: "'a \<Rightarrow> nat"
  by (induction xs) auto

lemma Max_le_iff_list: "Max (set (0 # ns)) \<le> d \<longleftrightarrow> (\<forall>n \<in> set ns. n \<le> d)" for d :: nat
  by auto

lemma walk_Some_iff:
  "walk p depth count = Some n \<longleftrightarrow>
     n = count + pred_nodes p \<and> n \<le> 32 \<and> depth + pred_depth p \<le> 7"
  "walk_all ps depth count = Some n \<longleftrightarrow>
     n = count + sum_list (map pred_nodes ps) \<and> (ps = [] \<or> n \<le> 32) \<and>
     (\<forall>p \<in> set ps. depth + pred_depth p \<le> 7)"
proof (induction p depth count and ps depth count arbitrary: n and n rule: walk_walk_all.induct)
  case (1 op children f v q depth count)
  show ?case
  proof (cases children)
    case None
    then show ?thesis by (auto simp: Let_def)
  next
    case (Some cs)
    have deep: "depth + (1 + Max (set (0 # map pred_depth cs))) \<le> 7 \<longleftrightarrow>
        depth \<le> 6 \<and> (\<forall>p \<in> set cs. depth + 1 + pred_depth p \<le> 7)"
    proof -
      have "depth + (1 + Max (set (0 # map pred_depth cs))) \<le> 7 \<longleftrightarrow>
          depth \<le> 6 \<and> Max (set (0 # map pred_depth cs)) \<le> 6 - depth"
        by arith
      also have "\<dots> \<longleftrightarrow> depth \<le> 6 \<and> (\<forall>p \<in> set cs. depth + 1 + pred_depth p \<le> 7)"
        unfolding Max_le_iff_list by auto
      finally show ?thesis .
    qed
    show ?thesis
    proof (cases "count + 1 > 32 \<or> depth > 6")
      case True
      then show ?thesis
        using Some deep by (auto simp: Let_def simp del: set_map list.set)
    next
      case False
      then have "walk (Pred op children f v q) depth count = walk_all cs (depth + 1) (count + 1)"
        using Some by simp
      with 1 [of "count + 1" cs n] Some False deep show ?thesis
        by (auto simp del: set_map list.set)
    qed
  qed
next
  case (3 c cs depth count)
  show ?case
  proof (cases "walk c depth count")
    case None
    with 3(1) have "\<not> (count + pred_nodes c \<le> 32 \<and> depth + pred_depth c \<le> 7)"
      by simp
    with None show ?thesis by auto
  next
    case (Some m)
    with 3(1) [of m] have "m = count + pred_nodes c" "m \<le> 32" "depth + pred_depth c \<le> 7"
      by auto
    with Some 3(2) [OF Some, of n] show ?thesis by auto
  qed
qed auto

subsection \<open>Knowing more never changes a decided truth value\<close>

text \<open>
  One fact may be refined by another when it was missing, when it was an open effect set that
  only gains members, or not at all.  Paths may be added as long as the path list was not
  complete.
\<close>

definition leaf_refines :: "pyval \<Rightarrow> pyval \<Rightarrow> bool" where
  "leaf_refines v v' \<longleftrightarrow>
     unknown_fact v \<or> v' = v \<or>
     (\<exists>xs ys. v = VList xs \<and> v' = VList ys \<and> VStr ''unknown'' \<in> set xs \<and> set xs \<subseteq> set ys)"

definition paths_refine :: "pydict \<Rightarrow> pydict \<Rightarrow> bool" where
  "paths_refine f g \<longleftrightarrow>
     (let v = dget f ''paths''; v' = dget g ''paths'';
          c = truthy (dget f ''paths_complete''); c' = truthy (dget g ''paths_complete'') in
      v = VNone \<or> (v' = v \<and> (c \<longrightarrow> c')) \<or>
      (\<not> c \<and> (\<exists>xs ys. v = VList xs \<and> v' = VList ys \<and> set xs \<subseteq> set ys)))"

definition facts_refine :: "pydict \<Rightarrow> pydict \<Rightarrow> bool" where
  "facts_refine f g \<longleftrightarrow>
     (\<forall>k \<in> insert ''effects'' (set (map fst enum_fields)). leaf_refines (dget f k) (dget g k)) \<and>
     (\<forall>k \<in> {''tool'', ''command''}. dget f k = VNone \<or> dget g k = dget f k) \<and>
     paths_refine f g"

lemma list_all2_member:
  assumes "list_all2 R xs ys" "y \<in> set ys"
  obtains x where "x \<in> set xs" "R x y"
  using assms by (metis in_set_conv_nth list_all2_conv_all_nth)

lemma list_all2_member1:
  assumes "list_all2 R xs ys" "x \<in> set xs"
  obtains y where "y \<in> set ys" "R x y"
  using assms by (metis in_set_conv_nth list_all2_conv_all_nth)

lemma combine_refine:
  assumes rel: "list_all2 (\<lambda>t u. t \<noteq> TUnknown \<longrightarrow> u = t) ts us" and dec: "combine op ts \<noteq> TUnknown"
  shows "combine op us = combine op ts"
proof -
  have keep: "t \<in> set us" if "t \<in> set ts" "t \<noteq> TUnknown" for t
    using list_all2_member1 [OF rel that(1)] that(2) by metis
  have all: "u \<in> set ts" if "u \<in> set us" "TUnknown \<notin> set ts" for u
    using list_all2_member [OF rel that(1)] that by metis
  show ?thesis
  proof (cases "op = OpNot")
    case True
    with rel dec show ?thesis
      by (cases ts; cases us) (auto simp: combine_def elim: truth_not.elims)
  next
    case False
    define d where "d = (if op = OpAll then TFalse else TTrue)"
    have form: "combine op xs = (if d \<in> set xs then d else if TUnknown \<in> set xs then TUnknown
        else if op = OpAll then TTrue else TFalse)" for xs
      using False by (simp add: combine_def Let_def d_def)
    have "d \<noteq> TUnknown" by (simp add: d_def)
    show ?thesis
    proof (cases "d \<in> set ts")
      case True
      then show ?thesis
        using keep [OF True \<open>d \<noteq> TUnknown\<close>] by (simp add: form)
    next
      case d: False
      with dec have no: "TUnknown \<notin> set ts" by (auto simp: form)
      with all d have "d \<notin> set us" "TUnknown \<notin> set us" by blast+
      with d no show ?thesis by (simp add: form)
    qed
  qed
qed

lemma path_matcher_refine:
  assumes "paths_refine f g" "test_matcher OpPath pat q f \<noteq> TUnknown"
  shows "test_matcher OpPath pat q g = test_matcher OpPath pat q f"
proof -
  define c where "c = truthy (dget f ''paths_complete'')"
  define c' where "c' = truthy (dget g ''paths_complete'')"
  consider (none) "dget f ''paths'' = VNone"
    | (same) "dget g ''paths'' = dget f ''paths''" "c \<longrightarrow> c'"
    | (more) xs ys where "\<not> c" "dget f ''paths'' = VList xs" "dget g ''paths'' = VList ys"
        "set xs \<subseteq> set ys"
    using assms(1) by (auto simp: paths_refine_def Let_def c_def c'_def)
  then show ?thesis
  proof cases
    case none
    with assms(2) show ?thesis by (simp add: test_matcher_def)
  next
    case same
    with assms(2) show ?thesis
      unfolding test_matcher_def Let_def c_def [symmetric] c'_def [symmetric]
      by (auto split: if_splits)
  next
    case more
    with assms(2) show ?thesis
      unfolding test_matcher_def Let_def c_def [symmetric] c'_def [symmetric]
      by (auto split: if_splits)
  qed
qed

lemma matcher_refine:
  assumes "facts_refine f g" "is_matcher op" "test_matcher op pat q f \<noteq> TUnknown"
  shows "test_matcher op pat q g = test_matcher op pat q f"
proof (cases "op = OpPath")
  case True
  with assms path_matcher_refine show ?thesis
    by (auto simp: facts_refine_def)
next
  case False
  then show ?thesis
    using assms
    by (auto simp: facts_refine_def is_matcher_def test_matcher_def Let_def split: if_splits)
qed

text \<open>What a valid leaf tests: an enumerated field against enumerated strings, or the effects.\<close>

lemma enum_memberD: "enum_member allowed v \<Longrightarrow> \<exists>s. v = VStr s"
  by (cases v) auto

lemma valid_leafE:
  assumes "valid_pred (Pred op children field value quant)"
    and "op \<notin> {OpAll, OpAny, OpNot}" "\<not> is_matcher op"
  obtains (contains) s where "op = OpContains" "field = Some ''effects''" "value = VStr s"
  | (eq) f s where "op = OpEq" "field = Some f" "f \<in> set (map fst enum_fields)" "value = VStr s"
  | (member) f vs where "op = OpIn" "field = Some f" "f \<in> set (map fst enum_fields)"
      "value = VList vs" "\<forall>v \<in> set vs. \<exists>s. v = VStr s"
proof -
  have v: "validate_operation (Pred op children field value quant) = None"
    using assms(1) by simp
  have dom: "map_of enum_fields f = Some a \<Longrightarrow> f \<in> set (map fst enum_fields)" for f a
    by (metis map_of_eq_None_iff option.distinct(1) set_map)
  from assms(2,3) consider "op = OpContains" | "op = OpEq" | "op = OpIn"
    by (cases op) (auto simp: is_matcher_def)
  then show thesis
  proof cases
    case 1
    with v have "field = Some ''effects''" "enum_member effect_names value"
      by (auto simp: validate_operation_def is_matcher_def split: if_splits)
    with 1 show thesis
      using contains by (auto dest: enum_memberD)
  next
    case 2
    with v obtain f a where "field = Some f" "map_of enum_fields f = Some a" "enum_member a value"
      by (auto simp: validate_operation_def is_matcher_def split: if_splits option.splits)
    with 2 dom show thesis
      using eq by (auto dest: enum_memberD)
  next
    case 3
    with v obtain f a vs where "field = Some f" "map_of enum_fields f = Some a" "value = VList vs"
        "\<forall>v \<in> set vs. enum_member a v"
      by (auto simp: validate_operation_def is_matcher_def
          split: if_splits option.splits pyval.splits)
    with 3 dom show thesis
      using member enum_memberD by metis
  qed
qed

lemma leaf_refine:
  assumes "facts_refine f g" "valid_pred (Pred op children field value quant)"
    and "op \<notin> {OpAll, OpAny, OpNot}" "\<not> is_matcher op"
    and "test_leaf op field value f \<noteq> TUnknown"
  shows "test_leaf op field value g = test_leaf op field value f"
  using assms(2-4)
proof (cases rule: valid_leafE)
  case (contains s)
  then have "leaf_refines (dget f ''effects'') (dget g ''effects'')"
    using assms(1) by (simp add: facts_refine_def)
  with contains assms(5) show ?thesis
    by (auto simp: test_leaf_def leaf_refines_def unknown_fact_def Let_def split: if_splits)
next
  case (eq k s)
  then have "leaf_refines (dget f k) (dget g k)"
    using assms(1) unfolding facts_refine_def by blast
  with eq assms(5) show ?thesis
    by (auto simp: test_leaf_def leaf_refines_def unknown_fact_def bool_truth_def split: if_splits)
next
  case (member k vs)
  then have "leaf_refines (dget f k) (dget g k)"
    using assms(1) unfolding facts_refine_def by blast
  with member assms(5) show ?thesis
    by (fastforce simp: test_leaf_def leaf_refines_def unknown_fact_def bool_truth_def split: if_splits)
qed

lemma test_predicate_refine:
  assumes "facts_refine f g" "valid_pred p" "test_predicate p f \<noteq> TUnknown"
  shows "test_predicate p g = test_predicate p f"
  using assms(2,3)
proof (induction p)
  case (Pred op children field v quant)
  show ?case
  proof (cases "op \<in> {OpAll, OpAny, OpNot}")
    case True
    define cs where "cs = (case children of None \<Rightarrow> [] | Some cs \<Rightarrow> cs)"
    have tp: "test_predicate (Pred op children field v quant) h =
        combine op (map (\<lambda>c. test_predicate c h) cs)" for h
      using True by (auto simp: cs_def split: option.splits)
    have "list_all2 (\<lambda>t u. t \<noteq> TUnknown \<longrightarrow> u = t)
        (map (\<lambda>c. test_predicate c f) cs) (map (\<lambda>c. test_predicate c g) cs)"
      using Pred.IH Pred.prems(1)
      by (auto simp: list_all2_conv_all_nth cs_def split: option.splits)
    then show ?thesis
      using Pred.prems(2) unfolding tp by (rule combine_refine)
  next
    case False
    then show ?thesis
      using Pred.prems assms(1) matcher_refine leaf_refine
      by (cases "is_matcher op") (auto simp del: valid_pred.simps)
  qed
qed

subsection \<open>Properties\<close>

text \<open>A rule that validates has at most 32 operations, nested at most 6 deep, and a rule within these
  bounds is refused for its size by no traversal order.\<close>

theorem rule_size_bounds:
  "walk p 1 0 = (if pred_nodes p \<le> 32 \<and> pred_depth p \<le> 6 then Some (pred_nodes p) else None)"
  using walk_Some_iff(1) [of p 1 0] by (cases "walk p 1 0") auto

text \<open>C21. A truth value other than unknown is final: filling in facts that were missing, adding paths to an
  incomplete list or members to an open effect set does not change it.\<close>

theorem decided_truth_is_stable:
  assumes "facts_refine f g" "valid_pred p" "test_predicate p f \<noteq> TUnknown"
  shows "test_predicate p g = test_predicate p f"
  using assms by (rule test_predicate_refine)

theorem decided_truth_is_stable_witness:
  "test_predicate (Pred OpTool None None (VStr ''bas*'') None)
     [(''tool'', VStr ''bash''), (''command'', VStr ''ls'')] = TTrue"
proof -
  have "test_predicate (Pred OpTool None None (VStr ''bas*'') None)
      [(''tool'', VStr ''bash''), (''command'', VStr ''ls'')] =
    test_predicate (Pred OpTool None None (VStr ''bas*'') None) [(''tool'', VStr ''bash'')]"
  proof (rule decided_truth_is_stable)
    show "facts_refine [(''tool'', VStr ''bash'')] [(''tool'', VStr ''bash''), (''command'', VStr ''ls'')]"
      by (simp add: facts_refine_def leaf_refines_def paths_refine_def unknown_fact_def enum_fields_def
          dget_def Let_def)
  qed code_simp+
  also have "\<dots> = TTrue" by code_simp
  finally show ?thesis .
qed

end
