(* ===== verification/Policy_Evidence.thy ===== *)
theory Policy_Evidence
  imports Predicates
begin

text \<open>
  \<^verbatim>\<open>intaris/policy_evidence.py\<close>: observations, model assessments, sources and the
  reviewer's receipt, the rule that reads one value out of them, the projection of a reviewer's
  corrections, and the grounding of model-asserted conflicts.  Dictionaries of the source whose
  keys are fixed by their producers (sources, constraint items, clauses) are records; the open ones
  (assessment, confidences, workflow scope, lifecycle, alignment) stay dictionaries.
\<close>

subsection \<open>Data\<close>

datatype coverage = Complete | Partial | NoCoverage

record observation =
  obs_value :: pyval
  obs_source :: string
  obs_coverage :: coverage
  obs_references :: "string list"

datatype requirement = NeedsAssessment | NeedsReview | NeedsHuman

record obligation =
  ob_id :: string
  ob_basis :: string
  ob_fields :: "string list"
  ob_evidence :: "string list"
  ob_requirement :: requirement
  ob_protected :: bool

record corrected_assessment =
  ca_relationship :: "string option"
  ca_contextual_restrictions :: "string option"
  ca_restriction_reference :: "string option"
  ca_target_scope :: "string option"
  ca_target_reference :: "string option"
  ca_authorization :: "string option"
  ca_authorization_scope :: "string option"
  ca_authorization_source :: "string option"
  ca_restriction_quote :: "string option"

datatype vote = VoteApprove | VoteAsk | VoteRefuse

record review =
  rv_obligation_ids :: "string list"
  rv_evidence_refs :: "string list"
  rv_scope_support_refs :: "string list"
  rv_routine_scope_verified :: bool
  rv_user_would :: "vote option"
  rv_risk :: "string option"
  rv_basis :: "string option"
  rv_corrected :: "corrected_assessment option"
  rv_operator_policy_ids :: "string list"

record constraint_item =
  ci_status :: pyval
  ci_kind :: pyval
  ci_quote :: pyval

text \<open>A captured source; an absent key of \<open>text\<close> or \<open>content\<close> is \<open>None\<close>.\<close>

record source_entry =
  src_origin :: pyval
  src_kind :: pyval
  src_text :: "pyval option"
  src_content :: "pyval option"
  src_independent_grant :: pyval
  src_approves :: pyval
  src_constraint_items :: "constraint_item list"
  src_constraint_kinds :: pyval
  src_interpretation_missing :: pyval

record clause =
  cl_id :: string
  cl_text :: string

record evidence =
  ev_observations :: "observation dict"
  ev_assessment :: pydict
  ev_confidences :: pydict
  ev_sources :: "source_entry dict"
  ev_review :: "review option"
  ev_human_approved :: bool
  ev_read_only_required :: bool
  ev_assessment_failed :: bool
  ev_advisory_clauses :: "clause list"
  ev_workflow_scope :: "pydict option"
  ev_process_lifecycle :: "pydict option"
  ev_parent_alignment :: "pydict option"

definition authority_fields :: "string list" where
  "authority_fields = [''authorization'', ''authorization_source'', ''authorization_scope'']"

definition prohibition_kinds :: "pyval list" where
  "prohibition_kinds = [VStr ''restriction'', VStr ''disapproval'']"

definition instruction_origins :: "pyval list" where
  "instruction_origins =
     [VStr ''client_assignment'', VStr ''client_user_claim'', VStr ''recorded_user_event'',
      VStr ''recorded_client_user_message'', VStr ''human_resolution'']"

subsection \<open>\<open>Evidence.value\<close>\<close>

definition unset :: "pyval \<Rightarrow> bool" where
  "unset v \<longleftrightarrow> v \<in> {VNone, VStr ''unknown'', VStr ''unclear'', VList [VStr ''unknown'']}"

text \<open>The tail every key reaches: a set observation, else the assessment.\<close>

definition plain_value :: "evidence \<Rightarrow> string \<Rightarrow> pyval \<Rightarrow> pyval" where
  "plain_value st key dflt =
     (case map_of (ev_observations st) key of
        Some ob \<Rightarrow> if \<not> unset (obs_value ob) then obs_value ob
                 else dget_default (ev_assessment st) key dflt
      | None \<Rightarrow> dget_default (ev_assessment st) key dflt)"

text \<open>The reviewer's risk, once the receipt names obligations, owns the key \<open>risk\<close>.\<close>

definition reviewed_risk :: "evidence \<Rightarrow> string option" where
  "reviewed_risk st =
     (case ev_review st of
        Some r \<Rightarrow> if rv_obligation_ids r \<noteq> [] then rv_risk r else None
      | None \<Rightarrow> None)"

definition risk_value :: "evidence \<Rightarrow> pyval \<Rightarrow> pyval" where
  "risk_value st dflt =
     (case reviewed_risk st of Some r \<Rightarrow> VStr r | None \<Rightarrow> plain_value st ''risk'' dflt)"

definition effect_members :: "evidence \<Rightarrow> string list" where
  "effect_members st =
     (let observed = (case map_of (ev_observations st) ''effects'' of
                        Some ob \<Rightarrow> str_members (obs_value ob) | None \<Rightarrow> []);
          assessed = (case map_of (ev_assessment st) ''effects'' of
                        Some v \<Rightarrow> str_members v | None \<Rightarrow> []);
          members = observed @ assessed
      in if dhas (ev_assessment st) ''effects'' \<and>
            \<not> py_in ''unknown'' (dget (ev_assessment st) ''effects'')
         then filter (\<lambda>e. e \<noteq> ''unknown'') members else members)"

definition effects_value :: "evidence \<Rightarrow> pyval \<Rightarrow> pyval" where
  "effects_value st dflt =
     (if effect_members st \<noteq> [] then VStrs (sorted_set (effect_members st))
      else plain_value st ''effects'' dflt)"

definition effects_of :: "evidence \<Rightarrow> pyval \<Rightarrow> string list" where
  "effects_of st dflt = str_members (effects_value st dflt)"

definition mutation_value :: "evidence \<Rightarrow> pyval \<Rightarrow> pyval" where
  "mutation_value st dflt =
     (let assessed = dget (ev_assessment st) ''mutation'' in
      if assessed = VStr ''mutating'' then VStr ''mutating''
      else if set (effects_of st (VList [])) \<inter> {''write'', ''delete'', ''transmit''} \<noteq> {} then
        VStr ''mutating''
      else if (case map_of (ev_observations st) ''mutation'' of
                 Some ob \<Rightarrow> \<not> unset (obs_value ob) | None \<Rightarrow> False) then
        plain_value st ''mutation'' dflt
      else if assessed \<in> {VNone, VStr ''unclear''}
           \<and> truthy (dget (ev_assessment st) ''effects'')
           \<and> set (effects_of st (VStrs [''unknown''])) \<subseteq> {''read'', ''execute''}
           \<and> risk_value st VNone = VStr ''low'' then
        VStr ''read_only''
      else dget_default (ev_assessment st) ''mutation'' dflt)"

definition ev_value :: "evidence \<Rightarrow> string \<Rightarrow> pyval \<Rightarrow> pyval" where
  "ev_value st key dflt =
     (if key = ''risk'' then risk_value st dflt
      else if key = ''mutation'' then mutation_value st dflt
      else if key = ''effects'' then effects_value st dflt
      else plain_value st key dflt)"

definition known :: "evidence \<Rightarrow> string \<Rightarrow> bool" where
  "known st key =
     (case map_of (ev_observations st) key of
        Some ob \<Rightarrow> obs_coverage ob = Complete | None \<Rightarrow> False)"

definition comparison :: "evidence \<Rightarrow> pydict" where
  "comparison st =
     map (\<lambda>key. (key, ev_value st key VNone))
       (remdups (dkeys (ev_assessment st) @ dkeys (ev_observations st)))"

subsection \<open>\<open>from_observations\<close>\<close>

definition observe :: "pydict \<Rightarrow> string \<Rightarrow> pyval \<Rightarrow> observation" where
  "observe values key v =
     (let cov0 = (if unset v then NoCoverage else Complete);
          cov1 = (if key = ''paths''
                  then (if truthy (dget values ''paths_complete'') then Complete else Partial)
                  else cov0);
          cov2 = (if key = ''effects'' \<and> py_in ''unknown'' v then Partial else cov1);
          cov3 = (if key = ''arguments'' \<and> dget values ''arguments_complete'' = VBool False
                  then Partial else cov2)
      in \<lparr>obs_value = v,
          obs_source =
            (if truthy (dget values ''secret_argument'')
                \<and> key \<in> {''effects'', ''risk'', ''operation'', ''static_read'', ''secret_argument''}
             then ''secret_argument''
             else if truthy (dget values ''name_heuristic_effect'')
                \<and> key \<in> {''effects'', ''mutation'', ''name_heuristic_effect''}
             then ''name_heuristic''
             else if truthy (dget values ''operation_contract'') \<and> key \<in> {''mutation'', ''effects''}
             then ''tool_contract''
             else if key = ''runtime_context'' then ''runtime_context''
             else ''static_observation''),
          obs_coverage = cov3,
          obs_references =
            (if key = ''paths''
             then map (\<lambda>i. ''target:'' @ nat_str i) [0 ..< length (list_members v)]
             else [''action''])\<rparr>)"

definition from_observations :: "pydict \<Rightarrow> source_entry dict \<Rightarrow> bool \<Rightarrow> evidence" where
  "from_observations values srcs read_only =
     \<lparr>ev_observations = map (\<lambda>(key, v). (key, observe values key v)) values,
      ev_assessment = [], ev_confidences = [], ev_sources = srcs, ev_review = None,
      ev_human_approved = False, ev_read_only_required = read_only,
      ev_assessment_failed = False, ev_advisory_clauses = [], ev_workflow_scope = None,
      ev_process_lifecycle = None, ev_parent_alignment = None\<rparr>"

subsection \<open>Corrections of a reviewer\<close>

definition observed_references :: "evidence \<Rightarrow> string list" where
  "observed_references st =
     ''action'' # concat (map (\<lambda>(_, ob). obs_references ob) (ev_observations st))"

text \<open>A status with its reference, admitted when the reference is one of \<open>admissible\<close>.\<close>

definition status_group ::
    "string \<Rightarrow> string \<Rightarrow> string option \<Rightarrow> string option \<Rightarrow> string list \<Rightarrow> pydict list" where
  "status_group status reference v ref admissible =
     (case (v, ref) of
        (Some x, Some r) \<Rightarrow>
          if r \<in> set admissible then [[(status, VStr x), (reference, VStr r)]] else []
      | _ \<Rightarrow> [])"

definition user_origins :: "pyval list" where
  "user_origins =
     [VStr ''client_user_claim'', VStr ''recorded_client_user_message'',
      VStr ''recorded_user_event'', VStr ''human_resolution'']"

definition authorization_group ::
    "corrected_assessment \<Rightarrow> evidence \<Rightarrow> string list \<Rightarrow> pydict list" where
  "authorization_group c st evidence_refs =
     (case ca_authorization c of
        None \<Rightarrow> []
      | Some a \<Rightarrow>
          if a \<in> {''absent'', ''unclear''} then
            [[(''authorization'', VStr a), (''authorization_source'', VStr ''none''),
              (''authorization_scope'', VStr ''unclear'')]]
          else if a \<in> {''explicit'', ''implicit''} then
            (case (ca_authorization_source c, ca_authorization_scope c) of
               (Some s, Some scope) \<Rightarrow>
                 (case map_of (ev_sources st) s of
                    Some src \<Rightarrow>
                      if s \<in> set evidence_refs \<and> src_independent_grant src = VBool True
                         \<and> src_origin src \<in> set user_origins
                      then [[(''authorization'', VStr a), (''authorization_source'', VStr s),
                             (''authorization_scope'', VStr scope)]]
                      else []
                  | None \<Rightarrow> [])
             | _ \<Rightarrow> [])
          else [])"

definition admits_group :: "evidence \<Rightarrow> pydict \<Rightarrow> bool" where
  "admits_group st grp \<longleftrightarrow>
     list_all (\<lambda>(key, v).
       case map_of (ev_observations st) key of
         None \<Rightarrow> True
       | Some ob \<Rightarrow> obs_value ob \<in> {VNone, VStr ''unknown'', VStr ''unclear''} \<or> obs_value ob = v) grp"

definition validated_groups ::
    "corrected_assessment \<Rightarrow> evidence \<Rightarrow> string list \<Rightarrow> pydict list" where
  "validated_groups c st evidence_refs =
     filter (admits_group st)
       ((case ca_relationship c of None \<Rightarrow> [] | Some r \<Rightarrow> [[(''relationship'', VStr r)]])
        @ status_group ''target_scope'' ''target_reference''
            (ca_target_scope c) (ca_target_reference c) (observed_references st)
        @ status_group ''contextual_restrictions'' ''restriction_reference''
            (ca_contextual_restrictions c) (ca_restriction_reference c)
            (dkeys (ev_sources st) @ map cl_id (ev_advisory_clauses st))
        @ authorization_group c st evidence_refs)"

subsection \<open>Grounding\<close>

datatype grounding = Grounded | Ungrounded | Unavailable

definition normalize_text :: "string \<Rightarrow> string" where
  "normalize_text text = py_lower (py_strip (squeeze_spaces text))"

fun quote_in :: "pyval \<Rightarrow> pyval \<Rightarrow> bool" where
  "quote_in (VStr text) (VStr quote) =
     (let needle = normalize_text quote in needle \<noteq> [] \<and> sublist needle (normalize_text text))"
| "quote_in _ _ = False"

definition ground_body :: "source_entry \<Rightarrow> pyval \<Rightarrow> pyval \<Rightarrow> grounding" where
  "ground_body src body quote =
     (if (case quote of VStr q \<Rightarrow> py_strip q \<noteq> [] | _ \<Rightarrow> False) then
        (if \<not> quote_in body quote then Ungrounded
         else
           let matching = filter (\<lambda>i. quote_in (ci_quote i) quote) (src_constraint_items src) in
           if matching \<noteq> [] \<and> \<not> (\<exists>i \<in> set matching. ci_status i = VStr ''current'')
           then Ungrounded else Grounded)
      else if \<exists>i \<in> set (src_constraint_items src).
             ci_status i = VStr ''current'' \<and> ci_kind i \<in> set prohibition_kinds
             \<and> quote_in body (ci_quote i)
      then Grounded else Unavailable)"

definition ground_reference :: "evidence \<Rightarrow> pyval \<Rightarrow> pyval \<Rightarrow> grounding" where
  "ground_reference st reference quote =
     (case reference of
        VStr ref \<Rightarrow>
          if ref \<in> set (map cl_id (ev_advisory_clauses st)) then Grounded
          else
            (case map_of (ev_sources st) ref of
               None \<Rightarrow> Ungrounded
             | Some src \<Rightarrow>
                 if src_origin src \<notin> set instruction_origins then Ungrounded
                 else
                   (case (case src_text src of Some t \<Rightarrow> t
                          | None \<Rightarrow> (case src_content src of Some t \<Rightarrow> t | None \<Rightarrow> VNone)) of
                      VStr body \<Rightarrow> ground_body src (VStr body) quote
                    | _ \<Rightarrow> Unavailable))
      | _ \<Rightarrow> Ungrounded)"

definition observed_conflict :: "evidence \<Rightarrow> string \<Rightarrow> bool" where
  "observed_conflict st key =
     (case map_of (ev_observations st) key of
        Some ob \<Rightarrow> obs_value ob = VStr ''conflicts'' | None \<Rightarrow> False)"

definition restriction_grounding :: "evidence \<Rightarrow> grounding option" where
  "restriction_grounding st =
     (if ev_value st ''contextual_restrictions'' VNone = VStr ''conflicts'' then
        Some (if observed_conflict st ''contextual_restrictions'' then Grounded
              else ground_reference st (dget (ev_assessment st) ''restriction_reference'')
                     (dget (ev_assessment st) ''restriction_quote''))
      else None)"

definition ground :: "evidence \<Rightarrow> grounding dict" where
  "ground st =
     (let restriction = restriction_grounding st;
          inherited = (case restriction of None \<Rightarrow> Ungrounded | Some g \<Rightarrow> g)
      in (case restriction of None \<Rightarrow> [] | Some g \<Rightarrow> [(''restriction_conflict'', g)])
         @ (if ev_value st ''target_scope'' VNone = VStr ''conflicts'' then
              [(''target_conflict'',
                if observed_conflict st ''target_scope'' then Grounded
                else if dget (ev_assessment st) ''target_reference''
                          \<in> set (map VStr (observed_references st)) then inherited
                else Ungrounded)]
            else [])
         @ (if dget (ev_assessment st) ''relationship'' = VStr ''conflicts_with_intent'' then
              [(''relationship_conflict'', inherited)]
            else [])
         @ (case (case ev_review st of None \<Rightarrow> None | Some r \<Rightarrow> rv_corrected r) of
              Some c \<Rightarrow>
                if ca_contextual_restrictions c = Some ''conflicts'' then
                  [(''confirmed_restriction_conflict'',
                    ground_reference st (opt_str (ca_restriction_reference c))
                      (opt_str (ca_restriction_quote c)))]
                else []
            | None \<Rightarrow> [])
         @ (if oget (ev_parent_alignment st) ''state'' = VStr ''incompatible''
               \<and> \<not> truthy (oget (ev_parent_alignment st) ''overridden'') then
              [(''alignment_conflict'',
                if oget (ev_parent_alignment st) ''grounded'' = VBool True then Grounded
                else Ungrounded)]
            else []))"

end
