(* ===== verification/Hybrid_Policy.thy ===== *)
theory Hybrid_Policy
  imports Policy_Evidence
begin

text \<open>
  \<^verbatim>\<open>evaluate_policy\<close> of \<^verbatim>\<open>intaris/hybrid.py\<close>, stage by stage.  The local
  list \<open>obligations\<close> and the list \<open>ignored\<close> that the closures append to are threaded
  through as a state; an early \<open>return result(...)\<close> is the left value of a sum, falling
  through to the next statement the right one.
\<close>

subsection \<open>Results\<close>

datatype profile = Strict | Balanced | BoundedAutonomy

datatype verdict = Approved | Denied | Escalated | AssessmentNeeded

datatype quality = Deterministic | ModelAssessed | Unresolved

record rule_match =
  rm_rule_id :: string
  rm_effect :: rule_effect
  rm_applicability :: truth
  rm_comparison :: quality
  rm_references :: "string list"

record policy_result =
  pr_workflow_scope :: "pydict option"
  pr_blocking_reasons :: "string list"
  pr_outcome :: verdict
  pr_matched_rules :: "string list"
  pr_mandatory_rule_ids :: "string list"
  pr_unresolved_rules :: "string list"
  pr_obligations :: "obligation list"
  pr_constraint_matches :: "rule_match list"
  pr_permission_basis :: "string option"
  pr_quality :: quality
  pr_grounding :: "grounding dict"
  pr_ignored :: "string list"

subsection \<open>Boundaries of effects\<close>

text \<open>\<^verbatim>\<open>requires_explicit_grant\<close> of \<^verbatim>\<open>intaris/effect_scope.py\<close>.\<close>

definition requires_explicit_grant :: "evidence \<Rightarrow> bool" where
  "requires_explicit_grant st \<longleftrightarrow>
     truthy (ev_value st ''external_or_irreversible'' (VBool False))
     \<or> set (effects_of st (VList [])) \<inter> {''delete'', ''disclose''} \<noteq> {}
     \<or> ev_value st ''reversibility'' VNone = VStr ''irreversible''
     \<or> (ev_value st ''environment'' VNone = VStr ''production''
        \<and> ev_value st ''mutation'' VNone \<noteq> VStr ''read_only'')"

definition bounded_effects :: "evidence \<Rightarrow> bool" where
  "bounded_effects st =
     (let values = comparison st;
          effects = effects_of st (VStrs [''unknown''])
      in if truthy (dget values ''secret_argument'')
            \<or> truthy (dget values ''external_or_irreversible'') then False
         else if (case map_of (ev_observations st) ''risk'' of
                    Some ob \<Rightarrow> obs_value ob \<in> {VStr ''high'', VStr ''critical''}
                  | None \<Rightarrow> False) then False
         else if effects = [] \<or> set effects \<inter> {''unknown'', ''transmit'', ''delete''} \<noteq> {} then False
         else if truthy (dget values ''static_read'')
                 \<and> ev_value st ''mutation'' VNone = VStr ''read_only'' then True
         else oget (ev_workflow_scope st) ''matched'' = VBool True
              \<and> dget values ''paths_complete'' = VBool True
              \<and> truthy (dget values ''paths'')
              \<and> known st ''effects''
              \<and> set effects \<subseteq> {''read'', ''write''})"

text \<open>The double nearest to 0.2.\<close>

definition grant_critical_ceiling :: rat where
  "grant_critical_ceiling = 3602879701896397 / 18014398509481984"

definition abstained_risk_below_critical :: "evidence \<Rightarrow> bool" where
  "abstained_risk_below_critical st =
     (if ev_value st ''risk'' (VStr ''unknown'') \<noteq> VStr ''unknown'' then False
      else
        let row = dget (ev_confidences st) ''risk'' in
        if vget row ''threshold_abstained'' \<noteq> VBool True then False
        else (case vget (vget row ''probabilities'') ''critical'' of
                VNum critical \<Rightarrow> critical < grant_critical_ceiling
              | _ \<Rightarrow> False))"

subsection \<open>Scanning the configured rules\<close>

record scan =
  sc_deny :: "string list"
  sc_allow :: "string list"
  sc_require :: "string list"
  sc_unresolved :: "string list"
  sc_obligations :: "obligation list"
  sc_records :: "rule_match list"

definition empty_scan :: scan where
  "empty_scan = \<lparr>sc_deny = [], sc_allow = [], sc_require = [], sc_unresolved = [],
     sc_obligations = [], sc_records = []\<rparr>"

text \<open>Observed values, with the reviewer's risk in place of the observed one.\<close>

definition observations_dict :: "evidence \<Rightarrow> pydict" where
  "observations_dict st =
     (let base = map (\<lambda>(key, ob). (key, obs_value ob)) (ev_observations st) in
      case ev_review st of
        Some r \<Rightarrow>
          if rv_obligation_ids r \<noteq> [] \<and> truthy (opt_str (rv_risk r))
          then dset base ''risk'' (ev_value st ''risk'' VNone) else base
      | None \<Rightarrow> base)"

definition rule_truth :: "evidence \<Rightarrow> rule \<Rightarrow> truth" where
  "rule_truth st r =
     (let static_truth = test_predicate (r_when r) (observations_dict st) in
      if static_truth \<noteq> TUnknown then static_truth
      else test_predicate (r_when r) (comparison st))"

definition rule_is_static :: "evidence \<Rightarrow> rule \<Rightarrow> bool" where
  "rule_is_static st r \<longleftrightarrow> test_predicate (r_when r) (observations_dict st) \<noteq> TUnknown"

definition rule_record :: "evidence \<Rightarrow> rule \<Rightarrow> rule_match" where
  "rule_record st r =
     \<lparr>rm_rule_id = r_id r, rm_effect = r_effect r, rm_applicability = rule_truth st r,
      rm_comparison = (if rule_is_static st r then Deterministic else ModelAssessed),
      rm_references = sorted_set (concat (map
        (\<lambda>key. case map_of (ev_observations st) key of
                 Some ob \<Rightarrow> obs_references ob | None \<Rightarrow> []) (fields_for (r_when r))))\<rparr>"

definition rule_obligation :: "evidence \<Rightarrow> rule \<Rightarrow> obligation" where
  "rule_obligation st r =
     (let unknown_fields = filter (\<lambda>f. \<not> known st f) (fields_for (r_when r));
          unknown_authority = filter (\<lambda>f. f \<in> set authority_fields) unknown_fields;
          action_fields = filter (\<lambda>f. f \<notin> set authority_fields \<and>
              (unset (ev_value st f VNone) \<or> \<not> dhas (ev_assessment st) f)) unknown_fields
      in \<lparr>ob_id = ''rule:'' @ r_id r, ob_basis = r_id r,
          ob_fields = sorted_set
            (if action_fields \<noteq> [] then action_fields
             else if unknown_authority \<noteq> [] then unknown_authority else unknown_fields),
          ob_evidence = [''action''],
          ob_requirement =
            (if action_fields = [] \<and> unknown_authority \<noteq> [] then NeedsReview else NeedsAssessment),
          ob_protected = (r_effect r = RequireApproval)\<rparr>)"

definition matched_rule :: "rule \<Rightarrow> scan \<Rightarrow> scan" where
  "matched_rule r sc =
     (case r_effect r of
        DenyRule \<Rightarrow> sc\<lparr>sc_deny := sc_deny sc @ [r_id r]\<rparr>
      | AllowRule \<Rightarrow> sc\<lparr>sc_allow := sc_allow sc @ [r_id r]\<rparr>
      | RequireApproval \<Rightarrow> sc\<lparr>sc_require := sc_require sc @ [r_id r]\<rparr>)"

definition scan_rule :: "evidence \<Rightarrow> rule \<Rightarrow> scan \<Rightarrow> scan" where
  "scan_rule st r sc0 =
     (let sc = sc0\<lparr>sc_records := sc_records sc0 @ [rule_record st r]\<rparr> in
      case rule_truth st r of
        TTrue \<Rightarrow> matched_rule r sc
      | TUnknown \<Rightarrow>
          (let sc1 = sc\<lparr>sc_unresolved := sc_unresolved sc @ [r_id r]\<rparr> in
           if r_effect r = AllowRule then sc1
           else
             (let sc2 = sc1\<lparr>sc_obligations := sc_obligations sc1 @ [rule_obligation st r]\<rparr> in
              if r_effect r = RequireApproval
              then sc2\<lparr>sc_require := sc_require sc2 @ [r_id r]\<rparr> else sc2))
      | TFalse \<Rightarrow> sc)"

definition scan_rules :: "evidence \<Rightarrow> rule list \<Rightarrow> scan" where
  "scan_rules st rules =
     (let sc = fold (scan_rule st) rules empty_scan in
      if truthy (dget (comparison st) ''configured_review'')
      then sc\<lparr>sc_require := sc_require sc @ [''tool_preference.escalate'']\<rparr> else sc)"

subsection \<open>The reviewer's receipt\<close>

definition reviewed_scope_ids :: "string list" where
  "reviewed_scope_ids =
     [''model.denial'', ''intent.scope'', ''intent.unrelated'',
      ''process.current_restrictions'', ''alignment.compatibility'']"

definition risk_ids :: "string list" where
  "risk_ids = [''risk.high'', ''risk.unknown'', ''model.risk.critical'']"

definition judge_scope_approval :: "evidence \<Rightarrow> bool" where
  "judge_scope_approval st =
     (case ev_review st of
        None \<Rightarrow> False
      | Some r \<Rightarrow>
          rv_user_would r = Some VoteApprove
          \<and> rv_basis r \<in> {Some ''routine_within_task'', Some ''explicit_request'', Some ''scoped_approval''}
          \<and> rv_risk r \<in> {Some ''low'', Some ''medium'', Some ''high''}
          \<and> set reviewed_scope_ids \<inter> set (rv_obligation_ids r) \<noteq> {}
          \<and> \<not> (dget (observations_dict st) ''relationship'' = VStr ''conflicts_with_intent''
               \<or> dget (observations_dict st) ''contextual_restrictions'' = VStr ''conflicts''
               \<or> dget (observations_dict st) ''target_scope'' = VStr ''conflicts''))"

definition merge_groups :: "pydict list \<Rightarrow> pydict \<Rightarrow> pydict" where
  "merge_groups grps corr = fold (\<lambda>grp acc. dmerge acc grp) grps corr"

definition review_corrections :: "rule list \<Rightarrow> evidence \<Rightarrow> pydict" where
  "review_corrections rules st =
     (case ev_review st of
        None \<Rightarrow> []
      | Some r \<Rightarrow>
          (let ids = set (rv_obligation_ids r);
               grps = (case rv_corrected r of None \<Rightarrow> []
                       | Some c \<Rightarrow> validated_groups c st (rv_evidence_refs r));
               c1 = (if ids \<inter> (set reviewed_scope_ids \<union> set risk_ids) \<noteq> {}
                     then merge_groups grps [] else []);
               authority_rules = map (\<lambda>rule. ''rule:'' @ r_id rule)
                 (filter (\<lambda>rule. set (fields_for (r_when rule)) \<inter> set authority_fields \<noteq> {}) rules);
               c2 = (if ids \<inter> (set authority_rules \<union> {''disclosure.authorization''}) \<noteq> {}
                     then merge_groups (filter (\<lambda>grp. set (dkeys grp) \<subseteq> set authority_fields) grps) c1
                     else c1)
           in if ids \<inter> set risk_ids \<noteq> {} \<and> rv_risk r \<noteq> None
              then dset c2 ''risk'' (opt_str (rv_risk r))
              else if ids \<inter> set reviewed_scope_ids \<noteq> {}
                   \<and> (rv_risk r \<in> {Some ''high'', Some ''critical''} \<or> judge_scope_approval st)
              then dset c2 ''risk'' (opt_str (rv_risk r))
              else c2))"

definition apply_corrections :: "evidence \<Rightarrow> pydict \<Rightarrow> evidence" where
  "apply_corrections st corr =
     (if corr = [] then st else st\<lparr>ev_assessment := dmerge (ev_assessment st) corr\<rparr>)"

definition corrections_change :: "evidence \<Rightarrow> pydict \<Rightarrow> bool" where
  "corrections_change st corr \<longleftrightarrow> (\<exists>(key, v) \<in> set corr. dget (ev_assessment st) key \<noteq> v)"

subsection \<open>The context, the threaded lists and the result closure\<close>

record policy_ctx =
  cx_rules :: "rule list"
  cx_state :: evidence
  cx_values :: pydict
  cx_scan :: scan
  cx_judge :: bool
  cx_corrections :: pydict
  cx_grounding :: "grounding dict"
  cx_profile :: profile
  cx_assessed :: bool

record pstate =
  ps_obligations :: "obligation list"
  ps_ignored :: "string list"

definition opinion_blocks :: "policy_ctx \<Rightarrow> string \<Rightarrow> pstate \<Rightarrow> bool \<times> pstate" where
  "opinion_blocks cx key ps =
     (if key = ''restriction_conflict'' then (True, ps)
      else if map_of (cx_grounding cx) key \<in> {Some Grounded, Some Unavailable} then (True, ps)
      else if cx_profile cx = BoundedAutonomy then (False, ps\<lparr>ps_ignored := ps_ignored ps @ [key]\<rparr>)
      else (True, ps))"

definition need_with ::
    "policy_ctx \<Rightarrow> string list \<Rightarrow> requirement \<Rightarrow> bool \<Rightarrow> string \<Rightarrow> pstate \<Rightarrow> pstate" where
  "need_with cx flds kind protected identifier ps =
     ps\<lparr>ps_obligations := ps_obligations ps @
       [\<lparr>ob_id = identifier, ob_basis = identifier, ob_fields = flds,
         ob_evidence = (if ev_sources (cx_state cx) = [] then [''action'']
                        else dkeys (ev_sources (cx_state cx))),
         ob_requirement = kind, ob_protected = protected\<rparr>]\<rparr>"

definition need_assessment :: "policy_ctx \<Rightarrow> string \<Rightarrow> string list \<Rightarrow> pstate \<Rightarrow> pstate" where
  "need_assessment cx identifier flds = need_with cx flds NeedsAssessment False identifier"

definition need_review :: "policy_ctx \<Rightarrow> string \<Rightarrow> bool \<Rightarrow> pstate \<Rightarrow> pstate" where
  "need_review cx identifier protected = need_with cx [] NeedsReview protected identifier"

definition need_human :: "policy_ctx \<Rightarrow> string \<Rightarrow> pstate \<Rightarrow> pstate" where
  "need_human cx identifier = need_with cx [] NeedsHuman True identifier"

definition deferred_obligation :: "review \<Rightarrow> obligation" where
  "deferred_obligation r =
     \<lparr>ob_id = ''review.deferred'', ob_basis = ''review.deferred'', ob_fields = [],
      ob_evidence = rv_evidence_refs r, ob_requirement = NeedsHuman, ob_protected = False\<rparr>"

text \<open>What the severity receipt leaves standing, then what a scope approval leaves.\<close>

definition survives_risk_receipt :: "review \<Rightarrow> obligation \<Rightarrow> bool" where
  "survives_risk_receipt r item \<longleftrightarrow>
     ob_requirement item = NeedsHuman
     \<or> ob_id item = ''mode.read_only''
     \<or> starts_with (ob_id item) ''rule:''
     \<or> ob_id item \<notin> set risk_ids
     \<or> ob_id item \<notin> set (rv_obligation_ids r)
     \<or> rv_risk r \<notin> {Some ''low'', Some ''medium'', Some ''high''}
     \<or> (rv_corrected r = None \<and> rv_user_would r \<noteq> Some VoteApprove)"

definition survives_scope_approval :: "review \<Rightarrow> obligation \<Rightarrow> bool" where
  "survives_scope_approval r item \<longleftrightarrow>
     ob_id item \<notin> set reviewed_scope_ids
     \<or> ob_id item \<notin> set (rv_obligation_ids r)
     \<or> ob_requirement item \<noteq> NeedsReview"

definition make_result ::
    "policy_ctx \<Rightarrow> pstate \<Rightarrow> verdict \<Rightarrow> string option \<Rightarrow> quality \<Rightarrow> string list
      \<Rightarrow> obligation list \<Rightarrow> policy_result" where
  "make_result cx ps o' basis q blocking remaining =
     \<lparr>pr_workflow_scope = ev_workflow_scope (cx_state cx), pr_blocking_reasons = blocking,
      pr_outcome = o',
      pr_matched_rules = sc_deny (cx_scan cx) @ sc_allow (cx_scan cx) @ sc_require (cx_scan cx),
      pr_mandatory_rule_ids = sc_require (cx_scan cx),
      pr_unresolved_rules = sc_unresolved (cx_scan cx), pr_obligations = remaining,
      pr_constraint_matches = sc_records (cx_scan cx), pr_permission_basis = basis,
      pr_quality = q, pr_grounding = cx_grounding cx, pr_ignored = ps_ignored ps\<rparr>"

definition finish ::
    "policy_ctx \<Rightarrow> pstate \<Rightarrow> verdict \<Rightarrow> string option \<Rightarrow> quality \<Rightarrow> string list \<Rightarrow> policy_result" where
  "finish cx ps o' basis q blocking =
     (case ev_review (cx_state cx) of
        Some r \<Rightarrow>
          if o' \<noteq> Denied \<and> rv_user_would r \<noteq> None then
            (let remaining = ps_obligations ps @
                   (if rv_user_would r = Some VoteAsk then [deferred_obligation r] else []) in
             if rv_user_would r = Some VoteRefuse then
               make_result cx ps Denied None q (blocking @ [''review.refused'']) remaining
             else if rv_risk r \<noteq> Some ''critical'' then
               (let kept = filter (survives_risk_receipt r) remaining;
                    left = (if cx_judge cx then filter (survives_scope_approval r) kept else kept)
                in make_result cx ps (if left \<noteq> [] then Escalated else Approved)
                     (if cx_judge cx \<and> left = [] then Some ''independent_scope_review''
                      else if truthy (opt_str basis) then basis else Some ''reviewed_assessment'')
                     q blocking left)
             else make_result cx ps Denied basis q blocking remaining)
          else make_result cx ps o' basis q blocking (ps_obligations ps)
      | None \<Rightarrow> make_result cx ps o' basis q blocking (ps_obligations ps))"

subsection \<open>The stages, in the order of the source\<close>

type_synonym stage = "policy_ctx \<Rightarrow> pstate \<Rightarrow> policy_result + pstate"

definition when_need :: "bool \<Rightarrow> (pstate \<Rightarrow> pstate) \<Rightarrow> pstate \<Rightarrow> pstate" where
  "when_need b f ps = (if b then f ps else ps)"

abbreviation cx_value :: "policy_ctx \<Rightarrow> string \<Rightarrow> pyval \<Rightarrow> pyval" where
  "cx_value cx \<equiv> ev_value (cx_state cx)"

abbreviation cx_assessment :: "policy_ctx \<Rightarrow> string \<Rightarrow> pyval" where
  "cx_assessment cx \<equiv> dget (ev_assessment (cx_state cx))"

definition cx_mutation :: "policy_ctx \<Rightarrow> pyval" where
  "cx_mutation cx = cx_value cx ''mutation'' (VStr ''unclear'')"

definition read_only_gate :: stage where
  "read_only_gate cx ps =
     (if ev_read_only_required (cx_state cx) then
        (if cx_mutation cx = VStr ''mutating'' then
           Inl (finish cx ps Denied None Unresolved [''request.read_only_required''])
         else Inr (when_need (cx_mutation cx \<noteq> VStr ''read_only'')
           (need_with cx [''mutation'', ''effects'', ''risk''] NeedsAssessment True ''mode.read_only'') ps))
      else Inr ps)"

definition deny_gate :: stage where
  "deny_gate cx ps =
     (if sc_deny (cx_scan cx) \<noteq> [] \<or> truthy (dget (cx_values cx) ''configured_deny'')
      then Inl (finish cx ps Denied None Unresolved []) else Inr ps)"

definition checkpoint_gate :: stage where
  "checkpoint_gate cx ps =
     Inr (when_need (ev_assessment_failed (cx_state cx) \<and> \<not> ev_human_approved (cx_state cx))
            (need_human cx ''assessment.invalid_response'')
         (when_need (sc_require (cx_scan cx) \<noteq> [] \<and> \<not> ev_human_approved (cx_state cx))
            (need_human cx ''human.checkpoint'')
         (when_need (dget (cx_values cx) ''risk'' = VStr ''critical'')
            (need_review cx ''model.risk.critical'' True) ps)))"

definition safe_read :: "policy_ctx \<Rightarrow> bool" where
  "safe_read cx \<longleftrightarrow>
     truthy (dget (cx_values cx) ''static_read'') \<and> cx_mutation cx = VStr ''read_only''
     \<and> \<not> truthy (dget (cx_values cx) ''secret_argument'')
     \<and> set (effects_of (cx_state cx) (VStrs [''unknown''])) \<subseteq> {''read''}"

definition alignment_gate :: stage where
  "alignment_gate cx ps =
     (let alignment = ev_parent_alignment (cx_state cx);
          exempt = (safe_read cx \<and>
            (cx_profile cx = BoundedAutonomy
             \<or> (cx_profile cx = Balanced
                 \<and> map_of (cx_grounding cx) ''alignment_conflict'' = Some Ungrounded)))
      in if oget alignment ''state'' \<in> {VStr ''incompatible'', VStr ''unavailable''}
            \<and> \<not> truthy (oget alignment ''overridden'') \<and> \<not> exempt
         then (let (blocks, ps1) = opinion_blocks cx ''alignment_conflict'' ps in
               Inr (when_need blocks (need_review cx ''alignment.compatibility'' True) ps1))
         else Inr ps)"

definition cx_compatibility :: "policy_ctx \<Rightarrow> pyval" where
  "cx_compatibility cx = cx_value cx ''contextual_restrictions'' (VStr ''unresolved'')"

definition interpretation_gate :: stage where
  "interpretation_gate cx ps =
     (let srcs = map snd (ev_sources (cx_state cx));
          cleared = (case ev_review (cx_state cx) of None \<Rightarrow> False
            | Some r \<Rightarrow> ''intent.scope'' \<in> set (rv_obligation_ids r)
                 \<and> rv_user_would r = Some VoteApprove \<and> rv_evidence_refs r \<noteq> []);
          prohibition = (\<exists>src \<in> set srcs.
            truthy (src_constraint_kinds src)
            \<or> (\<exists>item \<in> set (src_constraint_items src).
                 ci_status item = VStr ''current''
                 \<and> ci_kind item \<in> {VStr ''restriction'', VStr ''disapproval'', VStr ''uncertainty''}))
      in Inr (when_need (cx_profile cx = Strict \<and> ev_assessment (cx_state cx) \<noteq> []
                 \<and> cx_compatibility cx = VStr ''unresolved'' \<and> prohibition)
                (need_with cx [''contextual_restrictions'', ''restriction_reference'']
                   NeedsReview True ''intent.scope'')
             (when_need (cx_profile cx = Strict
                 \<and> (\<exists>src \<in> set srcs. truthy (src_interpretation_missing src)) \<and> \<not> cleared)
                (need_review cx ''intent.scope'' True) ps)))"

definition restriction_gate :: stage where
  "restriction_gate cx ps =
     (if cx_compatibility cx = VStr ''conflicts'' then
        (if dget (cx_corrections cx) ''contextual_restrictions'' = VStr ''conflicts''
            \<and> map_of (cx_grounding cx) ''confirmed_restriction_conflict'' = Some Grounded
            \<and> \<not> cx_judge cx
         then Inl (finish cx ps Denied None Unresolved [])
         else (let (blocks, ps1) = opinion_blocks cx ''restriction_conflict'' ps in
               Inr (when_need blocks (need_review cx ''model.denial'' True) ps1)))
      else Inr ps)"

definition static_read_proven :: "policy_ctx \<Rightarrow> bool" where
  "static_read_proven cx \<longleftrightarrow>
     truthy (dget (cx_values cx) ''static_read'') \<and> cx_mutation cx = VStr ''read_only''
     \<and> known (cx_state cx) ''effects''
     \<and> set (effects_of (cx_state cx) (VList [])) \<subseteq> {''read''}
     \<and> \<not> truthy (cx_value cx ''external_or_irreversible'' (VBool False))
     \<and> \<not> truthy (cx_value cx ''secret_argument'' VNone)
     \<and> cx_assessment cx ''relationship'' \<noteq> VStr ''conflicts_with_intent''
     \<and> \<not> (cx_profile cx = Balanced \<and> cx_assessment cx ''relationship'' = VStr ''unrelated''
          \<and> cx_value cx ''risk'' VNone = VStr ''medium'')
     \<and> cx_assessment cx ''target_scope'' \<noteq> VStr ''conflicts''
     \<and> cx_assessment cx ''risk'' \<notin> {VStr ''high'', VStr ''critical''}"

definition static_read_stage :: stage where
  "static_read_stage cx ps =
     (let approve = finish cx ps Approved (Some ''read_only_static'') Deterministic [] in
      if static_read_proven cx \<and> map ob_id (ps_obligations ps) = [''alignment.compatibility'']
      then Inl approve
      else if static_read_proven cx \<and> cx_profile cx \<in> {Balanced, BoundedAutonomy} then
        (if ps_obligations ps = [] then Inl approve
         else if list_all (\<lambda>item. ob_requirement item = NeedsReview) (ps_obligations ps)
         then Inl (finish cx ps Escalated None Unresolved [])
         else Inr ps)
      else Inr ps)"

definition lifecycle_stage :: stage where
  "lifecycle_stage cx ps =
     (let lifecycle = ev_process_lifecycle (cx_state cx) in
      if oget lifecycle ''authenticated'' = VBool True \<and> oget lifecycle ''matched'' = VBool True then
        (if ev_assessment (cx_state cx) = [] then
           Inl (finish cx (need_assessment cx ''process.current_restrictions''
                  [''contextual_restrictions'', ''risk''] ps) Escalated None Unresolved [])
         else
           (let ps1 =
              (if cx_compatibility cx = VStr ''conflicts''
                  \<and> \<not> (\<exists>item \<in> set (ps_obligations ps). ob_id item = ''model.denial'')
               then (let (blocks, ps') = opinion_blocks cx ''restriction_conflict'' ps in
                     when_need blocks (need_review cx ''process.current_restrictions'' False) ps')
               else when_need (cx_compatibility cx = VStr ''unresolved'' \<and> cx_profile cx = Strict)
                      (need_review cx ''process.current_restrictions'' False) ps);
               risk = cx_value cx ''risk'' (VStr ''unknown'');
               ps2 = (if risk = VStr ''high'' then need_review cx ''risk.high'' False ps1
                      else when_need (risk = VStr ''unknown'')
                             (need_review cx ''risk.unknown'' False) ps1)
            in Inl (finish cx ps2 (if ps_obligations ps2 \<noteq> [] then Escalated else Approved)
                 (Some ''task_process_lifecycle'') Deterministic [])))
      else Inr ps)"

subsection \<open>Alternative bases of permission\<close>

definition cx_target_scope :: "policy_ctx \<Rightarrow> pyval" where
  "cx_target_scope cx = cx_value cx ''target_scope'' (VStr ''unresolved'')"

text \<open>Allow rules that matched and, when they test paths, cover every path separately.\<close>

definition covered_allow :: "policy_ctx \<Rightarrow> rule \<Rightarrow> bool" where
  "covered_allow cx r \<longleftrightarrow>
     r_id r \<in> set (sc_allow (cx_scan cx))
     \<and> (''paths'' \<notin> set (fields_for (r_when r))
        \<or> (cx_value cx ''paths_complete'' VNone = VBool True
           \<and> truthy (dget (cx_values cx) ''paths'')
           \<and> list_all (\<lambda>path. test_predicate (r_when r)
                 (dset (cx_values cx) ''paths'' (VList [path])) = TTrue)
               (list_members (dget (cx_values cx) ''paths''))))"

definition covered_allows :: "policy_ctx \<Rightarrow> string list" where
  "covered_allows cx = map r_id (filter (covered_allow cx) (cx_rules cx))"

definition configured_grant :: "policy_ctx \<Rightarrow> bool" where
  "configured_grant cx \<longleftrightarrow>
     truthy (oget (ev_workflow_scope (cx_state cx)) ''matched'')
     \<or> truthy (dget (cx_values cx) ''configured_allow'')
     \<or> (cx_profile cx \<noteq> Strict \<and> truthy (dget (cx_values cx) ''static_read'')
        \<and> cx_mutation cx = VStr ''read_only'')"

definition granted_scope :: "policy_ctx \<Rightarrow> bool" where
  "granted_scope cx \<longleftrightarrow>
     cx_value cx ''effects'' VNone \<noteq> VNone
     \<and> \<not> py_in ''unknown'' (cx_value cx ''effects'' (VStrs [''unknown'']))
     \<and> (covered_allows cx \<noteq> [] \<or> configured_grant cx)"

definition deterministic_allows :: "policy_ctx \<Rightarrow> string list" where
  "deterministic_allows cx =
     map rm_rule_id (filter (\<lambda>m. rm_rule_id m \<in> set (covered_allows cx)
        \<and> rm_comparison m = Deterministic) (sc_records (cx_scan cx)))"

definition deterministic_grant :: "policy_ctx \<Rightarrow> bool" where
  "deterministic_grant cx \<longleftrightarrow>
     granted_scope cx \<and> known (cx_state cx) ''effects''
     \<and> (deterministic_allows cx \<noteq> [] \<or> configured_grant cx)"

definition cited_source :: "policy_ctx \<Rightarrow> source_entry option" where
  "cited_source cx =
     (case cx_assessment cx ''authorization_source'' of
        VStr s \<Rightarrow> map_of (ev_sources (cx_state cx)) s | _ \<Rightarrow> None)"

definition has_authority :: "policy_ctx \<Rightarrow> bool" where
  "has_authority cx =
     (case cited_source cx of
        None \<Rightarrow> False
      | Some src \<Rightarrow>
          (cx_assessment cx ''authorization'' \<in> {VStr ''explicit'', VStr ''implicit''}
           \<or> (src_kind src = VStr ''approval'' \<and> truthy (src_approves src)))
          \<and> cx_assessment cx ''authorization_scope'' = VStr ''within_scope''
          \<and> src_independent_grant src = VBool True)"

definition user_words :: "policy_ctx \<Rightarrow> bool" where
  "user_words cx =
     (case cited_source cx of None \<Rightarrow> False | Some src \<Rightarrow> src_origin src \<in> set user_origins)"

definition explicit_user_grant :: "policy_ctx \<Rightarrow> bool" where
  "explicit_user_grant cx \<longleftrightarrow>
     has_authority cx \<and> user_words cx \<and> cx_assessment cx ''authorization'' = VStr ''explicit''"

definition scope_stage :: stage where
  "scope_stage cx ps =
     Inr (when_need
       (cx_profile cx = Strict \<and> \<not> deterministic_grant cx
        \<and> \<not> ev_human_approved (cx_state cx)
        \<and> (py_in ''transmit'' (cx_value cx ''effects'' (VList []))
           \<or> (dget (observations_dict (cx_state cx)) ''mutation'' \<noteq> VStr ''read_only''
              \<and> (cx_target_scope cx = VStr ''unresolved''
                 \<or> cx_compatibility cx = VStr ''unresolved''))))
       (need_review cx ''intent.scope'' False) ps)"

definition user_grant_stage :: stage where
  "user_grant_stage cx ps =
     (if explicit_user_grant cx
         \<and> cx_compatibility cx \<noteq> VStr ''conflicts'' \<and> cx_target_scope cx \<noteq> VStr ''conflicts''
         \<and> (cx_value cx ''risk'' (VStr ''unknown'')
               \<in> {VStr ''low'', VStr ''medium'', VStr ''high''}
            \<or> abstained_risk_below_critical (cx_state cx))
         \<and> ps_obligations ps = []
      then Inl (finish cx ps Approved (Some ''explicit_user_authorization'') ModelAssessed [])
      else Inr ps)"

definition granted_result :: "policy_ctx \<Rightarrow> pstate \<Rightarrow> policy_result" where
  "granted_result cx ps =
     finish cx ps Approved
       (Some (case sorted_set (deterministic_allows cx) of
                rule # _ \<Rightarrow> rule
              | [] \<Rightarrow> if truthy (oget (ev_workflow_scope (cx_state cx)) ''matched'')
                       then ''controller_workflow_step'' else ''configured_or_static''))
       Deterministic []"

definition disclosure_stage :: stage where
  "disclosure_stage cx ps =
     Inr (when_need
       (cx_value cx ''secret_argument'' VNone = VBool True
        \<and> py_in ''disclose'' (cx_value cx ''effects'' (VList []))
        \<and> \<not> explicit_user_grant cx \<and> \<not> deterministic_grant cx
        \<and> \<not> ev_human_approved (cx_state cx))
       (need_with cx (sorted_set authority_fields) NeedsReview False ''disclosure.authorization'') ps)"

definition assessment_fields :: "string list" where
  "assessment_fields =
     [''relationship'', ''risk'', ''mutation'', ''effects'', ''contextual_restrictions'',
      ''restriction_reference'', ''target_scope'', ''target_reference'']"

definition assessment_stage :: stage where
  "assessment_stage cx ps =
     (if \<not> dhas (ev_assessment (cx_state cx)) ''relationship'' then
        (if deterministic_grant cx \<and> ps_obligations ps = [] \<and> ev_sources (cx_state cx) = []
         then Inl (granted_result cx ps)
         else Inl (finish cx (need_assessment cx ''intent.assessment'' assessment_fields ps)
                (if cx_assessed cx then Escalated else AssessmentNeeded) None Unresolved []))
      else Inr ps)"

subsection \<open>Conflicts, risk and the final decision\<close>

definition admissible_target :: "policy_ctx \<Rightarrow> bool" where
  "admissible_target cx \<longleftrightarrow>
     cx_assessment cx ''target_reference'' \<in> set (map VStr (observed_references (cx_state cx)))"

definition conflict_stage :: "policy_ctx \<Rightarrow> pstate \<Rightarrow> policy_result + pstate" where
  "conflict_stage cx ps =
     (let risk = cx_value cx ''risk'' (VStr ''unknown'');
          relationship = cx_assessment cx ''relationship'';
          corr = dget (cx_corrections cx);
          (real_target, ps1) =
            (if cx_target_scope cx = VStr ''conflicts''
             then opinion_blocks cx ''target_conflict'' ps else (False, ps));
          (rel_conflict, ps2) =
            (if relationship = VStr ''conflicts_with_intent''
             then opinion_blocks cx ''relationship_conflict'' ps1 else (False, ps1))
      in if \<not> cx_judge cx
            \<and> ((real_target \<and> admissible_target cx \<and> corr ''target_scope'' = VStr ''conflicts'')
               \<or> (corr ''relationship'' \<in> {VStr ''unrelated'', VStr ''conflicts_with_intent''}
                  \<and> corr ''risk'' \<in> {VStr ''high'', VStr ''critical''}))
         then
           (case ev_review (cx_state cx) of
              Some r \<Rightarrow>
                if rv_user_would r = Some VoteAsk
                   \<and> rv_basis r \<in> {Some ''outside_task'', Some ''uncertain''}
                   \<and> risk \<in> {VStr ''low'', VStr ''medium''}
                then Inl (finish cx (need_with cx (rv_evidence_refs r) NeedsReview False
                       ''intent.scope'' ps2) Escalated None Unresolved [])
                else Inl (finish cx ps2 Denied None Unresolved [])
            | None \<Rightarrow> Inl (finish cx ps2 Denied None Unresolved []))
         else Inr (when_need ((real_target \<or> rel_conflict)
                     \<and> \<not> (\<exists>item \<in> set (ps_obligations ps2). ob_id item = ''model.denial''))
                (need_review cx ''model.denial'' True) ps2))"

definition relevance_stage :: stage where
  "relevance_stage cx ps =
     (let relationship = cx_assessment cx ''relationship'';
          risk = cx_value cx ''risk'' (VStr ''unknown'');
          ps1 =
            (if cx_profile cx = Strict
                \<and> relationship \<notin> {VStr ''directly_serves_intent'', VStr ''supports_intent''}
                \<and> \<not> granted_scope cx
             then need_review cx ''intent.scope'' False ps
             else when_need (cx_profile cx = Balanced \<and> relationship = VStr ''unrelated''
                     \<and> risk = VStr ''medium'')
                    (need_review cx ''intent.unrelated'' False) ps)
      in Inr (when_need
           (risk = VStr ''high''
            \<and> (cx_profile cx \<noteq> BoundedAutonomy
               \<or> cx_value cx ''external_or_irreversible'' VNone = VBool True
               \<or> cx_value cx ''secret_argument'' VNone = VBool True))
           (need_review cx ''risk.high'' False) ps1))"

definition effective_risk :: "policy_ctx \<Rightarrow> pyval" where
  "effective_risk cx =
     (if truthy (vget (dget (ev_confidences (cx_state cx)) ''risk'') ''abstention_fallback'')
         \<and> requires_explicit_grant (cx_state cx) \<and> \<not> deterministic_grant cx
         \<and> \<not> ev_human_approved (cx_state cx)
      then VStr ''unknown'' else cx_value cx ''risk'' (VStr ''unknown''))"

definition unknown_risk_stage :: stage where
  "unknown_risk_stage cx ps =
     Inr (when_need
       (effective_risk cx = VStr ''unknown'' \<and> cx_profile cx \<noteq> BoundedAutonomy
        \<and> cx_mutation cx \<noteq> VStr ''read_only'' \<and> \<not> deterministic_grant cx
        \<and> \<not> (cx_profile cx = Balanced \<and> bounded_effects (cx_state cx)))
       (need_review cx ''risk.unknown'' False) ps)"

definition final_stage :: "policy_ctx \<Rightarrow> pstate \<Rightarrow> policy_result" where
  "final_stage cx ps =
     (if ps_obligations ps \<noteq> [] then finish cx ps Escalated None Unresolved []
      else if deterministic_grant cx then granted_result cx ps
      else finish cx ps Approved (Some ''intent_aligned'') ModelAssessed [])"

definition policy_stages :: "stage list" where
  "policy_stages =
     [read_only_gate, deny_gate, checkpoint_gate, alignment_gate, interpretation_gate,
      restriction_gate, static_read_stage, lifecycle_stage, scope_stage, user_grant_stage,
      disclosure_stage, assessment_stage, conflict_stage, relevance_stage, unknown_risk_stage]"

fun run_stages :: "stage list \<Rightarrow> stage" where
  "run_stages [] cx ps = Inr ps"
| "run_stages (g # gs) cx ps = bindE (g cx ps) (run_stages gs cx)"

definition policy_context ::
    "rule list \<Rightarrow> evidence \<Rightarrow> pydict \<Rightarrow> profile \<Rightarrow> bool \<Rightarrow> policy_ctx" where
  "policy_context rules st corr prof assessed =
     \<lparr>cx_rules = rules, cx_state = st, cx_values = comparison st, cx_scan = scan_rules st rules,
      cx_judge = judge_scope_approval st, cx_corrections = corr, cx_grounding = ground st,
      cx_profile = prof, cx_assessed = assessed\<rparr>"

definition decide_policy ::
    "rule list \<Rightarrow> evidence \<Rightarrow> pydict \<Rightarrow> profile \<Rightarrow> bool \<Rightarrow> policy_result" where
  "decide_policy rules st corr prof assessed =
     (let cx = policy_context rules st corr prof assessed;
          ps0 = \<lparr>ps_obligations = sc_obligations (cx_scan cx), ps_ignored = []\<rparr>
      in case run_stages policy_stages cx ps0 of
           Inl res \<Rightarrow> res
         | Inr ps \<Rightarrow> final_stage cx ps)"

subsection \<open>Corrections are applied once\<close>

lemma ev_assessment_irrelevant [simp]:
  "observed_references (st\<lparr>ev_assessment := a\<rparr>) = observed_references st"
  "authorization_group c (st\<lparr>ev_assessment := a\<rparr>) refs = authorization_group c st refs"
  "admits_group (st\<lparr>ev_assessment := a\<rparr>) = admits_group st"
  by (simp_all add: observed_references_def authorization_group_def admits_group_def [abs_def] cong: option.case_cong if_cong)

lemma validated_groups_assessment [simp]:
  "validated_groups c (st\<lparr>ev_assessment := a\<rparr>) refs = validated_groups c st refs"
  by (simp add: validated_groups_def)

lemma dget_dset_other: "k \<noteq> k' \<Longrightarrow> dget (dset d k' v) k = dget d k"
  by simp

lemma dget_map_values:
  "dget (map (\<lambda>(key, ob). (key, f ob)) xs) k =
     (case map_of xs k of Some ob \<Rightarrow> f ob | None \<Rightarrow> VNone)"
  by (induction xs) (auto simp: dget_def)

lemma dget_observations_dict:
  assumes "k \<noteq> ''risk''"
  shows "dget (observations_dict st) k =
     (case map_of (ev_observations st) k of Some ob \<Rightarrow> obs_value ob | None \<Rightarrow> VNone)"
  using assms
  by (simp add: observations_dict_def Let_def dget_map_values split: option.split)

lemma judge_scope_approval_assessment [simp]:
  "judge_scope_approval (st\<lparr>ev_assessment := a\<rparr>) = judge_scope_approval st"
  by (simp add: judge_scope_approval_def dget_observations_dict cong: option.case_cong)

lemma review_corrections_assessment [simp]:
  "review_corrections rules (st\<lparr>ev_assessment := a\<rparr>) = review_corrections rules st"
  by (cases "ev_review st") (simp_all add: review_corrections_def Let_def cong: if_cong option.case_cong)

lemma distinct_keys_dset: "distinct (map fst d) \<Longrightarrow> distinct (map fst (dset d k v))"
  by (induction d k v rule: dset.induct) (auto simp: keys_dset)

lemma distinct_keys_dmerge: "distinct (map fst d) \<Longrightarrow> distinct (map fst (dmerge d e))"
  unfolding dmerge_def by (induction e arbitrary: d) (auto intro: distinct_keys_dset)

lemma distinct_keys_merge_groups:
  "distinct (map fst d) \<Longrightarrow> distinct (map fst (merge_groups grps d))"
  unfolding merge_groups_def by (induction grps arbitrary: d) (auto intro: distinct_keys_dmerge)

lemma distinct_keys_if:
  "distinct (map fst a) \<Longrightarrow> distinct (map fst b) \<Longrightarrow> distinct (map fst (if P then a else b))"
  by simp

lemma distinct_review_corrections: "distinct (map fst (review_corrections rules st))"
proof (cases "ev_review st")
  case None
  then show ?thesis by (simp add: review_corrections_def)
next
  case (Some r)
  show ?thesis
    unfolding review_corrections_def Some option.case Let_def
    by (intro distinct_keys_if distinct_keys_dset distinct_keys_merge_groups) simp_all
qed

lemma dget_dmerge_member:
  assumes "distinct (map fst e)" "(k, v) \<in> set e"
  shows "dget (dmerge d e) k = v"
proof -
  have "map_of (rev e) k = Some v"
    using assms by (simp add: map_of_eq_Some_iff rev_map [symmetric])
  then show ?thesis
    by (simp add: dget_def map_of_dmerge)
qed

lemma corrections_settle:
  "\<not> corrections_change (apply_corrections st (review_corrections rules st)) (review_corrections rules st)"
  using distinct_review_corrections [of rules st] dget_dmerge_member
  by (auto simp: corrections_change_def apply_corrections_def)

lemma review_corrections_apply [simp]:
  "review_corrections rules (apply_corrections st corr) = review_corrections rules st"
  by (simp add: apply_corrections_def)

text \<open>
  The recursive call of the source, on the corrected state.  It ends because a corrected state
  asks for the same corrections and already has them.
\<close>

function evaluate_policy ::
    "rule list \<Rightarrow> evidence \<Rightarrow> profile \<Rightarrow> bool \<Rightarrow> policy_result" where
  "evaluate_policy rules st prof assessed =
     (let corr = review_corrections rules st in
      if corrections_change st corr
      then evaluate_policy rules (apply_corrections st corr) prof assessed
      else decide_policy rules (apply_corrections st corr) corr prof assessed)"
  by pat_completeness auto
termination
proof (relation "measure (\<lambda>(rules, st, _, _). if corrections_change st (review_corrections rules st) then 1 else 0 :: nat)")
  fix rules :: "rule list" and st :: evidence and prof :: profile and assessed :: bool and corr
  assume "corr = review_corrections rules st" "corrections_change st corr"
  then show "((rules, apply_corrections st corr, prof, assessed), rules, st, prof, assessed)
      \<in> measure (\<lambda>(rules, st, _, _). if corrections_change st (review_corrections rules st) then 1 else 0)"
    using corrections_settle [of st rules] by simp
qed simp

declare evaluate_policy.simps [simp del]

text \<open>Plain observation facts, as the source accepts them too.\<close>

definition evaluate_facts :: "rule list \<Rightarrow> pydict \<Rightarrow> profile \<Rightarrow> bool \<Rightarrow> policy_result" where
  "evaluate_facts rules values prof assessed =
     evaluate_policy rules (from_observations values [] False) prof assessed"

text \<open>The state that is finally decided.\<close>

definition settled_state :: "rule list \<Rightarrow> evidence \<Rightarrow> evidence" where
  "settled_state rules st = apply_corrections st (review_corrections rules st)"

lemma apply_corrections_idem:
  assumes "\<not> corrections_change st corr" "\<forall>(k, v) \<in> set corr. v \<noteq> VNone"
  shows "apply_corrections st corr = st"
proof -
  have "map_of (ev_assessment st) k = Some v" if "(k, v) \<in> set corr" for k v
    using assms that by (fastforce simp: corrections_change_def dget_def split: option.splits)
  then have "dmerge (ev_assessment st) corr = ev_assessment st"
    by (intro dmerge_same) auto
  then show ?thesis
    by (simp add: apply_corrections_def)
qed

end
