(* ===== verification/Hybrid_Safety.thy ===== *)
theory Hybrid_Safety
  imports Hybrid_Policy
begin

text \<open>
  What the policy evaluation guarantees.  Every stage only appends obligations, every result is
  built by the closure \<open>finish\<close>, and a stage asks it to approve only when nothing is
  outstanding or, for a proven read alone, the parent-compatibility question is; the safety properties
  follow from that shape.
\<close>

subsection \<open>Scanning\<close>

lemma scan_rule_mono:
  "set (sc_deny sc) \<subseteq> set (sc_deny (scan_rule st r sc))"
  "set (sc_require sc) \<subseteq> set (sc_require (scan_rule st r sc))"
  "set (sc_obligations sc) \<subseteq> set (sc_obligations (scan_rule st r sc))"
  by (auto simp: scan_rule_def matched_rule_def Let_def split: truth.split rule_effect.split)

lemma fold_scan_mono:
  "set (sc_deny sc) \<subseteq> set (sc_deny (fold (scan_rule st) rules sc))
   \<and> set (sc_require sc) \<subseteq> set (sc_require (fold (scan_rule st) rules sc))
   \<and> set (sc_obligations sc) \<subseteq> set (sc_obligations (fold (scan_rule st) rules sc))"
proof (induction rules arbitrary: sc)
  case (Cons r rules)
  show ?case
    using Cons.IH [of "scan_rule st r sc"] scan_rule_mono [where st = st and r = r and sc = sc]
    unfolding fold.simps comp_apply by blast
qed simp

lemma fold_scan_member:
  assumes "r \<in> set rules"
  obtains sc where "set (sc_deny (scan_rule st r sc)) \<subseteq> set (sc_deny (fold (scan_rule st) rules sc0))"
    and "set (sc_require (scan_rule st r sc)) \<subseteq> set (sc_require (fold (scan_rule st) rules sc0))"
    and "set (sc_obligations (scan_rule st r sc)) \<subseteq> set (sc_obligations (fold (scan_rule st) rules sc0))"
proof -
  obtain xs ys where "rules = xs @ r # ys"
    using assms by (meson split_list)
  then show thesis
    using that [of "fold (scan_rule st) xs sc0"] fold_scan_mono by simp
qed

lemma scan_rules_simps [simp]:
  "sc_deny (scan_rules st rules) = sc_deny (fold (scan_rule st) rules empty_scan)"
  "sc_obligations (scan_rules st rules) = sc_obligations (fold (scan_rule st) rules empty_scan)"
  "set (sc_require (fold (scan_rule st) rules empty_scan)) \<subseteq> set (sc_require (scan_rules st rules))"
  by (auto simp: scan_rules_def Let_def)

lemma scan_deny:
  assumes "r \<in> set rules" "r_effect r = DenyRule" "rule_truth st r = TTrue"
  shows "r_id r \<in> set (sc_deny (scan_rules st rules))"
  by (rule fold_scan_member [OF assms(1), of st empty_scan])
    (use assms(2,3) in \<open>auto simp: scan_rule_def matched_rule_def Let_def\<close>)

lemma scan_require:
  assumes "r \<in> set rules" "r_effect r = RequireApproval" "rule_truth st r \<noteq> TFalse"
  shows "r_id r \<in> set (sc_require (scan_rules st rules))"
proof -
  have "r_id r \<in> set (sc_require (fold (scan_rule st) rules empty_scan))"
    by (rule fold_scan_member [OF assms(1), of st empty_scan], cases "rule_truth st r")
      (use assms(2,3) in \<open>auto simp: scan_rule_def matched_rule_def Let_def\<close>)
  then show ?thesis
    using scan_rules_simps(3) by blast
qed

lemma scan_unresolved:
  assumes "r \<in> set rules" "r_effect r \<noteq> AllowRule" "rule_truth st r = TUnknown"
  shows "rule_obligation st r \<in> set (sc_obligations (scan_rules st rules))"
  by (rule fold_scan_member [OF assms(1), of st empty_scan])
    (use assms(2,3) in \<open>auto simp: scan_rule_def Let_def\<close>)

subsection \<open>The shape of a stage\<close>

definition extends :: "pstate \<Rightarrow> pstate \<Rightarrow> bool" where
  "extends ps ps' \<longleftrightarrow> (\<exists>xs. ps_obligations ps' = ps_obligations ps @ xs)"

lemma extends_refl [intro!, simp]: "extends ps ps"
  by (simp add: extends_def)

lemma extends_trans [trans]: "extends a b \<Longrightarrow> extends b c \<Longrightarrow> extends a c"
  by (auto simp: extends_def)

lemma extends_need [simp]: "extends ps (need_with cx flds kind prot i ps)"
  by (simp add: extends_def need_with_def)

lemma extends_needs [simp]:
  "extends ps (need_assessment cx i flds ps)" "extends ps (need_review cx i prot ps)"
  "extends ps (need_human cx i ps)"
  by (simp_all add: need_assessment_def need_review_def need_human_def)

text \<open>The rules that carry an extension through a nest of conditional needs.\<close>

lemma extends_when [intro]:
  "extends ps ps' \<Longrightarrow> (\<And>p. extends p (f p)) \<Longrightarrow> extends ps (when_need b f ps')"
  by (auto simp: when_need_def intro: extends_trans)

lemma extends_need_chain [intro]:
  "extends ps ps' \<Longrightarrow> extends ps (need_with cx flds kind prot i ps')"
  "extends ps ps' \<Longrightarrow> extends ps (need_assessment cx i flds ps')"
  "extends ps ps' \<Longrightarrow> extends ps (need_review cx i prot ps')"
  "extends ps ps' \<Longrightarrow> extends ps (need_human cx i ps')"
  by (auto intro: extends_trans)

lemma extends_opinion: "opinion_blocks cx key ps = (b, ps') \<Longrightarrow> extends ps ps'"
  by (auto simp: opinion_blocks_def extends_def split: if_splits)

lemma extends_member: "extends ps ps' \<Longrightarrow> ob \<in> set (ps_obligations ps) \<Longrightarrow> ob \<in> set (ps_obligations ps')"
  by (auto simp: extends_def)

text \<open>The obligations a stage may approve with.\<close>

definition may_approve :: "policy_ctx \<Rightarrow> string option \<Rightarrow> pstate \<Rightarrow> bool" where
  "may_approve cx basis ps \<longleftrightarrow>
     ps_obligations ps = []
     \<or> (static_read_proven cx \<and> basis = Some ''read_only_static''
        \<and> map ob_id (ps_obligations ps) = [''alignment.compatibility''])"

text \<open>A result of the run from \<open>ps\<close>.\<close>

definition result_from :: "policy_ctx \<Rightarrow> pstate \<Rightarrow> policy_result \<Rightarrow> bool" where
  "result_from cx ps res \<longleftrightarrow>
     (\<exists>ps' o' basis q bl. res = finish cx ps' o' basis q bl \<and> extends ps ps'
        \<and> (o' = Approved \<longrightarrow> may_approve cx basis ps' \<and> basis \<noteq> None)
        \<and> (o' = AssessmentNeeded \<longrightarrow>
             \<not> cx_assessed cx \<and> \<not> dhas (ev_assessment (cx_state cx)) ''relationship''))"

lemma result_fromI:
  assumes "extends ps ps'" "o' = Approved \<Longrightarrow> may_approve cx basis ps'" "o' = Approved \<Longrightarrow> basis \<noteq> None"
    and "o' = AssessmentNeeded \<Longrightarrow>
           \<not> cx_assessed cx \<and> \<not> dhas (ev_assessment (cx_state cx)) ''relationship''"
  shows "result_from cx ps (finish cx ps' o' basis q bl)"
  using assms unfolding result_from_def by blast

lemma result_from_extends: "extends ps ps' \<Longrightarrow> result_from cx ps' res \<Longrightarrow> result_from cx ps res"
  unfolding result_from_def by (blast intro: extends_trans)

definition good_stage :: "policy_ctx \<Rightarrow> stage \<Rightarrow> bool" where
  "good_stage cx g \<longleftrightarrow>
     (\<forall>ps. case g cx ps of Inl res \<Rightarrow> result_from cx ps res | Inr ps' \<Rightarrow> extends ps ps')"

lemma run_good_stages:
  assumes "list_all (good_stage cx) gs"
  shows "case run_stages gs cx ps of Inl res \<Rightarrow> result_from cx ps res | Inr ps' \<Rightarrow> extends ps ps'"
  using assms
proof (induction gs arbitrary: ps)
  case (Cons g gs)
  then have g: "case g cx ps of Inl res \<Rightarrow> result_from cx ps res | Inr ps' \<Rightarrow> extends ps ps'"
    by (simp add: good_stage_def)
  show ?case
  proof (cases "g cx ps")
    case (Inl res)
    with g show ?thesis by simp
  next
    case (Inr ps')
    with g have "extends ps ps'" by simp
    with Inr Cons.IH [of ps'] Cons.prems show ?thesis
      by (auto split: sum.splits intro: result_from_extends extends_trans)
  qed
qed simp

text \<open>The stages split into their branches and into the rules above.\<close>

lemmas stage_intros = result_fromI extends_when extends_need_chain extends_refl

lemma good_gates:
  "good_stage cx read_only_gate" "good_stage cx deny_gate" "good_stage cx checkpoint_gate"
  "good_stage cx interpretation_gate"
  unfolding good_stage_def read_only_gate_def deny_gate_def checkpoint_gate_def
    interpretation_gate_def Let_def
  by (simp_all split: if_split) (safe intro!: stage_intros; simp)+

lemma good_grants:
  "good_stage cx scope_stage" "good_stage cx user_grant_stage" "good_stage cx disclosure_stage"
  "good_stage cx unknown_risk_stage" "good_stage cx assessment_stage"
  unfolding good_stage_def scope_stage_def user_grant_stage_def disclosure_stage_def
    unknown_risk_stage_def assessment_stage_def granted_result_def
  by (simp_all split: if_split) (safe intro!: stage_intros; simp add: may_approve_def)+

lemma opinion_Inr:
  "opinion_blocks cx key ps = (b, ps') \<Longrightarrow> (\<And>p. extends p (f p)) \<Longrightarrow> extends ps (when_need c f ps')"
  by (meson extends_opinion extends_when)

lemma good_alignment: "good_stage cx alignment_gate"
  unfolding good_stage_def alignment_gate_def Let_def
  by (simp split: if_split prod.split) (auto intro: opinion_Inr)

lemma good_restriction: "good_stage cx restriction_gate"
  unfolding good_stage_def restriction_gate_def Let_def
  by (simp split: if_split prod.split) (auto intro: opinion_Inr result_fromI)

lemma good_static_read: "good_stage cx static_read_stage"
  unfolding good_stage_def static_read_stage_def Let_def
  by (simp split: if_split) (auto simp: may_approve_def intro: result_fromI)

definition lifecycle_state :: "policy_ctx \<Rightarrow> pstate \<Rightarrow> pstate" where
  "lifecycle_state cx ps =
     (let ps1 =
        (if cx_compatibility cx = VStr ''conflicts''
            \<and> \<not> (\<exists>item \<in> set (ps_obligations ps). ob_id item = ''model.denial'')
         then (let (blocks, ps') = opinion_blocks cx ''restriction_conflict'' ps in
               when_need blocks (need_review cx ''process.current_restrictions'' False) ps')
         else when_need (cx_compatibility cx = VStr ''unresolved'' \<and> cx_profile cx = Strict)
                (need_review cx ''process.current_restrictions'' False) ps);
         risk = cx_value cx ''risk'' (VStr ''unknown'')
      in if risk = VStr ''high'' then need_review cx ''risk.high'' False ps1
         else when_need (risk = VStr ''unknown'') (need_review cx ''risk.unknown'' False) ps1)"

lemma extends_lifecycle_state: "extends ps (lifecycle_state cx ps)"
proof -
  have "extends ps (if P then let (blocks, ps') = opinion_blocks cx key ps in
      when_need blocks (need_review cx a b) ps' else when_need c (need_review cx d e) ps)" for P key a b c d e
    by (auto split: prod.split intro: opinion_Inr)
  then show ?thesis
    unfolding lifecycle_state_def Let_def by (simp add: extends_need_chain extends_when)
qed

lemma lifecycle_stage_state:
  "lifecycle_stage cx ps =
     (let lifecycle = ev_process_lifecycle (cx_state cx) in
      if oget lifecycle ''authenticated'' = VBool True \<and> oget lifecycle ''matched'' = VBool True then
        (if ev_assessment (cx_state cx) = [] then
           Inl (finish cx (need_assessment cx ''process.current_restrictions''
                  [''contextual_restrictions'', ''risk''] ps) Escalated None Unresolved [])
         else Inl (finish cx (lifecycle_state cx ps)
                 (if ps_obligations (lifecycle_state cx ps) \<noteq> [] then Escalated else Approved)
                 (Some ''task_process_lifecycle'') Deterministic []))
      else Inr ps)"
  by (simp only: lifecycle_stage_def lifecycle_state_def Let_def)

lemma good_lifecycle: "good_stage cx lifecycle_stage"
  unfolding good_stage_def lifecycle_stage_state Let_def
  by (simp split: if_split)
    (auto simp: may_approve_def intro!: result_fromI extends_lifecycle_state)

lemma conflict_opinion:
  "(if P then opinion_blocks cx key ps else (False, ps)) = (b, ps') \<Longrightarrow> extends ps ps'"
  by (auto split: if_splits intro: extends_opinion)

lemma good_conflict: "good_stage cx conflict_stage"
proof -
  have "case conflict_stage cx ps of Inl res \<Rightarrow> result_from cx ps res | Inr ps' \<Rightarrow> extends ps ps'" for ps
  proof -
    obtain b1 ps1 where 1: "(if cx_target_scope cx = VStr ''conflicts''
        then opinion_blocks cx ''target_conflict'' ps else (False, ps)) = (b1, ps1)"
      by fastforce
    obtain b2 ps2 where 2: "(if cx_assessment cx ''relationship'' = VStr ''conflicts_with_intent''
        then opinion_blocks cx ''relationship_conflict'' ps1 else (False, ps1)) = (b2, ps2)"
      by fastforce
    have ext: "extends ps ps2"
      using conflict_opinion [OF 1] conflict_opinion [OF 2] by (rule extends_trans)
    then show ?thesis
      unfolding conflict_stage_def Let_def 1 prod.case 2
      by (auto split: option.split intro!: result_fromI extends_when extends_need_chain)
  qed
  then show ?thesis by (simp add: good_stage_def)
qed

lemma good_relevance: "good_stage cx relevance_stage"
  unfolding good_stage_def relevance_stage_def Let_def
  by (auto intro!: extends_when extends_need_chain)

lemmas good_stages = good_gates good_grants good_alignment good_restriction good_static_read
  good_lifecycle good_conflict good_relevance

lemma final_stage_result: "result_from cx ps (final_stage cx ps)"
  by (auto simp: final_stage_def granted_result_def may_approve_def intro!: result_fromI)

subsection \<open>Every evaluation finishes through the closure\<close>

abbreviation policy_start :: "policy_ctx \<Rightarrow> pstate" where
  "policy_start cx \<equiv> \<lparr>ps_obligations = sc_obligations (cx_scan cx), ps_ignored = []\<rparr>"

lemma good_policy_stages: "list_all (good_stage cx) policy_stages"
  by (simp add: policy_stages_def good_stages)

lemma run_then_final:
  assumes "list_all (good_stage cx) gs"
  shows "result_from cx ps (case run_stages gs cx ps of Inl res \<Rightarrow> res | Inr ps' \<Rightarrow> final_stage cx ps')"
  using run_good_stages [OF assms, of ps] final_stage_result
  by (auto split: sum.splits intro: result_from_extends)

lemma decide_result:
  "result_from (policy_context rules st corr prof assessed)
     (policy_start (policy_context rules st corr prof assessed))
     (decide_policy rules st corr prof assessed)"
  unfolding decide_policy_def Let_def by (rule run_then_final [OF good_policy_stages])

lemma run_stages_append:
  "run_stages (gs @ hs) cx ps = bindE (run_stages gs cx ps) (run_stages hs cx)"
  by (induction gs arbitrary: ps) (auto simp: bindE_def split: sum.split)

definition opening_gates :: "stage list" where
  "opening_gates = [read_only_gate, deny_gate, checkpoint_gate]"

definition later_stages :: "stage list" where
  "later_stages =
     [alignment_gate, interpretation_gate, restriction_gate, static_read_stage, lifecycle_stage,
      scope_stage, user_grant_stage, disclosure_stage, assessment_stage, conflict_stage,
      relevance_stage, unknown_risk_stage]"

lemma policy_stages_split: "policy_stages = opening_gates @ later_stages"
  by (simp add: policy_stages_def opening_gates_def later_stages_def)

lemma finish_denied [simp]: "pr_outcome (finish cx ps Denied basis q bl) = Denied"
  "pr_blocking_reasons (finish cx ps Denied basis q bl) = bl"
  by (auto simp: finish_def make_result_def split: option.split)

text \<open>What the opening gates leave: a denial, or a state holding what they require.\<close>

definition denied_by_gate :: "policy_ctx \<Rightarrow> bool" where
  "denied_by_gate cx \<longleftrightarrow>
     (ev_read_only_required (cx_state cx) \<and> cx_mutation cx = VStr ''mutating'')
     \<or> sc_deny (cx_scan cx) \<noteq> [] \<or> truthy (dget (cx_values cx) ''configured_deny'')"

definition required_by_gates :: "policy_ctx \<Rightarrow> obligation list \<Rightarrow> bool" where
  "required_by_gates cx obs \<longleftrightarrow>
     set (sc_obligations (cx_scan cx)) \<subseteq> set obs
     \<and> (ev_assessment_failed (cx_state cx) \<and> \<not> ev_human_approved (cx_state cx) \<longrightarrow>
          (\<exists>ob \<in> set obs. ob_id ob = ''assessment.invalid_response'' \<and> ob_requirement ob = NeedsHuman))
     \<and> (sc_require (cx_scan cx) \<noteq> [] \<and> \<not> ev_human_approved (cx_state cx) \<longrightarrow>
          (\<exists>ob \<in> set obs. ob_id ob = ''human.checkpoint'' \<and> ob_requirement ob = NeedsHuman))
     \<and> (dget (cx_values cx) ''risk'' = VStr ''critical'' \<longrightarrow>
          (\<exists>ob \<in> set obs. ob_id ob = ''model.risk.critical''))
     \<and> (ev_read_only_required (cx_state cx) \<and> cx_mutation cx \<noteq> VStr ''read_only'' \<longrightarrow>
          (\<exists>ob \<in> set obs. ob_id ob = ''mode.read_only''))"

lemma checkpoint_requires:
  assumes "checkpoint_gate cx ps = Inr ps'"
    and "set (sc_obligations (cx_scan cx)) \<subseteq> set (ps_obligations ps)"
    and "ev_read_only_required (cx_state cx) \<and> cx_mutation cx \<noteq> VStr ''read_only'' \<Longrightarrow>
          \<exists>ob \<in> set (ps_obligations ps). ob_id ob = ''mode.read_only''"
  shows "required_by_gates cx (ps_obligations ps')"
  using assms
  by (auto simp: required_by_gates_def checkpoint_gate_def when_need_def need_human_def need_review_def need_with_def)

lemma gates_denied:
  assumes "denied_by_gate (policy_context rules st corr prof assessed)"
  shows "pr_outcome (decide_policy rules st corr prof assessed) = Denied"
  using assms
  by (auto simp: decide_policy_def Let_def policy_stages_def denied_by_gate_def read_only_gate_def
      deny_gate_def bindE_def split: if_split)

lemma gates_passed:
  fixes rules st corr prof assessed
  defines "cx \<equiv> policy_context rules st corr prof assessed"
  assumes "\<not> denied_by_gate cx"
  obtains ps where "required_by_gates cx (ps_obligations ps)"
    "result_from cx ps (decide_policy rules st corr prof assessed)"
proof -
  obtain ps1 where 1: "read_only_gate cx (policy_start cx) = Inr ps1"
    using assms(2) by (cases "ev_read_only_required (cx_state cx)")
      (auto simp: read_only_gate_def denied_by_gate_def)
  have 2: "deny_gate cx ps1 = Inr ps1"
    using assms(2) by (auto simp: deny_gate_def denied_by_gate_def)
  obtain ps where 3: "checkpoint_gate cx ps1 = Inr ps"
    by (simp add: checkpoint_gate_def)
  have "required_by_gates cx (ps_obligations ps)"
    by (rule checkpoint_requires [OF 3])
      (use 1 assms(2) in \<open>auto simp: read_only_gate_def denied_by_gate_def when_need_def need_with_def
         split: if_splits\<close>)
  moreover have "decide_policy rules st corr prof assessed =
      (case run_stages later_stages cx ps of Inl res \<Rightarrow> res | Inr ps' \<Rightarrow> final_stage cx ps')"
    unfolding decide_policy_def Let_def policy_stages_split run_stages_append cx_def [symmetric]
    by (simp add: opening_gates_def 1 2 3)
  moreover have "list_all (good_stage cx) later_stages"
    using good_policy_stages by (simp add: policy_stages_split)
  ultimately show thesis
    using that run_then_final by metis
qed

subsection \<open>What a result can say\<close>

text \<open>The result of a reviewer's vote.\<close>

lemma refused_result:
  assumes "result_from cx ps res" "ev_review (cx_state cx) = Some r" "rv_user_would r = Some VoteRefuse"
  shows "pr_outcome res = Denied"
  using assms by (auto simp: result_from_def finish_def make_result_def Let_def)

lemma critical_vote_result:
  assumes "result_from cx ps res" "ev_review (cx_state cx) = Some r"
    and "rv_user_would r \<noteq> None" "rv_risk r = Some ''critical''"
  shows "pr_outcome res = Denied"
  using assms by (auto simp: result_from_def finish_def make_result_def Let_def)

lemma survivors_kept:
  "ob_requirement item = NeedsHuman \<Longrightarrow> survives_risk_receipt r item \<and> survives_scope_approval r item"
  by (simp add: survives_risk_receipt_def survives_scope_approval_def)

text \<open>An obligation only a human can discharge outlives every vote.\<close>

lemma voted_outcome:
  assumes "ev_review (cx_state cx) = Some r" "rv_user_would r \<noteq> None"
    and "ob \<in> set (ps_obligations ps @ (if rv_user_would r = Some VoteAsk then [deferred_obligation r] else []))"
    and "ob_requirement ob = NeedsHuman"
  shows "pr_outcome (finish cx ps o' basis q bl) \<noteq> Approved"
proof -
  define remaining where
    "remaining = ps_obligations ps @ (if rv_user_would r = Some VoteAsk then [deferred_obligation r] else [])"
  have "filter (survives_risk_receipt r) remaining \<noteq> []"
       "filter (survives_scope_approval r) (filter (survives_risk_receipt r) remaining) \<noteq> []"
    using assms(3) survivors_kept [OF assms(4), of r]
    unfolding remaining_def [symmetric] by (auto simp del: filter_filter simp: filter_empty_conv)
  then show ?thesis
    using assms(1,2) unfolding finish_def remaining_def [symmetric]
    by (simp add: remaining_def [symmetric] make_result_def Let_def del: filter_filter)
qed

lemma deferred_result:
  assumes "result_from cx ps res" "ev_review (cx_state cx) = Some r" "rv_user_would r = Some VoteAsk"
  shows "pr_outcome res \<noteq> Approved"
  using assms voted_outcome [OF assms(2), of "deferred_obligation r"]
  unfolding result_from_def by (fastforce simp: deferred_obligation_def)

lemma human_obligation_result:
  assumes "result_from cx ps res" "ob \<in> set (ps_obligations ps)" "ob_requirement ob = NeedsHuman"
    and "ob_id ob \<noteq> ''alignment.compatibility''"
  shows "pr_outcome res \<noteq> Approved"
proof -
  obtain ps' o' basis q bl where res: "res = finish cx ps' o' basis q bl" "extends ps ps'"
      "o' = Approved \<longrightarrow> may_approve cx basis ps' \<and> basis \<noteq> None"
    using assms(1) unfolding result_from_def by blast
  have mem: "ob \<in> set (ps_obligations ps')"
    using extends_member [OF res(2) assms(2)] .
  have o': "o' \<noteq> Approved"
    using res(3) mem assms(4) by (auto simp: may_approve_def)
  show ?thesis
  proof (cases "\<exists>r. ev_review (cx_state cx) = Some r \<and> rv_user_would r \<noteq> None")
    case True
    with voted_outcome [OF _ _ _ assms(3)] mem res(1) show ?thesis by fastforce
  next
    case False
    with o' show ?thesis
      unfolding res(1) finish_def by (auto simp: make_result_def split: option.split)
  qed
qed

lemma unreviewed_obligation_result:
  assumes "result_from cx ps res" "ob \<in> set (ps_obligations ps)"
    and "\<And>r. ev_review (cx_state cx) = Some r \<Longrightarrow> rv_user_would r = None"
    and "ob_id ob \<noteq> ''alignment.compatibility''"
  shows "pr_outcome res \<noteq> Approved"
proof -
  obtain ps' o' basis q bl where res: "res = finish cx ps' o' basis q bl" "extends ps ps'"
      "o' = Approved \<longrightarrow> may_approve cx basis ps' \<and> basis \<noteq> None"
    using assms(1) unfolding result_from_def by blast
  have "ob \<in> set (ps_obligations ps')"
    using extends_member [OF res(2) assms(2)] .
  then have "o' \<noteq> Approved"
    using res(3) assms(4) by (auto simp: may_approve_def)
  then show ?thesis
    using assms(3) unfolding res(1) finish_def by (auto simp: make_result_def split: option.split)
qed

lemma finish_cases:
  obtains (plain) "finish cx ps o' basis q bl = make_result cx ps o' basis q bl (ps_obligations ps)"
      "o' = Denied \<or> (\<forall>r. ev_review (cx_state cx) = Some r \<longrightarrow> rv_user_would r = None)"
  | (denied) "pr_outcome (finish cx ps o' basis q bl) = Denied"
  | (voted) basis' left where
      "finish cx ps o' basis q bl =
         make_result cx ps (if left \<noteq> [] then Escalated else Approved) (Some basis') q bl left"
proof (cases "\<exists>r. ev_review (cx_state cx) = Some r \<and> o' \<noteq> Denied \<and> rv_user_would r \<noteq> None")
  case False
  then have "finish cx ps o' basis q bl = make_result cx ps o' basis q bl (ps_obligations ps)"
    by (auto simp: finish_def split: option.split)
  with False show thesis by (intro plain) auto
next
  case True
  then obtain r where r: "ev_review (cx_state cx) = Some r" "o' \<noteq> Denied" "rv_user_would r \<noteq> None"
    by blast
  show thesis
  proof (cases "rv_user_would r = Some VoteRefuse \<or> rv_risk r = Some ''critical''")
    case True
    with r have "pr_outcome (finish cx ps o' basis q bl) = Denied"
      by (auto simp: finish_def make_result_def Let_def)
    then show thesis by (rule denied)
  next
    case False
    define left where "left =
      (let kept = filter (survives_risk_receipt r) (ps_obligations ps @
             (if rv_user_would r = Some VoteAsk then [deferred_obligation r] else []))
       in if cx_judge cx then filter (survives_scope_approval r) kept else kept)"
    have "\<exists>basis'. finish cx ps o' basis q bl =
        make_result cx ps (if left \<noteq> [] then Escalated else Approved) (Some basis') q bl left"
      using r False unfolding finish_def left_def by (cases basis) (auto simp: Let_def opt_str_def)
    then show thesis using voted by blast
  qed
qed

lemma voted_result:
  assumes "result_from cx ps res" "ev_review (cx_state cx) = Some r" "rv_user_would r \<noteq> None"
  shows "pr_outcome res \<noteq> AssessmentNeeded"
proof -
  obtain ps' o' basis q bl where res: "res = finish cx ps' o' basis q bl"
    using assms(1) unfolding result_from_def by blast
  show ?thesis
    by (rule finish_cases [of cx ps' o' basis q bl])
      (use assms(2,3) in \<open>auto simp: res make_result_def split: if_splits\<close>)
qed

lemma approved_result:
  assumes "result_from cx ps res" "pr_outcome res = Approved"
  shows "pr_permission_basis res \<noteq> None
     \<and> (pr_obligations res = []
        \<or> (static_read_proven cx \<and> pr_permission_basis res = Some ''read_only_static''
           \<and> map ob_id (pr_obligations res) = [''alignment.compatibility'']))"
proof -
  obtain ps' o' basis q bl where res: "res = finish cx ps' o' basis q bl"
      and o': "o' = Approved \<longrightarrow> may_approve cx basis ps' \<and> basis \<noteq> None"
    using assms(1) unfolding result_from_def by blast
  show ?thesis
    by (rule finish_cases [of cx ps' o' basis q bl])
      (use assms(2) o' in \<open>auto simp: res make_result_def may_approve_def split: if_splits\<close>)
qed

lemma assessment_result:
  assumes "result_from cx ps res" "pr_outcome res = AssessmentNeeded"
  shows "\<not> cx_assessed cx \<and> \<not> dhas (ev_assessment (cx_state cx)) ''relationship''"
proof -
  obtain ps' o' basis q bl where res: "res = finish cx ps' o' basis q bl"
      and o': "o' = AssessmentNeeded \<longrightarrow>
        \<not> cx_assessed cx \<and> \<not> dhas (ev_assessment (cx_state cx)) ''relationship''"
    using assms(1) unfolding result_from_def by blast
  show ?thesis
    by (rule finish_cases [of cx ps' o' basis q bl])
      (use assms(2) o' in \<open>auto simp: res make_result_def split: if_splits\<close>)
qed

subsection \<open>The settled state\<close>

lemma evaluate_settled_eq:
  "evaluate_policy rules st prof assessed =
     decide_policy rules (settled_state rules st) (review_corrections rules st) prof assessed"
proof (cases "corrections_change st (review_corrections rules st)")
  case False
  then show ?thesis
    by (subst evaluate_policy.simps) (simp add: settled_state_def Let_def)
next
  case True
  let ?corr = "review_corrections rules st" and ?st = "settled_state rules st"
  have "evaluate_policy rules st prof assessed = evaluate_policy rules ?st prof assessed"
    using True by (subst evaluate_policy.simps) (simp add: settled_state_def Let_def)
  also have "\<dots> = decide_policy rules (apply_corrections ?st ?corr) ?corr prof assessed"
    using corrections_settle [of st rules]
    by (subst evaluate_policy.simps) (simp add: settled_state_def Let_def)
  also have "apply_corrections ?st ?corr = ?st"
  proof -
    have "map_of (dmerge (ev_assessment st) ?corr) k = Some v" if "(k, v) \<in> set ?corr" for k v
      using that distinct_review_corrections [of rules st]
      by (simp add: map_of_dmerge map_of_eq_Some_iff rev_map [symmetric])
    then have "dmerge (dmerge (ev_assessment st) ?corr) ?corr = dmerge (ev_assessment st) ?corr"
      by (intro dmerge_same) auto
    then show ?thesis
      by (simp add: settled_state_def apply_corrections_def)
  qed
  finally show ?thesis .
qed

lemma settled_review [simp]: "ev_review (settled_state rules st) = ev_review st"
  "ev_human_approved (settled_state rules st) = ev_human_approved st"
  "ev_read_only_required (settled_state rules st) = ev_read_only_required st"
  "ev_assessment_failed (settled_state rules st) = ev_assessment_failed st"
  by (simp_all add: settled_state_def apply_corrections_def)

lemma evaluate_result:
  obtains corr ps where
    "result_from (policy_context rules (settled_state rules st) corr prof assessed) ps
       (evaluate_policy rules st prof assessed)"
  using decide_result unfolding evaluate_settled_eq by blast

lemma context_simps [simp]:
  "cx_state (policy_context rules st corr prof assessed) = st"
  "cx_scan (policy_context rules st corr prof assessed) = scan_rules st rules"
  "cx_values (policy_context rules st corr prof assessed) = comparison st"
  "cx_assessed (policy_context rules st corr prof assessed) = assessed"
  by (simp_all add: policy_context_def)

lemma evaluated_denied:
  assumes "r \<in> set rules" "r_effect r = DenyRule" "rule_truth (settled_state rules st) r = TTrue"
  shows "pr_outcome (evaluate_policy rules st prof assessed) = Denied"
proof -
  have "r_id r \<in> set (sc_deny (scan_rules (settled_state rules st) rules))"
    using assms by (rule scan_deny)
  then show ?thesis
    unfolding evaluate_settled_eq by (intro gates_denied) (auto simp: denied_by_gate_def)
qed

end
