(* ===== verification/Policy_Properties.thy ===== *)
theory Policy_Properties
  imports Hybrid_Safety
begin

text \<open>
  The safety properties of the policy evaluation (\<^verbatim>\<open>intaris/hybrid.py\<close>), each with a
  concrete action at which it applies.
\<close>

subsection \<open>Sample inputs\<close>

definition sample_rule :: "string \<Rightarrow> rule_effect \<Rightarrow> pred \<Rightarrow> rule" where
  "sample_rule i e w = \<lparr>r_id = i, r_effect = e, r_when = w, r_description = None\<rparr>"

definition sample_evidence :: "pydict \<Rightarrow> pydict \<Rightarrow> review option \<Rightarrow> evidence" where
  "sample_evidence obs a r =
     from_observations obs [] False \<lparr>ev_assessment := a, ev_review := r\<rparr>"

definition sample_vote :: "vote \<Rightarrow> string \<Rightarrow> review" where
  "sample_vote v risk =
     \<lparr>rv_obligation_ids = [''intent.scope''], rv_evidence_refs = [''action''],
      rv_scope_support_refs = [], rv_routine_scope_verified = False, rv_user_would = Some v,
      rv_risk = Some risk, rv_basis = Some ''routine_within_task'', rv_corrected = None,
      rv_operator_policy_ids = []\<rparr>"

definition sample_action :: "string \<Rightarrow> pydict" where
  "sample_action risk =
     [(''tool'', VStr ''bash''), (''command'', VStr ''git push''),
      (''mutation'', VStr ''mutating''), (''effects'', VList [VStr ''write'']),
      (''risk'', VStr risk)]"

definition sample_serving :: pydict where
  "sample_serving = [(''relationship'', VStr ''supports_intent'')]"

definition bash_rule :: "rule_effect \<Rightarrow> rule" where
  "bash_rule e = sample_rule ''bash'' e (Pred OpTool None None (VStr ''bash'') None)"

definition production_rule :: "rule_effect \<Rightarrow> rule" where
  "production_rule e = sample_rule ''production'' e
     (Pred OpEq None (Some ''environment'') (VStr ''production'') None)"

text \<open>The verdicts a reviewer's vote can end in.\<close>

definition outcomes_of_vote :: "vote \<Rightarrow> string option \<Rightarrow> verdict set" where
  "outcomes_of_vote v risk =
     (if v = VoteRefuse \<or> risk = Some ''critical'' then {Denied}
      else if v = VoteAsk then {Denied, Escalated} else {Denied, Escalated, Approved})"

subsection \<open>Properties\<close>

text \<open>The recursive call of \<open>evaluate_policy\<close> happens at most once: the result is the decision on
  the corrected state, which the same receipt leaves as it is.\<close>

theorem corrections_applied_once:
  "evaluate_policy rules st prof assessed =
     decide_policy rules (settled_state rules st) (review_corrections rules st) prof assessed
   \<and> review_corrections rules (settled_state rules st) = review_corrections rules st
   \<and> \<not> corrections_change (settled_state rules st) (review_corrections rules st)"
  using evaluate_settled_eq corrections_settle by (simp add: settled_state_def)

text \<open>C7. A deny rule that holds of the evidence denies the call: no reviewer's vote, no human approval and
  no profile outweighs it.\<close>

theorem deny_rule_decides:
  assumes "r \<in> set rules" "r_effect r = DenyRule" "rule_truth (settled_state rules st) r = TTrue"
  shows "pr_outcome (evaluate_policy rules st prof assessed) = Denied"
  using assms by (rule evaluated_denied)

theorem deny_rule_decides_witness:
  "pr_outcome (evaluate_policy [bash_rule DenyRule]
     (sample_evidence (sample_action ''low'') sample_serving (Some (sample_vote VoteApprove ''low'')))
     BoundedAutonomy True) = Denied"
  by (rule deny_rule_decides [of "bash_rule DenyRule"]) code_simp+

text \<open>C12. When the request must be read-only, a mutating action is denied, and the result says why.\<close>

theorem read_only_required_denies:
  assumes "ev_read_only_required st"
    and "ev_value (settled_state rules st) ''mutation'' (VStr ''unclear'') = VStr ''mutating''"
  shows "pr_outcome (evaluate_policy rules st prof assessed) = Denied
     \<and> pr_blocking_reasons (evaluate_policy rules st prof assessed) = [''request.read_only_required'']"
  using assms
  by (simp add: evaluate_settled_eq decide_policy_def Let_def policy_stages_def read_only_gate_def
      cx_mutation_def)

theorem read_only_required_denies_witness:
  "pr_outcome (evaluate_policy [] (sample_evidence (sample_action ''low'') sample_serving None
      \<lparr>ev_read_only_required := True\<rparr>) Balanced True) = Denied"
  by (rule conjunct1 [OF read_only_required_denies]) code_simp+

text \<open>A checkpoint is a human's: while a rule requiring approval is not known to be inapplicable, or the
  assessor's answer was invalid, nothing but a human approval lets the call pass - in particular
  no vote of the reviewer does.\<close>

theorem human_checkpoint_binds:
  assumes "\<not> ev_human_approved st"
    and "ev_assessment_failed st
         \<or> (\<exists>r \<in> set rules. r_effect r = RequireApproval \<and> rule_truth (settled_state rules st) r \<noteq> TFalse)"
  shows "pr_outcome (evaluate_policy rules st prof assessed) \<noteq> Approved"
proof -
  define cx where "cx = policy_context rules (settled_state rules st) (review_corrections rules st) prof assessed"
  have required: "ev_assessment_failed (cx_state cx) \<or> sc_require (cx_scan cx) \<noteq> []"
    using assms(2) scan_require [of _ rules "settled_state rules st"]
    unfolding cx_def context_simps settled_review by (metis empty_iff list.set(1))
  have human: "\<not> ev_human_approved (cx_state cx)"
    using assms(1) by (simp add: cx_def)
  show ?thesis
  proof (cases "denied_by_gate cx")
    case True
    then show ?thesis by (simp add: evaluate_settled_eq gates_denied cx_def)
  next
    case False
    then obtain ps where ps: "required_by_gates cx (ps_obligations ps)"
        "result_from cx ps (evaluate_policy rules st prof assessed)"
      unfolding cx_def evaluate_settled_eq by (rule gates_passed)
    obtain ob where "ob \<in> set (ps_obligations ps)" "ob_requirement ob = NeedsHuman"
        "ob_id ob \<in> {''assessment.invalid_response'', ''human.checkpoint''}"
      using ps(1) required human unfolding required_by_gates_def by blast
    then show ?thesis
      using human_obligation_result [OF ps(2)] by force
  qed
qed

theorem human_checkpoint_binds_witness:
  "pr_outcome (evaluate_policy [production_rule RequireApproval]
     (sample_evidence (sample_action ''low'') sample_serving (Some (sample_vote VoteApprove ''low'')))
     Balanced True) \<noteq> Approved"
  by (rule human_checkpoint_binds) code_simp+

text \<open>What a reviewer's vote can lead to: a refusal, or an approval that rates the action critical,
  denies; a request to ask the user is never an approval; and no vote leaves the call waiting for
  another assessment.\<close>

theorem vote_bounds_outcome:
  assumes "ev_review st = Some r" "rv_user_would r = Some v"
  shows "pr_outcome (evaluate_policy rules st prof assessed) \<in> outcomes_of_vote v (rv_risk r)"
proof -
  define cx where "cx = policy_context rules (settled_state rules st) (review_corrections rules st) prof assessed"
  have res: "result_from cx (policy_start cx) (evaluate_policy rules st prof assessed)"
    unfolding cx_def evaluate_settled_eq by (rule decide_result)
  have r: "ev_review (cx_state cx) = Some r"
    using assms(1) by (simp add: cx_def)
  show ?thesis
    using refused_result [OF res r] critical_vote_result [OF res r] deferred_result [OF res r]
      voted_result [OF res r] assms(2)
    by (cases "pr_outcome (evaluate_policy rules st prof assessed)"; cases v)
      (auto simp: outcomes_of_vote_def)
qed

theorem vote_bounds_outcome_witness:
  "pr_outcome (evaluate_policy [] (sample_evidence (sample_action ''low'') sample_serving
     (Some (sample_vote VoteRefuse ''low''))) BoundedAutonomy True) \<in> {Denied}"
  using vote_bounds_outcome [of "sample_evidence (sample_action ''low'') sample_serving
     (Some (sample_vote VoteRefuse ''low''))" "sample_vote VoteRefuse ''low''" VoteRefuse "[]" BoundedAutonomy True]
  by (simp add: sample_evidence_def sample_vote_def outcomes_of_vote_def)

lemma static_read_provenD:
  "static_read_proven cx \<Longrightarrow> cx_mutation cx = VStr ''read_only'' \<and> set (effects_of (cx_state cx) (VList [])) \<subseteq> {''read''}"
  by (simp add: static_read_proven_def)

text \<open>C11. An approval is complete: it names the basis of the permission, and no obligation is left
  outstanding - except the question of the parent's alignment, alone, when the settled evidence proves a
  static read and that proof is the basis.\<close>

theorem approval_is_discharged:
  assumes "pr_outcome (evaluate_policy rules st prof assessed) = Approved"
  shows "let cx = policy_context rules (settled_state rules st) (review_corrections rules st) prof assessed;
             res = evaluate_policy rules st prof assessed
     in pr_permission_basis res \<noteq> None
        \<and> (pr_obligations res = []
           \<or> (static_read_proven cx \<and> cx_mutation cx = VStr ''read_only''
              \<and> set (effects_of (cx_state cx) (VList [])) \<subseteq> {''read''}
              \<and> pr_permission_basis res = Some ''read_only_static''
              \<and> map ob_id (pr_obligations res) = [''alignment.compatibility'']))"
  using assms approved_result decide_result static_read_provenD unfolding evaluate_settled_eq Let_def by blast

theorem approval_is_discharged_witness:
  "pr_permission_basis (evaluate_policy [production_rule AllowRule]
     (sample_evidence (sample_action ''low'') sample_serving None) Balanced True) \<noteq> None"
  by (rule conjunct1 [OF approval_is_discharged [unfolded Let_def]]) code_simp

text \<open>Without a reviewer's vote, an action whose risk is critical is never approved, and neither is one
  for which the applicability of a deny rule is unresolved.\<close>

theorem unreviewed_doubt_blocks:
  assumes "\<And>r. ev_review st = Some r \<Longrightarrow> rv_user_would r = None"
    and "dget (comparison (settled_state rules st)) ''risk'' = VStr ''critical''
         \<or> (\<exists>r \<in> set rules. r_effect r = DenyRule \<and> rule_truth (settled_state rules st) r = TUnknown)"
  shows "pr_outcome (evaluate_policy rules st prof assessed) \<noteq> Approved"
proof -
  define cx where "cx = policy_context rules (settled_state rules st) (review_corrections rules st) prof assessed"
  have review: "\<And>r. ev_review (cx_state cx) = Some r \<Longrightarrow> rv_user_would r = None"
    using assms(1) by (simp add: cx_def)
  show ?thesis
  proof (cases "denied_by_gate cx")
    case True
    then show ?thesis by (simp add: evaluate_settled_eq gates_denied cx_def)
  next
    case False
    then obtain ps where ps: "required_by_gates cx (ps_obligations ps)"
        "result_from cx ps (evaluate_policy rules st prof assessed)"
      unfolding cx_def evaluate_settled_eq by (rule gates_passed)
    obtain ob where "ob \<in> set (ps_obligations ps)" "ob_id ob \<noteq> ''alignment.compatibility''"
      using assms(2)
    proof
      assume "dget (comparison (settled_state rules st)) ''risk'' = VStr ''critical''"
      then have "\<exists>ob \<in> set (ps_obligations ps). ob_id ob = ''model.risk.critical''"
        using ps(1) by (simp add: required_by_gates_def cx_def)
      then show thesis using that by force
    next
      assume "\<exists>r \<in> set rules. r_effect r = DenyRule \<and> rule_truth (settled_state rules st) r = TUnknown"
      then obtain r where "r \<in> set rules" "r_effect r = DenyRule" "rule_truth (settled_state rules st) r = TUnknown"
        by blast
      then have "rule_obligation (settled_state rules st) r \<in> set (sc_obligations (cx_scan cx))"
        unfolding cx_def context_simps by (intro scan_unresolved) simp_all
      then have "rule_obligation (settled_state rules st) r \<in> set (ps_obligations ps)"
        using ps(1) by (auto simp: required_by_gates_def)
      then show thesis
        using that by (force simp: rule_obligation_def Let_def)
    qed
    then show ?thesis
      using unreviewed_obligation_result [OF ps(2)] review by blast
  qed
qed

theorem unreviewed_doubt_blocks_witness:
  "pr_outcome (evaluate_policy [production_rule DenyRule]
     (sample_evidence (sample_action ''low'') sample_serving None) BoundedAutonomy True) \<noteq> Approved"
proof (rule unreviewed_doubt_blocks)
  show "dget (comparison (settled_state [production_rule DenyRule]
        (sample_evidence (sample_action ''low'') sample_serving None))) ''risk'' = VStr ''critical''
      \<or> (\<exists>r \<in> set [production_rule DenyRule]. r_effect r = DenyRule \<and>
          rule_truth (settled_state [production_rule DenyRule]
            (sample_evidence (sample_action ''low'') sample_serving None)) r = TUnknown)"
    by code_simp
qed (simp add: sample_evidence_def)

text \<open>The evaluation asks for a model's assessment only when none has been made: once the caller reports
  one, or the evidence holds an assessed relationship, the answer is final.\<close>

theorem assessment_requested_once:
  "pr_outcome (evaluate_policy rules st prof True) \<noteq> AssessmentNeeded
   \<and> (pr_outcome (evaluate_policy rules st prof False) = AssessmentNeeded \<longrightarrow>
        \<not> dhas (ev_assessment (settled_state rules st)) ''relationship'')"
  using assessment_result [OF decide_result] unfolding evaluate_settled_eq by fastforce

theorem assessment_requested_once_witness:
  "\<not> dhas (ev_assessment (settled_state [] (sample_evidence (sample_action ''low'') [] None))) ''relationship''"
  by (rule mp [OF conjunct2 [OF assessment_requested_once [of "[]" _ Balanced]]]) code_simp

end
