(* ===== verification/Rate_Limiter.thy ===== *)
theory Rate_Limiter
  imports Prelude
begin

text \<open>
  \<^verbatim>\<open>intaris/ratelimit.py\<close>: the in-memory sliding-window limiter.  The dictionary of
  deques is a map from \<open>(user_id, session_id)\<close> to the recorded call times, oldest first.  The
  lock makes the body of \<open>check_and_record\<close> one atomic step, so a concurrent execution is a
  sequence of steps.  The clock is read before the lock is taken: a call is given its reading as an
  argument, and the theorems are about executions in which the readings are taken in the order of
  the steps, which is what every single-threaded caller produces.
\<close>

subsection \<open>State and operations\<close>

type_synonym rl_key = "string \<times> string"

record rate_limiter =
  rl_max :: int
  rl_window :: rat
  rl_calls :: "rl_key \<Rightarrow> rat list option"
  rl_last_sweep :: rat
  rl_sweep_interval :: rat

definition new_limiter :: "int \<Rightarrow> rat \<Rightarrow> rat \<Rightarrow> rate_limiter" where
  "new_limiter max_calls window_seconds now =
     \<lparr>rl_max = max_calls, rl_window = window_seconds, rl_calls = Map.empty,
      rl_last_sweep = now, rl_sweep_interval = 300\<rparr>"

definition prune :: "rat \<Rightarrow> rat list \<Rightarrow> rat list" where
  "prune cutoff timestamps = dropWhile (\<lambda>t. t < cutoff) timestamps"

text \<open>\<open>_sweep\<close>: prune every deque and delete the keys whose deque became empty.\<close>

definition rl_sweep :: "rat \<Rightarrow> (rl_key \<Rightarrow> rat list option) \<Rightarrow> (rl_key \<Rightarrow> rat list option)" where
  "rl_sweep cutoff calls =
     (\<lambda>key. case calls key of
         None \<Rightarrow> None
       | Some timestamps \<Rightarrow>
           let kept = prune cutoff timestamps in if kept = [] then None else Some kept)"

definition check_and_record ::
    "rat \<Rightarrow> rl_key \<Rightarrow> rate_limiter \<Rightarrow> bool \<times> rate_limiter" where
  "check_and_record now key rl =
     (if rl_max rl \<le> 0 then (True, rl)
      else
        let cutoff = now - rl_window rl;
            rl1 = (if now - rl_last_sweep rl > rl_sweep_interval rl
                   then rl\<lparr>rl_calls := rl_sweep cutoff (rl_calls rl), rl_last_sweep := now\<rparr>
                   else rl);
            timestamps = (case rl_calls rl1 key of None \<Rightarrow> [] | Some ts \<Rightarrow> ts);
            kept = prune cutoff timestamps
        in if int (length kept) \<ge> rl_max rl1
           then (False, rl1\<lparr>rl_calls := (rl_calls rl1)(key \<mapsto> kept)\<rparr>)
           else (True, rl1\<lparr>rl_calls := (rl_calls rl1)(key \<mapsto> kept @ [now])\<rparr>))"

text \<open>A sequence of calls, each with the clock reading taken before the lock.\<close>

fun rl_run :: "rate_limiter \<Rightarrow> (rat \<times> rl_key) list \<Rightarrow> bool list" where
  "rl_run rl [] = []"
| "rl_run rl ((now, key) # calls) =
     (let (ok, rl') = check_and_record now key rl in ok # rl_run rl' calls)"

subsection \<open>Specification: the limiter that forgets nothing\<close>

text \<open>
  The abstract limiter keeps the whole list of admitted calls; a call is admitted when fewer
  than \<open>m\<close> calls of its key were admitted in the closed window that ends at it.
\<close>

definition in_window :: "rat \<Rightarrow> rat \<Rightarrow> rl_key \<Rightarrow> (rat \<times> rl_key) list \<Rightarrow> (rat \<times> rl_key) list" where
  "in_window w t key h = filter (\<lambda>(s, k). k = key \<and> t - w \<le> s \<and> s \<le> t) h"

definition spec_admits :: "int \<Rightarrow> rat \<Rightarrow> (rat \<times> rl_key) list \<Rightarrow> rat \<Rightarrow> rl_key \<Rightarrow> bool" where
  "spec_admits m w h now key \<longleftrightarrow> m \<le> 0 \<or> int (length (in_window w now key h)) < m"

fun spec_run :: "int \<Rightarrow> rat \<Rightarrow> (rat \<times> rl_key) list \<Rightarrow> (rat \<times> rl_key) list \<Rightarrow> bool list" where
  "spec_run m w h [] = []"
| "spec_run m w h ((now, key) # calls) =
     (let ok = spec_admits m w h now key
      in ok # spec_run m w (if ok then h @ [(now, key)] else h) calls)"

fun admitted :: "(rat \<times> rl_key) list \<Rightarrow> bool list \<Rightarrow> (rat \<times> rl_key) list" where
  "admitted (c # cs) (b # bs) = (if b then c # admitted cs bs else admitted cs bs)"
| "admitted _ _ = []"

subsection \<open>Refinement\<close>

definition key_times :: "rl_key \<Rightarrow> (rat \<times> rl_key) list \<Rightarrow> rat list" where
  "key_times key h = map fst (filter (\<lambda>(s, k). k = key) h)"

text \<open>
  The stored deque of a key holds exactly its admitted times from some cutoff on, and that
  cutoff is no later than the start of the current window.
\<close>

definition rl_abs :: "rate_limiter \<Rightarrow> rat \<Rightarrow> (rat \<times> rl_key) list \<Rightarrow> bool" where
  "rl_abs rl now h \<longleftrightarrow>
     sorted (map fst h) \<and> (\<forall>x \<in> set h. fst x \<le> now) \<and>
     (\<forall>key. \<exists>c \<le> now - rl_window rl.
        (case rl_calls rl key of None \<Rightarrow> [] | Some ts \<Rightarrow> ts) = filter (\<lambda>s. c \<le> s) (key_times key h))"

lemma key_times_append [simp]:
  "key_times key (h @ [(now, k)]) = key_times key h @ (if k = key then [now] else [])"
  by (simp add: key_times_def)

lemma sorted_key_times: "sorted (map fst h) \<Longrightarrow> sorted (key_times key h)"
  by (simp add: key_times_def sorted_filter)

lemma prune_filtered:
  assumes "sorted ts" "c \<le> cutoff"
  shows "prune cutoff (filter (\<lambda>s. c \<le> s) ts) = filter (\<lambda>s. cutoff \<le> s) ts"
proof -
  have "sorted (filter (\<lambda>s. c \<le> s) ts)"
    using assms(1) by (metis list.map_ident sorted_filter)
  then have "prune cutoff (filter (\<lambda>s. c \<le> s) ts) =
      filter (\<lambda>s. cutoff \<le> s) (filter (\<lambda>s. c \<le> s) ts)"
    by (simp add: prune_def dropWhile_sorted_le)
  also have "\<dots> = filter (\<lambda>s. cutoff \<le> s) ts"
    using assms(2) by (auto intro: filter_cong order_trans)
  finally show ?thesis .
qed

lemma window_length:
  assumes "\<forall>x \<in> set h. fst x \<le> now"
  shows "length (in_window w now key h) = length (filter (\<lambda>s. now - w \<le> s) (key_times key h))"
  using assms by (induction h) (auto simp: in_window_def key_times_def)

lemma rl_absD:
  assumes "rl_abs rl now h" "now \<le> now'"
  shows "prune (now' - rl_window rl) (case rl_calls rl key of None \<Rightarrow> [] | Some ts \<Rightarrow> ts) =
    filter (\<lambda>s. now' - rl_window rl \<le> s) (key_times key h)"
proof -
  obtain c where c: "c \<le> now - rl_window rl"
    and ts: "(case rl_calls rl key of None \<Rightarrow> [] | Some ts \<Rightarrow> ts) = filter (\<lambda>s. c \<le> s) (key_times key h)"
    using assms(1) unfolding rl_abs_def by blast
  have "sorted (key_times key h)"
    using assms(1) by (simp add: rl_abs_def sorted_key_times)
  with c ts assms(2) show ?thesis
    by (simp add: prune_filtered)
qed

lemma rl_abs_sweep:
  assumes "rl_abs rl now h" "now \<le> now'"
  shows "rl_abs (rl\<lparr>rl_calls := rl_sweep (now' - rl_window rl) (rl_calls rl), rl_last_sweep := t\<rparr>) now' h"
proof -
  have "(case rl_sweep (now' - rl_window rl) (rl_calls rl) key of None \<Rightarrow> [] | Some ts \<Rightarrow> ts) =
      filter (\<lambda>s. now' - rl_window rl \<le> s) (key_times key h)" for key
    using rl_absD [OF assms, of key]
    by (cases "rl_calls rl key") (auto simp: rl_sweep_def Let_def prune_def)
  then show ?thesis
    using assms unfolding rl_abs_def by (auto intro: order_trans)
qed

lemma rl_abs_later:
  assumes "rl_abs rl now h" "now \<le> now'"
  shows "rl_abs rl now' h"
proof -
  have "now - rl_window rl \<le> now' - rl_window rl"
    using assms(2) by simp
  with assms show ?thesis
    unfolding rl_abs_def by (meson order_trans)
qed

lemma rl_abs_new: "rl_abs (new_limiter m w start) start []"
  by (auto simp: rl_abs_def new_limiter_def key_times_def)

text \<open>The map update that ends a step, admitted or not.\<close>

lemma rl_abs_record:
  assumes abs: "rl_abs rl now h" and w: "0 \<le> rl_window rl"
    and kept: "kept = filter (\<lambda>s. now - rl_window rl \<le> s) (key_times key h)"
  shows "rl_abs (rl\<lparr>rl_calls := (rl_calls rl)(key \<mapsto> kept)\<rparr>) now h"
    and "rl_abs (rl\<lparr>rl_calls := (rl_calls rl)(key \<mapsto> kept @ [now])\<rparr>) now (h @ [(now, key)])"
proof -
  show "rl_abs (rl\<lparr>rl_calls := (rl_calls rl)(key \<mapsto> kept)\<rparr>) now h"
    using abs kept unfolding rl_abs_def by auto
  have le: "\<forall>x \<in> set h. fst x \<le> now" and srt: "sorted (map fst h)"
    using abs by (auto simp: rl_abs_def)
  have "sorted (map fst (h @ [(now, key)]))"
    using le srt by (auto simp: sorted_append)
  moreover have "\<exists>c \<le> now - rl_window rl.
      (case ((rl_calls rl)(key \<mapsto> kept @ [now])) k of None \<Rightarrow> [] | Some ts \<Rightarrow> ts) =
      filter (\<lambda>s. c \<le> s) (key_times k (h @ [(now, key)]))" for k
  proof (cases "k = key")
    case True
    then show ?thesis
      using kept w by (intro exI [of _ "now - rl_window rl"]) auto
  next
    case False
    have "\<exists>c \<le> now - rl_window rl.
        (case rl_calls rl k of None \<Rightarrow> [] | Some ts \<Rightarrow> ts) = filter (\<lambda>s. c \<le> s) (key_times k h)"
      using abs unfolding rl_abs_def by blast
    then show ?thesis
      using False by simp
  qed
  ultimately show "rl_abs (rl\<lparr>rl_calls := (rl_calls rl)(key \<mapsto> kept @ [now])\<rparr>) now (h @ [(now, key)])"
    using le by (auto simp: rl_abs_def)
qed

lemma check_and_record_step:
  assumes abs: "rl_abs rl now h" and le: "now \<le> now'" and w: "0 \<le> rl_window rl"
    and pos: "0 < rl_max rl" and run: "check_and_record now' key rl = (ok, rl')"
  shows "ok = spec_admits (rl_max rl) (rl_window rl) h now' key"
    and "rl_abs rl' now' (if ok then h @ [(now', key)] else h)"
    and "rl_max rl' = rl_max rl" and "rl_window rl' = rl_window rl"
proof -
  define rl1 where "rl1 = (if now' - rl_last_sweep rl > rl_sweep_interval rl
      then rl\<lparr>rl_calls := rl_sweep (now' - rl_window rl) (rl_calls rl), rl_last_sweep := now'\<rparr>
      else rl)"
  define kept where
    "kept = prune (now' - rl_window rl) (case rl_calls rl1 key of None \<Rightarrow> [] | Some ts \<Rightarrow> ts)"
  have same [simp]: "rl_max rl1 = rl_max rl" "rl_window rl1 = rl_window rl"
    by (simp_all add: rl1_def)
  have abs1: "rl_abs rl1 now' h"
    using rl_abs_sweep [OF abs le] rl_abs_later [OF abs le] by (simp add: rl1_def)
  have kept: "kept = filter (\<lambda>s. now' - rl_window rl1 \<le> s) (key_times key h)"
    using rl_absD [OF abs1 order_refl, of key] by (simp add: kept_def)
  have "\<forall>x \<in> set h. fst x \<le> now'"
    using abs1 by (simp add: rl_abs_def)
  then have len: "length kept = length (in_window (rl_window rl) now' key h)"
    by (simp add: kept window_length)
  have out: "(ok, rl') =
      (if int (length kept) \<ge> rl_max rl
       then (False, rl1\<lparr>rl_calls := (rl_calls rl1)(key \<mapsto> kept)\<rparr>)
       else (True, rl1\<lparr>rl_calls := (rl_calls rl1)(key \<mapsto> kept @ [now'])\<rparr>))"
    using run pos unfolding check_and_record_def
    by (simp only: Let_def rl1_def [symmetric] same kept_def [symmetric]) (simp add: not_le)
  show "ok = spec_admits (rl_max rl) (rl_window rl) h now' key"
    using out len pos by (auto simp: spec_admits_def split: if_splits)
  show "rl_abs rl' now' (if ok then h @ [(now', key)] else h)"
    using out rl_abs_record [OF abs1 _ kept] w by (auto split: if_splits)
  show "rl_max rl' = rl_max rl" "rl_window rl' = rl_window rl"
    using out by (auto split: if_splits)
qed

lemma rl_run_refines:
  assumes "rl_abs rl now h" "0 \<le> rl_window rl" "0 < rl_max rl"
    and "sorted (map fst calls)" "\<forall>c \<in> set calls. now \<le> fst c"
  shows "rl_run rl calls = spec_run (rl_max rl) (rl_window rl) h calls"
  using assms
proof (induction calls arbitrary: rl now h)
  case (Cons call calls)
  obtain t key where call: "call = (t, key)" by (cases call)
  obtain ok rl' where run: "check_and_record t key rl = (ok, rl')"
    by (cases "check_and_record t key rl")
  have le: "now \<le> t" using Cons.prems(5) call by simp
  note step = check_and_record_step [OF Cons.prems(1) le Cons.prems(2,3) run]
  have "rl_run rl' calls = spec_run (rl_max rl') (rl_window rl')
      (if ok then h @ [(t, key)] else h) calls"
    using Cons.prems(2-4) call step(3,4)
    by (intro Cons.IH [OF step(2)]) auto
  then show ?case
    using run step call by (simp add: Let_def)
qed simp

subsection \<open>The window bound of the specification\<close>

definition window_bounded :: "int \<Rightarrow> rat \<Rightarrow> (rat \<times> rl_key) list \<Rightarrow> bool" where
  "window_bounded m w h \<longleftrightarrow> (\<forall>t key. int (length (in_window w t key h)) \<le> m)"

lemma in_window_snoc:
  "in_window w t key (h @ [(s, k)]) =
     in_window w t key h @ (if k = key \<and> t - w \<le> s \<and> s \<le> t then [(s, k)] else [])"
  by (simp add: in_window_def)

lemma length_filter_mono:
  "(\<And>x. x \<in> set xs \<Longrightarrow> P x \<Longrightarrow> Q x) \<Longrightarrow> length (filter P xs) \<le> length (filter Q xs)"
  by (induction xs) auto

lemma window_bounded_step:
  assumes "window_bounded m w h" "\<forall>x \<in> set h. fst x \<le> now" "0 < m"
    and "spec_admits m w h now key"
  shows "window_bounded m w (h @ [(now, key)])"
  unfolding window_bounded_def
proof (intro allI)
  fix t k
  show "int (length (in_window w t k (h @ [(now, key)]))) \<le> m"
  proof (cases "key = k \<and> t - w \<le> now \<and> now \<le> t")
    case True
    have "length (in_window w t k h) \<le> length (in_window w now k h)"
      unfolding in_window_def using True assms(2) by (intro length_filter_mono) auto
    then show ?thesis
      using True assms(3,4) by (simp add: in_window_snoc spec_admits_def)
  next
    case False
    then show ?thesis
      using assms(1) unfolding in_window_snoc window_bounded_def by (simp only: if_False append_Nil2)
  qed
qed

lemma spec_run_bounded:
  assumes "window_bounded m w h" "0 < m" "\<forall>x \<in> set h. \<forall>c \<in> set calls. fst x \<le> fst c"
    and "sorted (map fst calls)"
  shows "window_bounded m w (h @ admitted calls (spec_run m w h calls))"
  using assms
proof (induction calls arbitrary: h)
  case (Cons call calls)
  obtain t key where call: "call = (t, key)" by (cases call)
  define ok where "ok = spec_admits m w h t key"
  define h' where "h' = (if ok then h @ [(t, key)] else h)"
  have "window_bounded m w h'"
    using window_bounded_step [OF Cons.prems(1) _ Cons.prems(2)] Cons.prems(1,3) call
    by (auto simp: h'_def ok_def)
  moreover have "\<forall>x \<in> set h'. \<forall>c \<in> set calls. fst x \<le> fst c"
    using Cons.prems(3,4) call by (auto simp: h'_def)
  ultimately have "window_bounded m w (h' @ admitted calls (spec_run m w h' calls))"
    using Cons.prems(2,4) by (intro Cons.IH) auto
  then show ?case
    by (auto simp: call h'_def ok_def Let_def)
qed (simp add: window_bounded_def)

lemma new_limiter_refines:
  assumes "0 < m" "0 \<le> w" "sorted (map fst calls)" "\<forall>c \<in> set calls. start \<le> fst c"
  shows "rl_run (new_limiter m w start) calls = spec_run m w [] calls"
  using rl_run_refines [OF rl_abs_new [of m w start], of calls] assms by (simp add: new_limiter_def)

lemma run_window_bounded:
  assumes "0 < m" "0 \<le> w" "sorted (map fst calls)" "\<forall>c \<in> set calls. start \<le> fst c"
  shows "window_bounded m w (admitted calls (rl_run (new_limiter m w start) calls))"
  using spec_run_bounded [of m w "[]" calls] new_limiter_refines [OF assms] assms
  by (simp add: window_bounded_def in_window_def)

subsection \<open>Properties\<close>

text \<open>C29. The limiter that prunes and sweeps its deques answers every call as the limiter that never
  forgets an admitted call and counts those of the last window.\<close>

theorem limiter_refines_log:
  assumes "0 < m" "0 \<le> w" "sorted (map fst calls)" "\<forall>c \<in> set calls. start \<le> fst c"
  shows "rl_run (new_limiter m w start) calls = spec_run m w [] calls"
  using assms by (rule new_limiter_refines)

theorem limiter_refines_log_witness:
  "rl_run (new_limiter 2 60 0) [(0, (''u'', ''s'')), (1, (''u'', ''s'')), (30, (''u'', ''s'')), (400, (''u'', ''s''))]
     = spec_run 2 60 [] [(0, (''u'', ''s'')), (1, (''u'', ''s'')), (30, (''u'', ''s'')), (400, (''u'', ''s''))]"
  by (rule limiter_refines_log) simp_all

text \<open>C30. In every window of the configured length, ending at any time, at most the configured number of
  calls of one session is admitted.\<close>

theorem limiter_window_bound:
  assumes "0 < m" "0 \<le> w" "sorted (map fst calls)" "\<forall>c \<in> set calls. start \<le> fst c"
  shows "int (length (in_window w t key (admitted calls (rl_run (new_limiter m w start) calls)))) \<le> m"
  using run_window_bounded [OF assms] unfolding window_bounded_def by blast

theorem limiter_window_bound_witness:
  "int (length (in_window 60 60 (''u'', ''s'')
     (admitted [(0, (''u'', ''s'')), (1, (''u'', ''s'')), (30, (''u'', ''s''))]
       (rl_run (new_limiter 2 60 0) [(0, (''u'', ''s'')), (1, (''u'', ''s'')), (30, (''u'', ''s''))])))) \<le> 2"
  by (rule limiter_window_bound) simp_all

end
