(* ===== verification/Decisions.thy ===== *)
theory Decisions
  imports Prelude
begin

text \<open>
  \<^verbatim>\<open>intaris/decision.py\<close>: the ordering of outcomes, the clamps built on it, the
  priority-ordered decision matrix applied to a model evaluation, and the fast-path decisions.
  Strings the model returned (\<open>risk\<close>, \<open>decision\<close>) stay strings, as the matrix
  lower-cases and compares them; the final outcome is a datatype ordered by severity.
\<close>

subsection \<open>Outcomes, ordered from the strictest to the most permissive\<close>

datatype outcome = Deny | Escalate | Approve

fun outcome_rank :: "outcome \<Rightarrow> nat" where
  "outcome_rank Deny = 0"
| "outcome_rank Escalate = 1"
| "outcome_rank Approve = 2"

lemma outcome_rank_inject [simp]: "outcome_rank a = outcome_rank b \<longleftrightarrow> a = b"
  by (cases a; cases b) auto

instantiation outcome :: linorder
begin

definition less_eq_outcome :: "outcome \<Rightarrow> outcome \<Rightarrow> bool" where
  "less_eq_outcome a b \<longleftrightarrow> outcome_rank a \<le> outcome_rank b"

definition less_outcome :: "outcome \<Rightarrow> outcome \<Rightarrow> bool" where
  "less_outcome a b \<longleftrightarrow> outcome_rank a < outcome_rank b"

instance
  by standard (auto simp: less_eq_outcome_def less_outcome_def)

end

lemma outcome_order [simp]:
  "Deny \<le> x" "x \<le> Approve" "Deny < Escalate" "Escalate < Approve" "Deny < Approve"
  "x \<le> Deny \<longleftrightarrow> x = Deny" "Approve \<le> x \<longleftrightarrow> x = Approve"
  by (cases x; simp add: less_eq_outcome_def less_outcome_def)+

text \<open>\<open>min\<close> and \<open>max\<close> with the key of the source return the first argument on ties.\<close>

definition clamp_outcome :: "outcome \<Rightarrow> outcome option \<Rightarrow> outcome" where
  "clamp_outcome actual minimum =
     (case minimum of None \<Rightarrow> actual
      | Some m \<Rightarrow> if outcome_rank m < outcome_rank actual then m else actual)"

definition cap_outcome :: "outcome \<Rightarrow> outcome option \<Rightarrow> outcome" where
  "cap_outcome actual maximum =
     (case maximum of None \<Rightarrow> actual
      | Some m \<Rightarrow> if outcome_rank actual < outcome_rank m then m else actual)"

lemma clamp_outcome_min [simp]: "clamp_outcome a (Some m) = min a m"
  by (auto simp: clamp_outcome_def min_def less_eq_outcome_def)

lemma cap_outcome_max [simp]: "cap_outcome a (Some m) = max a m"
  by (auto simp: cap_outcome_def max_def less_eq_outcome_def)

lemma clamp_outcome_None [simp]: "clamp_outcome a None = a"
  by (simp add: clamp_outcome_def)

lemma cap_outcome_None [simp]: "cap_outcome a None = a"
  by (simp add: cap_outcome_def)

subsection \<open>The decision matrix\<close>

record evaluation_result =
  er_aligned :: bool
  er_risk :: string
  er_reasoning :: string
  er_decision :: string

record final_decision =
  d_outcome :: outcome
  d_risk :: string
  d_reasoning :: string
  d_path :: string

definition is_approved :: "final_decision \<Rightarrow> bool" where
  "is_approved d \<longleftrightarrow> d_outcome d = Approve"

text \<open>The em dash of the messages, in UTF-8.\<close>

definition em_dash :: string where
  "em_dash = [CHR 0xE2, CHR 0x80, CHR 0x94]"

abbreviation decide :: "outcome \<Rightarrow> string \<Rightarrow> string \<Rightarrow> string \<Rightarrow> final_decision" where
  "decide o' r why p \<equiv> \<lparr>d_outcome = o', d_risk = r, d_reasoning = why, d_path = p\<rparr>"

definition apply_decision_matrix :: "evaluation_result \<Rightarrow> final_decision" where
  "apply_decision_matrix e =
     (let r = py_lower (er_risk e); why = er_reasoning e in
      if r = ''critical'' then
        decide Deny r (''Critical risk '' @ em_dash @ '' auto-denied. '' @ why) ''llm''
      else if er_decision e = ''deny'' then
        (if r \<in> {''high'', ''critical''} then decide Deny r why ''llm''
         else decide Escalate r
           (''LLM recommended deny but risk is '' @ r @ '' '' @ em_dash
             @ '' escalating for review. '' @ why) ''llm'')
      else if er_aligned e \<and> r \<in> {''low'', ''medium''} then decide Approve r why ''llm''
      else if er_aligned e \<and> r = ''high'' then
        decide Escalate r (''High risk '' @ em_dash @ '' requires human review. '' @ why) ''llm''
      else if \<not> er_aligned e then
        decide Escalate r (''Not aligned with intention. '' @ why) ''llm''
      else
        decide Escalate r
          (''Unexpected evaluation state '' @ em_dash @ '' escalating. '' @ why) ''llm'')"

datatype decision_error = InvalidFastPath string

definition make_fast_decision :: "string \<Rightarrow> string \<Rightarrow> decision_error + final_decision" where
  "make_fast_decision classification why =
     (if classification = ''read'' then Inr (decide Approve ''low'' why ''fast'')
      else if classification = ''critical'' then Inr (decide Deny ''critical'' why ''critical'')
      else if classification = ''escalate'' then Inr (decide Escalate ''high'' why ''fast'')
      else Inl (InvalidFastPath classification))"

subsection \<open>What the matrix decides\<close>

lemma matrix_approves_iff:
  "d_outcome (apply_decision_matrix e) = Approve \<longleftrightarrow>
     er_aligned e \<and> er_decision e \<noteq> ''deny'' \<and> py_lower (er_risk e) \<in> {''low'', ''medium''}"
  by (auto simp: apply_decision_matrix_def Let_def)

lemma matrix_denies_iff:
  "d_outcome (apply_decision_matrix e) = Deny \<longleftrightarrow>
     py_lower (er_risk e) = ''critical'' \<or> er_decision e = ''deny'' \<and> py_lower (er_risk e) = ''high''"
  by (auto simp: apply_decision_matrix_def Let_def)

lemma matrix_keeps_risk [simp]:
  "d_risk (apply_decision_matrix e) = py_lower (er_risk e)"
  "d_path (apply_decision_matrix e) = ''llm''"
  by (auto simp: apply_decision_matrix_def Let_def)

text \<open>The severity order of the four risk labels the matrix knows.\<close>

definition risk_level :: "string \<Rightarrow> nat option" where
  "risk_level r = map_of [(''low'', 0), (''medium'', 1), (''high'', 2), (''critical'', 3)] (py_lower r)"

lemma risk_level_cases:
  assumes "risk_level r = Some n"
  shows "(py_lower r, n) \<in> {(''low'', 0), (''medium'', 1), (''high'', 2), (''critical'', 3)}"
  using assms by (auto simp: risk_level_def split: if_splits)

lemma matrix_monotone_risk:
  assumes "risk_level (er_risk e) = Some m" "risk_level r' = Some n" "m \<le> n"
  shows "d_outcome (apply_decision_matrix (e\<lparr>er_risk := r'\<rparr>)) \<le> d_outcome (apply_decision_matrix e)"
  using risk_level_cases[OF assms(1)] risk_level_cases[OF assms(2)] assms(3)
  by (auto simp: apply_decision_matrix_def Let_def)

subsection \<open>Properties\<close>

text \<open>The decision matrix decides by three questions: it approves exactly the aligned calls of low or
  medium risk that the model did not ask to deny, denies exactly the critical ones and the high ones
  the model asked to deny, and escalates the rest; the risk is passed on normalised.\<close>

theorem matrix_decides:
  "d_outcome (apply_decision_matrix e) =
     (if py_lower (er_risk e) = ''critical''
         \<or> er_decision e = ''deny'' \<and> py_lower (er_risk e) = ''high'' then Deny
      else if er_aligned e \<and> er_decision e \<noteq> ''deny'' \<and> py_lower (er_risk e) \<in> {''low'', ''medium''}
      then Approve else Escalate)
   \<and> d_risk (apply_decision_matrix e) = py_lower (er_risk e)"
  using matrix_approves_iff [of e] matrix_denies_iff [of e]
  by (cases "d_outcome (apply_decision_matrix e)") auto

text \<open>Raising the risk level never makes the outcome more permissive.\<close>

theorem matrix_monotone:
  assumes "risk_level (er_risk e) = Some m" "risk_level r' = Some n" "m \<le> n"
  shows "d_outcome (apply_decision_matrix (e\<lparr>er_risk := r'\<rparr>)) \<le> d_outcome (apply_decision_matrix e)"
  using assms by (rule matrix_monotone_risk)

theorem matrix_monotone_witness:
  "d_outcome (apply_decision_matrix (\<lparr>er_aligned = True, er_risk = ''Low'', er_reasoning = [],
       er_decision = ''approve''\<rparr>\<lparr>er_risk := ''HIGH''\<rparr>))
     \<le> d_outcome (apply_decision_matrix \<lparr>er_aligned = True, er_risk = ''Low'', er_reasoning = [],
       er_decision = ''approve''\<rparr>)"
  by (rule matrix_monotone [of _ 0 _ 2]) code_simp+

end
