(* ===== verification/Database.thy ===== *)
theory Database
  imports Prelude
begin

text \<open>
  The part of the database of \<^verbatim>\<open>intaris/db.py\<close> that the stores below work on: the tables
  \<^verbatim>\<open>sessions\<close>, \<^verbatim>\<open>event_spool_reservations\<close> and \<^verbatim>\<open>analysis_tasks\<close>
  as lists of rows, and the SQL statements the stores use as list functions.  A \<open>with
  self._db.cursor()\<close> block is one transaction, hence one step; a raised exception rolls it back.
  Timestamps are microseconds since the epoch: the ISO texts the code stores compare as the times do.
\<close>

subsection \<open>Statements\<close>

definition update_rows :: "('r \<Rightarrow> bool) \<Rightarrow> ('r \<Rightarrow> 'r) \<Rightarrow> 'r list \<Rightarrow> 'r list" where
  "update_rows P f rs = map (\<lambda>r. if P r then f r else r) rs"

definition row_count :: "('r \<Rightarrow> bool) \<Rightarrow> 'r list \<Rightarrow> nat" where
  "row_count P rs = length (filter P rs)"

definition exists_row :: "('r \<Rightarrow> bool) \<Rightarrow> 'r list \<Rightarrow> bool" where
  "exists_row P rs \<longleftrightarrow> list_ex P rs"

definition coalesce :: "'v option \<Rightarrow> 'v \<Rightarrow> 'v" where
  "coalesce v d = (case v of None \<Rightarrow> d | Some x \<Rightarrow> x)"

definition min_of :: "int list \<Rightarrow> int option" where
  "min_of xs = (case xs of [] \<Rightarrow> None | _ \<Rightarrow> Some (Min (set xs)))"

named_theorems sql \<open>membership and counting in updated tables\<close>

lemma set_update_rows [sql]: "set (update_rows P f rs) = (\<lambda>r. if P r then f r else r) ` set rs"
  by (simp add: update_rows_def)

lemma length_update_rows [simp]: "length (update_rows P f rs) = length rs"
  by (simp add: update_rows_def)

lemma update_rows_id: "(\<And>r. r \<in> set rs \<Longrightarrow> \<not> P r) \<Longrightarrow> update_rows P f rs = rs"
  unfolding update_rows_def by (induction rs) auto

lemma update_rows_key:
  assumes "\<And>r. key (f r) = key r"
  shows "map key (update_rows P f rs) = map key rs"
  using assms by (simp add: update_rows_def)

lemma row_count_zero [sql]: "row_count P rs = 0 \<longleftrightarrow> (\<forall>r \<in> set rs. \<not> P r)"
  by (simp add: row_count_def filter_empty_conv)

lemma row_count_pos [sql]: "0 < row_count P rs \<longleftrightarrow> (\<exists>r \<in> set rs. P r)"
  by (auto simp: row_count_def filter_empty_conv)

lemma exists_row_iff [sql]: "exists_row P rs \<longleftrightarrow> (\<exists>r \<in> set rs. P r)"
  by (simp add: exists_row_def list_ex_iff)

lemma coalesce_simps [simp]: "coalesce None d = d" "coalesce (Some x) d = x"
  by (simp_all add: coalesce_def)

lemma min_of_None [simp]: "min_of xs = None \<longleftrightarrow> xs = []"
  by (cases xs) (simp_all add: min_of_def)

lemma min_of_Some_iff: "min_of xs = Some m \<longleftrightarrow> m \<in> set xs \<and> (\<forall>x \<in> set xs. m \<le> x)"
proof (cases "xs = []")
  case False
  then have "min_of xs = Some (Min (set xs))"
    by (cases xs) (simp_all add: min_of_def)
  with False show ?thesis
    by (metis List.finite_set Min_eq_iff option.inject set_empty)
qed (simp add: min_of_def)

lemma min_of_above: "(case min_of xs of None \<Rightarrow> True | Some m \<Rightarrow> b < m) \<longleftrightarrow> (\<forall>x \<in> set xs. b < x)"
proof (cases "min_of xs")
  case (Some m)
  then have "m \<in> set xs" "\<forall>x \<in> set xs. m \<le> x"
    using min_of_Some_iff by blast+
  then have "(\<forall>x \<in> set xs. b < x) \<longleftrightarrow> b < m" by force
  with Some show ?thesis by simp
next
  case None
  then have "xs = []" by simp
  then show ?thesis by (simp add: min_of_def)
qed

text \<open>A row that a key determines.\<close>

lemma unique_row:
  assumes "distinct (map key rs)" "r \<in> set rs" "r' \<in> set rs" "key r = key r'"
  shows "r = r'"
  using assms by (metis distinct_map inj_onD)

lemma row_count_unique:
  assumes "distinct (map key rs)" "\<And>r. P r \<Longrightarrow> key r = k"
  shows "row_count P rs \<le> 1"
proof -
  have "filter P rs = [] \<or> (\<exists>r. filter P rs = [r])"
  proof (cases "filter P rs")
    case (Cons a as)
    have "as = []"
    proof (rule ccontr)
      assume "as \<noteq> []"
      then obtain b bs where "as = b # bs" by (cases as) auto
      with Cons have f: "filter P rs = a # b # bs" by simp
      have ab: "a \<in> set (filter P rs)" "b \<in> set (filter P rs)"
        unfolding f by simp_all
      have "distinct (map key (filter P rs))"
        using assms(1) by (simp add: distinct_map_filter)
      moreover have "P a" "P b"
        using ab by simp_all
      ultimately show False
        using f assms(2) by simp
    qed
    with Cons show ?thesis by simp
  qed simp
  then show ?thesis
    by (auto simp: row_count_def)
qed

subsection \<open>Rows\<close>

record session =
  s_user :: string
  s_id :: string
  s_intention :: string
  s_details :: pyval
  s_policy :: "pydict option"
  s_status :: string
  s_status_reason :: "string option"
  s_total_calls :: int
  s_approved_count :: int
  s_denied_count :: int
  s_escalated_count :: int
  s_last_activity :: "int option"
  s_parent :: "string option"
  s_agent :: "string option"
  s_title :: "string option"
  s_created :: int
  s_updated :: int
  s_alignment_state :: string
  s_alignment_reason :: "string option"
  s_alignment_overridden :: bool
  s_state_revision :: int
  s_policy_revision :: int
  s_policy_source :: "pydict option"
  s_parent_policy_hash :: "string option"
  s_intention_source :: string
  s_intention_profile :: pyval
  s_last_event_seq :: "int option"
  s_latest_user_seq :: "int option"
  s_user_observed :: bool
  s_latest_user_evidence :: pyval
  s_analytics_enabled :: bool
  s_analytics_revision :: int
  s_guardrails_enabled :: bool
  s_guardrails_revision :: int
  s_summary_count :: "int option"
  s_last_summary_attempt :: "int option"

record reservation =
  sr_user :: string
  sr_session :: string
  sr_batch :: string
  sr_digest :: string
  sr_spool :: string
  sr_ts :: string
  sr_first :: int
  sr_last :: int
  sr_archived :: int

datatype task_type = SummaryTask | AnalysisTask | IntentionTask

datatype task_status = TPending | TRunning | TCompleted | TFailed | TCancelled

record task =
  t_id :: string
  t_type :: task_type
  t_user :: string
  t_session :: "string option"
  t_agent :: "string option"
  t_status :: task_status
  t_priority :: int
  t_payload :: "pydict option"
  t_result :: "pydict option"
  t_retry_count :: int
  t_max_retries :: int
  t_next_attempt :: int
  t_created :: int
  t_started :: "int option"
  t_heartbeat :: "int option"
  t_token :: "string option"
  t_completed :: "int option"

record database =
  db_sessions :: "session list"
  db_reservations :: "reservation list"
  db_tasks :: "task list"



text \<open>A row with the defaults of the schema.\<close>

definition new_session :: "string \<Rightarrow> string \<Rightarrow> string \<Rightarrow> int \<Rightarrow> session" where
  "new_session user sid intention now =
     \<lparr>s_user = user, s_id = sid, s_intention = intention, s_details = VNone, s_policy = None,
      s_status = ''active'', s_status_reason = None, s_total_calls = 0, s_approved_count = 0,
      s_denied_count = 0, s_escalated_count = 0, s_last_activity = Some now, s_parent = None,
      s_agent = None, s_title = None, s_created = now, s_updated = now,
      s_alignment_state = ''ready'', s_alignment_reason = None, s_alignment_overridden = False,
      s_state_revision = 1, s_policy_revision = 1, s_policy_source = None,
      s_parent_policy_hash = None, s_intention_source = ''initial'', s_intention_profile = VNone,
      s_last_event_seq = Some 0, s_latest_user_seq = None, s_user_observed = False,
      s_latest_user_evidence = VNone, s_analytics_enabled = True, s_analytics_revision = 1,
      s_guardrails_enabled = True, s_guardrails_revision = 1, s_summary_count = Some 0,
      s_last_summary_attempt = None\<rparr>"

definition session_key :: "session \<Rightarrow> string \<times> string" where
  "session_key s = (s_user s, s_id s)"

definition is_session :: "string \<Rightarrow> string \<Rightarrow> session \<Rightarrow> bool" where
  "is_session user sid s \<longleftrightarrow> s_user s = user \<and> s_id s = sid"

definition find_session :: "database \<Rightarrow> string \<Rightarrow> string \<Rightarrow> session option" where
  "find_session db user sid = List.find (is_session user sid) (db_sessions db)"

definition update_sessions ::
    "(session \<Rightarrow> bool) \<Rightarrow> (session \<Rightarrow> session) \<Rightarrow> database \<Rightarrow> database" where
  "update_sessions P f db = db\<lparr>db_sessions := update_rows P f (db_sessions db)\<rparr>"

definition update_tasks :: "(task \<Rightarrow> bool) \<Rightarrow> (task \<Rightarrow> task) \<Rightarrow> database \<Rightarrow> database" where
  "update_tasks P f db = db\<lparr>db_tasks := update_rows P f (db_tasks db)\<rparr>"

text \<open>The primary keys.\<close>

definition keys_ok :: "database \<Rightarrow> bool" where
  "keys_ok db \<longleftrightarrow>
     distinct (map session_key (db_sessions db)) \<and> distinct (map t_id (db_tasks db))
     \<and> distinct (map (\<lambda>r. (sr_user r, sr_session r, sr_batch r)) (db_reservations db))"

lemma update_sessions_simps [simp]:
  "db_sessions (update_sessions P f db) = update_rows P f (db_sessions db)"
  "db_tasks (update_sessions P f db) = db_tasks db"
  "db_reservations (update_sessions P f db) = db_reservations db"
  by (simp_all add: update_sessions_def)

lemma update_tasks_simps [simp]:
  "db_tasks (update_tasks P f db) = update_rows P f (db_tasks db)"
  "db_sessions (update_tasks P f db) = db_sessions db"
  "db_reservations (update_tasks P f db) = db_reservations db"
  by (simp_all add: update_tasks_def)

lemma keys_ok_update_tasks [invariant_intros]:
  "keys_ok db \<Longrightarrow> (\<And>t. t_id (f t) = t_id t) \<Longrightarrow> keys_ok (update_tasks P f db)"
  by (simp add: keys_ok_def update_rows_key [where key = t_id])

lemma keys_ok_update_sessions [invariant_intros]:
  "keys_ok db \<Longrightarrow> (\<And>s. session_key (f s) = session_key s) \<Longrightarrow> keys_ok (update_sessions P f db)"
  by (simp add: keys_ok_def update_rows_key [where key = session_key])

lemma find_session_Some:
  "find_session db user sid = Some s \<Longrightarrow> s \<in> set (db_sessions db) \<and> s_user s = user \<and> s_id s = sid"
  by (auto simp: find_session_def find_Some_iff is_session_def)

lemma find_session_unique:
  assumes "keys_ok db" "s \<in> set (db_sessions db)"
  shows "find_session db (s_user s) (s_id s) = Some s"
proof -
  obtain s' where s': "find_session db (s_user s) (s_id s) = Some s'"
    using assms(2) by (cases "find_session db (s_user s) (s_id s)")
      (auto simp: find_session_def find_None_iff is_session_def)
  then have "session_key s' = session_key s" "s' \<in> set (db_sessions db)"
    by (auto dest: find_session_Some simp: session_key_def)
  then show ?thesis
    using s' assms unique_row [of session_key "db_sessions db" s' s] by (simp add: keys_ok_def)
qed

lemma find_map_key:
  "(\<And>r. P (f r) = P r) \<Longrightarrow> List.find P (map f rs) = map_option f (List.find P rs)"
  by (induction rs) auto

lemma find_append_case:
  "List.find P (xs @ ys) = (case List.find P xs of None \<Rightarrow> List.find P ys | Some x \<Rightarrow> Some x)"
  by (induction xs) auto

lemma find_session_update:
  assumes "\<And>s. session_key (f s) = session_key s"
  shows "find_session (update_sessions P f db) user sid =
    map_option (\<lambda>s. if P s then f s else s) (find_session db user sid)"
  unfolding find_session_def update_sessions_simps update_rows_def
  using assms by (intro find_map_key) (simp add: is_session_def session_key_def)

end
