(* ===== verification/Policy_Inheritance.thy ===== *)
theory Policy_Inheritance
  imports Decisions Database
begin

text \<open>
  \<^verbatim>\<open>intaris/policy_inheritance.py\<close>: how the policy of a child session is composed from its
  parent's and its own, and how the chain of authorizing ancestors is fenced.  The content hash
  \<^verbatim>\<open>digest\<close> of \<^verbatim>\<open>intaris/hybrid.py\<close> (SHA-256 of the canonical JSON text) is an
  argument.  Policies are dictionaries with the keys of \<^verbatim>\<open>SessionPolicy\<close>, whose list fields
  hold lists where they are present.
\<close>

datatype policy_error =
    HybridError (pe_code: string) (pe_status: nat) (pe_retryable: bool)
  | MissingKey string

subsection \<open>Equality of values\<close>

text \<open>
  Python's \<^verbatim>\<open>==\<close>: dictionaries are compared by key whatever the order of their keys, and True
  and False are the numbers 1 and 0.
\<close>

fun py_equal :: "pyval \<Rightarrow> pyval \<Rightarrow> bool"
  and py_equal_items :: "pyval list \<Rightarrow> pyval list \<Rightarrow> bool"
  and py_equal_entries :: "(string \<times> pyval) list \<Rightarrow> (string \<times> pyval) list \<Rightarrow> bool" where
  "py_equal (VBool b) (VNum n) \<longleftrightarrow> n = (if b then 1 else 0)"
| "py_equal (VNum n) (VBool b) \<longleftrightarrow> n = (if b then 1 else 0)"
| "py_equal (VList xs) (VList ys) \<longleftrightarrow> py_equal_items xs ys"
| "py_equal (VDict d) (VDict e) \<longleftrightarrow> length d = length e \<and> py_equal_entries d e"
| "py_equal v w \<longleftrightarrow> v = w"
| "py_equal_items [] ys \<longleftrightarrow> ys = []"
| "py_equal_items (x # xs) ys \<longleftrightarrow> (case ys of [] \<Rightarrow> False | y # ys' \<Rightarrow> py_equal x y \<and> py_equal_items xs ys')"
| "py_equal_entries [] e \<longleftrightarrow> True"
| "py_equal_entries ((k, v) # d) e \<longleftrightarrow>
     (case map_of e k of None \<Rightarrow> False | Some w \<Rightarrow> py_equal v w) \<and> py_equal_entries d e"

subsection \<open>Composition\<close>

definition source_policy :: "pydict option \<Rightarrow> pydict" where
  "source_policy policy =
     filter (\<lambda>(key, _). key \<notin> {''active_policy'', ''policy_hash''})
       (case policy of None \<Rightarrow> [] | Some p \<Rightarrow> p)"

definition deny_fields :: "string list" where
  "deny_fields = [''deny_tools'', ''deny_commands'', ''deny_paths'', ''deny_policies'']"

definition allow_fields :: "string list" where
  "allow_fields = [''allow_tools'', ''allow_commands'', ''allow_paths'']"

definition inherit_interaction :: "pydict \<Rightarrow> pydict \<Rightarrow> pydict \<Rightarrow> pydict" where
  "inherit_interaction parent child result =
     (if dget parent ''interaction_mode'' \<noteq> VStr ''none''
         \<and> dget child ''interaction_mode'' = VStr ''none''
      then dset result ''interaction_mode'' (dget child ''interaction_mode'') else result)"

definition append_new :: "pyval \<Rightarrow> pyval list \<Rightarrow> pyval list" where
  "append_new v vs = (if v \<in> set vs then vs else vs @ [v])"

definition inherit_deny :: "pydict \<Rightarrow> pydict \<Rightarrow> string \<Rightarrow> pydict \<Rightarrow> pydict" where
  "inherit_deny parent child key result =
     (let values = fold append_new (items_of (dget child key)) (items_of (dget parent key)) in
      if values \<noteq> [] then dset result key (VList values) else result)"

definition inherit_allow :: "pydict \<Rightarrow> pydict \<Rightarrow> string \<Rightarrow> pydict \<Rightarrow> pydict" where
  "inherit_allow parent child key result =
     (if dhas child key
      then dset result key (VList (filter (\<lambda>v. v \<in> set (items_of (dget child key)))
             (items_of (dget parent key))))
      else result)"

definition extra_prose :: "pydict \<Rightarrow> pydict \<Rightarrow> pyval list" where
  "extra_prose parent child =
     filter (\<lambda>v. v \<notin> set (items_of (dget parent ''allow_policies'')))
       (items_of (dget child ''allow_policies''))"

definition set_rule_id :: "pyval \<Rightarrow> string \<Rightarrow> pyval" where
  "set_rule_id r identifier = VDict (dset (entries_of r) ''id'' (VStr identifier))"

definition invalid_delegation :: policy_error where
  "invalid_delegation = HybridError ''invalid_delegated_policy'' 422 False"

fun add_rules ::
    "(pyval \<Rightarrow> string) \<Rightarrow> pyval list \<Rightarrow> pyval list \<Rightarrow> pyval list \<Rightarrow> policy_error + pyval list" where
  "add_rules digest [] rules ids = Inr rules"
| "add_rules digest (r # rs) rules ids =
     (if list_ex (py_equal r) rules then add_rules digest rs rules ids
      else if vget r ''effect'' = VStr ''allow'' then Inl invalid_delegation
      else if \<not> dhas (entries_of r) ''id'' then Inl (MissingKey ''id'')
      else let r' = (if vget r ''id'' \<in> set ids
                     then set_rule_id r (''child.'' @ digest r) else r)
           in add_rules digest rs (rules @ [r']) (ids @ [vget r' ''id'']))"

definition inherit_rules ::
    "(pyval \<Rightarrow> string) \<Rightarrow> pydict \<Rightarrow> pydict \<Rightarrow> policy_error + pyval list" where
  "inherit_rules digest parent child =
     (let rules = items_of (dget parent ''rules'') in
      if \<not> list_all (\<lambda>r. dhas (entries_of r) ''id'') rules then Inl (MissingKey ''id'')
      else add_rules digest (items_of (dget child ''rules'')) rules (map (\<lambda>r. vget r ''id'') rules))"

fun parse_outcome :: "pyval \<Rightarrow> outcome option" where
  "parse_outcome (VStr s) =
     (if s = ''deny'' then Some Deny else if s = ''escalate'' then Some Escalate
      else if s = ''approve'' then Some Approve else None)"
| "parse_outcome _ = None"

fun outcome_text :: "outcome \<Rightarrow> string" where
  "outcome_text Deny = ''deny''"
| "outcome_text Escalate = ''escalate''"
| "outcome_text Approve = ''approve''"

text \<open>\<open>clamp_outcome\<close> on the stored texts; an unknown text is a \<open>KeyError\<close>.\<close>

definition clamp_text :: "pyval \<Rightarrow> pyval \<Rightarrow> policy_error + pyval" where
  "clamp_text actual minimum =
     (if minimum = VNone then Inr actual
      else case (parse_outcome actual, parse_outcome minimum) of
             (Some a, Some m) \<Rightarrow> Inr (VStr (outcome_text (clamp_outcome a (Some m))))
           | _ \<Rightarrow> Inl (MissingKey ''outcome''))"

definition inherit_minimum :: "pydict \<Rightarrow> pydict \<Rightarrow> pydict \<Rightarrow> policy_error + pydict" where
  "inherit_minimum parent child result =
     (if dget child ''minimum_outcome'' \<noteq> VNone
      then bindE (clamp_text (dget child ''minimum_outcome'') (dget parent ''minimum_outcome''))
             (\<lambda>v. Inr (dset result ''minimum_outcome'' v))
      else Inr result)"

definition inherit_maximum :: "pydict \<Rightarrow> pydict \<Rightarrow> pydict \<Rightarrow> policy_error + pydict" where
  "inherit_maximum parent child result =
     (if dget child ''maximum_outcome'' \<noteq> VNone
      then bindE (clamp_text
               (if truthy (dget parent ''maximum_outcome'') then dget parent ''maximum_outcome''
                else VStr ''deny'') (dget child ''maximum_outcome''))
             (\<lambda>v. Inr (dset result ''maximum_outcome'' v))
      else Inr result)"

definition default_decisions :: pyval where
  "default_decisions = VStrs [''approve'', ''deny'', ''defer'']"

definition inherit_decisions :: "pydict \<Rightarrow> pydict \<Rightarrow> policy_error + pydict" where
  "inherit_decisions local_judge judge =
     (if dhas local_judge ''allowed_decisions''
      then let allowed = filter
                 (\<lambda>v. v \<in> set (items_of (dget_default judge ''allowed_decisions'' default_decisions)))
                 (items_of (dget local_judge ''allowed_decisions''))
           in if allowed = [] then Inl invalid_delegation
              else Inr (dset judge ''allowed_decisions'' (VList allowed))
      else Inr judge)"

fun judge_outcome :: "pyval \<Rightarrow> outcome option" where
  "judge_outcome (VStr s) =
     (if s = ''approve'' then Some Approve else if s = ''deny'' then Some Deny
      else if s = ''defer'' then Some Escalate else None)"
| "judge_outcome _ = None"

definition inherit_uncertain :: "pydict \<Rightarrow> pydict \<Rightarrow> policy_error + pydict" where
  "inherit_uncertain local_judge judge =
     (if dhas local_judge ''on_uncertain''
      then (case judge_outcome (dget local_judge ''on_uncertain'') of
              None \<Rightarrow> Inl (MissingKey ''on_uncertain'')
            | Some own \<Rightarrow>
                let o' = clamp_outcome own (judge_outcome (dget judge ''on_uncertain''))
                in Inr (dset judge ''on_uncertain''
                     (VStr (if o' = Escalate then ''defer'' else outcome_text o'))))
      else Inr judge)"

fun inherit_settings :: "pydict \<Rightarrow> pydict \<Rightarrow> policy_error + pydict" where
  "inherit_settings [] judge = Inr judge"
| "inherit_settings ((key, v) # rest) judge =
     (if key \<in> {''allowed_decisions'', ''on_uncertain'', ''allow_human_escalation''}
      then inherit_settings rest judge
      else if dhas judge key \<and> \<not> py_equal (dget judge key) v then Inl invalid_delegation
      else inherit_settings rest (dset judge key v))"

definition inherit_judge :: "pydict \<Rightarrow> pydict \<Rightarrow> policy_error + pydict" where
  "inherit_judge parent child =
     (let own = entries_of (dget child ''judge'') in
      bindE (inherit_decisions own (entries_of (dget parent ''judge''))) (\<lambda>j1.
      bindE (inherit_uncertain own j1) (\<lambda>j2.
      inherit_settings own
        (if dget own ''allow_human_escalation'' = VBool False
         then dset j2 ''allow_human_escalation'' (VBool False) else j2))))"

definition composed_lists :: "pydict \<Rightarrow> pydict \<Rightarrow> pydict" where
  "composed_lists parent child =
     fold (inherit_allow parent child) allow_fields
       (fold (inherit_deny parent child) deny_fields (inherit_interaction parent child parent))"

definition with_rules :: "pyval list \<Rightarrow> pydict \<Rightarrow> pydict" where
  "with_rules rules result = (if rules \<noteq> [] then dset result ''rules'' (VList rules) else result)"

definition inherit_read_only :: "pydict \<Rightarrow> pydict \<Rightarrow> pydict \<Rightarrow> pydict" where
  "inherit_read_only parent child result =
     (if truthy (dget parent ''read_only_required'') \<or> truthy (dget child ''read_only_required'')
      then dset result ''read_only_required'' (VBool True) else result)"

definition inherit_gate :: "pydict \<Rightarrow> pydict \<Rightarrow> pydict \<Rightarrow> pydict" where
  "inherit_gate parent child result =
     (if dget parent ''intention_gate'' = VStr ''jev'' \<or> dget child ''intention_gate'' = VStr ''jev''
      then dset result ''intention_gate'' (VStr ''jev'') else result)"

definition with_judge :: "pydict \<Rightarrow> pydict \<Rightarrow> pydict" where
  "with_judge judge result = (if judge \<noteq> [] then dset result ''judge'' (VDict judge) else result)"

definition inherit_policy ::
    "(pyval \<Rightarrow> string) \<Rightarrow> pydict option \<Rightarrow> pydict option \<Rightarrow> policy_error + pydict" where
  "inherit_policy digest parent_policy child_policy =
     (let parent = source_policy parent_policy; child = source_policy child_policy in
      if extra_prose parent child \<noteq> [] then Inl invalid_delegation
      else
        bindE (inherit_rules digest parent child) (\<lambda>rules.
        bindE (inherit_minimum parent child
                 (inherit_read_only parent child (with_rules rules (composed_lists parent child)))) (\<lambda>r1.
        bindE (inherit_maximum parent child r1) (\<lambda>r2.
        bindE (inherit_judge parent child) (\<lambda>judge.
        Inr (with_judge judge (inherit_gate parent child r2)))))))"

subsection \<open>The authorization chain\<close>

definition opt_policy :: "pydict option \<Rightarrow> pyval" where
  "opt_policy p = (case p of None \<Rightarrow> VDict [] | Some d \<Rightarrow> VDict d)"

definition authorization_identity :: "(pyval \<Rightarrow> string) \<Rightarrow> session \<Rightarrow> string" where
  "authorization_identity digest s =
     digest (VDict
       [(''policy'', opt_policy (s_policy s)),
        (''policy_revision'', VNum (of_int (s_policy_revision s))),
        (''state_revision'', VNum (of_int (s_state_revision s))),
        (''status'', VStr (s_status s)),
        (''parent_policy_hash'', opt_str (s_parent_policy_hash s))])"

definition parent_of :: "session \<Rightarrow> string option" where
  "parent_of s = (case s_parent s of Some p \<Rightarrow> if p = [] then None else Some p | None \<Rightarrow> None)"

definition inactive_statuses :: "string set" where
  "inactive_statuses = {''suspended'', ''terminated''}"

definition chain_error :: "bool \<Rightarrow> policy_error" where
  "chain_error retryable = HybridError ''policy_state_changed'' 409 retryable"

text \<open>The first walk collects the ancestors, nearest first; it refuses cycles and chains over 32.\<close>

function ancestor_chain ::
    "database \<Rightarrow> string \<Rightarrow> session \<Rightarrow> string list \<Rightarrow> policy_error + session list" where
  "ancestor_chain db user current seen =
     (case parent_of current of
        None \<Rightarrow> Inr []
      | Some p \<Rightarrow>
          if p \<in> set seen \<or> length seen \<ge> 32 then Inl (chain_error False)
          else (case find_session db user p of
                  None \<Rightarrow> Inl (chain_error True)
                | Some parent \<Rightarrow>
                    bindE (ancestor_chain db user parent (p # seen)) (\<lambda>ps. Inr (parent # ps))))"
  by pat_completeness auto
termination
  by (relation "measure (\<lambda>(db, user, current, seen). 32 - length seen)") auto

text \<open>The second walk locks the rows root first and re-reads them; another writer may have come between.\<close>

fun lock_chain :: "database \<Rightarrow> string \<Rightarrow> session list \<Rightarrow> policy_error + session list" where
  "lock_chain db user [] = Inr []"
| "lock_chain db user (parent # ps) =
     bindE (lock_chain db user ps) (\<lambda>locked.
       case find_session db user (s_id parent) of
         Some row \<Rightarrow> if s_parent row = s_parent parent then Inr (row # locked)
                     else Inl (chain_error True)
       | None \<Rightarrow> Inl (chain_error True))"

fun check_links :: "(pyval \<Rightarrow> string) \<Rightarrow> session \<Rightarrow> session list \<Rightarrow> policy_error + unit" where
  "check_links digest current [] = Inr ()"
| "check_links digest current (parent # ps) =
     (if s_status parent \<in> inactive_statuses
      then Inl (HybridError ''parent_session_inactive'' 403 False)
      else if s_parent_policy_hash current \<noteq> Some (authorization_identity digest parent)
      then Inl (chain_error True)
      else check_links digest parent ps)"

definition validate_parent_chain ::
    "(pyval \<Rightarrow> string) \<Rightarrow> database \<Rightarrow> database \<Rightarrow> session \<Rightarrow> policy_error + unit" where
  "validate_parent_chain digest db db_locked s =
     bindE (ancestor_chain db (s_user s) s []) (\<lambda>chain.
     bindE (lock_chain db_locked (s_user s) chain) (check_links digest s))"

subsection \<open>What each stage writes\<close>

lemma dget_inherit_interaction:
  "k \<noteq> ''interaction_mode'' \<Longrightarrow> dget (inherit_interaction parent child result) k = dget result k"
  by (simp add: inherit_interaction_def)

lemma dget_inherit_deny:
  "dget (inherit_deny parent child key result) k =
     (let values = fold append_new (items_of (dget child key)) (items_of (dget parent key)) in
      if k = key \<and> values \<noteq> [] then VList values else dget result k)"
  by (simp add: inherit_deny_def Let_def)

lemma dget_inherit_allow:
  "dget (inherit_allow parent child key result) k =
     (if k = key \<and> dhas child key
      then VList (filter (\<lambda>v. v \<in> set (items_of (dget child key))) (items_of (dget parent key)))
      else dget result k)"
  by (simp add: inherit_allow_def)

lemma set_fold_append_new: "set (fold append_new vs acc) = set acc \<union> set vs"
  by (induction vs arbitrary: acc) (auto simp: append_new_def)

lemma inherit_minimum_other:
  "inherit_minimum parent child result = Inr r \<Longrightarrow> k \<noteq> ''minimum_outcome'' \<Longrightarrow> dget r k = dget result k"
  by (auto simp: inherit_minimum_def bindE_eq_Inr split: if_splits)

lemma inherit_maximum_other:
  "inherit_maximum parent child result = Inr r \<Longrightarrow> k \<noteq> ''maximum_outcome'' \<Longrightarrow> dget r k = dget result k"
  by (auto simp: inherit_maximum_def bindE_eq_Inr split: if_splits)

lemma dget_fold_deny:
  "dget (fold (inherit_deny parent child) ks result) k =
     (let values = fold append_new (items_of (dget child k)) (items_of (dget parent k)) in
      if k \<in> set ks \<and> values \<noteq> [] then VList values else dget result k)"
  by (induction ks arbitrary: result) (auto simp: dget_inherit_deny Let_def)

lemma dget_fold_allow:
  "dget (fold (inherit_allow parent child) ks result) k =
     (if k \<in> set ks \<and> dhas child k
      then VList (filter (\<lambda>v. v \<in> set (items_of (dget child k))) (items_of (dget parent k)))
      else dget result k)"
  by (induction ks arbitrary: result) (auto simp: dget_inherit_allow)

lemma dget_with_rules: "k \<noteq> ''rules'' \<Longrightarrow> dget (with_rules rules result) k = dget result k"
  "dget (with_rules rules result) ''rules'' =
     (if rules \<noteq> [] then VList rules else dget result ''rules'')"
  by (simp_all add: with_rules_def)

lemma dget_read_only:
  "k \<noteq> ''read_only_required'' \<Longrightarrow> dget (inherit_read_only parent child result) k = dget result k"
  by (simp add: inherit_read_only_def)

lemma dget_gate_judge:
  "k \<noteq> ''intention_gate'' \<Longrightarrow> dget (inherit_gate parent child result) k = dget result k"
  "k \<noteq> ''judge'' \<Longrightarrow> dget (with_judge judge result) k = dget result k"
  by (simp_all add: inherit_gate_def with_judge_def)

lemma deny_field_distinct:
  "k \<in> set deny_fields \<Longrightarrow> k \<notin> set allow_fields \<and> k \<noteq> ''interaction_mode''"
  by (auto simp: deny_fields_def allow_fields_def)

lemma allow_field_distinct:
  "k \<in> set allow_fields \<Longrightarrow> k \<notin> set deny_fields \<and> k \<noteq> ''interaction_mode''"
  by (auto simp: deny_fields_def allow_fields_def)

lemma composed_other:
  "k \<notin> set deny_fields \<Longrightarrow> k \<notin> set allow_fields \<Longrightarrow> k \<noteq> ''interaction_mode'' \<Longrightarrow>
     dget (composed_lists P C) k = dget P k"
  by (simp add: composed_lists_def dget_fold_allow dget_fold_deny dget_inherit_interaction Let_def)

lemma composed_deny:
  assumes "k \<in> set deny_fields"
  shows "set (items_of (dget (composed_lists P C) k)) = set (items_of (dget P k)) \<union> set (items_of (dget C k))"
  using set_fold_append_new [of "items_of (dget C k)" "items_of (dget P k)"]
    deny_field_distinct [OF assms] assms
  by (auto simp: composed_lists_def dget_fold_allow dget_fold_deny dget_inherit_interaction Let_def)

lemma composed_allow:
  assumes "k \<in> set allow_fields"
  shows "set (items_of (dget (composed_lists P C) k)) =
     set (items_of (dget P k)) \<inter> (if dhas C k then set (items_of (dget C k)) else UNIV)"
  using allow_field_distinct [OF assms] assms
  by (auto simp: composed_lists_def dget_fold_allow dget_fold_deny dget_inherit_interaction Let_def)

text \<open>The keys the later stages own.\<close>

definition staged_keys :: "string set" where
  "staged_keys = {''rules'', ''read_only_required'', ''minimum_outcome'', ''maximum_outcome'',
     ''intention_gate'', ''judge''}"

lemma list_fields_unstaged:
  "k \<in> set deny_fields \<union> set allow_fields \<union> {''allow_policies''} \<Longrightarrow> k \<notin> staged_keys"
  by (auto simp: deny_fields_def allow_fields_def staged_keys_def)

lemma inherit_policy_parts:
  assumes "inherit_policy digest pp cp = Inr r"
  defines "P \<equiv> source_policy pp" and "C \<equiv> source_policy cp"
  obtains rules r1 r2 judge where "extra_prose P C = []" "inherit_rules digest P C = Inr rules"
    "inherit_minimum P C (inherit_read_only P C (with_rules rules (composed_lists P C))) = Inr r1"
    "inherit_maximum P C r1 = Inr r2" "inherit_judge P C = Inr judge"
    "r = with_judge judge (inherit_gate P C r2)"
  using assms(1) that
  unfolding inherit_policy_def Let_def P_def [symmetric] C_def [symmetric]
  by (cases "extra_prose P C = []") (simp_all add: bindE_eq_Inr, blast)

lemma inherited_list:
  assumes "inherit_policy digest pp cp = Inr r" "k \<notin> staged_keys"
  shows "dget r k = dget (composed_lists (source_policy pp) (source_policy cp)) k"
  by (rule inherit_policy_parts [OF assms(1)])
    (use assms(2) in \<open>simp add: staged_keys_def dget_gate_judge inherit_maximum_other
       inherit_minimum_other dget_read_only dget_with_rules\<close>)

subsection \<open>Rules\<close>

lemma add_rules_keep:
  "add_rules digest rs rules ids = Inr res \<Longrightarrow> set rules \<subseteq> set res"
  by (induction digest rs rules ids rule: add_rules.induct)
    (auto simp: Let_def split: if_splits)

lemma effect_set_rule_id:
  "dhas (entries_of r) ''id'' \<Longrightarrow> vget (set_rule_id r i) ''effect'' = vget r ''effect''"
  by (cases r) (simp_all add: set_rule_id_def dhas_def)

lemma add_rules_effect:
  assumes "add_rules digest rs rules ids = Inr res"
  shows "\<forall>x \<in> set res - set rules. vget x ''effect'' \<noteq> VStr ''allow''"
  using assms
proof (induction digest rs rules ids rule: add_rules.induct)
  case (2 digest r rs rules ids)
  show ?case
  proof (cases "list_ex (py_equal r) rules")
    case True
    with 2 show ?thesis by simp
  next
    case False
    define r' where "r' = (if vget r ''id'' \<in> set ids then set_rule_id r (''child.'' @ digest r) else r)"
    have ok: "vget r ''effect'' \<noteq> VStr ''allow''" "dhas (entries_of r) ''id''"
      using 2(3) False by (auto split: if_splits)
    then have eff: "vget r' ''effect'' \<noteq> VStr ''allow''"
      by (simp add: r'_def effect_set_rule_id)
    have "add_rules digest rs (rules @ [r']) (ids @ [vget r' ''id'']) = Inr res"
      using 2(3) False ok by (simp add: r'_def Let_def)
    then have "\<forall>x \<in> set res - set (rules @ [r']). vget x ''effect'' \<noteq> VStr ''allow''"
      using "2.IH"(2) [OF False ok(1) _ r'_def] ok(2) by blast
    with eff show ?thesis by auto
  qed
qed simp

text \<open>Every rule of the child stands in the result, as it is, as an equal rule of the parent, or renamed.\<close>

definition restates :: "pyval \<Rightarrow> pyval \<Rightarrow> bool" where
  "restates x y \<longleftrightarrow> y = x \<or> py_equal x y \<or> (\<exists>i. y = set_rule_id x i)"

lemma add_rules_restate:
  "add_rules digest rs rules ids = Inr res \<Longrightarrow> x \<in> set rs \<Longrightarrow> \<exists>y \<in> set res. restates x y"
proof (induction digest rs rules ids rule: add_rules.induct)
  case (2 digest r rs rules ids)
  show ?case
  proof (cases "list_ex (py_equal r) rules")
    case True
    then obtain y where y: "y \<in> set rules" "py_equal r y" by (auto simp: list_ex_iff)
    from 2(3) True have rest: "add_rules digest rs rules ids = Inr res" by simp
    with add_rules_keep y have "\<exists>y \<in> set res. restates r y" by (fastforce simp: restates_def)
    with 2(1) [OF True rest] 2(4) show ?thesis by auto
  next
    case False
    define r' where "r' = (if vget r ''id'' \<in> set ids then set_rule_id r (''child.'' @ digest r) else r)"
    have ok: "vget r ''effect'' \<noteq> VStr ''allow''" "dhas (entries_of r) ''id''"
      using 2(3) False by (auto split: if_splits)
    have rest: "add_rules digest rs (rules @ [r']) (ids @ [vget r' ''id'']) = Inr res"
      using 2(3) False ok by (simp add: r'_def Let_def)
    then have "r' \<in> set res" using add_rules_keep by fastforce
    moreover have "restates r r'" by (auto simp: restates_def r'_def)
    ultimately have "\<exists>y \<in> set res. restates r y" by blast
    with 2(2) [OF False ok(1) _ r'_def rest] ok(2) 2(4) show ?thesis by auto
  qed
qed simp

subsection \<open>Outcome bounds\<close>

lemma parse_outcome_text [simp]: "parse_outcome (VStr (outcome_text o')) = Some o'"
  by (cases o') simp_all

lemma clamp_text_min:
  assumes "clamp_text a m = Inr v" "m \<noteq> VNone"
  obtains x y where "parse_outcome a = Some x" "parse_outcome m = Some y"
    "v = VStr (outcome_text (min x y))"
  using assms by (auto simp: clamp_text_def split: option.splits)

text \<open>The floor and the cap a policy sets; an absent cap is the loosest severity, \<open>deny\<close>.\<close>

definition policy_floor :: "pydict \<Rightarrow> outcome" where
  "policy_floor d = (case parse_outcome (dget d ''minimum_outcome'') of Some o' \<Rightarrow> o' | None \<Rightarrow> Approve)"

definition policy_cap :: "pydict \<Rightarrow> outcome" where
  "policy_cap d = (case parse_outcome (dget d ''maximum_outcome'') of Some o' \<Rightarrow> o' | None \<Rightarrow> Deny)"

lemma inherit_minimum_floor:
  assumes "inherit_minimum P C result = Inr r" "dget result ''minimum_outcome'' = dget P ''minimum_outcome''"
  shows "policy_floor r \<le> policy_floor P \<and> policy_floor r \<le> policy_floor C"
proof (cases "dget C ''minimum_outcome'' = VNone")
  case True
  with assms show ?thesis by (simp add: inherit_minimum_def policy_floor_def)
next
  case False
  then obtain v where v: "clamp_text (dget C ''minimum_outcome'') (dget P ''minimum_outcome'') = Inr v"
      "r = dset result ''minimum_outcome'' v"
    using assms(1) by (auto simp: inherit_minimum_def bindE_eq_Inr)
  show ?thesis
  proof (cases "dget P ''minimum_outcome'' = VNone")
    case True
    with v show ?thesis by (simp add: clamp_text_def policy_floor_def)
  next
    case False
    with v show ?thesis
      by (auto elim!: clamp_text_min simp: policy_floor_def simp del: parse_outcome.simps)
  qed
qed

lemma inherit_maximum_cap:
  assumes "inherit_maximum P C result = Inr r" "dget result ''maximum_outcome'' = dget P ''maximum_outcome''"
  shows "policy_cap r \<le> policy_cap P"
proof (cases "dget C ''maximum_outcome'' = VNone")
  case True
  with assms show ?thesis by (simp add: inherit_maximum_def policy_cap_def)
next
  case False
  then obtain v where v: "clamp_text (if truthy (dget P ''maximum_outcome'') then dget P ''maximum_outcome''
        else VStr ''deny'') (dget C ''maximum_outcome'') = Inr v"
      "r = dset result ''maximum_outcome'' v"
    using assms(1) by (auto simp: inherit_maximum_def bindE_eq_Inr)
  obtain x y where xy: "parse_outcome (if truthy (dget P ''maximum_outcome'') then dget P ''maximum_outcome''
        else VStr ''deny'') = Some x" "v = VStr (outcome_text (min x y))"
    using clamp_text_min [OF v(1) False] by blast
  have "policy_cap P = x"
    using xy(1) by (cases "dget P ''maximum_outcome''") (auto simp: policy_cap_def split: if_splits)
  then show ?thesis
    using v(2) xy(2) by (simp add: policy_cap_def del: parse_outcome.simps)
qed

lemma unlisted_keys:
  "''minimum_outcome'' \<notin> set deny_fields \<union> set allow_fields"
  "''maximum_outcome'' \<notin> set deny_fields \<union> set allow_fields"
  "''rules'' \<notin> set deny_fields \<union> set allow_fields"
  "''allow_policies'' \<notin> set deny_fields \<union> set allow_fields"
  by (simp_all add: deny_fields_def allow_fields_def)

lemma composed_unlisted:
  "dget (composed_lists P C) ''minimum_outcome'' = dget P ''minimum_outcome''"
  "dget (composed_lists P C) ''maximum_outcome'' = dget P ''maximum_outcome''"
  "dget (composed_lists P C) ''rules'' = dget P ''rules''"
  "dget (composed_lists P C) ''allow_policies'' = dget P ''allow_policies''"
  using unlisted_keys by (simp_all add: composed_other)

lemma staged_bounds:
  assumes "inherit_policy digest pp cp = Inr r"
  defines "P \<equiv> source_policy pp" and "C \<equiv> source_policy cp"
  shows "policy_floor r \<le> policy_floor P" "policy_floor r \<le> policy_floor C" "policy_cap r \<le> policy_cap P"
proof -
  obtain rules r1 r2 judge where parts:
    "inherit_minimum P C (inherit_read_only P C (with_rules rules (composed_lists P C))) = Inr r1"
    "inherit_maximum P C r1 = Inr r2" "r = with_judge judge (inherit_gate P C r2)"
    unfolding P_def C_def by (rule inherit_policy_parts [OF assms(1)])
  have "policy_floor r = policy_floor r1"
    unfolding parts(3) policy_floor_def
    by (simp add: dget_gate_judge inherit_maximum_other [OF parts(2)] del: parse_outcome.simps)
  moreover have "dget (inherit_read_only P C (with_rules rules (composed_lists P C))) ''minimum_outcome''
      = dget P ''minimum_outcome''"
    by (simp add: dget_read_only dget_with_rules composed_unlisted)
  ultimately show "policy_floor r \<le> policy_floor P" "policy_floor r \<le> policy_floor C"
    using inherit_minimum_floor [OF parts(1)] by simp_all
  have "policy_cap r = policy_cap r2"
    unfolding parts(3) policy_cap_def by (simp add: dget_gate_judge del: parse_outcome.simps)
  moreover have "dget r1 ''maximum_outcome'' = dget P ''maximum_outcome''"
    by (simp add: inherit_minimum_other [OF parts(1)] dget_read_only dget_with_rules composed_unlisted)
  ultimately show "policy_cap r \<le> policy_cap P"
    using inherit_maximum_cap [OF parts(2)] by simp
qed

lemma composed_rules:
  assumes "inherit_policy digest pp cp = Inr r"
  defines "P \<equiv> source_policy pp" and "C \<equiv> source_policy cp"
  shows "set (items_of (dget P ''rules'')) \<subseteq> set (items_of (dget r ''rules''))
    \<and> (\<forall>x \<in> set (items_of (dget r ''rules'')) - set (items_of (dget P ''rules'')).
         vget x ''effect'' \<noteq> VStr ''allow'')
    \<and> (\<forall>x \<in> set (items_of (dget C ''rules'')). \<exists>y \<in> set (items_of (dget r ''rules'')). restates x y)"
proof -
  obtain rules r1 r2 judge where parts: "inherit_rules digest P C = Inr rules"
    "inherit_minimum P C (inherit_read_only P C (with_rules rules (composed_lists P C))) = Inr r1"
    "inherit_maximum P C r1 = Inr r2" "r = with_judge judge (inherit_gate P C r2)"
    unfolding P_def C_def by (rule inherit_policy_parts [OF assms(1)])
  have r: "dget r ''rules'' = (if rules \<noteq> [] then VList rules else dget P ''rules'')"
    unfolding parts(4)
    by (simp add: dget_gate_judge inherit_maximum_other [OF parts(3)] inherit_minimum_other [OF parts(2)]
        dget_read_only dget_with_rules composed_unlisted)
  have added: "add_rules digest (items_of (dget C ''rules'')) (items_of (dget P ''rules''))
      (map (\<lambda>r. vget r ''id'') (items_of (dget P ''rules''))) = Inr rules"
    using parts(1) by (auto simp: inherit_rules_def Let_def split: if_splits)
  have items: "set (items_of (dget r ''rules'')) = set rules"
    using add_rules_keep [OF added] by (auto simp: r)
  show ?thesis
    using add_rules_keep [OF added] add_rules_effect [OF added] add_rules_restate [OF added] unfolding items by blast
qed

lemma composed_read_only:
  assumes "inherit_policy digest pp cp = Inr r"
    and "truthy (dget (source_policy pp) ''read_only_required'')
      \<or> truthy (dget (source_policy cp) ''read_only_required'')"
  shows "dget r ''read_only_required'' = VBool True"
  by (rule inherit_policy_parts [OF assms(1)])
    (use assms(2) in \<open>simp add: dget_gate_judge inherit_maximum_other inherit_minimum_other
       inherit_read_only_def\<close>)

subsection \<open>Validated chains\<close>

fun linked_path :: "session \<Rightarrow> session list \<Rightarrow> bool" where
  "linked_path current [] \<longleftrightarrow> parent_of current = None"
| "linked_path current (p # ps) \<longleftrightarrow> parent_of current = Some (s_id p) \<and> linked_path p ps"

text \<open>A chain of stored rows in which every row carries the identity of its parent.\<close>

fun authorized_chain :: "(pyval \<Rightarrow> string) \<Rightarrow> database \<Rightarrow> string \<Rightarrow> session \<Rightarrow> session list \<Rightarrow> bool" where
  "authorized_chain digest db user current [] \<longleftrightarrow> parent_of current = None"
| "authorized_chain digest db user current (p # ps) \<longleftrightarrow>
     parent_of current = Some (s_id p) \<and> find_session db user (s_id p) = Some p
     \<and> s_status p \<notin> inactive_statuses
     \<and> s_parent_policy_hash current = Some (authorization_identity digest p)
     \<and> authorized_chain digest db user p ps"

lemma ancestor_chain_path:
  assumes "ancestor_chain db user current seen = Inr ps"
  shows "linked_path current ps \<and> distinct (map s_id ps) \<and> set (map s_id ps) \<inter> set seen = {}
     \<and> (ps = [] \<or> length seen + length ps \<le> 32)"
  using assms
proof (induction db user current seen arbitrary: ps rule: ancestor_chain.induct)
  case (1 db user current seen)
  show ?case
  proof (cases "parent_of current")
    case None
    with 1(2) show ?thesis by (simp add: ancestor_chain.simps)
  next
    case (Some p)
    with 1(2) obtain parent where fresh: "p \<notin> set seen" "length seen < 32"
        and parent: "find_session db user p = Some parent"
        and rest: "bindE (ancestor_chain db user parent (p # seen)) (\<lambda>ps. Inr (parent # ps)) = Inr ps"
      by (subst (asm) ancestor_chain.simps) (auto split: if_splits option.splits)
    then obtain qs where qs: "ancestor_chain db user parent (p # seen) = Inr qs" "ps = parent # qs"
      by (auto simp: bindE_eq_Inr)
    have "s_id parent = p"
      using find_session_Some [OF parent] by simp
    moreover note 1(1) [OF Some _ parent qs(1)]
    ultimately show ?thesis
      using fresh Some by (auto simp: qs(2))
  qed
qed

lemma lock_chain_rows:
  "lock_chain db user ps = Inr ls \<Longrightarrow>
     list_all2 (\<lambda>p l. find_session db user (s_id p) = Some l \<and> s_parent l = s_parent p) ps ls"
  by (induction ps arbitrary: ls) (auto simp: bindE_eq_Inr split: option.splits if_splits)

lemma check_links_chain:
  assumes "list_all2 (\<lambda>p l. find_session db user (s_id p) = Some l \<and> s_parent l = s_parent p) ps ls"
    and "linked_path current ps" "parent_of current' = parent_of current"
    and "check_links digest current' ls = Inr ()"
  shows "authorized_chain digest db user current' ls \<and> map s_id ls = map s_id ps"
  using assms
proof (induction ps ls arbitrary: current current' rule: list_all2_induct)
  case (Cons p ps l ls)
  have l: "s_id l = s_id p" "parent_of l = parent_of p"
    using Cons.hyps(1) find_session_Some by (auto simp: parent_of_def)
  have "authorized_chain digest db user l ls \<and> map s_id ls = map s_id ps"
    using Cons.IH [OF _ l(2)] Cons.prems by (auto split: if_splits)
  then show ?case
    using Cons.prems Cons.hyps(1) l by (auto split: if_splits)
qed simp

lemma valid_chain:
  assumes "validate_parent_chain digest db db' s = Inr ()"
  shows "\<exists>chain. authorized_chain digest db' (s_user s) s chain \<and> length chain \<le> 32
     \<and> distinct (map s_id chain)"
proof -
  obtain ps ls where "ancestor_chain db (s_user s) s [] = Inr ps" "lock_chain db' (s_user s) ps = Inr ls"
      "check_links digest s ls = Inr ()"
    using assms by (auto simp: validate_parent_chain_def bindE_eq_Inr)
  with ancestor_chain_path lock_chain_rows check_links_chain show ?thesis
    by (metis (no_types, lifting) length_map list.size(3) plus_nat.add_0 zero_le)
qed

subsection \<open>Properties\<close>

text \<open>C37. A composed policy never widens what the parent authorized: every denied entry of the parent and of
  the child is kept; the allowed entries are the parent's, and where the child lists the field, those of
  the parent's that the child lists too; the prose allowances are the parent's; every rule of the parent
  is kept, every rule of the child is there (as it is, as an equal one of the parent's, or renamed), and
  every rule that is not the parent's restricts; a read-only requirement of either side stays; and the floor
  is at least as strict as both, the cap as the parent's.\<close>

theorem delegation_never_widens:
  assumes "inherit_policy digest pp cp = Inr r"
  shows "(\<forall>k \<in> set deny_fields. set (items_of (dget r k))
             = set (items_of (dget (source_policy pp) k)) \<union> set (items_of (dget (source_policy cp) k)))
     \<and> (\<forall>k \<in> set allow_fields. set (items_of (dget r k))
             = set (items_of (dget (source_policy pp) k))
               \<inter> (if dhas (source_policy cp) k then set (items_of (dget (source_policy cp) k)) else UNIV))
     \<and> dget r ''allow_policies'' = dget (source_policy pp) ''allow_policies''
     \<and> set (items_of (dget (source_policy pp) ''rules'')) \<subseteq> set (items_of (dget r ''rules''))
     \<and> (\<forall>x \<in> set (items_of (dget (source_policy cp) ''rules'')).
          \<exists>y \<in> set (items_of (dget r ''rules'')). restates x y)
     \<and> (\<forall>x \<in> set (items_of (dget r ''rules'')) - set (items_of (dget (source_policy pp) ''rules'')).
          vget x ''effect'' \<noteq> VStr ''allow'')
     \<and> (truthy (dget (source_policy pp) ''read_only_required'')
          \<or> truthy (dget (source_policy cp) ''read_only_required'') \<longrightarrow>
        dget r ''read_only_required'' = VBool True)
     \<and> policy_floor r \<le> policy_floor (source_policy pp) \<and> policy_floor r \<le> policy_floor (source_policy cp)
     \<and> policy_cap r \<le> policy_cap (source_policy pp)"
proof (intro conjI)
  show "\<forall>k \<in> set deny_fields. set (items_of (dget r k))
             = set (items_of (dget (source_policy pp) k)) \<union> set (items_of (dget (source_policy cp) k))"
    by (simp add: inherited_list [OF assms list_fields_unstaged] composed_deny)
  show "\<forall>k \<in> set allow_fields. set (items_of (dget r k))
             = set (items_of (dget (source_policy pp) k))
               \<inter> (if dhas (source_policy cp) k then set (items_of (dget (source_policy cp) k)) else UNIV)"
    by (simp add: inherited_list [OF assms list_fields_unstaged] composed_allow)
  show "dget r ''allow_policies'' = dget (source_policy pp) ''allow_policies''"
    by (simp add: inherited_list [OF assms list_fields_unstaged] composed_unlisted)
qed (use composed_rules [OF assms] composed_read_only [OF assms] staged_bounds [OF assms] in blast)+

definition sample_parent :: pydict where
  "sample_parent =
     [(''deny_tools'', VStrs [''bash'']), (''allow_tools'', VStrs [''read'', ''grep'']),
      (''minimum_outcome'', VStr ''escalate'')]"

definition sample_child :: pydict where
  "sample_child =
     [(''deny_tools'', VStrs [''edit'']), (''allow_tools'', VStrs [''grep'', ''bash'']),
      (''minimum_outcome'', VStr ''approve''), (''maximum_outcome'', VStr ''approve'')]"

definition sample_composed :: pydict where
  "sample_composed =
     [(''deny_tools'', VStrs [''bash'', ''edit'']), (''allow_tools'', VStrs [''grep'']),
      (''minimum_outcome'', VStr ''escalate''), (''maximum_outcome'', VStr ''deny'')]"

lemma sample_composition:
  "inherit_policy (\<lambda>v. []) (Some sample_parent) (Some sample_child) = Inr sample_composed"
  by code_simp

theorem delegation_never_widens_witness:
  "dget sample_composed ''allow_policies'' = dget (source_policy (Some sample_parent)) ''allow_policies''"
  using delegation_never_widens [OF sample_composition] by blast

text \<open>A child's bounds never loosen an outcome: whatever is evaluated, capping and flooring it with the
  composed bounds gives an outcome at least as strict as with the parent's.\<close>

theorem delegated_bounds_stricter:
  assumes "inherit_policy digest pp cp = Inr r"
  shows "clamp_outcome (cap_outcome a (Some (policy_cap r))) (Some (policy_floor r))
     \<le> clamp_outcome (cap_outcome a (Some (policy_cap (source_policy pp))))
          (Some (policy_floor (source_policy pp)))"
  unfolding clamp_outcome_min cap_outcome_max
  by (intro min.mono max.mono order_refl staged_bounds [OF assms])

theorem delegated_bounds_stricter_witness:
  "clamp_outcome (cap_outcome Approve (Some (policy_cap sample_composed))) (Some (policy_floor sample_composed))
     \<le> clamp_outcome (cap_outcome Approve (Some (policy_cap (source_policy (Some sample_parent)))))
          (Some (policy_floor (source_policy (Some sample_parent))))"
  by (rule delegated_bounds_stricter [OF sample_composition])

text \<open>When the chain of ancestors validates, it is current at the moment the locks are held: at most 32
  distinct stored sessions up to a root, none suspended or terminated, each carrying the identity
  its child was activated under - whatever another writer did between the walk and the locks.\<close>

theorem validated_chain_is_current:
  assumes "validate_parent_chain digest db db' s = Inr ()"
  shows "\<exists>chain. authorized_chain digest db' (s_user s) s chain \<and> length chain \<le> 32
     \<and> distinct (map s_id chain)"
  using assms by (rule valid_chain)

definition sample_digest :: "pyval \<Rightarrow> string" where
  "sample_digest v = (if vget v ''status'' = VStr ''active'' then ''hash'' else ''other'')"

definition sample_chain_db :: database where
  "sample_chain_db =
     \<lparr>db_sessions = [new_session ''u'' ''root'' ''build'' 0, (new_session ''u'' ''child'' ''test'' 0)
        \<lparr>s_parent := Some ''root'', s_parent_policy_hash := Some ''hash''\<rparr>],
      db_reservations = [], db_tasks = []\<rparr>"

definition sample_linked_child :: session where
  "sample_linked_child = (new_session ''u'' ''child'' ''test'' 0)
     \<lparr>s_parent := Some ''root'', s_parent_policy_hash := Some ''hash''\<rparr>"

lemma sample_chain_validates:
  "validate_parent_chain sample_digest sample_chain_db sample_chain_db sample_linked_child = Inr ()"
  by code_simp

theorem validated_chain_is_current_witness:
  "\<exists>chain. authorized_chain sample_digest sample_chain_db (s_user sample_linked_child)
     sample_linked_child chain \<and> length chain \<le> 32 \<and> distinct (map s_id chain)"
  by (rule validated_chain_is_current [OF sample_chain_validates])

end
