(* ===== verification/Sequence_Source.thy ===== *)
theory Sequence_Source
  imports Prelude
begin

text \<open>
  The contract between an event log and what numbers its events: an allocation returns a
  contiguous block above the high-water mark and raises the mark to its end, and nothing else the
  provider does lowers the mark.  The session store provides it from the database, an event store
  without one from its own counter.
\<close>

lemma hd_upto: "i \<le> j \<Longrightarrow> hd [i..j] = i"
  by (subst upto_rec1) simp_all

lemma last_upto: "i \<le> j \<Longrightarrow> List.last [i..j] = j"
  by (subst upto_rec2) simp_all

locale sequence_source =
  fixes alloc :: "'r \<Rightarrow> 's \<Rightarrow> (int list \<times> 's) option"
    and size_of :: "'r \<Rightarrow> nat"
    and high :: "'s \<Rightarrow> int"
    and other_step :: "'s \<Rightarrow> 's \<Rightarrow> bool"
  assumes alloc_block: "alloc r s = Some (xs, s') \<Longrightarrow> 0 < size_of r \<Longrightarrow>
      \<exists>h \<ge> high s. xs = [h + 1..h + int (size_of r)] \<and> high s' = h + int (size_of r)"
    and step_high: "other_step s s' \<Longrightarrow> high s \<le> high s'"
begin

lemma alloc_length:
  assumes "alloc r s = Some (xs, s')" "0 < size_of r"
  shows "length xs = size_of r"
  using alloc_block [OF assms] by auto

lemma alloc_sorted:
  assumes "alloc r s = Some (xs, s')" "0 < size_of r"
  shows "sorted_wrt (<) xs"
proof -
  have "sorted_wrt (<) [i..j]" for i j :: int
    by (simp add: sorted_wrt_upto strict_sorted_iff)
  then show ?thesis
    using alloc_block [OF assms] by auto
qed

lemma alloc_bounds:
  assumes "alloc r s = Some (xs, s')" "0 < size_of r" "x \<in> set xs"
  shows "high s < x \<and> x \<le> high s'"
  using alloc_block [OF assms(1,2)] assms(3) by auto

lemma steps_high: "other_step\<^sup>*\<^sup>* s s' \<Longrightarrow> high s \<le> high s'"
  by (induction rule: rtranclp_induct) (auto dest: step_high)

text \<open>Two allocations never share a number, and the later one is above the earlier one.\<close>

lemma later_above:
  assumes "alloc r s = Some (xs, s1)" "other_step\<^sup>*\<^sup>* s1 s2" "alloc r' s2 = Some (ys, s3)"
    and "0 < size_of r" "0 < size_of r'" "x \<in> set xs" "y \<in> set ys"
  shows "x < y"
  using alloc_bounds [OF assms(1,4,6)] alloc_bounds [OF assms(3,5,7)] steps_high [OF assms(2)]
  by linarith

end

end
