(* ===== verification/Session_Store.thy ===== *)
theory Session_Store
  imports Policy_Inheritance Sequence_Source "HOL-Library.Product_Lexorder"
begin

text \<open>
  \<^verbatim>\<open>SessionStore\<close> of \<^verbatim>\<open>intaris/session.py\<close>: the lifecycle of a session row, the
  allocation of its event sequences with the receipts of spooled batches, the guarded write of a
  generated intention, the counters and the sweeps.  Each method is one transaction on the database;
  its clock reading is the argument \<open>now\<close>.
\<close>

datatype session_error =
    SessionNotFound
  | InvalidStatus
  | InvalidAlignment
  | InvalidDecision
  | BatchPayloadMismatch
  | BatchTimestampMismatch
  | BatchSizeMismatch
  | SessionExists
  | StaleRevision
  | InactiveParent
  | ParentChanged
  | InvalidAncestry
  | WorkflowConflict
  | PolicyRefused policy_error
  | RefreshFuel

text \<open>An update of one session; the row count tells whether the session exists.\<close>

definition update_one ::
    "string \<Rightarrow> string \<Rightarrow> (session \<Rightarrow> session) \<Rightarrow> database \<Rightarrow> session_error + database" where
  "update_one user sid f db =
     (if row_count (is_session user sid) (db_sessions db) = 0 then Inl SessionNotFound
      else Inr (update_sessions (is_session user sid) f db))"

subsection \<open>Status and alignment\<close>

definition valid_statuses :: "string set" where
  "valid_statuses = {''active'', ''idle'', ''completed'', ''suspended'', ''terminated''}"

definition update_status ::
    "int \<Rightarrow> string \<Rightarrow> string \<Rightarrow> string \<Rightarrow> string option \<Rightarrow> database \<Rightarrow> session_error + database" where
  "update_status now user sid status reason db =
     (if status \<notin> valid_statuses then Inl InvalidStatus
      else update_one user sid (\<lambda>s. s\<lparr>s_status := status,
             s_status_reason := (if status = ''active'' then None else reason),
             s_updated := now, s_state_revision := s_state_revision s + 1\<rparr>) db)"

definition alignment_states :: "string set" where
  "alignment_states = {''ready'', ''pending'', ''misaligned'', ''error''}"

definition alignment_target :: "string \<Rightarrow> string \<Rightarrow> int option \<Rightarrow> session \<Rightarrow> bool" where
  "alignment_target user sid expected s \<longleftrightarrow>
     is_session user sid s \<and> s_guardrails_enabled s
     \<and> (case expected of None \<Rightarrow> True | Some r \<Rightarrow> s_state_revision s = r)"

definition set_alignment_state ::
    "string \<Rightarrow> string \<Rightarrow> string \<Rightarrow> int option \<Rightarrow> string option \<Rightarrow> database
      \<Rightarrow> session_error + bool \<times> database" where
  "set_alignment_state user sid state expected reason db =
     (if state \<notin> alignment_states then Inl InvalidAlignment
      else Inr (row_count (alignment_target user sid expected) (db_sessions db) = 1,
             update_sessions (alignment_target user sid expected)
               (\<lambda>s. s\<lparr>s_alignment_state := state, s_alignment_reason := reason,
                  s_state_revision := s_state_revision s + 1\<rparr>) db))"

definition set_alignment_overridden ::
    "int \<Rightarrow> string \<Rightarrow> string \<Rightarrow> bool \<Rightarrow> database \<Rightarrow> database" where
  "set_alignment_overridden now user sid overridden db =
     update_sessions (is_session user sid) (\<lambda>s. s\<lparr>s_alignment_overridden := overridden,
       s_updated := now,
       s_state_revision := s_state_revision s +
         (if s_alignment_overridden s \<noteq> overridden \<or> (overridden \<and> s_alignment_state s \<noteq> ''ready'')
          then 1 else 0),
       s_alignment_state := (if overridden then ''ready'' else s_alignment_state s)\<rparr>) db"

subsection \<open>Event sequences\<close>

record spool_request =
  sq_batch :: string
  sq_digest :: string
  sq_spool :: string
  sq_ts :: string

definition last_user_offset :: "bool list \<Rightarrow> nat" where
  "last_user_offset flags = Max (set (0 # map fst (filter snd (enumerate 1 flags))))"

definition base_seq :: "int \<Rightarrow> session \<Rightarrow> int" where
  "base_seq minimum s =
     (if coalesce (s_last_event_seq s) 0 < minimum then minimum else coalesce (s_last_event_seq s) 0)"

definition advance_row :: "bool list \<Rightarrow> int \<Rightarrow> pyval \<Rightarrow> session \<Rightarrow> session" where
  "advance_row flags minimum evidence s =
     (let off = int (last_user_offset flags) in
      s\<lparr>s_latest_user_seq := (if off > 0 then Some (base_seq minimum s + off) else s_latest_user_seq s),
        s_user_observed := (if off > 0 then True else s_user_observed s),
        s_last_event_seq := Some (base_seq minimum s + int (length flags)),
        s_state_revision := s_state_revision s + (if off > 0 then 1 else 0),
        s_latest_user_evidence := (if evidence = VNone then s_latest_user_evidence s else evidence)\<rparr>)"

definition advance_sequences ::
    "string \<Rightarrow> string \<Rightarrow> bool list \<Rightarrow> int \<Rightarrow> pyval \<Rightarrow> database \<Rightarrow> session_error + int list \<times> database" where
  "advance_sequences user sid flags minimum evidence db =
     bindE (update_one user sid (advance_row flags minimum evidence) db) (\<lambda>db'.
       case find_session db' user sid of
         None \<Rightarrow> Inl SessionNotFound
       | Some row \<Rightarrow>
           (let last = coalesce (s_last_event_seq row) 0
            in Inr ([last - int (length flags) + 1..last], db')))"

definition is_reservation :: "string \<Rightarrow> string \<Rightarrow> string \<Rightarrow> reservation \<Rightarrow> bool" where
  "is_reservation user sid batch r \<longleftrightarrow> sr_user r = user \<and> sr_session r = sid \<and> sr_batch r = batch"

definition get_spool_reservation :: "database \<Rightarrow> string \<Rightarrow> string \<Rightarrow> string \<Rightarrow> reservation option" where
  "get_spool_reservation db user sid batch =
     List.find (is_reservation user sid batch) (db_reservations db)"

definition replay_reservation :: "reservation \<Rightarrow> spool_request \<Rightarrow> nat \<Rightarrow> session_error + int list" where
  "replay_reservation existing q count =
     (if sr_digest existing \<noteq> sq_digest q then Inl BatchPayloadMismatch
      else if sr_ts existing \<noteq> sq_ts q then Inl BatchTimestampMismatch
      else if sr_last existing - sr_first existing + 1 \<noteq> int count then Inl BatchSizeMismatch
      else Inr [sr_first existing..sr_last existing])"

definition new_reservation :: "string \<Rightarrow> string \<Rightarrow> spool_request \<Rightarrow> int list \<Rightarrow> reservation" where
  "new_reservation user sid q seqs =
     \<lparr>sr_user = user, sr_session = sid, sr_batch = sq_batch q, sr_digest = sq_digest q,
      sr_spool = sq_spool q, sr_ts = sq_ts q, sr_first = hd seqs, sr_last = List.last seqs,
      sr_archived = 0\<rparr>"

definition allocate_event_sequences ::
    "string \<Rightarrow> string \<Rightarrow> bool list \<Rightarrow> int \<Rightarrow> pyval \<Rightarrow> spool_request option \<Rightarrow> database
      \<Rightarrow> session_error + int list \<times> database" where
  "allocate_event_sequences user sid flags minimum evidence spool db =
     (if flags = [] then Inr ([], db)
      else case spool of
        None \<Rightarrow> advance_sequences user sid flags minimum evidence db
      | Some q \<Rightarrow>
          (case get_spool_reservation db user sid (sq_batch q) of
             Some existing \<Rightarrow>
               bindE (replay_reservation existing q (length flags)) (\<lambda>seqs. Inr (seqs, db))
           | None \<Rightarrow>
               bindE (advance_sequences user sid flags minimum evidence db) (\<lambda>(seqs, db').
                 Inr (seqs, db'\<lparr>db_reservations := db_reservations db' @ [new_reservation user sid q seqs]\<rparr>))))"

definition pending_spool_reservations :: "database \<Rightarrow> reservation list" where
  "pending_spool_reservations db =
     sort_key (\<lambda>r. (sr_user r, sr_session r, sr_first r)) (filter (\<lambda>r. sr_archived r = 0) (db_reservations db))"

definition archive_spool_reservations :: "string \<Rightarrow> string \<Rightarrow> string list \<Rightarrow> database \<Rightarrow> database" where
  "archive_spool_reservations user sid batches db =
     db\<lparr>db_reservations := fold (\<lambda>batch. update_rows (is_reservation user sid batch)
          (\<lambda>r. r\<lparr>sr_archived := 1\<rparr>)) batches (db_reservations db)\<rparr>"

definition invalidate_spool_reservations :: "string \<Rightarrow> string \<Rightarrow> database \<Rightarrow> database" where
  "invalidate_spool_reservations user sid db =
     db\<lparr>db_reservations := update_rows (\<lambda>r. sr_user r = user \<and> sr_session r = sid)
          (\<lambda>r. r\<lparr>sr_archived := 2\<rparr>) (db_reservations db)\<rparr>"

text \<open>The high-water marks also move forward when older event logs are read.\<close>

definition below :: "int option \<Rightarrow> int \<Rightarrow> bool" where
  "below v n \<longleftrightarrow> (case v of None \<Rightarrow> True | Some m \<Rightarrow> m < n)"

definition raise_last :: "int \<Rightarrow> session \<Rightarrow> int option" where
  "raise_last seq s =
     (if coalesce (s_last_event_seq s) 0 < seq then Some seq else s_last_event_seq s)"

definition observe_user_message ::
    "string \<Rightarrow> string \<Rightarrow> int \<Rightarrow> database \<Rightarrow> session_error + database" where
  "observe_user_message user sid seq db =
     update_one user sid (\<lambda>s. s\<lparr>
       s_latest_user_seq := (if below (s_latest_user_seq s) seq then Some seq else s_latest_user_seq s),
       s_last_event_seq := raise_last seq s,
       s_user_observed := True,
       s_state_revision := s_state_revision s + (if below (s_latest_user_seq s) seq then 1 else 0)\<rparr>) db"

definition mark_user_message_observed ::
    "string \<Rightarrow> string \<Rightarrow> database \<Rightarrow> session_error + database" where
  "mark_user_message_observed user sid db =
     update_one user sid (\<lambda>s. s\<lparr>s_user_observed := True, s_state_revision := s_state_revision s + 1\<rparr>) db"

definition reconcile_event_high_water ::
    "string \<Rightarrow> string \<Rightarrow> int \<Rightarrow> int option \<Rightarrow> database \<Rightarrow> session_error + database" where
  "reconcile_event_high_water user sid high latest_user db =
     update_one user sid (\<lambda>s. s\<lparr>
       s_last_event_seq := raise_last high s,
       s_latest_user_seq := (case latest_user of None \<Rightarrow> s_latest_user_seq s
          | Some seq \<Rightarrow> if below (s_latest_user_seq s) seq then Some seq else s_latest_user_seq s),
       s_user_observed := (if latest_user \<noteq> None then True else s_user_observed s)\<rparr>) db"

subsection \<open>Generated intentions\<close>

record intention_guard =
  ig_expected_user_seq :: "int option"
  ig_guard_user_seq :: bool
  ig_require_no_user :: bool
  ig_expected_state :: "int option"
  ig_expected_guardrails :: "int option"

definition intention_guard_holds :: "intention_guard \<Rightarrow> session \<Rightarrow> bool" where
  "intention_guard_holds g s \<longleftrightarrow>
     s_guardrails_enabled s
     \<and> (case ig_expected_guardrails g of None \<Rightarrow> True | Some r \<Rightarrow> s_guardrails_revision s = r)
     \<and> (ig_guard_user_seq g \<longrightarrow> s_latest_user_seq s = ig_expected_user_seq g)
     \<and> (ig_require_no_user g \<longrightarrow> \<not> s_user_observed s \<and> s_intention_source s = ''initial'')
     \<and> (case ig_expected_state g of None \<Rightarrow> True | Some r \<Rightarrow> s_state_revision s = r)"

definition generated_title :: "bool \<Rightarrow> string option \<Rightarrow> string option \<Rightarrow> string option" where
  "generated_title initialize new old =
     (if initialize \<and> old \<noteq> None \<and> old \<noteq> Some [] then old
      else case new of None \<Rightarrow> old | Some t \<Rightarrow> Some t)"

definition update_generated_intention ::
    "int \<Rightarrow> string \<Rightarrow> string \<Rightarrow> string \<Rightarrow> string \<Rightarrow> string option \<Rightarrow> bool \<Rightarrow> pyval \<Rightarrow> intention_guard
      \<Rightarrow> database \<Rightarrow> bool \<times> database" where
  "update_generated_intention now user sid intention source title initialize prof g db =
     (let target = (\<lambda>s. is_session user sid s \<and> intention_guard_holds g s) in
      (row_count target (db_sessions db) = 1,
       update_sessions target (\<lambda>s. s\<lparr>s_intention := intention, s_intention_source := source,
         s_state_revision := s_state_revision s + 1,
         s_title := generated_title initialize title (s_title s),
         s_updated := now, s_intention_profile := prof\<rparr>) db))"

subsection \<open>Counters, activity and sweeps\<close>

definition count_decision :: "string \<Rightarrow> session \<Rightarrow> session" where
  "count_decision decision s =
     (if decision = ''approve'' then s\<lparr>s_approved_count := s_approved_count s + 1\<rparr>
      else if decision = ''deny'' then s\<lparr>s_denied_count := s_denied_count s + 1\<rparr>
      else s\<lparr>s_escalated_count := s_escalated_count s + 1\<rparr>)"

definition increment_counter ::
    "int \<Rightarrow> string \<Rightarrow> string \<Rightarrow> string \<Rightarrow> database \<Rightarrow> session_error + database" where
  "increment_counter now user sid decision db =
     (if decision \<notin> {''approve'', ''deny'', ''escalate''} then Inl InvalidDecision
      else update_one user sid (\<lambda>s. (count_decision decision s)
             \<lparr>s_total_calls := s_total_calls s + 1, s_updated := now\<rparr>) db)"

definition update_activity :: "int \<Rightarrow> string \<Rightarrow> string \<Rightarrow> database \<Rightarrow> database" where
  "update_activity now user sid db =
     update_sessions (is_session user sid) (\<lambda>s. s\<lparr>s_last_activity := Some now, s_updated := now\<rparr>) db"

text \<open>The writes of the summary counters; \<^verbatim>\<open>Session_Modes\<close> puts them behind the analytics fence.\<close>

definition summary_counted :: "int \<Rightarrow> string \<Rightarrow> string \<Rightarrow> database \<Rightarrow> database" where
  "summary_counted now user sid db =
     update_sessions (is_session user sid) (\<lambda>s. s\<lparr>s_summary_count := Some (coalesce (s_summary_count s) 0 + 1),
       s_last_summary_attempt := Some now, s_updated := now\<rparr>) db"

definition summary_attempted :: "int \<Rightarrow> string \<Rightarrow> string \<Rightarrow> database \<Rightarrow> database" where
  "summary_attempted now user sid db =
     update_sessions (is_session user sid) (\<lambda>s. s\<lparr>s_last_summary_attempt := Some now, s_updated := now\<rparr>) db"

definition inactive_since :: "int \<Rightarrow> session \<Rightarrow> bool" where
  "inactive_since cutoff s \<longleftrightarrow> (case s_last_activity s of None \<Rightarrow> False | Some t \<Rightarrow> t < cutoff)"

definition live_child :: "session \<Rightarrow> session \<Rightarrow> bool" where
  "live_child s child \<longleftrightarrow>
     s_parent child = Some (s_id s) \<and> s_user child = s_user s \<and> s_status child \<in> {''active'', ''idle''}"

definition idle_target :: "database \<Rightarrow> int \<Rightarrow> session \<Rightarrow> bool" where
  "idle_target db cutoff s \<longleftrightarrow>
     s_status s = ''active'' \<and> inactive_since cutoff s
     \<and> \<not> exists_row (live_child s) (db_sessions db)"

definition sweep_to :: "string \<Rightarrow> (session \<Rightarrow> bool) \<Rightarrow> int \<Rightarrow> database \<Rightarrow> (string \<times> string) list \<times> database" where
  "sweep_to status target now db =
     (map session_key (filter target (db_sessions db)),
      update_sessions target (\<lambda>s. s\<lparr>s_status := status, s_updated := now,
        s_state_revision := s_state_revision s + 1\<rparr>) db)"

definition sweep_idle_sessions :: "int \<Rightarrow> int \<Rightarrow> database \<Rightarrow> (string \<times> string) list \<times> database" where
  "sweep_idle_sessions now cutoff db = sweep_to ''idle'' (idle_target db cutoff) now db"

definition child_target :: "int \<Rightarrow> session \<Rightarrow> bool" where
  "child_target cutoff s \<longleftrightarrow>
     s_status s = ''idle'' \<and> s_parent s \<noteq> None \<and> inactive_since cutoff s"

definition sweep_child_sessions :: "int \<Rightarrow> int \<Rightarrow> database \<Rightarrow> (string \<times> string) list \<times> database" where
  "sweep_child_sessions now cutoff db = sweep_to ''completed'' (child_target cutoff) now db"

definition get_active_child_sessions ::
    "string option \<Rightarrow> string option \<Rightarrow> database \<Rightarrow> (string \<times> string \<times> string) list" where
  "get_active_child_sessions user parent db =
     map (\<lambda>s. (s_user s, s_id s, s_alignment_state s))
       (filter (\<lambda>s. s_parent s \<noteq> None \<and> s_status s = ''active'' \<and> \<not> s_alignment_overridden s
            \<and> (case user of None \<Rightarrow> True | Some u \<Rightarrow> s_user s = u)
            \<and> (case parent of None \<Rightarrow> True | Some p \<Rightarrow> s_parent s = Some p)) (db_sessions db))"

subsection \<open>What no operation undoes\<close>

text \<open>A row only advances: its identity stays, sequences and revisions never go back, and every call is
  counted under one decision.\<close>

definition uncounted :: "session \<Rightarrow> int" where
  "uncounted s = s_total_calls s - (s_approved_count s + s_denied_count s + s_escalated_count s)"

definition advances :: "session \<Rightarrow> session \<Rightarrow> bool" where
  "advances s s' \<longleftrightarrow>
     session_key s' = session_key s \<and> s_parent s' = s_parent s
     \<and> coalesce (s_last_event_seq s) 0 \<le> coalesce (s_last_event_seq s') 0
     \<and> s_state_revision s \<le> s_state_revision s'
     \<and> s_guardrails_revision s \<le> s_guardrails_revision s'
     \<and> s_analytics_revision s \<le> s_analytics_revision s'
     \<and> (s_guardrails_enabled s' \<noteq> s_guardrails_enabled s \<longrightarrow> s_guardrails_revision s < s_guardrails_revision s')
     \<and> (s_analytics_enabled s' \<noteq> s_analytics_enabled s \<longrightarrow> s_analytics_revision s < s_analytics_revision s')
     \<and> uncounted s' = uncounted s"

definition same_receipt :: "reservation \<Rightarrow> reservation \<Rightarrow> bool" where
  "same_receipt r r' \<longleftrightarrow> (\<exists>a. r' = r\<lparr>sr_archived := a\<rparr>)"

definition receipts_grow :: "reservation list \<Rightarrow> reservation list \<Rightarrow> bool" where
  "receipts_grow rs rs' \<longleftrightarrow>
     length rs \<le> length rs' \<and> (\<forall>i < length rs. same_receipt (rs ! i) (rs' ! i))"

definition db_advances :: "database \<Rightarrow> database \<Rightarrow> bool" where
  "db_advances db db' \<longleftrightarrow>
     list_all2 advances (db_sessions db) (db_sessions db')
     \<and> receipts_grow (db_reservations db) (db_reservations db')"

lemma advances_refl [simp, intro]: "advances s s"
  by (simp add: advances_def)

lemma advances_trans: "advances a b \<Longrightarrow> advances b c \<Longrightarrow> advances a c"
  by (auto simp: advances_def)

lemma same_receipt_archived [simp, intro]: "same_receipt r (r\<lparr>sr_archived := a\<rparr>)"
  unfolding same_receipt_def by (rule exI [of _ a]) (rule refl)

lemma same_receipt_refl [simp, intro]: "same_receipt r r"
  using same_receipt_archived [of r "sr_archived r"] by simp

lemma same_receipt_trans: "same_receipt a b \<Longrightarrow> same_receipt b c \<Longrightarrow> same_receipt a c"
  by (auto simp: same_receipt_def)

lemma same_receipt_fields:
  "same_receipt r r' \<Longrightarrow> sr_user r' = sr_user r \<and> sr_session r' = sr_session r \<and> sr_batch r' = sr_batch r
     \<and> sr_digest r' = sr_digest r \<and> sr_ts r' = sr_ts r \<and> sr_first r' = sr_first r \<and> sr_last r' = sr_last r"
  by (auto simp: same_receipt_def)

lemma receipts_grow_refl [simp, intro]: "receipts_grow rs rs"
  by (simp add: receipts_grow_def)

lemma receipts_grow_trans:
  assumes "receipts_grow a b" "receipts_grow b c"
  shows "receipts_grow a c"
  unfolding receipts_grow_def
proof (intro conjI allI impI)
  show "length a \<le> length c"
    using assms by (auto simp: receipts_grow_def)
  show "same_receipt (a ! i) (c ! i)" if "i < length a" for i
    using assms that same_receipt_trans [of "a ! i" "b ! i" "c ! i"] by (auto simp: receipts_grow_def)
qed

lemma receipts_grow_append: "receipts_grow rs rs' \<Longrightarrow> receipts_grow rs (rs' @ new)"
  by (auto simp: receipts_grow_def nth_append)

lemma receipts_grow_update:
  "(\<And>r. same_receipt r (f r)) \<Longrightarrow> receipts_grow rs (update_rows P f rs)"
  by (simp add: receipts_grow_def update_rows_def)

lemma receipts_grow_fold:
  assumes "\<And>r. same_receipt r (f r)"
  shows "receipts_grow rs (fold (\<lambda>b. update_rows (P b) f) bs rs)"
  by (induction bs arbitrary: rs)
    (auto intro: receipts_grow_trans receipts_grow_update [OF assms])

lemma db_advances_refl [simp, intro]: "db_advances db db"
  by (simp add: db_advances_def list.rel_refl)

lemma db_advances_trans:
  assumes "db_advances a b" "db_advances b c"
  shows "db_advances a c"
proof -
  have "list_all2 advances (db_sessions a) (db_sessions c)"
    using assms unfolding db_advances_def
    by (blast intro: list_all2_trans [of advances advances advances] advances_trans)
  then show ?thesis
    using assms receipts_grow_trans by (auto simp: db_advances_def)
qed

lemma db_advances_update:
  assumes "\<And>s. P s \<Longrightarrow> advances s (f s)"
  shows "db_advances db (update_sessions P f db)"
  using assms by (auto simp: db_advances_def update_rows_def list_all2_conv_all_nth)

lemma db_advances_receipts:
  assumes "db_sessions db' = db_sessions db" "receipts_grow (db_reservations db) (db_reservations db')"
  shows "db_advances db db'"
  using assms by (simp add: db_advances_def list.rel_refl)

lemma update_one_advances:
  assumes "update_one user sid f db = Inr db'" "\<And>s. advances s (f s)"
  shows "db_advances db db'"
  using assms by (auto simp: update_one_def intro: db_advances_update split: if_splits)

lemma base_seq_ge: "coalesce (s_last_event_seq s) 0 \<le> base_seq minimum s" "minimum \<le> base_seq minimum s"
  by (auto simp: base_seq_def)

lemma advances_advance_row: "advances s (advance_row flags minimum evidence s)"
  using base_seq_ge(1) [of s minimum]
  by (simp add: advances_def advance_row_def Let_def session_key_def uncounted_def)

lemma advances_raise_last: "coalesce (s_last_event_seq s) 0 \<le> coalesce (raise_last seq s) 0"
  by (auto simp: raise_last_def)

subsection \<open>Steps\<close>

text \<open>The store's operations on stored sessions; creations and updates follow in \<open>Session_Update\<close>.\<close>

inductive store_step :: "database \<Rightarrow> database \<Rightarrow> bool" where
  status: "update_status now u sid st reason db = Inr db' \<Longrightarrow> store_step db db'"
| alignment: "set_alignment_state u sid st ex reason db = Inr (b, db') \<Longrightarrow> store_step db db'"
| overridden: "set_alignment_overridden now u sid flag db = db' \<Longrightarrow> store_step db db'"
| allocate: "allocate_event_sequences u sid flags m e q db = Inr (seqs, db') \<Longrightarrow> store_step db db'"
| archive: "archive_spool_reservations u sid batches db = db' \<Longrightarrow> store_step db db'"
| invalidate: "invalidate_spool_reservations u sid db = db' \<Longrightarrow> store_step db db'"
| observe: "observe_user_message u sid seq db = Inr db' \<Longrightarrow> store_step db db'"
| mark: "mark_user_message_observed u sid db = Inr db' \<Longrightarrow> store_step db db'"
| reconcile: "reconcile_event_high_water u sid h lu db = Inr db' \<Longrightarrow> store_step db db'"
| intention: "update_generated_intention now u sid i src t init prof g db = (b, db') \<Longrightarrow> store_step db db'"
| counter: "increment_counter now u sid d db = Inr db' \<Longrightarrow> store_step db db'"
| activity: "update_activity now u sid db = db' \<Longrightarrow> store_step db db'"
| summarized: "summary_counted now u sid db = db' \<Longrightarrow> store_step db db'"
| attempted: "summary_attempted now u sid db = db' \<Longrightarrow> store_step db db'"
| idle: "sweep_idle_sessions now cutoff db = (swept, db') \<Longrightarrow> store_step db db'"
| complete: "sweep_child_sessions now cutoff db = (swept, db') \<Longrightarrow> store_step db db'"

lemma sweep_advances: "sweep_to st P now db = (swept, db') \<Longrightarrow> db_advances db db'"
  by (auto simp: sweep_to_def advances_def session_key_def uncounted_def intro!: db_advances_update)

lemma advance_sequences_advances:
  "advance_sequences user sid flags m e db = Inr (seqs, db') \<Longrightarrow> db_advances db db'"
  by (auto simp: advance_sequences_def bindE_eq_Inr Let_def split: option.splits
      intro: update_one_advances advances_advance_row)

lemma db_advances_append:
  "db_advances db db' \<Longrightarrow> db_advances db (db'\<lparr>db_reservations := db_reservations db' @ new\<rparr>)"
  by (simp add: db_advances_def receipts_grow_append)

lemma allocate_advances:
  "allocate_event_sequences u sid flags m e q db = Inr (seqs, db') \<Longrightarrow> db_advances db db'"
  by (auto simp: allocate_event_sequences_def bindE_eq_Inr split: if_splits option.splits
      intro: advance_sequences_advances db_advances_append)

lemma step_advances: "store_step db db' \<Longrightarrow> db_advances db db'"
proof (induction rule: store_step.induct)
  case (allocate u sid flags m e q db seqs db')
  then show ?case by (rule allocate_advances)
next
  case (archive u sid batches db db')
  then show ?case
    by (auto simp: archive_spool_reservations_def intro!: db_advances_receipts receipts_grow_fold)
next
  case (invalidate u sid db db')
  then show ?case
    by (auto simp: invalidate_spool_reservations_def intro!: db_advances_receipts receipts_grow_update)
next
  case (idle now cutoff db swept db')
  then show ?case by (simp add: sweep_idle_sessions_def sweep_advances)
next
  case (complete now cutoff db swept db')
  then show ?case by (simp add: sweep_child_sessions_def sweep_advances)
qed (auto simp: update_status_def set_alignment_state_def set_alignment_overridden_def
    observe_user_message_def mark_user_message_observed_def reconcile_event_high_water_def
    update_generated_intention_def increment_counter_def update_activity_def count_decision_def
    summary_counted_def summary_attempted_def advances_def session_key_def uncounted_def Let_def advances_raise_last
    split: if_splits elim!: update_one_advances intro!: db_advances_update)

lemma steps_advance: "store_step\<^sup>*\<^sup>* db db' \<Longrightarrow> db_advances db db'"
  by (induction rule: rtranclp_induct) (auto intro: db_advances_trans step_advances)

subsection \<open>Allocation from the database\<close>

lemma find_session_advances:
  assumes "db_advances db db'"
  shows "rel_option advances (find_session db u sid) (find_session db' u sid)"
proof -
  have "rel_option advances (List.find (is_session u sid) ss) (List.find (is_session u sid) ss')"
    if "list_all2 advances ss ss'" for ss ss'
    using that
  proof (induction rule: list_all2_induct)
    case (Cons s ss s' ss')
    then have "is_session u sid s' = is_session u sid s"
      by (auto simp: advances_def session_key_def is_session_def)
    with Cons show ?case by simp
  qed simp
  then show ?thesis
    using assms by (simp add: db_advances_def find_session_def)
qed

lemma get_reservation_advances:
  assumes "db_advances db db'" "get_spool_reservation db u sid batch = Some r"
  shows "\<exists>r'. get_spool_reservation db' u sid batch = Some r' \<and> same_receipt r r'"
proof -
  obtain i where i: "i < length (db_reservations db)" "db_reservations db ! i = r"
      "is_reservation u sid batch r" "\<forall>j < i. \<not> is_reservation u sid batch (db_reservations db ! j)"
    using assms(2) unfolding get_spool_reservation_def find_Some_iff by blast
  have same: "same_receipt (db_reservations db ! j) (db_reservations db' ! j)" if "j \<le> i" for j
    using assms(1) i(1) that by (auto simp: db_advances_def receipts_grow_def)
  have len: "i < length (db_reservations db')"
    using assms(1) i(1) by (auto simp: db_advances_def receipts_grow_def)
  have "is_reservation u sid batch (db_reservations db' ! j) =
      is_reservation u sid batch (db_reservations db ! j)" if "j \<le> i" for j
    using same_receipt_fields [OF same [OF that]] by (simp add: is_reservation_def)
  then have "get_spool_reservation db' u sid batch = Some (db_reservations db' ! i)"
    unfolding get_spool_reservation_def find_Some_iff using i len by (intro exI [of _ i]) auto
  then show ?thesis
    using same [of i] i(2) by blast
qed

definition high_water :: "string \<Rightarrow> string \<Rightarrow> database \<Rightarrow> int" where
  "high_water u sid db =
     (case find_session db u sid of None \<Rightarrow> 0 | Some s \<Rightarrow> coalesce (s_last_event_seq s) 0)"

lemma high_water_advances: "db_advances db db' \<Longrightarrow> high_water u sid db \<le> high_water u sid db'"
  using find_session_advances [of db db' u sid]
  by (auto simp: high_water_def option.rel_sel advances_def split: option.splits)

lemma update_one_find:
  assumes "update_one u sid f db = Inr db'" "\<And>s. session_key (f s) = session_key s"
  shows "\<exists>s. find_session db u sid = Some s \<and> find_session db' u sid = Some (f s)"
proof -
  have db': "db' = update_sessions (is_session u sid) f db"
      and ex: "\<exists>s \<in> set (db_sessions db). is_session u sid s"
    using assms(1) by (auto simp: update_one_def row_count_zero split: if_splits)
  then obtain s where s: "find_session db u sid = Some s"
    by (cases "find_session db u sid") (auto simp: find_session_def find_None_iff)
  then have "is_session u sid s"
    by (auto dest: find_session_Some simp: is_session_def)
  then show ?thesis
    using s find_session_update [of f "is_session u sid" db u sid, OF assms(2)] db' by simp
qed

lemma advance_sequences_block:
  assumes "advance_sequences u sid flags m e db = Inr (xs, db')"
  shows "\<exists>s. find_session db u sid = Some s \<and> find_session db' u sid = Some (advance_row flags m e s)
     \<and> xs = [base_seq m s + 1..base_seq m s + int (length flags)]"
proof -
  have key: "session_key (advance_row flags m e s) = session_key s" for s
    by (simp add: advance_row_def Let_def session_key_def)
  obtain db1 row where 1: "update_one u sid (advance_row flags m e) db = Inr db1"
      "find_session db1 u sid = Some row" "db' = db1"
      "xs = [coalesce (s_last_event_seq row) 0 - int (length flags) + 1..coalesce (s_last_event_seq row) 0]"
    using assms by (auto simp: advance_sequences_def bindE_eq_Inr Let_def split: option.splits)
  obtain s where "find_session db u sid = Some s" "row = advance_row flags m e s"
    using update_one_find [OF 1(1) key] 1(2) by auto
  then show ?thesis
    using 1 by (auto simp: advance_row_def Let_def)
qed

text \<open>A request that is not the replay of a receipt.\<close>

type_synonym sequence_request = "bool list \<times> int \<times> pyval \<times> spool_request option"

definition fresh_request :: "string \<Rightarrow> string \<Rightarrow> sequence_request \<Rightarrow> database \<Rightarrow> bool" where
  "fresh_request u sid r db \<longleftrightarrow>
     (case r of (_, _, _, q) \<Rightarrow>
        (case q of None \<Rightarrow> True | Some q' \<Rightarrow> get_spool_reservation db u sid (sq_batch q') = None))"

definition db_alloc ::
    "string \<Rightarrow> string \<Rightarrow> sequence_request \<Rightarrow> database \<Rightarrow> (int list \<times> database) option" where
  "db_alloc u sid r db =
     (case r of (flags, m, e, q) \<Rightarrow>
        if fresh_request u sid r db
        then (case allocate_event_sequences u sid flags m e q db of Inl _ \<Rightarrow> None | Inr res \<Rightarrow> Some res)
        else None)"

lemma fresh_allocation:
  assumes "allocate_event_sequences u sid flags m e q db = Inr (xs, db')" "flags \<noteq> []"
    and "fresh_request u sid (flags, m, e, q) db"
  shows "\<exists>db1. advance_sequences u sid flags m e db = Inr (xs, db1)
     \<and> db' = (case q of None \<Rightarrow> db1
          | Some q' \<Rightarrow> db1\<lparr>db_reservations := db_reservations db1 @ [new_reservation u sid q' xs]\<rparr>)"
  using assms
  by (auto simp: allocate_event_sequences_def fresh_request_def bindE_eq_Inr split: option.splits)

text \<open>A receipt is answered from, whatever happened since.\<close>

lemma replay_answer:
  assumes "get_spool_reservation db u sid (sq_batch q) = Some r" "flags \<noteq> []"
    and "sr_digest r = sq_digest q" "sr_ts r = sq_ts q" "sr_last r - sr_first r + 1 = int (length flags)"
  shows "allocate_event_sequences u sid flags m e (Some q) db = Inr ([sr_first r..sr_last r], db)"
  using assms by (simp add: allocate_event_sequences_def replay_reservation_def)

lemma reserved_after:
  assumes "allocate_event_sequences u sid flags m e (Some q) db = Inr (xs, db')" "flags \<noteq> []"
    and "get_spool_reservation db u sid (sq_batch q) = None"
  shows "\<exists>r. get_spool_reservation db' u sid (sq_batch q) = Some r \<and> sr_digest r = sq_digest q
     \<and> sr_ts r = sq_ts q \<and> [sr_first r..sr_last r] = xs \<and> sr_last r - sr_first r + 1 = int (length flags)"
proof -
  obtain db1 where db1: "advance_sequences u sid flags m e db = Inr (xs, db1)"
      "db' = db1\<lparr>db_reservations := db_reservations db1 @ [new_reservation u sid q xs]\<rparr>"
    using fresh_allocation [OF assms(1,2)] assms(3) by (auto simp: fresh_request_def)
  have res: "db_reservations db1 = db_reservations db"
    using db1(1) by (auto simp: advance_sequences_def bindE_eq_Inr update_one_def Let_def
        split: option.splits if_splits)
  obtain s where xs: "xs = [base_seq m s + 1..base_seq m s + int (length flags)]"
    using advance_sequences_block [OF db1(1)] by blast
  have n: "0 < int (length flags)" using assms(2) by simp
  have ends: "hd xs = base_seq m s + 1" "List.last xs = base_seq m s + int (length flags)"
    unfolding xs by (rule hd_upto, use n in linarith) (rule last_upto, use n in linarith)
  have "get_spool_reservation db' u sid (sq_batch q) = Some (new_reservation u sid q xs)"
    using assms(3) unfolding db1(2) get_spool_reservation_def
    by (simp add: res find_append_case is_reservation_def new_reservation_def)
  then show ?thesis
    by (simp add: new_reservation_def ends) (simp add: xs)
qed

subsection \<open>Guards of a later write\<close>

definition sessions_ok :: "database \<Rightarrow> bool" where
  "sessions_ok db \<longleftrightarrow> distinct (map session_key (db_sessions db))"

lemma sessions_ok_advances:
  assumes "db_advances db db'" "sessions_ok db"
  shows "sessions_ok db'"
proof -
  have "map session_key (db_sessions db') = map session_key (db_sessions db)"
    using assms(1) unfolding db_advances_def list_all2_conv_all_nth
    by (intro nth_equalityI) (auto simp: advances_def)
  then show ?thesis using assms(2) by (simp add: sessions_ok_def)
qed

lemma found_session:
  assumes "sessions_ok db" "s \<in> set (db_sessions db)" "is_session u sid s"
  shows "find_session db u sid = Some s"
proof -
  obtain s' where s': "find_session db u sid = Some s'"
    using assms(2,3) by (cases "find_session db u sid") (auto simp: find_session_def find_None_iff)
  then have "s' \<in> set (db_sessions db)" "session_key s' = session_key s"
    using find_session_Some [OF s'] assms(3) by (auto simp: session_key_def is_session_def)
  then show ?thesis
    using s' assms(1,2) unique_row [of session_key "db_sessions db" s' s] by (simp add: sessions_ok_def)
qed

lemma refused_intention:
  assumes "sessions_ok db" "\<And>s. find_session db u sid = Some s \<Longrightarrow> \<not> intention_guard_holds g s"
  shows "update_generated_intention now u sid i src t init prof g db = (False, db)"
proof -
  have no: "\<not> (is_session u sid s \<and> intention_guard_holds g s)" if "s \<in> set (db_sessions db)" for s
    using found_session [OF assms(1) that] assms(2) by blast
  then have "row_count (\<lambda>s. is_session u sid s \<and> intention_guard_holds g s) (db_sessions db) = 0"
    by (simp add: row_count_zero)
  moreover have "update_sessions (\<lambda>s. is_session u sid s \<and> intention_guard_holds g s) f db = db" for f
    using no by (simp add: update_sessions_def update_rows_id)
  ultimately show ?thesis
    by (simp add: update_generated_intention_def Let_def)
qed

lemma user_message_raises_revision:
  assumes "advance_sequences u sid flags m e db = Inr (xs, db')" "True \<in> set flags"
  shows "\<exists>s s'. find_session db u sid = Some s \<and> find_session db' u sid = Some s'
     \<and> s_state_revision s < s_state_revision s'"
proof -
  have "0 < last_user_offset flags"
  proof -
    obtain i where "i < length flags" "flags ! i"
      using assms(2) by (auto simp: in_set_conv_nth)
    then have "(Suc i, True) \<in> set (enumerate 1 flags)"
      by (auto simp: in_set_enumerate_eq)
    then have mem: "Suc i \<in> set (0 # map fst (filter snd (enumerate 1 flags)))"
      by (auto simp: image_iff intro!: bexI [of _ "(Suc i, True)"])
    have "Suc i \<le> Max (set (0 # map fst (filter snd (enumerate 1 flags))))"
      by (rule Max_ge [OF _ mem]) simp
    then show ?thesis by (simp only: last_user_offset_def)
  qed
  then show ?thesis
    using advance_sequences_block [OF assms(1)] by (fastforce simp: advance_row_def Let_def)
qed

lemma found_revision_le:
  assumes "db_advances db db'" "find_session db u sid = Some s"
  shows "\<exists>s'. find_session db' u sid = Some s' \<and> advances s s'"
  using find_session_advances [OF assms(1), of u sid] assms(2) by (simp add: option_rel_Some1)

subsection \<open>Properties\<close>

definition sample_store :: database where
  "sample_store = \<lparr>db_sessions = [new_session ''u'' ''s'' ''build'' 0], db_reservations = [], db_tasks = []\<rparr>"

definition sample_spool :: spool_request where
  "sample_spool = \<lparr>sq_batch = ''b'', sq_digest = ''d'', sq_spool = ''p'', sq_ts = ''t''\<rparr>"

definition sample_store_after :: database where
  "sample_store_after =
     (case allocate_event_sequences ''u'' ''s'' [True, False] 5 VNone (Some sample_spool) sample_store of
        Inr (_, db) \<Rightarrow> db | Inl _ \<Rightarrow> sample_store)"

definition sample_store_final :: database where
  "sample_store_final =
     (case allocate_event_sequences ''u'' ''s'' [False] 0 VNone None sample_store_after of
        Inr (_, db) \<Rightarrow> db | Inl _ \<Rightarrow> sample_store)"

lemma sample_allocations:
  "allocate_event_sequences ''u'' ''s'' [True, False] 5 VNone (Some sample_spool) sample_store
     = Inr ([6, 7], sample_store_after)"
  "allocate_event_sequences ''u'' ''s'' [False] 0 VNone None sample_store_after = Inr ([8], sample_store_final)"
  "fresh_request ''u'' ''s'' ([True, False], 5, VNone, Some sample_spool) sample_store"
  "fresh_request ''u'' ''s'' ([False], 0, VNone, None) sample_store_after"
  "get_spool_reservation sample_store ''u'' ''s'' (sq_batch sample_spool) = None"
  by code_simp+

text \<open>Spooling is exactly-once: repeating an append with the batch of an earlier one returns the numbers it
  got, and changes nothing, whatever the store did in between.\<close>

theorem spooled_append_replays:
  assumes "allocate_event_sequences u sid flags m e (Some q) db = Inr (xs, db1)" "flags \<noteq> []"
    and "get_spool_reservation db u sid (sq_batch q) = None" "store_step\<^sup>*\<^sup>* db1 db2"
  shows "allocate_event_sequences u sid flags m' e' (Some q) db2 = Inr (xs, db2)"
proof -
  obtain r where r: "get_spool_reservation db1 u sid (sq_batch q) = Some r" "sr_digest r = sq_digest q"
      "sr_ts r = sq_ts q" "[sr_first r..sr_last r] = xs" "sr_last r - sr_first r + 1 = int (length flags)"
    using reserved_after [OF assms(1-3)] by blast
  obtain r' where r': "get_spool_reservation db2 u sid (sq_batch q) = Some r'" "same_receipt r r'"
    using get_reservation_advances [OF steps_advance [OF assms(4)] r(1)] by blast
  show ?thesis
    using replay_answer [OF r'(1) assms(2)] same_receipt_fields [OF r'(2)] r by simp
qed

theorem spooled_append_replays_witness:
  "allocate_event_sequences ''u'' ''s'' [True, False] 0 VNone (Some sample_spool) sample_store_after
     = Inr ([6, 7], sample_store_after)"
  by (rule spooled_append_replays [OF sample_allocations(1) _ sample_allocations(5) rtranclp.rtrancl_refl])
    simp

text \<open>A generated intention never overwrites a newer user message: when one was recorded between reading
  the session and writing the intention, the write is refused and changes nothing.\<close>

theorem generated_intention_is_fenced:
  assumes "sessions_ok db" "find_session db u sid = Some s"
    and "store_step\<^sup>*\<^sup>* db db1"
    and "advance_sequences u sid flags m e db1 = Inr (xs, db2)" "True \<in> set flags"
    and "store_step\<^sup>*\<^sup>* db2 db3"
    and "ig_expected_state g = Some (s_state_revision s)"
  shows "update_generated_intention now u sid i src t init prof g db3 = (False, db3)"
proof -
  obtain s1 s2 where s12: "find_session db1 u sid = Some s1" "find_session db2 u sid = Some s2"
      "s_state_revision s1 < s_state_revision s2"
    using user_message_raises_revision [OF assms(4,5)] by blast
  have adv: "db_advances db db1" "db_advances db1 db2" "db_advances db2 db3"
    using steps_advance assms(3,6) advance_sequences_advances [OF assms(4)] by auto
  have "s_state_revision s \<le> s_state_revision s1"
    using found_revision_le [OF adv(1) assms(2)] s12(1) by (auto simp: advances_def)
  moreover obtain s3 where s3: "find_session db3 u sid = Some s3" "s_state_revision s2 \<le> s_state_revision s3"
    using found_revision_le [OF adv(3) s12(2)] by (auto simp: advances_def)
  ultimately have stale: "s_state_revision s3 \<noteq> s_state_revision s"
    using s12(3) by simp
  show ?thesis
  proof (rule refused_intention)
    show "sessions_ok db3"
      using assms(1) adv by (blast intro: sessions_ok_advances)
    show "\<not> intention_guard_holds g s'" if "find_session db3 u sid = Some s'" for s'
      using that s3(1) stale assms(7) by (simp add: intention_guard_holds_def)
  qed
qed

definition sample_guard :: intention_guard where
  "sample_guard = \<lparr>ig_expected_user_seq = None, ig_guard_user_seq = False, ig_require_no_user = False,
     ig_expected_state = Some 1, ig_expected_guardrails = None\<rparr>"

definition sample_message_after :: database where
  "sample_message_after =
     (case advance_sequences ''u'' ''s'' [True] 0 VNone sample_store of
        Inr (_, db) \<Rightarrow> db | Inl _ \<Rightarrow> sample_store)"

lemma sample_message:
  "advance_sequences ''u'' ''s'' [True] 0 VNone sample_store = Inr ([1], sample_message_after)"
  "find_session sample_store ''u'' ''s'' = Some (new_session ''u'' ''s'' ''build'' 0)"
  by code_simp+

theorem generated_intention_is_fenced_witness:
  "update_generated_intention 9 ''u'' ''s'' ''deploy'' ''bootstrap'' None False VNone sample_guard
     sample_message_after = (False, sample_message_after)"
  by (rule generated_intention_is_fenced [OF _ sample_message(2) rtranclp.rtrancl_refl
        sample_message(1) _ rtranclp.rtrancl_refl])
    (simp_all add: sessions_ok_def sample_store_def sample_guard_def new_session_def)

text \<open>The store's operations only move a session forward: its identity and parent stay, its sequence
  high-water mark and its revisions never decrease, and its calls stay exactly the sum of its
  decision counters.\<close>

theorem session_rows_advance:
  assumes "store_step\<^sup>*\<^sup>* db db'" "find_session db u sid = Some s"
  shows "\<exists>s'. find_session db' u sid = Some s' \<and> session_key s' = session_key s \<and> s_parent s' = s_parent s
     \<and> coalesce (s_last_event_seq s) 0 \<le> coalesce (s_last_event_seq s') 0
     \<and> s_state_revision s \<le> s_state_revision s'
     \<and> s_total_calls s' - (s_approved_count s' + s_denied_count s' + s_escalated_count s') =
         s_total_calls s - (s_approved_count s + s_denied_count s + s_escalated_count s)"
  using found_revision_le [OF steps_advance [OF assms(1)] assms(2)]
  by (auto simp: advances_def uncounted_def)

theorem session_rows_advance_witness:
  "\<exists>s'. find_session (update_activity 7 ''u'' ''s'' sample_store) ''u'' ''s'' = Some s'
     \<and> session_key s' = (''u'', ''s'')"
proof -
  have "store_step\<^sup>*\<^sup>* sample_store (update_activity 7 ''u'' ''s'' sample_store)"
    by (rule r_into_rtranclp, rule activity, rule refl)
  from session_rows_advance [OF this sample_message(2)] show ?thesis
    by (auto simp: session_key_def new_session_def)
qed

text \<open>The idle sweep takes exactly the active sessions that were inactive since the cutoff and have no
  active or idle child; every other session is left as it was.\<close>

theorem idle_sweep_exact:
  assumes "sessions_ok db" "sweep_idle_sessions now cutoff db = (swept, db')"
  shows "set swept = session_key ` {s \<in> set (db_sessions db). s_status s = ''active''
       \<and> inactive_since cutoff s \<and> (\<forall>child \<in> set (db_sessions db). \<not> live_child s child)}
     \<and> (\<forall>s \<in> set (db_sessions db). find_session db' (s_user s) (s_id s) =
          Some (if session_key s \<in> set swept
                then s\<lparr>s_status := ''idle'', s_updated := now, s_state_revision := s_state_revision s + 1\<rparr>
                else s))"
proof -
  have swept: "set swept = session_key ` {s \<in> set (db_sessions db). idle_target db cutoff s}"
    and db': "db' = update_sessions (idle_target db cutoff) (\<lambda>s. s\<lparr>s_status := ''idle'', s_updated := now,
        s_state_revision := s_state_revision s + 1\<rparr>) db"
    using assms(2) by (auto simp: sweep_idle_sessions_def sweep_to_def)
  have "find_session db' (s_user s) (s_id s) =
      Some (if idle_target db cutoff s then s\<lparr>s_status := ''idle'', s_updated := now,
        s_state_revision := s_state_revision s + 1\<rparr> else s)" if "s \<in> set (db_sessions db)" for s
    using found_session [OF assms(1) that, of "s_user s" "s_id s"]
    by (simp add: db' find_session_update session_key_def is_session_def)
  moreover have "session_key s \<in> set swept \<longleftrightarrow> idle_target db cutoff s" if "s \<in> set (db_sessions db)" for s
    using that assms(1) unique_row [of session_key "db_sessions db" s]
    by (auto simp: swept sessions_ok_def)
  moreover have "{s \<in> set (db_sessions db). idle_target db cutoff s} =
      {s \<in> set (db_sessions db). s_status s = ''active''
         \<and> inactive_since cutoff s \<and> (\<forall>child \<in> set (db_sessions db). \<not> live_child s child)}"
    by (auto simp: idle_target_def exists_row_iff)
  ultimately show ?thesis
    using swept by simp
qed

theorem idle_sweep_exact_witness:
  "set (fst (sweep_idle_sessions 9 5 sample_store)) = session_key ` {s \<in> set (db_sessions sample_store).
     s_status s = ''active'' \<and> inactive_since 5 s
     \<and> (\<forall>child \<in> set (db_sessions sample_store). \<not> live_child s child)}"
  by (rule conjunct1 [OF idle_sweep_exact [OF _ surjective_pairing]])
    (simp add: sessions_ok_def sample_store_def)

end
