(* ===== verification/Session_Update.thy ===== *)
theory Session_Update
  imports Session_Store
begin

text \<open>
  Creation and update of sessions in \<^verbatim>\<open>intaris/session.py\<close>: policy activation under a
  parent, revision-guarded updates, participation flags with the revocation of queued work, and the
  re-activation of stale inherited policies.  A failing call is a left value: the refreshes of ancestors
  that it had committed before it failed are steps of their own.  \<^verbatim>\<open>prepare_policy\<close> (validation and model-backed
  compilation), the content hash and the workflow registry are arguments, collected in \<open>policy_env\<close>.
\<close>

record policy_env =
  env_digest :: "pyval \<Rightarrow> string"
  env_prepare :: "pydict \<Rightarrow> string \<Rightarrow> pyval \<Rightarrow> pyval \<Rightarrow> policy_error + pydict"
  env_registry :: "string \<Rightarrow> string \<Rightarrow> bool"

definition refused :: "policy_error + 'a \<Rightarrow> session_error + 'a" where
  "refused r = (case r of Inl e \<Rightarrow> Inl (PolicyRefused e) | Inr x \<Rightarrow> Inr x)"

subsection \<open>The parent's fence\<close>

definition guard_parent :: "policy_env \<Rightarrow> database \<Rightarrow> session \<Rightarrow> string \<Rightarrow> session_error + unit" where
  "guard_parent env db parent user =
     bindE (refused (validate_parent_chain (env_digest env) db db parent)) (\<lambda>_.
       case find_session db user (s_id parent) of
         None \<Rightarrow> Inl ParentChanged
       | Some row \<Rightarrow>
           if s_policy_revision row \<noteq> s_policy_revision parent
              \<or> s_state_revision row \<noteq> s_state_revision parent then Inl ParentChanged
           else if s_status row \<in> inactive_statuses then Inl InactiveParent
           else Inr ())"

subsection \<open>Updates\<close>

record session_patch =
  sp_intention :: "string option"
  sp_details :: pyval
  sp_policy :: "pydict option"
  sp_source :: "string option"
  sp_title :: "string option"
  sp_expected :: "int option"
  sp_analytics :: "bool option"
  sp_guardrails :: "bool option"

definition empty_patch :: session_patch where
  "empty_patch = \<lparr>sp_intention = None, sp_details = VNone, sp_policy = None, sp_source = None,
     sp_title = None, sp_expected = None, sp_analytics = None, sp_guardrails = None\<rparr>"

definition changes_nothing :: "session_patch \<Rightarrow> bool" where
  "changes_nothing p \<longleftrightarrow>
     sp_intention p = None \<and> sp_details p = VNone \<and> sp_policy p = None \<and> sp_source p = None
     \<and> sp_title p = None \<and> sp_analytics p = None \<and> sp_guardrails p = None"

text \<open>What the activation of a policy prepared: the local source, the composed policy and the parent.\<close>

record activation =
  ac_local :: "pydict option"
  ac_policy :: "pydict option"
  ac_parent :: "session option"
  ac_identity :: "string option"

definition no_activation :: activation where
  "no_activation = \<lparr>ac_local = None, ac_policy = None, ac_parent = None, ac_identity = None\<rparr>"

definition existing_version :: "session \<Rightarrow> pyval" where
  "existing_version s =
     dget_default (case s_policy s of None \<Rightarrow> [] | Some d \<Rightarrow> d) ''evaluation_policy_version'' (VStr ''legacy'')"

type_synonym refresher = "database \<Rightarrow> string \<Rightarrow> string \<Rightarrow> string list \<Rightarrow> session_error + session \<times> database"

definition activate ::
    "policy_env \<Rightarrow> refresher \<Rightarrow> database \<Rightarrow> string \<Rightarrow> session \<Rightarrow> session_patch
      \<Rightarrow> session_error + activation \<times> database" where
  "activate env refresh db user current p =
     (case sp_policy p of
        None \<Rightarrow> Inr (no_activation, db)
      | Some policy \<Rightarrow>
          (let own = source_policy (Some policy);
               scope = (if sp_details p \<noteq> VNone then sp_details p else s_details current);
               prepared = (\<lambda>d. refused (env_prepare env d user scope (existing_version current)))
           in case parent_of current of
                None \<Rightarrow> bindE (prepared policy) (\<lambda>d.
                  Inr (\<lparr>ac_local = Some own, ac_policy = Some d, ac_parent = None, ac_identity = None\<rparr>, db))
              | Some pid \<Rightarrow>
                  bindE (refresh db user pid []) (\<lambda>(parent, db1).
                  bindE (refused (inherit_policy (env_digest env) (s_policy parent) (Some own))) (\<lambda>composed.
                  bindE (prepared composed) (\<lambda>d.
                  Inr (\<lparr>ac_local = Some own, ac_policy = Some d, ac_parent = Some parent,
                        ac_identity = Some (authorization_identity (env_digest env) parent)\<rparr>, db1))))))"

definition unset_or :: "'v option \<Rightarrow> 'v \<Rightarrow> bool" where
  "unset_or new old \<longleftrightarrow> (case new of None \<Rightarrow> True | Some v \<Rightarrow> v = old)"

definition stored_source :: "session \<Rightarrow> pydict" where
  "stored_source s = (case s_policy_source s of None \<Rightarrow> [] | Some d \<Rightarrow> d)"

text \<open>An update that repeats what is stored is answered without writing.\<close>

definition repeats :: "activation \<Rightarrow> session_patch \<Rightarrow> session \<Rightarrow> bool" where
  "repeats ac p s \<longleftrightarrow>
     (ac_parent ac = None \<or> s_parent_policy_hash s = ac_identity ac)
     \<and> (ac_parent ac = None \<or> unset_or (ac_local ac) (stored_source s))
     \<and> unset_or (sp_intention p) (s_intention s)
     \<and> (ac_policy ac = None \<or> ac_policy ac = s_policy s)
     \<and> (sp_details p = VNone \<or> sp_details p = s_details s)
     \<and> unset_or (sp_source p) (s_intention_source s)
     \<and> (sp_title p = None \<or> sp_title p = s_title s)
     \<and> unset_or (sp_analytics p) (s_analytics_enabled s)
     \<and> unset_or (sp_guardrails p) (s_guardrails_enabled s)"

definition bumps_state :: "session_patch \<Rightarrow> bool" where
  "bumps_state p \<longleftrightarrow>
     sp_intention p \<noteq> None \<or> sp_policy p \<noteq> None \<or> sp_details p \<noteq> VNone \<or> sp_source p \<noteq> None"

definition flag_changed :: "bool option \<Rightarrow> bool \<Rightarrow> bool" where
  "flag_changed new old \<longleftrightarrow> (case new of None \<Rightarrow> False | Some b \<Rightarrow> b \<noteq> old)"

definition patch_row :: "int \<Rightarrow> session_patch \<Rightarrow> activation \<Rightarrow> session \<Rightarrow> session \<Rightarrow> session" where
  "patch_row now p ac current s =
     (let toggled = flag_changed (sp_guardrails p) (s_guardrails_enabled s) in
      s\<lparr>s_updated := now,
        s_state_revision := s_state_revision s + (if bumps_state p \<or> toggled then 1 else 0),
        s_intention := coalesce (sp_intention p) (s_intention s),
        s_details := (if sp_details p \<noteq> VNone then sp_details p else s_details s),
        s_policy := (if sp_policy p \<noteq> None then ac_policy ac else s_policy s),
        s_policy_revision := s_policy_revision s + (if sp_policy p \<noteq> None then 1 else 0),
        s_policy_source := (if sp_policy p \<noteq> None then ac_local ac else s_policy_source s),
        s_parent_policy_hash := (if sp_policy p \<noteq> None then ac_identity ac else s_parent_policy_hash s),
        s_intention_source := coalesce (sp_source p) (s_intention_source s),
        s_title := (if sp_title p \<noteq> None then sp_title p else s_title s),
        s_analytics_revision := s_analytics_revision s
          + (if flag_changed (sp_analytics p) (s_analytics_enabled s) then 1 else 0),
        s_analytics_enabled := coalesce (sp_analytics p) (s_analytics_enabled s),
        s_guardrails_revision := s_guardrails_revision s + (if toggled then 1 else 0),
        s_guardrails_enabled := coalesce (sp_guardrails p) (s_guardrails_enabled s),
        s_alignment_state := (if toggled
          then (if sp_guardrails p = Some True \<and> parent_of current \<noteq> None then ''pending'' else ''ready'')
          else s_alignment_state s),
        s_alignment_reason := (if toggled then None else s_alignment_reason s)\<rparr>)"

text \<open>Opting out revokes the queued and running work of the session in the same transaction.\<close>

definition revoke_tasks :: "int \<Rightarrow> string \<Rightarrow> string \<Rightarrow> task_type \<Rightarrow> string \<Rightarrow> database \<Rightarrow> database" where
  "revoke_tasks now user sid type why db =
     update_tasks (\<lambda>t. t_user t = user \<and> t_session t = Some sid \<and> t_type t = type
          \<and> t_status t \<in> {TPending, TRunning})
       (\<lambda>t. t\<lparr>t_status := TCancelled, t_token := None, t_completed := Some now,
          t_result := Some [(''status'', VStr ''skipped''), (''reason'', VStr why)]\<rparr>) db"

definition revoke_opted_out :: "int \<Rightarrow> string \<Rightarrow> string \<Rightarrow> session_patch \<Rightarrow> database \<Rightarrow> database" where
  "revoke_opted_out now user sid p db =
     (let db1 = (if sp_analytics p = Some False
                 then revoke_tasks now user sid SummaryTask ''analytics_disabled'' db else db)
      in if sp_guardrails p = Some False
         then revoke_tasks now user sid IntentionTask ''guardrails_disabled'' db1 else db1)"

text \<open>The revisions that the update must still find, when a policy or an expected revision is given.\<close>

definition captured :: "session_patch \<Rightarrow> session \<Rightarrow> (int \<times> int) option" where
  "captured p current =
     (if sp_policy p \<noteq> None \<or> sp_expected p \<noteq> None
      then Some (s_policy_revision current, s_state_revision current) else None)"

definition patch_target :: "string \<Rightarrow> string \<Rightarrow> (int \<times> int) option \<Rightarrow> session \<Rightarrow> bool" where
  "patch_target user sid revs s \<longleftrightarrow>
     is_session user sid s
     \<and> (case revs of None \<Rightarrow> True | Some (pr, sr) \<Rightarrow> s_policy_revision s = pr \<and> s_state_revision s = sr)"

definition hybrid_version :: "pydict option \<Rightarrow> bool" where
  "hybrid_version policy \<longleftrightarrow> oget policy ''evaluation_policy_version'' = VStr ''hybrid_v1''"

text \<open>The write of an update, in one transaction on the database as it is then.\<close>

definition apply_patch ::
    "policy_env \<Rightarrow> int \<Rightarrow> database \<Rightarrow> string \<Rightarrow> string \<Rightarrow> session \<Rightarrow> session_patch \<Rightarrow> activation
      \<Rightarrow> session_error + database" where
  "apply_patch env now db user sid current p ac =
     bindE (case ac_parent ac of None \<Rightarrow> Inr () | Some parent \<Rightarrow> guard_parent env db parent user) (\<lambda>_.
       let target = patch_target user sid (captured p current) in
       if row_count target (db_sessions db) = 0
       then Inl (if captured p current \<noteq> None then StaleRevision else SessionNotFound)
       else if ac_policy ac \<noteq> None \<and> \<not> hybrid_version (ac_policy ac) \<and> env_registry env user sid
       then Inl WorkflowConflict
       else Inr (revoke_opted_out now user sid p (update_sessions target (patch_row now p ac current) db)))"

definition stored :: "database \<Rightarrow> string \<Rightarrow> string \<Rightarrow> session_error + session \<times> database" where
  "stored db user sid =
     (case find_session db user sid of None \<Rightarrow> Inl SessionNotFound | Some s \<Rightarrow> Inr (s, db))"

definition update_session ::
    "policy_env \<Rightarrow> refresher \<Rightarrow> int \<Rightarrow> database \<Rightarrow> string \<Rightarrow> string \<Rightarrow> session_patch
      \<Rightarrow> session_error + session \<times> database" where
  "update_session env refresh now db user sid p =
     bindE (stored db user sid) (\<lambda>(current, _).
       if sp_expected p \<noteq> None \<and> sp_expected p \<noteq> Some (s_policy_revision current) then Inl StaleRevision
       else if changes_nothing p then Inr (current, db)
       else
         bindE (activate env refresh db user current p) (\<lambda>(ac, db1).
           if repeats ac p current then Inr (current, db1)
           else bindE (apply_patch env now db1 user sid current p ac) (\<lambda>db2. stored db2 user sid)))"

subsection \<open>Refreshing inherited policies\<close>

text \<open>
  The walk up the ancestors re-activates every session whose stored parent identity is stale, root
  first.  The re-activation refreshes the parent once more; the fuel bounds the nesting.
\<close>

primrec refresh_inherited_policy :: "nat \<Rightarrow> policy_env \<Rightarrow> int \<Rightarrow> refresher" where
  "refresh_inherited_policy 0 = (\<lambda>env now db user sid seen. Inl RefreshFuel)"
| "refresh_inherited_policy (Suc n) = (\<lambda>env now db user sid seen.
     if sid \<in> set seen \<or> length seen \<ge> 32 then Inl InvalidAncestry
     else
       bindE (stored db user sid) (\<lambda>(current, _).
         case parent_of current of
           None \<Rightarrow> Inr (current, db)
         | Some pid \<Rightarrow>
             bindE (refresh_inherited_policy n env now db user pid (sid # seen)) (\<lambda>(parent, db1).
               if s_status parent \<in> inactive_statuses then Inl InactiveParent
               else if s_parent_policy_hash current \<noteq> Some (authorization_identity (env_digest env) parent)
               then update_session env (refresh_inherited_policy n env now) now db1 user sid
                      (empty_patch\<lparr>sp_policy := Some
                         (case s_policy_source current of
                            Some own \<Rightarrow> own | None \<Rightarrow> source_policy (s_policy current))\<rparr>)
               else Inr (current, db1))))"

subsection \<open>Creation\<close>

record session_request =
  rq_intention :: string
  rq_details :: pyval
  rq_policy :: "pydict option"
  rq_parent :: "string option"
  rq_agent :: "string option"
  rq_title :: "string option"
  rq_expected :: "int option"
  rq_analytics :: bool
  rq_guardrails :: bool

definition request_parent :: "session_request \<Rightarrow> string option" where
  "request_parent rq = (case rq_parent rq of Some p \<Rightarrow> if p = [] then None else Some p | None \<Rightarrow> None)"

definition created_row ::
    "policy_env \<Rightarrow> int \<Rightarrow> string \<Rightarrow> string \<Rightarrow> session_request \<Rightarrow> pydict \<Rightarrow> pydict \<Rightarrow> session option \<Rightarrow> session" where
  "created_row env now user sid rq own policy parent =
     (new_session user sid (rq_intention rq) now)
       \<lparr>s_details := (if truthy (rq_details rq) then rq_details rq else VNone),
        s_policy := (if policy = [] then None else Some policy),
        s_parent := rq_parent rq, s_agent := rq_agent rq, s_title := rq_title rq,
        s_alignment_state := (if request_parent rq \<noteq> None \<and> rq_guardrails rq \<and> hybrid_version (Some policy)
           then ''pending'' else ''ready''),
        s_policy_source := Some own,
        s_parent_policy_hash := map_option (authorization_identity (env_digest env)) parent,
        s_analytics_enabled := rq_analytics rq, s_guardrails_enabled := rq_guardrails rq\<rparr>"

definition create_session ::
    "policy_env \<Rightarrow> refresher \<Rightarrow> int \<Rightarrow> database \<Rightarrow> string \<Rightarrow> string \<Rightarrow> session_request
      \<Rightarrow> session_error + session \<times> database" where
  "create_session env refresh now db user sid rq =
     (if rq_expected rq \<notin> {None, Some 0} then Inl StaleRevision
      else
        (let own = source_policy (rq_policy rq) in
         bindE (case request_parent rq of None \<Rightarrow> Inr (None, db)
            | Some pid \<Rightarrow> bindE (refresh db user pid []) (\<lambda>(parent, db1). Inr (Some parent, db1)))
         (\<lambda>(parent, db1).
         bindE (refused (case parent of None \<Rightarrow> Inr own
            | Some pr \<Rightarrow> inherit_policy (env_digest env) (s_policy pr) (Some own))) (\<lambda>composed.
         bindE (refused (env_prepare env composed user (rq_details rq) VNone)) (\<lambda>policy.
         bindE (case parent of None \<Rightarrow> Inr () | Some pr \<Rightarrow> guard_parent env db1 pr user) (\<lambda>_.
           if exists_row (is_session user sid) (db_sessions db1) then Inl SessionExists
           else let row = created_row env now user sid rq own policy parent
                in Inr (row, db1\<lparr>db_sessions := db_sessions db1 @ [row]\<rparr>)))))))"

subsection \<open>Rows survive and only advance\<close>

definition rows_kept :: "database \<Rightarrow> database \<Rightarrow> bool" where
  "rows_kept db db' \<longleftrightarrow>
     (\<forall>u sid s. find_session db u sid = Some s \<longrightarrow>
        (\<exists>s'. find_session db' u sid = Some s' \<and> advances s s'))"

lemma rows_kept_refl [simp, intro]: "rows_kept db db"
  by (simp add: rows_kept_def)

lemma rows_kept_trans: "rows_kept a b \<Longrightarrow> rows_kept b c \<Longrightarrow> rows_kept a c"
  unfolding rows_kept_def by (meson advances_trans)

lemma rows_kept_advances: "db_advances db db' \<Longrightarrow> rows_kept db db'"
  unfolding rows_kept_def using found_revision_le by blast

lemma rows_kept_update:
  assumes "\<And>s. P s \<Longrightarrow> advances s (f s)"
  shows "rows_kept db (update_sessions P f db)"
  by (intro rows_kept_advances db_advances_update assms)

lemma rows_kept_same_sessions:
  "db_sessions db' = db_sessions db \<Longrightarrow> rows_kept db db'"
  by (simp add: rows_kept_def find_session_def)

lemma advances_patch_row: "advances s (patch_row now p ac current s)"
  by (cases "sp_guardrails p"; cases "sp_analytics p")
    (auto simp: patch_row_def Let_def advances_def session_key_def uncounted_def flag_changed_def)

lemma revoke_tasks_sessions [simp]:
  "db_sessions (revoke_tasks now user sid type why db) = db_sessions db"
  "db_sessions (revoke_opted_out now user sid p db) = db_sessions db"
  by (simp_all add: revoke_tasks_def revoke_opted_out_def Let_def)

lemma apply_patch_kept:
  assumes "apply_patch env now db user sid current p ac = Inr db'"
  shows "rows_kept db db'"
proof -
  have "db_sessions db' =
      db_sessions (update_sessions (patch_target user sid (captured p current)) (patch_row now p ac current) db)"
    using assms by (auto simp: apply_patch_def bindE_eq_Inr Let_def split: if_splits)
  then have "rows_kept (update_sessions (patch_target user sid (captured p current))
      (patch_row now p ac current) db) db'"
    by (rule rows_kept_same_sessions)
  then show ?thesis
    by (rule rows_kept_trans [rotated]) (rule rows_kept_update, rule advances_patch_row)
qed

text \<open>Sessions change by the store's steps, by updates and by creations.\<close>

inductive session_step :: "database \<Rightarrow> database \<Rightarrow> bool" where
  stored_step: "store_step db db' \<Longrightarrow> session_step db db'"
| updated: "update_session env (refresh_inherited_policy n env now) now db u sid p = Inr (s, db')
    \<Longrightarrow> session_step db db'"
| created: "create_session env (refresh_inherited_policy n env now) now db u sid rq = Inr (s, db')
    \<Longrightarrow> session_step db db'"

inductive_cases session_stepE: "session_step db db'"

subsection \<open>What every step of the sessions keeps\<close>

text \<open>
  A preorder that the single writes respect is respected by the composed operations, with their nested
  refreshes of ancestors, and by every sequence of them.
\<close>

definition keeps :: "(database \<Rightarrow> database \<Rightarrow> bool) \<Rightarrow> refresher \<Rightarrow> bool" where
  "keeps R refresh \<longleftrightarrow>
     (\<forall>db user sid seen s db'. refresh db user sid seen = Inr (s, db') \<longrightarrow> R db db')"

lemma stored_Inr: "stored db user sid = Inr (s, db') \<longleftrightarrow> find_session db user sid = Some s \<and> db' = db"
  by (auto simp: stored_def split: option.splits)

lemma created_row_key [simp]:
  "s_user (created_row env now user sid rq own policy parent) = user"
  "s_id (created_row env now user sid rq own policy parent) = sid"
  "s_state_revision (created_row env now user sid rq own policy parent) = 1"
  "s_last_event_seq (created_row env now user sid rq own policy parent) = Some 0"
  by (simp_all add: created_row_def new_session_def)

locale session_preorder =
  fixes R :: "database \<Rightarrow> database \<Rightarrow> bool"
  assumes kept_refl: "R db db"
    and kept_trans: "R db1 db2 \<Longrightarrow> R db2 db3 \<Longrightarrow> R db1 db3"
    and kept_store: "store_step db db' \<Longrightarrow> R db db'"
    and kept_patch: "apply_patch env now db user sid current p ac = Inr db' \<Longrightarrow> R db db'"
    and kept_insert: "\<not> exists_row (is_session (s_user row) (s_id row)) (db_sessions db)
      \<Longrightarrow> s_state_revision row = 1 \<Longrightarrow> s_last_event_seq row = Some 0 \<Longrightarrow> R db (db\<lparr>db_sessions := db_sessions db @ [row]\<rparr>)"
begin

lemma activate_kept:
  assumes "keeps R refresh" "activate env refresh db user current p = Inr (ac, db')"
  shows "R db db'"
  using assms kept_refl by (auto simp: activate_def keeps_def bindE_eq_Inr Let_def split: option.splits)

lemma update_session_kept:
  assumes "keeps R refresh" "update_session env refresh now db user sid p = Inr (s, db')"
  shows "R db db'"
proof -
  consider "db' = db"
    | ac where "activate env refresh db user s p = Inr (ac, db')"
    | ac db1 current where "activate env refresh db user current p = Inr (ac, db1)"
        "apply_patch env now db1 user sid current p ac = Inr db'"
    using assms(2) by (auto simp: update_session_def bindE_eq_Inr stored_Inr split: if_splits)
  then show ?thesis
  proof cases
    case 1 then show ?thesis by (simp add: kept_refl)
  next
    case 2 then show ?thesis using activate_kept [OF assms(1)] by blast
  next
    case 3 then show ?thesis using activate_kept [OF assms(1)] kept_patch kept_trans by blast
  qed
qed

lemma refresh_kept: "keeps R (refresh_inherited_policy n env now)"
proof (induction n)
  case 0
  then show ?case by (simp add: keeps_def)
next
  case (Suc n)
  show ?case
    unfolding keeps_def
  proof (intro allI impI)
    fix db user sid seen s db'
    assume run: "refresh_inherited_policy (Suc n) env now db user sid seen = Inr (s, db')"
    then obtain current where current: "find_session db user sid = Some current"
      by (auto simp: bindE_eq_Inr stored_Inr split: if_splits)
    show "R db db'"
    proof (cases "parent_of current")
      case None
      with run current show ?thesis by (auto simp: kept_refl bindE_eq_Inr stored_Inr split: if_splits)
    next
      case (Some pid)
      then obtain parent db1 where up: "refresh_inherited_policy n env now db user pid (sid # seen) = Inr (parent, db1)"
        using run current by (auto simp: bindE_eq_Inr stored_Inr split: if_splits)
      have "db' = db1 \<or> (\<exists>p. update_session env (refresh_inherited_policy n env now) now db1 user sid p = Inr (s, db'))"
        using run current Some up by (auto simp: bindE_eq_Inr stored_Inr split: if_splits)
      then have "R db1 db'"
        using update_session_kept [OF Suc.IH] kept_refl by auto
      moreover have "R db db1"
        using Suc.IH up unfolding keeps_def by blast
      ultimately show ?thesis by (rule kept_trans [rotated])
    qed
  qed
qed

lemma create_kept:
  assumes "create_session env (refresh_inherited_policy n env now) now db u sid rq = Inr (s, db')"
  shows "R db db'"
proof -
  obtain parent db1 row where up: "(case request_parent rq of None \<Rightarrow> Inr (None, db)
      | Some pid \<Rightarrow> bindE (refresh_inherited_policy n env now db u pid []) (\<lambda>(parent, db1). Inr (Some parent, db1)))
        = Inr (parent, db1)"
    and db': "db' = db1\<lparr>db_sessions := db_sessions db1 @ [row]\<rparr>"
    and key: "s_user row = u" "s_id row = sid" "s_state_revision row = 1" "s_last_event_seq row = Some 0" "\<not> exists_row (is_session u sid) (db_sessions db1)"
    using assms created_row_key by (auto simp: create_session_def bindE_eq_Inr Let_def split: if_splits)
  have "R db db1"
    using up refresh_kept [of n env now] kept_refl
    by (auto simp: keeps_def bindE_eq_Inr split: option.splits)
  then show ?thesis
    unfolding db' by (rule kept_trans) (rule kept_insert, simp_all add: key)
qed

lemma step_kept: "session_step db db' \<Longrightarrow> R db db'"
  by (erule session_stepE) (auto intro: kept_store update_session_kept [OF refresh_kept] create_kept)

lemma steps_kept: "session_step\<^sup>*\<^sup>* db db' \<Longrightarrow> R db db'"
  by (induction rule: rtranclp_induct) (auto intro: kept_refl kept_trans step_kept)

end

interpretation rows: session_preorder rows_kept
proof unfold_locales
  show "rows_kept db (db\<lparr>db_sessions := db_sessions db @ [row]\<rparr>)" for db row
    by (auto simp: rows_kept_def find_session_def find_append_case)
qed (auto intro: rows_kept_advances step_advances rows_kept_trans apply_patch_kept)

text \<open>Session keys stay unique.\<close>

interpretation keys: session_preorder "\<lambda>db db'. sessions_ok db \<longrightarrow> sessions_ok db'"
proof unfold_locales
  fix db db' assume "store_step db db'"
  then show "sessions_ok db \<longrightarrow> sessions_ok db'"
    using step_advances sessions_ok_advances by blast
next
  fix env now db user sid current p ac db'
  assume "apply_patch env now db user sid current p ac = Inr db'"
  then have "db_sessions db' =
      db_sessions (update_sessions (patch_target user sid (captured p current)) (patch_row now p ac current) db)"
    by (auto simp: apply_patch_def bindE_eq_Inr Let_def split: if_splits)
  then show "sessions_ok db \<longrightarrow> sessions_ok db'"
    using advances_patch_row by (simp add: sessions_ok_def update_rows_key advances_def)
next
  fix row :: session and db :: database assume "\<not> exists_row (is_session (s_user row) (s_id row)) (db_sessions db)"
  then show "sessions_ok db \<longrightarrow> sessions_ok (db\<lparr>db_sessions := db_sessions db @ [row]\<rparr>)"
    by (auto simp: sessions_ok_def exists_row_iff is_session_def session_key_def)
qed auto

text \<open>The high-water mark of a session's events is never lowered.\<close>

lemma high_water_same: "db_sessions db' = db_sessions db \<Longrightarrow> high_water u sid db' = high_water u sid db"
  by (simp add: high_water_def find_session_def)

interpretation marks: session_preorder "\<lambda>db db'. high_water u sid db \<le> high_water u sid db'" for u sid
proof unfold_locales
  fix db db' assume "store_step db db'"
  then show "high_water u sid db \<le> high_water u sid db'"
    by (intro high_water_advances step_advances)
next
  fix env now db user sid' current p ac db'
  assume "apply_patch env now db user sid' current p ac = Inr db'"
  then have "db_sessions db' =
      db_sessions (update_sessions (patch_target user sid' (captured p current)) (patch_row now p ac current) db)"
    by (auto simp: apply_patch_def bindE_eq_Inr Let_def split: if_splits)
  from high_water_same [OF this, of u sid]
  show "high_water u sid db \<le> high_water u sid db'"
    using high_water_advances [OF db_advances_update [OF advances_patch_row]] by simp
next
  fix row :: session and db :: database assume "s_last_event_seq row = Some 0"
  then show "high_water u sid db \<le> high_water u sid (db\<lparr>db_sessions := db_sessions db @ [row]\<rparr>)"
    by (simp add: high_water_def find_session_def find_append_case split: option.split)
qed auto

text \<open>The database numbers the events of a session; creations and updates of sessions are among the other steps.\<close>

interpretation database_source: sequence_source "db_alloc u sid" "\<lambda>(flags, _). length flags"
    "high_water u sid" session_step for u sid
proof
  fix r db xs db'
  assume alloc: "db_alloc u sid r db = Some (xs, db')" and pos: "0 < (case r of (flags, _) \<Rightarrow> length flags)"
  obtain flags m e q where r: "r = (flags, m, e, q)" by (cases r) auto
  have ok: "allocate_event_sequences u sid flags m e q db = Inr (xs, db')"
      "fresh_request u sid (flags, m, e, q) db"
    using alloc by (auto simp: db_alloc_def r split: if_splits sum.splits)
  obtain db1 where db1: "advance_sequences u sid flags m e db = Inr (xs, db1)"
      "find_session db' u sid = find_session db1 u sid"
    using fresh_allocation [OF ok(1) _ ok(2)] pos r by (auto simp: find_session_def split: option.splits)
  obtain s where "find_session db u sid = Some s" "find_session db1 u sid = Some (advance_row flags m e s)"
      "xs = [base_seq m s + 1..base_seq m s + int (length flags)]"
    using advance_sequences_block [OF db1(1)] by blast
  then show "\<exists>h \<ge> high_water u sid db. xs = [h + 1..h + int (case r of (flags, _) \<Rightarrow> length flags)]
      \<and> high_water u sid db' = h + int (case r of (flags, _) \<Rightarrow> length flags)"
    using base_seq_ge(1) [of s m] by (auto simp: high_water_def db1(2) r advance_row_def Let_def)
qed (rule marks.step_kept)

text \<open>State revisions start at one and stay positive.\<close>

definition revisions_positive :: "database \<Rightarrow> bool" where
  "revisions_positive db \<longleftrightarrow> (\<forall>s \<in> set (db_sessions db). 0 < s_state_revision s)"

lemma advances_revision: "advances s s' \<Longrightarrow> s_state_revision s \<le> s_state_revision s'"
  by (simp add: advances_def)

lemma positive_advances:
  "list_all2 advances ss ss' \<Longrightarrow> \<forall>s \<in> set ss. 0 < s_state_revision s \<Longrightarrow> \<forall>s \<in> set ss'. 0 < s_state_revision s"
  by (induction rule: list_all2_induct) (simp, metis advances_revision less_le_trans list.set_intros set_ConsD)

lemma positive_update:
  assumes "db_sessions db' = db_sessions (update_sessions P f db)" "\<And>s. s_state_revision s \<le> s_state_revision (f s)"
  shows "revisions_positive db \<longrightarrow> revisions_positive db'"
proof -
  have "0 < s_state_revision (if P s then f s else s)" if "0 < s_state_revision s" for s
    using that assms(2) [of s] by simp
  then show ?thesis
    unfolding revisions_positive_def assms(1) update_sessions_simps set_update_rows by blast
qed

interpretation revisions: session_preorder "\<lambda>db db'. revisions_positive db \<longrightarrow> revisions_positive db'"
proof unfold_locales
  fix db db' assume "store_step db db'"
  then have "list_all2 advances (db_sessions db) (db_sessions db')"
    using step_advances by (simp add: db_advances_def)
  then show "revisions_positive db \<longrightarrow> revisions_positive db'"
    using positive_advances unfolding revisions_positive_def by blast
next
  fix env now db user sid current p ac db'
  assume "apply_patch env now db user sid current p ac = Inr db'"
  then have "db_sessions db' =
      db_sessions (update_sessions (patch_target user sid (captured p current)) (patch_row now p ac current) db)"
    by (auto simp: apply_patch_def bindE_eq_Inr Let_def split: if_splits)
  moreover have "s_state_revision s \<le> s_state_revision (patch_row now p ac current s)" for s
    using advances_patch_row by (simp add: advances_def)
  ultimately show "revisions_positive db \<longrightarrow> revisions_positive db'"
    using positive_update by metis
qed (auto simp: revisions_positive_def)

lemmas refresh_kept = rows.refresh_kept and session_steps_kept = rows.steps_kept

subsection \<open>Enough fuel\<close>

text \<open>The chain of a session reaches a root within so many steps.\<close>

fun root_within :: "nat \<Rightarrow> database \<Rightarrow> string \<Rightarrow> string \<Rightarrow> bool" where
  "root_within 0 db user sid \<longleftrightarrow> (\<exists>s. find_session db user sid = Some s \<and> parent_of s = None)"
| "root_within (Suc k) db user sid \<longleftrightarrow>
     (\<exists>s. find_session db user sid = Some s
        \<and> (case parent_of s of None \<Rightarrow> True | Some p \<Rightarrow> root_within k db user p))"

lemma advances_parent: "advances s s' \<Longrightarrow> parent_of s' = parent_of s"
  by (simp add: advances_def parent_of_def)

lemma root_within_kept: "root_within k db user sid \<Longrightarrow> rows_kept db db' \<Longrightarrow> root_within k db' user sid"
proof (induction k arbitrary: sid)
  case 0
  then show ?case
    unfolding rows_kept_def by (metis advances_parent root_within.simps(1))
next
  case (Suc k)
  then obtain s where s: "find_session db user sid = Some s"
      "case parent_of s of None \<Rightarrow> True | Some p \<Rightarrow> root_within k db user p"
    by auto
  obtain s' where s': "find_session db' user sid = Some s'" "advances s s'"
    using Suc.prems(2) s(1) unfolding rows_kept_def by blast
  have "case parent_of s' of None \<Rightarrow> True | Some p \<Rightarrow> root_within k db' user p"
    using s(2) Suc.IH Suc.prems(2) advances_parent [OF s'(2)] by (simp split: option.splits)
  with s'(1) show ?case by simp
qed

lemma refused_fuel [simp]: "refused r \<noteq> Inl RefreshFuel"
  by (cases r) (simp_all add: refused_def)

lemma bindE_fuel: "bindE m f = Inl RefreshFuel \<Longrightarrow> m = Inl RefreshFuel \<or> (\<exists>x. m = Inr x \<and> f x = Inl RefreshFuel)"
  by (cases m) simp_all

lemma guard_parent_fuel [simp]: "guard_parent env db parent user \<noteq> Inl RefreshFuel"
  by (auto simp: guard_parent_def dest!: bindE_fuel split: option.splits if_splits)

lemma apply_patch_fuel [simp]: "apply_patch env now db user sid current p ac \<noteq> Inl RefreshFuel"
  by (auto simp: apply_patch_def Let_def dest!: bindE_fuel split: option.splits if_splits)

lemma stored_fuel [simp]: "stored db user sid \<noteq> Inl RefreshFuel"
  by (simp add: stored_def split: option.splits)

lemma update_session_fuel:
  assumes "update_session env refresh now db user sid p = Inl RefreshFuel"
  shows "\<exists>current pid. find_session db user sid = Some current \<and> parent_of current = Some pid
     \<and> refresh db user pid [] = Inl RefreshFuel"
proof -
  obtain current where current: "find_session db user sid = Some current"
    and "activate env refresh db user current p = Inl RefreshFuel"
    using assms unfolding update_session_def
    by (auto simp: stored_Inr dest!: bindE_fuel split: if_splits)
  then show ?thesis
    by (auto simp: activate_def Let_def dest!: bindE_fuel split: option.splits)
qed

lemma refresh_root:
  "refresh_inherited_policy n env now db user sid seen = Inr (s, db') \<Longrightarrow>
     length seen < 32 \<and> root_within (31 - length seen) db user sid"
proof (induction n arbitrary: db sid seen s db')
  case (Suc n)
  then obtain current where run: "sid \<notin> set seen" "length seen < 32" "find_session db user sid = Some current"
    by (auto simp: bindE_eq_Inr stored_Inr split: if_splits)
  show ?case
  proof (cases "parent_of current")
    case None
    with run show ?thesis by (cases "31 - length seen") auto
  next
    case (Some pid)
    then obtain parent db1 where "refresh_inherited_policy n env now db user pid (sid # seen) = Inr (parent, db1)"
      using Suc.prems run by (auto simp: bindE_eq_Inr stored_Inr split: if_splits)
    from Suc.IH [OF this] have "length seen < 31" "root_within (30 - length seen) db user pid"
      by simp_all
    moreover from this have "31 - length seen = Suc (30 - length seen)" by simp
    ultimately show ?thesis using run Some by simp
  qed
qed simp

text \<open>One level of the walk runs out of fuel only if a call on the parent does.\<close>

lemma refresh_fuel_step:
  assumes "refresh_inherited_policy (Suc n) env now db user sid seen = Inl RefreshFuel"
  obtains current pid where "length seen < 32" "find_session db user sid = Some current"
    "parent_of current = Some pid"
    "refresh_inherited_policy n env now db user pid (sid # seen) = Inl RefreshFuel
     \<or> (\<exists>parent db1. refresh_inherited_policy n env now db user pid (sid # seen) = Inr (parent, db1)
          \<and> refresh_inherited_policy n env now db1 user pid [] = Inl RefreshFuel)"
proof -
  obtain current where run: "length seen < 32" "find_session db user sid = Some current"
    using assms by (auto simp: stored_Inr dest!: bindE_fuel split: if_splits)
  then obtain pid where pid: "parent_of current = Some pid"
    using assms by (auto simp: stored_Inr dest!: bindE_fuel split: if_splits option.splits)
  show thesis
  proof (cases "refresh_inherited_policy n env now db user pid (sid # seen)")
    case (Inl e)
    then have "e = RefreshFuel"
      using assms run pid by (auto simp: stored_Inr dest!: bindE_fuel split: if_splits)
    with Inl show thesis using that run pid by blast
  next
    case (Inr res)
    obtain parent db1 where res: "res = (parent, db1)" by fastforce
    obtain p where "update_session env (refresh_inherited_policy n env now) now db1 user sid p = Inl RefreshFuel"
      using assms run pid Inr res by (auto simp: stored_Inr dest!: bindE_fuel split: if_splits)
    then obtain current' pid' where 1: "find_session db1 user sid = Some current'"
        "parent_of current' = Some pid'" "refresh_inherited_policy n env now db1 user pid' [] = Inl RefreshFuel"
      using update_session_fuel by blast
    have "rows_kept db db1"
      using refresh_kept [of n env now] Inr res unfolding keeps_def by blast
    then have "pid' = pid"
      using run(2) 1(1,2) pid advances_parent unfolding rows_kept_def by force
    with 1(3) Inr res show thesis using that run pid by blast
  qed
qed

lemma refresh_rooted_fuel:
  "root_within k db user sid \<Longrightarrow> k < n \<Longrightarrow> refresh_inherited_policy n env now db user sid seen \<noteq> Inl RefreshFuel"
proof (induction n arbitrary: k db sid seen)
  case (Suc n)
  show ?case
  proof
    assume run: "refresh_inherited_policy (Suc n) env now db user sid seen = Inl RefreshFuel"
    then obtain current pid where s: "find_session db user sid = Some current" "parent_of current = Some pid"
        and up: "refresh_inherited_policy n env now db user pid (sid # seen) = Inl RefreshFuel
     \<or> (\<exists>parent db1. refresh_inherited_policy n env now db user pid (sid # seen) = Inr (parent, db1)
          \<and> refresh_inherited_policy n env now db1 user pid [] = Inl RefreshFuel)"
      by (rule refresh_fuel_step)
    obtain k' where k': "k = Suc k'" "root_within k' db user pid"
      using Suc.prems(1) s by (cases k) auto
    have "rows_kept db db1" if "refresh_inherited_policy n env now db user pid (sid # seen) = Inr (parent, db1)"
      for parent db1
      using that refresh_kept [of n env now] unfolding keeps_def by blast
    then show False
      using up Suc.IH k' Suc.prems(2) root_within_kept by (metis Suc_less_SucD)
  qed
qed simp

lemma refresh_enough_fuel:
  "33 - length seen \<le> n \<Longrightarrow> 0 < n \<Longrightarrow> refresh_inherited_policy n env now db user sid seen \<noteq> Inl RefreshFuel"
proof (induction n arbitrary: db sid seen)
  case (Suc n)
  show ?case
  proof
    assume "refresh_inherited_policy (Suc n) env now db user sid seen = Inl RefreshFuel"
    then obtain current pid where len: "length seen < 32"
        and up: "refresh_inherited_policy n env now db user pid (sid # seen) = Inl RefreshFuel
     \<or> (\<exists>parent db1. refresh_inherited_policy n env now db user pid (sid # seen) = Inr (parent, db1)
          \<and> refresh_inherited_policy n env now db1 user pid [] = Inl RefreshFuel)"
      by (rule refresh_fuel_step)
    have n: "33 - length (sid # seen) \<le> n" "0 < n"
      using Suc.prems(1) len by auto
    obtain parent db1 where one: "refresh_inherited_policy n env now db user pid (sid # seen) = Inr (parent, db1)"
        "refresh_inherited_policy n env now db1 user pid [] = Inl RefreshFuel"
      using up Suc.IH [OF n] by blast
    have "rows_kept db db1"
      using one(1) refresh_kept [of n env now] unfolding keeps_def by blast
    then have "root_within (31 - length (sid # seen)) db1 user pid"
      using refresh_root [OF one(1)] root_within_kept by blast
    then show False
      using refresh_rooted_fuel [of _ db1 user pid n] one(2) n by force
  qed
qed simp

subsection \<open>Properties\<close>

text \<open>Refreshing inherited policies always returns: 33 levels of nesting are enough for every database,
  including ones whose parent links form a cycle.\<close>

theorem refresh_terminates:
  "refresh_inherited_policy 33 env now db user sid [] \<noteq> Inl RefreshFuel"
  by (rule refresh_enough_fuel) simp_all

text \<open>C40. Event sequences are never reused.  Two allocations for a session, with any operations on sessions in
  between (creations, updates, refreshes of policies, every other operation of the store): each is a
  contiguous block above the high-water mark of its moment, and every number of the later one is above
  every number of the earlier one.  The replay of a spooled append is no allocation: it returns the block
  of its receipt again (\<open>spooled_append_replays\<close>), and \<^const>\<open>fresh_request\<close> excludes it.\<close>

theorem sequences_never_reused:
  assumes "allocate_event_sequences u sid flags m e q db = Inr (xs, db1)" "flags \<noteq> []"
    and "fresh_request u sid (flags, m, e, q) db"
    and "session_step\<^sup>*\<^sup>* db1 db2"
    and "allocate_event_sequences u sid flags' m' e' q' db2 = Inr (ys, db3)" "flags' \<noteq> []"
    and "fresh_request u sid (flags', m', e', q') db2"
  shows "(\<exists>h \<ge> high_water u sid db. xs = [h + 1..h + int (length flags)])
     \<and> (\<exists>h \<ge> high_water u sid db2. ys = [h + 1..h + int (length flags')])
     \<and> (\<forall>x \<in> set xs. \<forall>y \<in> set ys. x < y)"
proof -
  have 1: "db_alloc u sid (flags, m, e, q) db = Some (xs, db1)"
    using assms(1,3) by (simp add: db_alloc_def)
  have 2: "db_alloc u sid (flags', m', e', q') db2 = Some (ys, db3)"
    using assms(5,7) by (simp add: db_alloc_def)
  show ?thesis
    using database_source.alloc_block [OF 1] database_source.alloc_block [OF 2]
      database_source.later_above [OF 1 assms(4) 2] assms(2,6) by auto
qed

definition retitle_env :: policy_env where
  "retitle_env = \<lparr>env_digest = (\<lambda>_. ''d''), env_prepare = (\<lambda>d _ _ _. Inr d), env_registry = (\<lambda>_ _. False)\<rparr>"

definition sample_retitled :: "session \<times> database" where
  "sample_retitled =
     (case update_session retitle_env (refresh_inherited_policy 33 retitle_env 9) 9 sample_store_after ''u'' ''s''
             (empty_patch\<lparr>sp_title := Some ''release''\<rparr>) of
        Inr res \<Rightarrow> res | Inl _ \<Rightarrow> (new_session ''u'' ''s'' ''build'' 0, sample_store_after))"

definition sample_numbered :: "int list \<times> database" where
  "sample_numbered =
     (case allocate_event_sequences ''u'' ''s'' [False] 0 VNone None (snd sample_retitled) of
        Inr res \<Rightarrow> res | Inl _ \<Rightarrow> ([], sample_store))"

lemma retitled_facts:
  "update_session retitle_env (refresh_inherited_policy 33 retitle_env 9) 9 sample_store_after ''u'' ''s''
     (empty_patch\<lparr>sp_title := Some ''release''\<rparr>) = Inr (fst sample_retitled, snd sample_retitled)"
  "allocate_event_sequences ''u'' ''s'' [False] 0 VNone None (snd sample_retitled) = Inr ([8], snd sample_numbered)"
  "fresh_request ''u'' ''s'' ([False], 0, VNone, None) (snd sample_retitled)"
  by code_simp+

theorem sequences_never_reused_witness: "list_all (\<lambda>x. list_all (\<lambda>y. x < y) [8::int]) [6, 7]"
proof -
  have "session_step\<^sup>*\<^sup>* sample_store_after (snd sample_retitled)"
    using session_step.updated [OF retitled_facts(1)] by (rule r_into_rtranclp)
  from sequences_never_reused [OF sample_allocations(1) _ sample_allocations(3) this
      retitled_facts(2) _ retitled_facts(3)]
  show ?thesis by simp
qed

end
