(* ===== verification/Session_Modes.thy ===== *)
theory Session_Modes
  imports Session_Update
begin

text \<open>
  \<^verbatim>\<open>intaris/session_modes.py\<close>: the participation gates.  A guardrails fence and an
  analytics scope capture revisions and re-check them before every derived write; exceptions
  (\<^verbatim>\<open>ParticipationRevoked\<close>) are left values that carry the reason.  Code that runs between two
  checks is an argument that returns the database it leaves.
\<close>

subsection \<open>The guardrails fence\<close>

definition guardrails_enabled :: "database \<Rightarrow> string \<Rightarrow> string \<Rightarrow> bool" where
  "guardrails_enabled db user sid =
     (case find_session db user sid of None \<Rightarrow> True | Some s \<Rightarrow> s_guardrails_enabled s)"

definition new_fence :: "database \<Rightarrow> string \<Rightarrow> string \<Rightarrow> string + int" where
  "new_fence db user sid =
     (case find_session db user sid of
        None \<Rightarrow> Inl ''guardrails_disabled''
      | Some s \<Rightarrow> if s_guardrails_enabled s then Inr (s_guardrails_revision s)
                  else Inl ''guardrails_disabled'')"

definition fence_check :: "database \<Rightarrow> string \<Rightarrow> string \<Rightarrow> int \<Rightarrow> string + unit" where
  "fence_check db user sid revision =
     (case find_session db user sid of
        None \<Rightarrow> Inl ''guardrails_disabled''
      | Some s \<Rightarrow> if s_guardrails_enabled s \<and> s_guardrails_revision s = revision then Inr ()
                  else Inl ''guardrails_disabled'')"

text \<open>\<open>GuardedLLM.generate\<close>: the gate is asked before and after the call.\<close>

definition guarded_generate ::
    "(database \<Rightarrow> string + unit) \<Rightarrow> (database \<Rightarrow> 'r \<times> database) \<Rightarrow> database \<Rightarrow> string + 'r \<times> database" where
  "guarded_generate check call db =
     bindE (check db) (\<lambda>_. let (r, db') = call db in bindE (check db') (\<lambda>_. Inr (r, db')))"

text \<open>\<open>proactive_intention\<close>: a revoked generation has no result.\<close>

definition proactive_intention ::
    "string \<Rightarrow> string \<Rightarrow> int option \<Rightarrow> (int \<Rightarrow> database \<Rightarrow> string + ('r option \<times> database)) \<Rightarrow> database
      \<Rightarrow> 'r option" where
  "proactive_intention user sid expected generate db =
     (case bindE (new_fence db user sid) (\<lambda>revision.
           if expected \<noteq> None \<and> expected \<noteq> Some revision then Inl ''guardrails_disabled''
           else bindE (generate revision db) (\<lambda>(r, db'). bindE (fence_check db' user sid revision) (\<lambda>_. Inr r))) of
        Inl _ \<Rightarrow> None
      | Inr r \<Rightarrow> r)"

subsection \<open>The analytics scope\<close>

record scope_row =
  sw_parent :: "string option"
  sw_enabled :: bool
  sw_revision :: int

record analytics_scope =
  as_user :: string
  as_claim :: "(string \<times> string) option"
  as_rows :: "scope_row dict"
  as_watched :: "string list"

definition new_scope :: "database \<Rightarrow> string \<Rightarrow> (string \<times> string) option \<Rightarrow> analytics_scope" where
  "new_scope db user claim =
     \<lparr>as_user = user, as_claim = claim,
      as_rows = map (\<lambda>s. (s_id s, \<lparr>sw_parent = s_parent s, sw_enabled = s_analytics_enabled s,
                                   sw_revision = s_analytics_revision s\<rparr>))
        (filter (\<lambda>s. s_user s = user) (db_sessions db)),
      as_watched = []\<rparr>"

definition scope_children :: "scope_row dict \<Rightarrow> string \<Rightarrow> string list" where
  "scope_children rows p = map fst (filter (\<lambda>(_, row). sw_parent row = Some p) rows)"

text \<open>The breadth-first walk of \<open>descendants\<close>; sets are duplicate-free lists.\<close>

definition next_frontier :: "scope_row dict \<Rightarrow> string \<Rightarrow> string list \<Rightarrow> string list \<Rightarrow> string list" where
  "next_frontier rows origin result frontier =
     remdups (filter (\<lambda>sid. sid \<notin> set result \<and> sid \<noteq> origin) (concat (map (scope_children rows) frontier)))"

lemma set_next_frontier:
  "set (next_frontier rows origin result frontier) =
     (\<Union>p \<in> set frontier. set (scope_children rows p)) - set result - {origin}"
  by (auto simp: next_frontier_def)

lemma scope_children_keys: "set (scope_children rows p) \<subseteq> fst ` set rows"
  by (auto simp: scope_children_def)

function descend :: "scope_row dict \<Rightarrow> string \<Rightarrow> string list \<Rightarrow> string list \<Rightarrow> string list" where
  "descend rows origin result frontier =
     (if frontier = [] then result
      else let children = next_frontier rows origin result frontier
           in descend rows origin (result @ children) children)"
  by pat_completeness auto
termination
proof (relation "measure (\<lambda>(rows, origin, result, frontier).
     2 * card (fst ` set rows - set result) + (if frontier = [] then 0 else 1))")
  fix rows :: "scope_row dict" and origin result frontier children
  assume ne: "frontier \<noteq> []" and ch: "children = next_frontier rows origin result frontier"
  let ?U = "fst ` set rows"
  have sub: "set children \<subseteq> ?U - set result"
    using scope_children_keys by (fastforce simp: ch set_next_frontier)
  have "2 * card (?U - set (result @ children)) + (if children = [] then 0 else 1)
      < 2 * card (?U - set result) + 1"
  proof (cases "children = []")
    case False
    then have "?U - set (result @ children) \<subset> ?U - set result"
      using sub by (cases children) auto
    then have "card (?U - set (result @ children)) < card (?U - set result)"
      by (intro psubset_card_mono) auto
    then show ?thesis by simp
  qed simp
  with ne show "((rows, origin, result @ children, children), rows, origin, result, frontier)
      \<in> measure (\<lambda>(rows, origin, result, frontier).
          2 * card (fst ` set rows - set result) + (if frontier = [] then 0 else 1))"
    by simp
qed simp

declare descend.simps [simp del]

definition descendants :: "analytics_scope \<Rightarrow> string \<Rightarrow> string list" where
  "descendants scope sid = descend (as_rows scope) sid [] [sid]"

definition scope_enabled :: "analytics_scope \<Rightarrow> string \<Rightarrow> bool" where
  "scope_enabled scope sid =
     (case map_of (as_rows scope) sid of None \<Rightarrow> False | Some row \<Rightarrow> sw_enabled row)"

definition exclusions :: "analytics_scope \<Rightarrow> string \<Rightarrow> string list" where
  "exclusions scope sid = filter (\<lambda>d. \<not> scope_enabled scope d) (descendants scope sid)"

definition scope_include :: "analytics_scope \<Rightarrow> string \<Rightarrow> string + analytics_scope" where
  "scope_include scope sid =
     (if \<not> scope_enabled scope sid then Inl ''analytics_disabled''
      else Inr (scope\<lparr>as_watched := remdups (as_watched scope @ sid # descendants scope sid)\<rparr>))"

text \<open>A summary with the children its evidence names and the sessions it was generated without.\<close>

definition usable_summary :: "analytics_scope \<Rightarrow> string \<Rightarrow> string list \<Rightarrow> string list \<Rightarrow> bool" where
  "usable_summary scope sid known_children excluded \<longleftrightarrow>
     scope_enabled scope sid \<and> list_all (scope_enabled scope) known_children
     \<and> set (exclusions scope sid) \<subseteq> set excluded"

definition watched_current :: "database \<Rightarrow> analytics_scope \<Rightarrow> string \<Rightarrow> bool" where
  "watched_current db scope sid \<longleftrightarrow>
     (case (find_session db (as_user scope) sid, map_of (as_rows scope) sid) of
        (Some s, Some row) \<Rightarrow> s_analytics_revision s = sw_revision row
      | _ \<Rightarrow> False)"

definition owns_claim :: "database \<Rightarrow> string \<times> string \<Rightarrow> bool" where
  "owns_claim db claim \<longleftrightarrow>
     exists_row (\<lambda>t. t_id t = fst claim \<and> t_status t = TRunning \<and> t_token t = Some (snd claim)) (db_tasks db)"

definition validate_scope :: "database \<Rightarrow> analytics_scope \<Rightarrow> bool \<Rightarrow> string + unit" where
  "validate_scope db scope check_claim =
     (if \<not> list_all (watched_current db scope) (sorted_set (as_watched scope))
      then Inl ''analytics_disabled''
      else if check_claim
           \<and> (case as_claim scope of None \<Rightarrow> False | Some claim \<Rightarrow> \<not> owns_claim db claim)
      then Inl ''claim_revoked'' else Inr ())"

text \<open>\<open>analytics_write\<close>: the fence and the write are one transaction.\<close>

definition analytics_write ::
    "analytics_scope option \<Rightarrow> (database \<Rightarrow> database) \<Rightarrow> database \<Rightarrow> string + database" where
  "analytics_write scope write db =
     bindE (case scope of None \<Rightarrow> Inr () | Some sc \<Rightarrow> validate_scope db sc True) (\<lambda>_. Inr (write db))"

definition increment_summary_count ::
    "analytics_scope option \<Rightarrow> int \<Rightarrow> string \<Rightarrow> string \<Rightarrow> database \<Rightarrow> string + database" where
  "increment_summary_count scope now user sid = analytics_write scope (summary_counted now user sid)"

definition mark_summary_attempt ::
    "analytics_scope option \<Rightarrow> int \<Rightarrow> string \<Rightarrow> string \<Rightarrow> database \<Rightarrow> string + database" where
  "mark_summary_attempt scope now user sid = analytics_write scope (summary_attempted now user sid)"

text \<open>\<open>analytics_task\<close>: entry, the task's own work, and the check of its result.\<close>

definition enter_task ::
    "database \<Rightarrow> string \<Rightarrow> (string \<times> string) option \<Rightarrow> string option \<Rightarrow> int option \<Rightarrow> string + analytics_scope" where
  "enter_task db user claim sid expected =
     (let scope = new_scope db user claim in
      bindE (case sid of
          Some i \<Rightarrow> (case map_of (as_rows scope) i of
             Some row \<Rightarrow> bindE (scope_include scope i) (\<lambda>sc.
               if expected \<noteq> None \<and> expected \<noteq> Some (sw_revision row) then Inl ''analytics_disabled''
               else Inr sc)
           | None \<Rightarrow> Inr scope)
        | None \<Rightarrow> Inr scope) (\<lambda>sc.
      bindE (validate_scope db sc True) (\<lambda>_. Inr sc)))"

definition analytics_task ::
    "string \<Rightarrow> (string \<times> string) option \<Rightarrow> string option \<Rightarrow> int option
      \<Rightarrow> (analytics_scope \<Rightarrow> database \<Rightarrow> string + 'r \<times> database) \<Rightarrow> database \<Rightarrow> string + 'r \<times> analytics_scope" where
  "analytics_task user claim sid expected work db =
     bindE (enter_task db user claim sid expected) (\<lambda>scope.
     bindE (work scope db) (\<lambda>(r, db').
     bindE (validate_scope db' scope True) (\<lambda>_. Inr (r, scope))))"

subsection \<open>The walk finds exactly the descendants\<close>

definition child_rel :: "scope_row dict \<Rightarrow> (string \<times> string) set" where
  "child_rel rows = {(p, c). c \<in> set (scope_children rows p)}"

lemma descend_reach:
  assumes "set result \<subseteq> (child_rel rows)\<^sup>+ `` {origin} - {origin}"
    and "set frontier \<subseteq> insert origin (set result)"
    and "\<forall>x \<in> insert origin (set result). x \<in> set frontier
           \<or> set (scope_children rows x) \<subseteq> insert origin (set result)"
  shows "set (descend rows origin result frontier) = (child_rel rows)\<^sup>+ `` {origin} - {origin}"
  using assms
proof (induction rows origin result frontier rule: descend.induct)
  case (1 rows origin result frontier)
  show ?case
  proof (cases "frontier = []")
    case True
    have "d \<in> insert origin (set result)" if "(origin, d) \<in> (child_rel rows)\<^sup>+" for d
      using that
    proof (induction rule: trancl_induct)
      case (base y)
      with 1(4) True show ?case by (auto simp: child_rel_def)
    next
      case (step y z)
      with 1(4) True show ?case by (auto simp: child_rel_def)
    qed
    with True 1(2) show ?thesis by (subst descend.simps) auto
  next
    case False
    define children where "children = next_frontier rows origin result frontier"
    have reach: "(origin, x) \<in> (child_rel rows)\<^sup>*" if "x \<in> set frontier" for x
      using that 1(2,3) by (auto dest: trancl_into_rtrancl)
    have new: "set children \<subseteq> (child_rel rows)\<^sup>+ `` {origin} - {origin}"
    proof
      fix c assume "c \<in> set children"
      then obtain p where "p \<in> set frontier" "c \<in> set (scope_children rows p)" "c \<noteq> origin"
        by (auto simp: children_def set_next_frontier)
      then show "c \<in> (child_rel rows)\<^sup>+ `` {origin} - {origin}"
        using rtrancl_into_trancl1 [OF reach [of p], of c] by (auto simp: child_rel_def)
    qed
    have "set (descend rows origin (result @ children) children) = (child_rel rows)\<^sup>+ `` {origin} - {origin}"
    proof (rule 1(1) [OF False children_def])
      show "set (result @ children) \<subseteq> (child_rel rows)\<^sup>+ `` {origin} - {origin}"
        using 1(2) new by auto
      show "set children \<subseteq> insert origin (set (result @ children))"
        by auto
      show "\<forall>x \<in> insert origin (set (result @ children)). x \<in> set children
          \<or> set (scope_children rows x) \<subseteq> insert origin (set (result @ children))"
      proof
        fix x assume "x \<in> insert origin (set (result @ children))"
        then consider "x \<in> set children" | "x \<in> insert origin (set result)" by auto
        then show "x \<in> set children \<or> set (scope_children rows x) \<subseteq> insert origin (set (result @ children))"
        proof cases
          case 2
          have "set (scope_children rows x) \<subseteq> insert origin (set result \<union> set children)" if "x \<in> set frontier"
            using that by (auto simp: children_def set_next_frontier)
          with 2 1(4) show ?thesis by fastforce
        qed simp
      qed
    qed
    with False show ?thesis
      by (subst descend.simps) (simp add: children_def Let_def)
  qed
qed

lemma set_descendants:
  "set (descendants scope sid) = (child_rel (as_rows scope))\<^sup>+ `` {sid} - {sid}"
  unfolding descendants_def by (rule descend_reach) simp_all

subsection \<open>Consent holds throughout\<close>

lemma kept_row:
  assumes "rows_kept db db'" "find_session db u sid = Some s" "find_session db' u sid = Some s'"
  shows "advances s s'"
  using assms unfolding rows_kept_def by fastforce

lemma flag_between:
  assumes "advances s s1" "advances s1 s2"
  shows "s_guardrails_revision s2 = s_guardrails_revision s \<Longrightarrow> s_guardrails_enabled s1 = s_guardrails_enabled s"
    and "s_analytics_revision s2 = s_analytics_revision s \<Longrightarrow> s_analytics_enabled s1 = s_analytics_enabled s"
  using assms unfolding advances_def by linarith+

text \<open>If the flag was on at the start and the revision is unchanged at the end, it was on in between.\<close>

lemma flag_throughout:
  assumes "rows_kept db db1" "rows_kept db1 db2"
    and "find_session db u sid = Some s" "find_session db2 u sid = Some s2"
  obtains s1 where "find_session db1 u sid = Some s1"
    "s_guardrails_revision s2 = s_guardrails_revision s \<longrightarrow> s_guardrails_enabled s1 = s_guardrails_enabled s"
    "s_analytics_revision s2 = s_analytics_revision s \<longrightarrow> s_analytics_enabled s1 = s_analytics_enabled s"
proof -
  obtain s1 where s1: "find_session db1 u sid = Some s1" "advances s s1"
    using assms(1,3) unfolding rows_kept_def by blast
  have s2: "advances s1 s2"
    using kept_row [OF assms(2) s1(1) assms(4)] .
  show thesis
    by (rule that [OF s1(1)]) (use flag_between [OF s1(2) s2] in \<open>simp_all\<close>)
qed

subsection \<open>Properties\<close>

text \<open>The descendants of a session are exactly the sessions reachable from it over parent links, itself
  excluded, for any parent links: also when they form a cycle.\<close>

theorem descendants_exact:
  "set (descendants scope sid) = (child_rel (as_rows scope))\<^sup>+ `` {sid} - {sid}"
  by (rule set_descendants)

text \<open>A fence check that passes proves consent throughout: when work was fenced at its start and the check
  passes at its end, guardrails were enabled in every state in between - switching them off and on
  again does not go unnoticed.\<close>

theorem fence_proves_consent:
  assumes "new_fence db u sid = Inr revision"
    and "session_step\<^sup>*\<^sup>* db db1" "session_step\<^sup>*\<^sup>* db1 db2"
    and "fence_check db2 u sid revision = Inr ()"
  shows "\<exists>s. find_session db1 u sid = Some s \<and> s_guardrails_enabled s"
proof -
  obtain s where s: "find_session db u sid = Some s" "s_guardrails_enabled s" "s_guardrails_revision s = revision"
    using assms(1) by (auto simp: new_fence_def split: option.splits if_splits)
  obtain s2 where s2: "find_session db2 u sid = Some s2" "s_guardrails_revision s2 = revision"
    using assms(4) by (auto simp: fence_check_def split: option.splits if_splits)
  show ?thesis
    by (rule flag_throughout [OF session_steps_kept [OF assms(2)] session_steps_kept [OF assms(3)] s(1) s2(1)])
      (use s s2 in auto)
qed

theorem fence_proves_consent_witness:
  "\<exists>s. find_session sample_store ''u'' ''s'' = Some s \<and> s_guardrails_enabled s"
  by (rule fence_proves_consent [OF _ rtranclp.rtrancl_refl rtranclp.rtrancl_refl, of _ _ _ 1]) code_simp+

text \<open>A validated analytics scope proves the same for every session it watches: its participation flag is
  what the snapshot says, in every state since the snapshot was taken.\<close>

theorem scope_proves_participation:
  assumes "sessions_ok db" "as_rows scope = as_rows (new_scope db u claim)" "as_user scope = u"
    and "session_step\<^sup>*\<^sup>* db db1" "session_step\<^sup>*\<^sup>* db1 db2"
    and "validate_scope db2 scope b = Inr ()" "sid \<in> set (as_watched scope)"
  shows "\<exists>s. find_session db1 u sid = Some s \<and> s_analytics_enabled s = scope_enabled scope sid"
proof -
  have "watched_current db2 scope sid"
    using assms(6,7) by (auto simp: validate_scope_def list_all_iff split: if_splits)
  then obtain s2 row where s2: "find_session db2 u sid = Some s2" "map_of (as_rows scope) sid = Some row"
      "s_analytics_revision s2 = sw_revision row"
    using assms(3) by (auto simp: watched_current_def split: option.splits)
  then obtain s where s: "s \<in> set (db_sessions db)" "s_user s = u" "s_id s = sid"
      "sw_enabled row = s_analytics_enabled s" "sw_revision row = s_analytics_revision s"
    using map_of_SomeD [OF s2(2)] unfolding assms(2) by (auto simp: new_scope_def)
  then have find: "find_session db u sid = Some s"
    by (intro found_session [OF assms(1)]) (simp_all add: is_session_def)
  have "scope_enabled scope sid = s_analytics_enabled s"
    using s2(2) s(4) by (simp add: scope_enabled_def)
  moreover obtain s1 where "find_session db1 u sid = Some s1"
      "s_guardrails_revision s2 = s_guardrails_revision s \<longrightarrow> s_guardrails_enabled s1 = s_guardrails_enabled s"
      "s_analytics_revision s2 = s_analytics_revision s \<longrightarrow> s_analytics_enabled s1 = s_analytics_enabled s"
    by (rule flag_throughout [OF session_steps_kept [OF assms(4)] session_steps_kept [OF assms(5)] find s2(1)])
  ultimately show ?thesis
    using s2(3) s(5) by simp
qed

definition sample_scope :: analytics_scope where
  "sample_scope = (new_scope sample_store ''u'' None)\<lparr>as_watched := [''s'']\<rparr>"

theorem scope_proves_participation_witness:
  "\<exists>s. find_session sample_store ''u'' ''s'' = Some s \<and> s_analytics_enabled s = scope_enabled sample_scope ''s''"
proof (rule scope_proves_participation
    [where claim = None and b = True, OF _ _ _ rtranclp.rtrancl_refl rtranclp.rtrancl_refl])
  show "validate_scope sample_store sample_scope True = Inr ()"
    by code_simp
qed (simp_all add: sessions_ok_def sample_store_def sample_scope_def new_scope_def)

end
