(* ===== verification/Task_Queue.thy ===== *)
theory Task_Queue
  imports Session_Modes
begin

text \<open>
  The task queue of \<^verbatim>\<open>intaris/background.py\<close> (\<^verbatim>\<open>TaskQueue\<close>): admission,
  claiming under a token, completion, retries with backoff, recovery of stale claims, wakeup
  deadlines, duplicate and cooldown checks and clean-up.  A fresh \<^verbatim>\<open>uuid4\<close> is an argument;
  that it is fresh is a hypothesis of the runs below.
\<close>

subsection \<open>Admission\<close>

definition given :: "string option \<Rightarrow> string option" where
  "given v = (case v of Some s \<Rightarrow> if s = [] then None else Some s | None \<Rightarrow> None)"

definition resolve_task_agent_id ::
    "(pyval \<Rightarrow> string) \<Rightarrow> database \<Rightarrow> string \<Rightarrow> string option \<Rightarrow> string option \<Rightarrow> pydict option \<Rightarrow> string" where
  "resolve_task_agent_id str_of db user sid agent payload =
     (case agent of
        Some a \<Rightarrow> a
      | None \<Rightarrow>
          if oget payload ''agent_id'' \<noteq> VNone
          then (if truthy (oget payload ''agent_id'') then str_of (oget payload ''agent_id'') else [])
          else (case given sid of
                  None \<Rightarrow> []
                | Some i \<Rightarrow> (case find_session db user i of
                    None \<Rightarrow> [] | Some s \<Rightarrow> coalesce (s_agent s) [])))"

record enqueue_request =
  eq_type :: task_type
  eq_user :: string
  eq_session :: "string option"
  eq_agent :: "string option"
  eq_payload :: "pydict option"
  eq_priority :: int
  eq_next :: "int option"

definition new_task :: "int \<Rightarrow> string \<Rightarrow> string \<Rightarrow> enqueue_request \<Rightarrow> pydict option \<Rightarrow> task" where
  "new_task now tid agent q payload =
     \<lparr>t_id = tid, t_type = eq_type q, t_user = eq_user q, t_session = eq_session q, t_agent = Some agent,
      t_status = TPending, t_priority = eq_priority q,
      t_payload = (if payload = Some [] then None else payload), t_result = None,
      t_retry_count = 0, t_max_retries = 3, t_next_attempt = coalesce (eq_next q) now,
      t_created = now, t_started = None, t_heartbeat = None, t_token = None, t_completed = None\<rparr>"

definition insert_task :: "task \<Rightarrow> database \<Rightarrow> database" where
  "insert_task t db = db\<lparr>db_tasks := db_tasks db @ [t]\<rparr>"

text \<open>The participation flag a task type depends on, and its revision, for a session-scoped task.\<close>

fun consent :: "task_type \<Rightarrow> session \<Rightarrow> (string \<times> bool \<times> int) option" where
  "consent SummaryTask s = Some (''analytics_revision'', s_analytics_enabled s, s_analytics_revision s)"
| "consent IntentionTask s = Some (''guardrails_revision'', s_guardrails_enabled s, s_guardrails_revision s)"
| "consent AnalysisTask s = None"

definition admit :: "database \<Rightarrow> enqueue_request \<Rightarrow> pydict option option" where
  "admit db q =
     (case Option.bind (given (eq_session q)) (\<lambda>sid. Option.bind (find_session db (eq_user q) sid)
             (consent (eq_type q))) of
        None \<Rightarrow> Some (eq_payload q)
      | Some (key, enabled, revision) \<Rightarrow>
          if \<not> enabled then None
          else Some (Some (dset (coalesce (eq_payload q) []) key (VNum (of_int revision)))))"

definition enqueue ::
    "(pyval \<Rightarrow> string) \<Rightarrow> int \<Rightarrow> string \<Rightarrow> enqueue_request \<Rightarrow> database \<Rightarrow> string option \<times> database" where
  "enqueue str_of now tid q db =
     (case admit db q of
        None \<Rightarrow> (None, db)
      | Some payload \<Rightarrow>
          (Some tid, insert_task (new_task now tid
             (resolve_task_agent_id str_of db (eq_user q) (eq_session q) (eq_agent q) (eq_payload q))
             q payload) db))"

definition open_statuses :: "task_status set" where
  "open_statuses = {TPending, TRunning}"

definition bootstrap_wanted :: "database \<Rightarrow> session \<Rightarrow> bool" where
  "bootstrap_wanted db s \<longleftrightarrow>
     \<not> s_user_observed s \<and> s_guardrails_enabled s \<and> s_intention_source s = ''initial''
     \<and> \<not> exists_row (\<lambda>t. t_type t = IntentionTask \<and> t_user t = s_user s \<and> t_session t = Some (s_id s)
            \<and> t_status t \<in> open_statuses) (db_tasks db)"

definition enqueue_bootstrap_if_no_user_message ::
    "int \<Rightarrow> string \<Rightarrow> string \<Rightarrow> string \<Rightarrow> int \<Rightarrow> database \<Rightarrow> string option \<times> database" where
  "enqueue_bootstrap_if_no_user_message now tid user sid priority db =
     (case find_session db user sid of
        None \<Rightarrow> (None, db)
      | Some s \<Rightarrow>
          if bootstrap_wanted db s
          then (Some tid, insert_task (new_task now tid (coalesce (s_agent s) [])
                  \<lparr>eq_type = IntentionTask, eq_user = user, eq_session = Some sid, eq_agent = None,
                   eq_payload = None, eq_priority = priority, eq_next = None\<rparr>
                  (Some [(''trigger'', VStr ''bootstrap''),
                         (''guardrails_revision'', VNum (of_int (s_guardrails_revision s)))])) db)
          else (None, db))"

subsection \<open>Claiming\<close>

definition summary_blocks :: "int \<Rightarrow> task \<Rightarrow> task \<Rightarrow> bool" where
  "summary_blocks now t b \<longleftrightarrow>
     t_status b \<in> open_statuses \<and> t_type b = SummaryTask
     \<and> (t_status b = TRunning \<or> t_next_attempt b \<le> now)
     \<and> t_user b = t_user t \<and> coalesce (t_agent b) [] = coalesce (t_agent t) []"

definition summary_blocked :: "int \<Rightarrow> task list \<Rightarrow> task \<Rightarrow> bool" where
  "summary_blocked now ts t \<longleftrightarrow> t_type t = AnalysisTask \<and> exists_row (summary_blocks now t) ts"

definition claimable :: "int \<Rightarrow> task list \<Rightarrow> task \<Rightarrow> bool" where
  "claimable now ts t \<longleftrightarrow>
     t_status t = TPending \<and> t_next_attempt t \<le> now \<and> \<not> summary_blocked now ts t"

definition claim_order :: "task \<Rightarrow> int \<times> int" where
  "claim_order t = (- t_priority t, t_next_attempt t)"

definition next_task :: "int \<Rightarrow> task list \<Rightarrow> task option" where
  "next_task now ts =
     (case sort_key claim_order (filter (claimable now ts) ts) of [] \<Rightarrow> None | t # _ \<Rightarrow> Some t)"

definition claimed :: "int \<Rightarrow> string \<Rightarrow> task \<Rightarrow> task" where
  "claimed now token t =
     t\<lparr>t_status := TRunning, t_started := Some now, t_heartbeat := Some now, t_token := Some token,
       t_completed := None\<rparr>"

definition claim_next :: "int \<Rightarrow> string \<Rightarrow> database \<Rightarrow> task option \<times> database" where
  "claim_next now token db =
     (case next_task now (db_tasks db) of
        None \<Rightarrow> (None, db)
      | Some t \<Rightarrow> (Some (claimed now token t),
          update_tasks (\<lambda>r. t_id r = t_id t \<and> t_status r = TPending) (claimed now token) db))"

subsection \<open>Owning a claim\<close>

definition owned_by :: "string \<Rightarrow> string \<Rightarrow> task \<Rightarrow> bool" where
  "owned_by tid token t \<longleftrightarrow> t_id t = tid \<and> t_status t = TRunning \<and> t_token t = Some token"

definition complete ::
    "int \<Rightarrow> string \<Rightarrow> pydict option \<Rightarrow> analytics_scope option \<Rightarrow> string \<Rightarrow> database \<Rightarrow> bool \<times> database" where
  "complete now tid result scope token db =
     (case (case scope of None \<Rightarrow> Inr () | Some sc \<Rightarrow> validate_scope db sc True) of
        Inl _ \<Rightarrow> (False, update_tasks (owned_by tid token) (\<lambda>t. t\<lparr>t_status := TCancelled,
            t_completed := Some now, t_token := None,
            t_result := Some [(''status'', VStr ''skipped''), (''reason'', VStr ''participation_revoked'')]\<rparr>) db)
      | Inr _ \<Rightarrow> (row_count (owned_by tid token) (db_tasks db) = 1,
          update_tasks (owned_by tid token) (\<lambda>t. t\<lparr>t_status := TCompleted,
            t_result := (if result = Some [] then None else result),
            t_completed := Some now, t_heartbeat := Some now\<rparr>) db))"

definition touch_heartbeat :: "int \<Rightarrow> string \<Rightarrow> string \<Rightarrow> database \<Rightarrow> bool \<times> database" where
  "touch_heartbeat now tid token db =
     (row_count (owned_by tid token) (db_tasks db) > 0,
      update_tasks (owned_by tid token) (\<lambda>t. t\<lparr>t_heartbeat := Some now\<rparr>) db)"

definition retry_backoff :: "int list" where
  "retry_backoff = [30000000, 120000000, 300000000]"

definition backoff :: "int \<Rightarrow> int" where
  "backoff retry = retry_backoff ! nat (min (retry - 1) (int (length retry_backoff) - 1))"

definition failed_for_good :: "int \<Rightarrow> int \<Rightarrow> string \<Rightarrow> task \<Rightarrow> task" where
  "failed_for_good now retry message t =
     t\<lparr>t_status := TFailed, t_retry_count := retry, t_result := Some [(''error'', VStr message)],
       t_completed := Some now, t_heartbeat := Some now\<rparr>"

definition retried_later :: "int \<Rightarrow> int \<Rightarrow> string \<Rightarrow> task \<Rightarrow> task" where
  "retried_later now retry message t =
     t\<lparr>t_status := TPending, t_retry_count := retry, t_result := Some [(''error'', VStr message)],
       t_next_attempt := now + backoff retry, t_started := None, t_heartbeat := None,
       t_token := None, t_completed := None\<rparr>"

definition fail :: "int \<Rightarrow> string \<Rightarrow> string \<Rightarrow> string \<Rightarrow> database \<Rightarrow> bool \<times> database" where
  "fail now tid message token db =
     (case List.find (owned_by tid token) (db_tasks db) of
        None \<Rightarrow> (False, db)
      | Some row \<Rightarrow>
          (let retry = t_retry_count row + 1;
               change = (if retry \<ge> t_max_retries row then failed_for_good now retry message
                         else retried_later now retry message)
           in (row_count (owned_by tid token) (db_tasks db) = 1,
               update_tasks (owned_by tid token) change db)))"

subsection \<open>Recovery, deadlines and clean-up\<close>

definition last_sign :: "task \<Rightarrow> int" where
  "last_sign t = coalesce (t_heartbeat t) (coalesce (t_started t) (t_next_attempt t))"

definition stale :: "int \<Rightarrow> task \<Rightarrow> bool" where
  "stale cutoff t \<longleftrightarrow> t_status t = TRunning \<and> last_sign t \<le> cutoff"

definition minutes :: "int \<Rightarrow> int" where
  "minutes n = n * 60000000"

definition reset_stale_running :: "int \<Rightarrow> int \<Rightarrow> database \<Rightarrow> (nat \<times> database) option" where
  "reset_stale_running now max_age db =
     (if max_age \<le> 0 then None
      else Some (row_count (stale (now - minutes max_age)) (db_tasks db),
        update_tasks (stale (now - minutes max_age)) (\<lambda>t. t\<lparr>t_status := TPending, t_next_attempt := now,
          t_started := None, t_heartbeat := None, t_token := None, t_completed := None\<rparr>) db))"

definition next_wakeup :: "int \<Rightarrow> database \<Rightarrow> int option \<times> int option" where
  "next_wakeup now db =
     (let ts = db_tasks db in
      (min_of (map t_next_attempt
         (filter (\<lambda>t. t_status t = TPending \<and> \<not> summary_blocked now ts t) ts)),
       map_option (\<lambda>sign. sign + 600000000)
         (min_of (map last_sign (filter (\<lambda>t. t_status t = TRunning) ts)))))"

definition same_scope :: "task_type \<Rightarrow> string \<Rightarrow> string option \<Rightarrow> string option \<Rightarrow> task \<Rightarrow> bool" where
  "same_scope type user sid agent t \<longleftrightarrow>
     t_type t = type \<and> t_user t = user
     \<and> (case given sid of
          Some i \<Rightarrow> t_session t = Some i
        | None \<Rightarrow> t_session t = None
            \<and> (case agent of None \<Rightarrow> True | Some a \<Rightarrow> coalesce (t_agent t) [] = a))"

definition cancel_duplicate :: "database \<Rightarrow> task_type \<Rightarrow> string \<Rightarrow> string option \<Rightarrow> string option \<Rightarrow> bool" where
  "cancel_duplicate db type user sid agent \<longleftrightarrow>
     row_count (\<lambda>t. same_scope type user sid agent t \<and> t_status t \<in> open_statuses) (db_tasks db) > 0"

definition recently_completed ::
    "int \<Rightarrow> database \<Rightarrow> task_type \<Rightarrow> string \<Rightarrow> string option \<Rightarrow> string option \<Rightarrow> int \<Rightarrow> bool" where
  "recently_completed now db type user sid agent cooldown \<longleftrightarrow>
     row_count (\<lambda>t. same_scope type user sid agent t \<and> t_status t = TCompleted
         \<and> (case t_completed t of None \<Rightarrow> False | Some c \<Rightarrow> c \<ge> now - cooldown * 1000000)) (db_tasks db) > 0"

definition get_queue_stats :: "database \<Rightarrow> (task_status \<times> nat) list" where
  "get_queue_stats db =
     filter (\<lambda>(_, n). n > 0)
       (map (\<lambda>st. (st, row_count (\<lambda>t. t_status t = st) (db_tasks db)))
         [TPending, TRunning, TCompleted, TFailed, TCancelled])"

definition days :: "int \<Rightarrow> int" where
  "days n = n * 86400000000"

definition finished_before :: "task_status \<Rightarrow> int \<Rightarrow> task \<Rightarrow> bool" where
  "finished_before status cutoff t \<longleftrightarrow>
     t_status t = status \<and> (case t_completed t of None \<Rightarrow> False | Some c \<Rightarrow> c < cutoff)"

definition expired :: "int \<Rightarrow> task \<Rightarrow> bool" where
  "expired now t \<longleftrightarrow>
     finished_before TCompleted (now - days 7) t \<or> finished_before TFailed (now - days 30) t"

definition cleanup_old_tasks :: "int \<Rightarrow> database \<Rightarrow> nat \<times> database" where
  "cleanup_old_tasks now db =
     (row_count (expired now) (db_tasks db),
      db\<lparr>db_tasks := filter (\<lambda>t. \<not> expired now t) (db_tasks db)\<rparr>)"

end
