(* ===== verification/Queue_Safety.thy ===== *)
theory Queue_Safety
  imports Task_Queue
begin

text \<open>
  Runs of the task queue: any interleaving of its operations with those of the sessions.  The lemmas
  say what a token proves, which task a claim takes, when the next one is due, and how often a task
  is tried.
\<close>

subsection \<open>Steps\<close>

text \<open>The second component of a state is the set of identifiers that were ever generated.\<close>

inductive queue_step :: "database \<times> string set \<Rightarrow> database \<times> string set \<Rightarrow> bool" where
  enqueued: "tid \<notin> U \<Longrightarrow> enqueue str_of now tid q db = (r, db') \<Longrightarrow> queue_step (db, U) (db', insert tid U)"
| bootstrapped: "tid \<notin> U \<Longrightarrow> enqueue_bootstrap_if_no_user_message now tid user sid prio db = (r, db')
    \<Longrightarrow> queue_step (db, U) (db', insert tid U)"
| claim: "token \<notin> U \<Longrightarrow> claim_next now token db = (r, db') \<Longrightarrow> queue_step (db, U) (db', insert token U)"
| completed: "complete now tid result scope token db = (b, db') \<Longrightarrow> queue_step (db, U) (db', U)"
| touched: "touch_heartbeat now tid token db = (b, db') \<Longrightarrow> queue_step (db, U) (db', U)"
| failed: "fail now tid message token db = (b, db') \<Longrightarrow> queue_step (db, U) (db', U)"
| recovered: "reset_stale_running now age db = Some (n, db') \<Longrightarrow> queue_step (db, U) (db', U)"
| cleaned: "cleanup_old_tasks now db = (n, db') \<Longrightarrow> queue_step (db, U) (db', U)"
| sessions: "session_step db db' \<Longrightarrow> queue_step (db, U) (db', U)"

inductive_cases queue_stepE: "queue_step (db, U) (db', U')"

subsection \<open>What the sessions do to the queue\<close>

definition revoked :: "task \<Rightarrow> task \<Rightarrow> bool" where
  "revoked t t' \<longleftrightarrow>
     t' = t \<or> (t_status t \<in> open_statuses \<and> t_status t' = TCancelled \<and> t_token t' = None \<and> t_id t' = t_id t
       \<and> t_retry_count t' = t_retry_count t \<and> t_max_retries t' = t_max_retries t)"

definition tasks_revoked :: "database \<Rightarrow> database \<Rightarrow> bool" where
  "tasks_revoked db db' \<longleftrightarrow> list_all2 revoked (db_tasks db) (db_tasks db')"

lemma revoked_refl [simp, intro]: "revoked t t"
  by (simp add: revoked_def)

lemma revoked_trans: "revoked a b \<Longrightarrow> revoked b c \<Longrightarrow> revoked a c"
  by (auto simp: revoked_def open_statuses_def)

lemma tasks_revoked_same: "db_tasks db' = db_tasks db \<Longrightarrow> tasks_revoked db db'"
  by (simp add: tasks_revoked_def list.rel_refl)

lemma tasks_revoked_trans:
  assumes "tasks_revoked a b" "tasks_revoked b c"
  shows "tasks_revoked a c"
  using assms unfolding tasks_revoked_def
  by (blast intro: list_all2_trans [of revoked revoked revoked] revoked_trans)

lemma revoke_tasks_revoked: "tasks_revoked db (revoke_tasks now user sid type why db)"
  by (auto simp: tasks_revoked_def revoke_tasks_def update_rows_def list_all2_conv_all_nth revoked_def
      open_statuses_def)

lemma revoke_opted_out_revoked: "tasks_revoked db (revoke_opted_out now user sid p db)"
  unfolding revoke_opted_out_def Let_def
  by (auto intro: tasks_revoked_trans revoke_tasks_revoked tasks_revoked_same)

lemma store_step_tasks: "store_step db db' \<Longrightarrow> db_tasks db' = db_tasks db"
proof (induction rule: store_step.induct)
  case (allocate u sid flags m e q db seqs db')
  then show ?case
    by (auto simp: allocate_event_sequences_def advance_sequences_def update_one_def bindE_eq_Inr Let_def
        split: if_splits option.splits)
qed (auto simp: update_status_def update_one_def set_alignment_state_def set_alignment_overridden_def
    archive_spool_reservations_def invalidate_spool_reservations_def observe_user_message_def
    mark_user_message_observed_def reconcile_event_high_water_def update_generated_intention_def
    increment_counter_def update_activity_def summary_counted_def summary_attempted_def
    sweep_idle_sessions_def sweep_child_sessions_def sweep_to_def Let_def split: if_splits)

interpretation tasks: session_preorder tasks_revoked
proof unfold_locales
  fix env now db user sid current p ac db'
  assume "apply_patch env now db user sid current p ac = Inr db'"
  then have "db' = revoke_opted_out now user sid p (update_sessions
      (patch_target user sid (captured p current)) (patch_row now p ac current) db)"
    by (auto simp: apply_patch_def bindE_eq_Inr Let_def split: if_splits)
  then show "tasks_revoked db db'"
    using revoke_opted_out_revoked tasks_revoked_same by (metis tasks_revoked_trans update_sessions_simps(2))
qed (auto intro: tasks_revoked_same tasks_revoked_trans store_step_tasks)

subsection \<open>Tokens\<close>

definition owns :: "database \<Rightarrow> string \<Rightarrow> string \<Rightarrow> bool" where
  "owns db tid token \<longleftrightarrow> exists_row (owned_by tid token) (db_tasks db)"

text \<open>Every claim under an old token was there before.\<close>

definition no_new_owner :: "string set \<Rightarrow> task list \<Rightarrow> task list \<Rightarrow> bool" where
  "no_new_owner U ts ts' \<longleftrightarrow>
     (\<forall>t' \<in> set ts'. \<forall>tid k. k \<in> U \<longrightarrow> owned_by tid k t' \<longrightarrow> (\<exists>t \<in> set ts. owned_by tid k t))"

lemma no_new_owner_update:
  assumes "\<And>t tid k. P t \<Longrightarrow> k \<in> U \<Longrightarrow> owned_by tid k (f t) \<Longrightarrow> owned_by tid k t"
  shows "no_new_owner U ts (update_rows P f ts)"
  using assms by (auto simp: no_new_owner_def set_update_rows split: if_splits)

lemma no_new_owner_append: "t_status t \<noteq> TRunning \<Longrightarrow> no_new_owner U ts (ts @ [t])"
  by (auto simp: no_new_owner_def owned_by_def)

lemma no_new_owner_subset: "set ts' \<subseteq> set ts \<Longrightarrow> no_new_owner U ts ts'"
  by (auto simp: no_new_owner_def)

text \<open>The admissions append one pending task or nothing.\<close>

definition fresh_row :: "string \<Rightarrow> task \<Rightarrow> bool" where
  "fresh_row tid t \<longleftrightarrow>
     t_status t = TPending \<and> t_token t = None \<and> t_id t = tid \<and> t_retry_count t = 0 \<and> t_max_retries t = 3"

lemma fresh_new_task [simp]: "fresh_row tid (new_task now tid agent q payload)"
  by (simp add: fresh_row_def new_task_def)

definition admitted :: "string \<Rightarrow> database \<Rightarrow> database \<Rightarrow> bool" where
  "admitted tid db db' \<longleftrightarrow> db' = db \<or> (\<exists>t. fresh_row tid t \<and> db' = insert_task t db)"

lemma admitted_same [intro]: "admitted tid db db"
  by (simp add: admitted_def)

lemma admitted_insert [intro]: "admitted tid db (insert_task (new_task now tid agent q payload) db)"
  unfolding admitted_def by (rule disjI2, rule exI, rule conjI [OF fresh_new_task refl])

lemma enqueue_admitted: "enqueue str_of now tid q db = (r, db') \<Longrightarrow> admitted tid db db'"
  by (auto simp: enqueue_def split: option.splits)

lemma bootstrap_admitted:
  "enqueue_bootstrap_if_no_user_message now tid user sid prio db = (r, db') \<Longrightarrow> admitted tid db db'"
  by (auto simp: enqueue_bootstrap_if_no_user_message_def split: option.splits if_splits)

lemma insert_task_simps [simp]: "db_tasks (insert_task t db) = db_tasks db @ [t]"
  by (simp add: insert_task_def)

lemma admitted_no_new_owner: "admitted tid db db' \<Longrightarrow> no_new_owner U (db_tasks db) (db_tasks db')"
  by (auto simp: admitted_def fresh_row_def intro!: no_new_owner_append intro: no_new_owner_subset)

text \<open>The other operations rewrite rows in place.\<close>

lemma complete_tasks:
  assumes "complete now tid result scope token db = (b, db')"
  obtains f where "db' = update_tasks (owned_by tid token) f db"
    "\<And>t. t_status (f t) \<in> {TCancelled, TCompleted}" "\<And>t. t_id (f t) = t_id t"
    "\<And>t. t_retry_count (f t) = t_retry_count t" "\<And>t. t_max_retries (f t) = t_max_retries t"
  using assms by (auto simp: complete_def split: sum.splits)

lemma fail_tasks:
  assumes "fail now tid message token db = (b, db')"
  obtains "db' = db" "b = False" "List.find (owned_by tid token) (db_tasks db) = None"
  | row where "List.find (owned_by tid token) (db_tasks db) = Some row"
      "db' = update_tasks (owned_by tid token)
         (if t_retry_count row + 1 \<ge> t_max_retries row
          then failed_for_good now (t_retry_count row + 1) message
          else retried_later now (t_retry_count row + 1) message) db"
  using assms by (auto simp: fail_def Let_def split: option.splits)

lemma claim_tasks:
  assumes "claim_next now token db = (r, db')"
  obtains "r = None" "db' = db" "next_task now (db_tasks db) = None"
  | t where "r = Some (claimed now token t)" "next_task now (db_tasks db) = Some t"
      "db' = update_tasks (\<lambda>r. t_id r = t_id t \<and> t_status r = TPending) (claimed now token) db"
  using assms by (auto simp: claim_next_def split: option.splits)

lemma step_no_new_owner:
  assumes "queue_step (db, U) (db', U')"
  shows "no_new_owner U (db_tasks db) (db_tasks db') \<and> U \<subseteq> U'"
  using assms
proof cases
  case (enqueued tid str_of now q r)
  then show ?thesis
    using enqueue_admitted admitted_no_new_owner by blast
next
  case (bootstrapped tid now user sid prio r)
  then show ?thesis
    using bootstrap_admitted admitted_no_new_owner by blast
next
  case (claim token now r)
  from claim_tasks [OF claim(3)] show ?thesis
    by cases (use claim(1,2) in \<open>auto simp: owned_by_def claimed_def intro!: no_new_owner_update intro: no_new_owner_subset\<close>)
next
  case (completed now tid result scope token b)
  from complete_tasks [OF completed(2)] show ?thesis
  proof cases
    case (1 f)
    have "\<not> owned_by i k (f t)" for t i k
      using 1(2) [of t] by (auto simp: owned_by_def)
    with 1(1) completed(1) show ?thesis by (auto intro!: no_new_owner_update)
  qed
next
  case (touched now tid token b)
  then show ?thesis
    by (auto simp: touch_heartbeat_def owned_by_def intro!: no_new_owner_update)
next
  case (failed now tid message token b)
  from fail_tasks [OF failed(2)] show ?thesis
    by cases (auto simp: failed(1) owned_by_def failed_for_good_def retried_later_def
        intro!: no_new_owner_update intro: no_new_owner_subset)
next
  case (recovered now age n)
  then show ?thesis
    by (auto simp: reset_stale_running_def owned_by_def intro!: no_new_owner_update split: if_splits)
next
  case (cleaned now n)
  then show ?thesis
    by (auto simp: cleanup_old_tasks_def intro!: no_new_owner_subset)
next
  case sessions
  then have "list_all2 revoked (db_tasks db) (db_tasks db')"
    using tasks.step_kept by (simp add: tasks_revoked_def)
  then have "no_new_owner U (db_tasks db) (db_tasks db')"
    unfolding no_new_owner_def
    by (fastforce simp: list_all2_conv_all_nth in_set_conv_nth revoked_def owned_by_def)
  with sessions show ?thesis by simp
qed

subsection \<open>The queue's invariant\<close>

text \<open>A running task has one token that was generated for it; a task that is still open has tries left.\<close>

definition row_ok :: "string set \<Rightarrow> task \<Rightarrow> bool" where
  "row_ok U t \<longleftrightarrow>
     t_id t \<in> U \<and> t_max_retries t = 3 \<and> 0 \<le> t_retry_count t \<and> t_retry_count t \<le> 3
     \<and> (t_status t \<in> open_statuses \<longrightarrow> t_retry_count t < 3)
     \<and> (t_status t = TRunning \<longrightarrow> (\<exists>k \<in> U. t_token t = Some k))"

definition tokens_unique :: "task list \<Rightarrow> bool" where
  "tokens_unique ts \<longleftrightarrow>
     (\<forall>t \<in> set ts. \<forall>u \<in> set ts. t_status t = TRunning \<longrightarrow> t_status u = TRunning
        \<longrightarrow> t_token t = t_token u \<longrightarrow> t_id t = t_id u)"

definition tasks_ok :: "string set \<Rightarrow> task list \<Rightarrow> bool" where
  "tasks_ok U ts \<longleftrightarrow> distinct (map t_id ts) \<and> (\<forall>t \<in> set ts. row_ok U t) \<and> tokens_unique ts"

lemma tokens_uniqueI:
  "(\<And>t u. t \<in> set ts \<Longrightarrow> u \<in> set ts \<Longrightarrow> t_status t = TRunning \<Longrightarrow> t_status u = TRunning
     \<Longrightarrow> t_token t = t_token u \<Longrightarrow> t_id t = t_id u) \<Longrightarrow> tokens_unique ts"
  unfolding tokens_unique_def by blast

lemma tokens_uniqueD:
  "tokens_unique ts \<Longrightarrow> t \<in> set ts \<Longrightarrow> u \<in> set ts \<Longrightarrow> t_status t = TRunning \<Longrightarrow> t_status u = TRunning
     \<Longrightarrow> t_token t = t_token u \<Longrightarrow> t_id t = t_id u"
  unfolding tokens_unique_def by blast

lemma row_ok_mono: "row_ok U t \<Longrightarrow> U \<subseteq> V \<Longrightarrow> row_ok V t"
  by (auto simp: row_ok_def)

text \<open>Rewriting rows in place without new claims.\<close>

definition calm :: "string set \<Rightarrow> task \<Rightarrow> task \<Rightarrow> bool" where
  "calm U t t' \<longleftrightarrow>
     t_id t' = t_id t \<and> (row_ok U t \<longrightarrow> row_ok U t')
     \<and> (t_status t' = TRunning \<longrightarrow> t_status t = TRunning \<and> t_token t' = t_token t)"

lemma calm_refl [simp, intro]: "calm U t t"
  by (simp add: calm_def)

lemma tasks_ok_calm:
  assumes "list_all2 (calm U) ts ts'" "tasks_ok U ts"
  shows "tasks_ok U ts'"
proof -
  have nth: "length ts = length ts'" "\<And>i. i < length ts \<Longrightarrow> calm U (ts ! i) (ts' ! i)"
    using assms(1) by (simp_all add: list_all2_conv_all_nth)
  have "map t_id ts' = map t_id ts"
    using nth by (intro nth_equalityI) (auto simp: calm_def)
  moreover have "\<exists>t \<in> set ts. calm U t t'" if "t' \<in> set ts'" for t'
    using that nth by (metis in_set_conv_nth)
  moreover from this have "tokens_unique ts'"
    using assms(2) unfolding tasks_ok_def calm_def by (intro tokens_uniqueI) (metis tokens_uniqueD)
  ultimately show ?thesis
    using assms(2) unfolding tasks_ok_def calm_def by metis
qed

lemma tasks_ok_update:
  assumes "tasks_ok U ts" "\<And>t. t \<in> set ts \<Longrightarrow> P t \<Longrightarrow> calm U t (f t)"
  shows "tasks_ok U (update_rows P f ts)"
  by (rule tasks_ok_calm [OF _ assms(1)]) (use assms(2) in \<open>auto simp: update_rows_def list_all2_conv_all_nth\<close>)

lemma tasks_ok_insert:
  assumes "tasks_ok U ts" "fresh_row tid t" "tid \<notin> U"
  shows "tasks_ok (insert tid U) (ts @ [t])"
proof -
  have ok: "\<forall>u \<in> set ts. row_ok U u" "distinct (map t_id ts)" "tokens_unique ts"
    using assms(1) by (simp_all add: tasks_ok_def)
  have new: "t_id t = tid" "t_status t \<noteq> TRunning" "row_ok (insert tid U) t"
    using assms(2) by (simp_all add: fresh_row_def row_ok_def)
  have "tid \<notin> t_id ` set ts"
    using ok(1) assms(3) by (auto simp: row_ok_def)
  moreover have "\<forall>u \<in> set ts. row_ok (insert tid U) u"
    using ok(1) row_ok_mono by blast
  moreover have "tokens_unique (ts @ [t])"
    using new(2) by (auto intro!: tokens_uniqueI dest: tokens_uniqueD [OF ok(3)])
  ultimately show ?thesis
    using ok new by (simp add: tasks_ok_def)
qed

lemma tasks_ok_mono: "tasks_ok U ts \<Longrightarrow> U \<subseteq> V \<Longrightarrow> tasks_ok V ts"
  unfolding tasks_ok_def by (blast intro: row_ok_mono)

lemma tasks_ok_admitted:
  assumes "tasks_ok U (db_tasks db)" "tid \<notin> U" "admitted tid db db'"
  shows "tasks_ok (insert tid U) (db_tasks db')"
  using assms(3) unfolding admitted_def
proof (elim disjE exE conjE)
  fix t assume "fresh_row tid t" "db' = insert_task t db"
  then show ?thesis
    using tasks_ok_insert [OF assms(1) _ assms(2)] by simp
qed (auto intro: tasks_ok_mono [OF assms(1)])

subsection \<open>What a claim takes\<close>

lemma next_task_Some:
  assumes "next_task now ts = Some t"
  shows "t \<in> set ts" "claimable now ts t" "\<And>u. u \<in> set ts \<Longrightarrow> claimable now ts u \<Longrightarrow> claim_order t \<le> claim_order u"
proof -
  obtain us where us: "sort_key claim_order (filter (claimable now ts) ts) = t # us"
    using assms by (auto simp: next_task_def split: list.splits)
  have "t \<in> set (sort_key claim_order (filter (claimable now ts) ts))"
    unfolding us by simp
  then show "t \<in> set ts" "claimable now ts t" by simp_all
  fix u assume "u \<in> set ts" "claimable now ts u"
  then have "u \<in> set (t # us)"
    unfolding us [symmetric] by simp
  moreover have "sorted (map claim_order (t # us))"
    unfolding us [symmetric] by simp
  ultimately show "claim_order t \<le> claim_order u" by auto
qed

lemma next_task_None: "next_task now ts = None \<longleftrightarrow> (\<forall>t \<in> set ts. \<not> claimable now ts t)"
proof -
  have "next_task now ts = None \<longleftrightarrow> sort_key claim_order (filter (claimable now ts) ts) = []"
    by (simp add: next_task_def split: list.splits)
  also have "\<dots> \<longleftrightarrow> set (sort_key claim_order (filter (claimable now ts) ts)) = {}"
    by (metis set_empty)
  finally show ?thesis by auto
qed

lemma claimed_rows:
  assumes "distinct (map t_id ts)" "next_task now ts = Some t"
  shows "update_rows (\<lambda>r. t_id r = t_id t \<and> t_status r = TPending) f ts = map (\<lambda>r. if r = t then f t else r) ts"
proof -
  have "t_id r = t_id t \<and> t_status r = TPending \<longleftrightarrow> r = t" if "r \<in> set ts" for r
    using next_task_Some(1,2) [OF assms(2)] unique_row [OF assms(1) that] by (auto simp: claimable_def)
  then show ?thesis by (auto simp: update_rows_def)
qed

lemma tasks_ok_claim:
  assumes "tasks_ok U ts" "token \<notin> U" "next_task now ts = Some t"
  shows "tasks_ok (insert token U)
    (update_rows (\<lambda>r. t_id r = t_id t \<and> t_status r = TPending) (claimed now token) ts)"
proof -
  have ok: "distinct (map t_id ts)" "\<And>r. r \<in> set ts \<Longrightarrow> row_ok U r"
    using assms(1) by (simp_all add: tasks_ok_def)
  let ?f = "\<lambda>r. if r = t then claimed now token t else r"
  have pending: "t_status t = TPending"
    using next_task_Some(2) [OF assms(3)] by (simp add: claimable_def)
  have ids: "map t_id (map ?f ts) = map t_id ts"
    by (auto simp: claimed_def)
  have rows: "row_ok (insert token U) (?f r)" if "r \<in> set ts" for r
    using ok(2) [OF that] pending by (auto simp: row_ok_def claimed_def open_statuses_def)
  have old: "t_token r \<noteq> Some token" if "r \<in> set ts" "t_status r = TRunning" for r
    using ok(2) [OF that(1)] that(2) assms(2) by (auto simp: row_ok_def)
  have one: "t_id (?f r) = t_id (?f u)"
    if "r \<in> set ts" "u \<in> set ts" "t_status (?f r) = TRunning" "t_status (?f u) = TRunning"
      "t_token (?f r) = t_token (?f u)" for r u
  proof (cases "r = t \<or> u = t")
    case True
    then show ?thesis
      using that(3-5) old [OF that(1)] old [OF that(2)] by (auto simp: claimed_def split: if_splits)
  next
    case False
    then show ?thesis
      using that tokens_uniqueD [of ts r u] assms(1) unfolding tasks_ok_def by simp
  qed
  have "tokens_unique (map ?f ts)"
  proof (rule tokens_uniqueI)
    fix a b assume "a \<in> set (map ?f ts)" "b \<in> set (map ?f ts)"
    then obtain r u where "r \<in> set ts" "a = ?f r" "u \<in> set ts" "b = ?f u" by auto
    then show "t_status a = TRunning \<Longrightarrow> t_status b = TRunning \<Longrightarrow> t_token a = t_token b \<Longrightarrow> t_id a = t_id b"
      using one by blast
  qed
  moreover have "\<forall>r \<in> set (map ?f ts). row_ok (insert token U) r"
    unfolding set_map by (intro ballI, erule imageE) (simp only: rows)
  ultimately show ?thesis
    using ids ok(1) unfolding claimed_rows [OF ok(1) assms(3)] tasks_ok_def by presburger
qed

lemma step_tasks_ok:
  assumes "queue_step (db, U) (db', U')" "tasks_ok U (db_tasks db)"
  shows "tasks_ok U' (db_tasks db')"
  using assms(1)
proof cases
  case (enqueued tid str_of now q r)
  then show ?thesis using enqueue_admitted tasks_ok_admitted assms(2) by blast
next
  case (bootstrapped tid now user sid prio r)
  then show ?thesis using bootstrap_admitted tasks_ok_admitted assms(2) by blast
next
  case (claim token now r)
  from claim_tasks [OF claim(3)] show ?thesis
    by cases (auto simp: claim(1) intro: tasks_ok_claim [OF assms(2) claim(2)] tasks_ok_mono [OF assms(2)])
next
  case (completed now tid result scope token b)
  from complete_tasks [OF completed(2)] show ?thesis
  proof cases
    case (1 f)
    have "calm U t (f t)" for t
      using 1(2) [of t] 1(3-5) by (auto simp: calm_def row_ok_def open_statuses_def)
    with 1(1) completed(1) show ?thesis
      using tasks_ok_update [OF assms(2)] by simp
  qed
next
  case (touched now tid token b)
  then show ?thesis
    using assms(2) by (auto simp: touch_heartbeat_def calm_def row_ok_def intro!: tasks_ok_update)
next
  case (failed now tid message token b)
  from fail_tasks [OF failed(2)] show ?thesis
  proof cases
    case (2 row)
    have row: "row \<in> set (db_tasks db)" "owned_by tid token row"
      using 2(1) by (auto simp: find_Some_iff)
    have "t = row" if "t \<in> set (db_tasks db)" "owned_by tid token t" for t
      using unique_row [of t_id "db_tasks db" t row] assms(2) that row by (simp add: tasks_ok_def owned_by_def)
    moreover have "row_ok U row" "t_status row = TRunning"
      using assms(2) row by (simp_all add: tasks_ok_def owned_by_def)
    ultimately show ?thesis
      using 2(2) failed(1) assms(2)
      by (auto simp: calm_def row_ok_def failed_for_good_def retried_later_def open_statuses_def
          intro!: tasks_ok_update)
  qed (simp add: failed(1) assms(2))
next
  case (recovered now age n)
  then show ?thesis
    using assms(2)
    by (auto simp: reset_stale_running_def calm_def row_ok_def stale_def open_statuses_def
        intro!: tasks_ok_update split: if_splits)
next
  case (cleaned now n)
  then show ?thesis
    using assms(2) by (auto simp: cleanup_old_tasks_def tasks_ok_def distinct_map_filter
        intro!: tokens_uniqueI dest: tokens_uniqueD)
next
  case sessions
  then have "list_all2 revoked (db_tasks db) (db_tasks db')"
    using tasks.step_kept by (simp add: tasks_revoked_def)
  then have "list_all2 (calm U) (db_tasks db) (db_tasks db')"
    by (rule list_all2_mono) (auto simp: revoked_def calm_def row_ok_def open_statuses_def)
  with sessions assms(2) show ?thesis
    by (simp add: tasks_ok_calm)
qed

text \<open>Both along a run.\<close>

lemma run_no_new_owner:
  assumes "queue_step\<^sup>*\<^sup>* a b"
  shows "no_new_owner (snd a) (db_tasks (fst a)) (db_tasks (fst b)) \<and> snd a \<subseteq> snd b"
  using assms
proof (induction rule: rtranclp_induct)
  case base
  show ?case by (simp add: no_new_owner_subset)
next
  case (step b c)
  then have "no_new_owner (snd b) (db_tasks (fst b)) (db_tasks (fst c)) \<and> snd b \<subseteq> snd c"
    using step_no_new_owner [of "fst b" "snd b" "fst c" "snd c"] by simp
  with step.IH show ?case
    unfolding no_new_owner_def by (meson subset_iff subset_trans)
qed

lemma run_tasks_ok:
  assumes "queue_step\<^sup>*\<^sup>* a b" "tasks_ok (snd a) (db_tasks (fst a))"
  shows "tasks_ok (snd b) (db_tasks (fst b))"
  using assms
proof (induction rule: rtranclp_induct)
  case (step b c)
  then show ?case
    using step_tasks_ok [of "fst b" "snd b" "fst c" "snd c"] by simp
qed simp

end
