(* ===== verification/Queue_Properties.thy ===== *)
theory Queue_Properties
  imports Queue_Safety
begin

text \<open>
  What the task queue promises its workers and its users: claims are exclusive and cannot be regained,
  the claim and the wakeup deadline agree, a task is tried at most three times, and opting out stops
  the work on a session.
\<close>

subsection \<open>Writes of a worker that owns nothing\<close>

lemma update_tasks_none: "\<not> exists_row P (db_tasks db) \<Longrightarrow> update_tasks P f db = db"
  by (simp add: update_tasks_def update_rows_id exists_row_iff)

lemma unowned_writes:
  assumes "\<not> owns db tid token"
  shows "complete now tid result scope token db = (False, db)"
    and "touch_heartbeat now tid token db = (False, db)"
    and "fail now tid message token db = (False, db)"
proof -
  have none: "\<not> exists_row (owned_by tid token) (db_tasks db)"
    using assms by (simp add: owns_def)
  then have "row_count (owned_by tid token) (db_tasks db) = 0"
    by (auto simp: row_count_zero exists_row_iff)
  moreover have "List.find (owned_by tid token) (db_tasks db) = None"
    using none by (auto simp: find_None_iff exists_row_iff)
  ultimately show "complete now tid result scope token db = (False, db)"
      "touch_heartbeat now tid token db = (False, db)" "fail now tid message token db = (False, db)"
    by (auto simp: complete_def touch_heartbeat_def fail_def update_tasks_none [OF none] split: sum.split)
qed

lemma not_regained:
  assumes "queue_step\<^sup>*\<^sup>* (db, U) (db', U')" "token \<in> U" "\<not> owns db tid token"
  shows "\<not> owns db' tid token"
  using run_no_new_owner [OF assms(1)] assms(2,3)
  unfolding no_new_owner_def owns_def exists_row_iff fst_conv snd_conv by blast

subsection \<open>Properties\<close>

text \<open>C27. A worker that lost its claim is fenced for good: once a token does not own a task, it never owns it
  again, whatever claims, recoveries, retries, updates and clean-ups follow, and completing, failing
  or touching the task with it reports failure and changes nothing.\<close>

theorem stale_worker_fenced:
  assumes "queue_step\<^sup>*\<^sup>* (db, U) (db', U')" "token \<in> U" "\<not> owns db tid token"
  shows "\<not> owns db' tid token
     \<and> complete now tid result scope token db' = (False, db')
     \<and> touch_heartbeat now tid token db' = (False, db')
     \<and> fail now tid message token db' = (False, db')"
  using not_regained [OF assms] unowned_writes by blast

definition sample_task :: task where
  "sample_task = new_task 0 ''t1'' ''a''
     \<lparr>eq_type = SummaryTask, eq_user = ''u'', eq_session = Some ''s'', eq_agent = Some ''a'',
      eq_payload = None, eq_priority = 0, eq_next = None\<rparr> None"

definition sample_queue :: database where
  "sample_queue = \<lparr>db_sessions = [new_session ''u'' ''s'' ''build'' 0], db_reservations = [], db_tasks = [sample_task]\<rparr>"

definition sample_claimed :: database where
  "sample_claimed = snd (claim_next 5 ''k2'' sample_queue)"

theorem stale_worker_fenced_witness:
  "complete 9 ''t1'' None None ''k1'' sample_claimed = (False, sample_claimed)"
proof -
  have step: "queue_step\<^sup>*\<^sup>* (sample_queue, {''t1'', ''k1''}) (sample_claimed, insert ''k2'' {''t1'', ''k1''})"
    unfolding sample_claimed_def
    by (intro r_into_rtranclp queue_step.claim [where r = "fst (claim_next 5 ''k2'' sample_queue)"]) simp_all
  have "\<not> owns sample_queue ''t1'' ''k1''"
    by code_simp
  then show ?thesis
    using stale_worker_fenced [OF step, of "''k1''" "''t1''" 9 None None] by simp
qed

text \<open>A claim takes exactly one task, and a best one: it was pending and due, no due or running summary of
  the same user and agent held an analysis back, no task that could have been claimed has a higher
  priority or, at the same priority, an earlier due time, and only that row changes.\<close>

theorem claim_takes_best:
  assumes "tasks_ok U (db_tasks db)" "claim_next now token db = (Some t', db')"
  shows "\<exists>t \<in> set (db_tasks db). t' = claimed now token t \<and> claimable now (db_tasks db) t
     \<and> (\<forall>u \<in> set (db_tasks db). claimable now (db_tasks db) u \<longrightarrow>
          t_priority u < t_priority t \<or> (t_priority u = t_priority t \<and> t_next_attempt t \<le> t_next_attempt u))
     \<and> db_tasks db' = map (\<lambda>r. if r = t then t' else r) (db_tasks db)"
proof -
  obtain t where t: "next_task now (db_tasks db) = Some t" "t' = claimed now token t"
      "db' = update_tasks (\<lambda>r. t_id r = t_id t \<and> t_status r = TPending) (claimed now token) db"
    using claim_tasks [OF assms(2)] by blast
  have "distinct (map t_id (db_tasks db))"
    using assms(1) by (simp add: tasks_ok_def)
  then have rows: "db_tasks db' = map (\<lambda>r. if r = t then t' else r) (db_tasks db)"
    using claimed_rows t by simp
  have best: "t_priority u < t_priority t \<or> (t_priority u = t_priority t \<and> t_next_attempt t \<le> t_next_attempt u)"
    if "u \<in> set (db_tasks db)" "claimable now (db_tasks db) u" for u
    using next_task_Some(3) [OF t(1) that] by (auto simp: claim_order_def less_eq_prod_def)
  show ?thesis
    by (rule bexI [OF _ next_task_Some(1) [OF t(1)]]) (use t(2) next_task_Some(2) [OF t(1)] best rows in blast)
qed

lemma sample_queue_ok: "tasks_ok {''t1''} (db_tasks sample_queue)"
  by (simp add: sample_queue_def sample_task_def new_task_def tasks_ok_def row_ok_def open_statuses_def tokens_unique_def)

theorem claim_takes_best_witness:
  "\<exists>t \<in> set (db_tasks sample_queue). claimed 5 ''k2'' sample_task = claimed 5 ''k2'' t
     \<and> claimable 5 (db_tasks sample_queue) t
     \<and> (\<forall>u \<in> set (db_tasks sample_queue). claimable 5 (db_tasks sample_queue) u \<longrightarrow>
          t_priority u < t_priority t \<or> (t_priority u = t_priority t \<and> t_next_attempt t \<le> t_next_attempt u))
     \<and> db_tasks sample_claimed = map (\<lambda>r. if r = t then claimed 5 ''k2'' sample_task else r) (db_tasks sample_queue)"
  by (rule claim_takes_best [OF sample_queue_ok]) code_simp

text \<open>The wakeup deadline and the claim agree: a claim comes back empty exactly when the pending deadline
  that \<open>next_wakeup\<close> reports is absent or in the future, so a worker that sleeps until the deadline
  neither misses a task nor wakes for nothing.\<close>

theorem wakeup_agrees_with_claim:
  "fst (claim_next now token db) = None \<longleftrightarrow>
     (case fst (next_wakeup now db) of None \<Rightarrow> True | Some due \<Rightarrow> now < due)"
proof -
  let ?ts = "db_tasks db"
  let ?dues = "map t_next_attempt (filter (\<lambda>t. t_status t = TPending \<and> \<not> summary_blocked now ?ts t) ?ts)"
  have "fst (claim_next now token db) = None \<longleftrightarrow> (\<forall>t \<in> set ?ts. \<not> claimable now ?ts t)"
    by (simp add: claim_next_def next_task_None [symmetric] split: option.split)
  also have "\<dots> \<longleftrightarrow> (\<forall>due \<in> set ?dues. now < due)"
    by (auto simp: claimable_def)
  also have "\<dots> \<longleftrightarrow> (case min_of ?dues of None \<Rightarrow> True | Some due \<Rightarrow> now < due)"
    by (rule min_of_above [symmetric])
  finally show ?thesis
    by (simp add: next_wakeup_def Let_def)
qed

text \<open>C28. In every run from an empty queue, task identifiers are unique, no two running tasks share a token,
  every running task carries a token that was generated for a claim, no task counts more than three
  failures, and one that is still pending or running has failures left.  The recovery of a stale worker's
  task is not counted as a failure.\<close>

theorem queue_rows_consistent:
  assumes "queue_step\<^sup>*\<^sup>* (db0, U0) (db, U)" "db_tasks db0 = []"
  shows "distinct (map t_id (db_tasks db))
     \<and> (\<forall>t \<in> set (db_tasks db). \<forall>u \<in> set (db_tasks db). t_status t = TRunning \<longrightarrow> t_status u = TRunning
          \<longrightarrow> t_token t = t_token u \<longrightarrow> t = u)
     \<and> (\<forall>t \<in> set (db_tasks db). (t_status t = TRunning \<longrightarrow> (\<exists>k \<in> U. t_token t = Some k))
          \<and> 0 \<le> t_retry_count t \<and> t_retry_count t \<le> 3 \<and> (t_status t \<in> open_statuses \<longrightarrow> t_retry_count t < 3))"
proof -
  have "tasks_ok U0 (db_tasks db0)"
    by (simp add: assms(2) tasks_ok_def tokens_unique_def)
  then have ok: "tasks_ok U (db_tasks db)"
    using run_tasks_ok [OF assms(1)] by simp
  then have "t = u" if "t \<in> set (db_tasks db)" "u \<in> set (db_tasks db)" "t_status t = TRunning"
      "t_status u = TRunning" "t_token t = t_token u" for t u
    using that unique_row [of t_id "db_tasks db" t u] tokens_uniqueD [of "db_tasks db" t u]
    by (simp add: tasks_ok_def)
  with ok show ?thesis
    unfolding tasks_ok_def row_ok_def by blast
qed

definition empty_queue :: database where
  "empty_queue = sample_queue\<lparr>db_tasks := []\<rparr>"

lemma sample_run: "queue_step\<^sup>*\<^sup>* (empty_queue, {}) (snd (enqueue (\<lambda>_. []) 0 ''t1''
     \<lparr>eq_type = AnalysisTask, eq_user = ''u'', eq_session = None, eq_agent = Some ''a'',
      eq_payload = None, eq_priority = 0, eq_next = None\<rparr> empty_queue), {''t1''})"
  by (intro r_into_rtranclp queue_step.enqueued [OF _ surjective_pairing]) simp

theorem queue_rows_consistent_witness:
  "distinct (map t_id (db_tasks (snd (enqueue (\<lambda>_. []) 0 ''t1''
     \<lparr>eq_type = AnalysisTask, eq_user = ''u'', eq_session = None, eq_agent = Some ''a'',
      eq_payload = None, eq_priority = 0, eq_next = None\<rparr> empty_queue))))"
  by (rule conjunct1 [OF queue_rows_consistent [OF sample_run]]) (simp add: empty_queue_def)

subsection \<open>Failures\<close>

lemma owner_found:
  assumes "tasks_ok U (db_tasks db)" "t \<in> set (db_tasks db)" "owned_by tid token t"
  shows "List.find (owned_by tid token) (db_tasks db) = Some t"
    and "row_count (owned_by tid token) (db_tasks db) = 1"
    and "update_rows (owned_by tid token) f (db_tasks db) = map (\<lambda>r. if r = t then f t else r) (db_tasks db)"
proof -
  have ids: "distinct (map t_id (db_tasks db))"
    using assms(1) by (simp add: tasks_ok_def)
  have only: "owned_by tid token r \<longleftrightarrow> r = t" if "r \<in> set (db_tasks db)" for r
    using unique_row [OF ids that assms(2)] assms(3) by (auto simp: owned_by_def)
  then obtain r where r: "List.find (owned_by tid token) (db_tasks db) = Some r"
    using assms(2,3) by (cases "List.find (owned_by tid token) (db_tasks db)") (auto simp: find_None_iff)
  then have "r \<in> set (db_tasks db)" "owned_by tid token r"
    by (auto simp: find_Some_iff)
  with only r show "List.find (owned_by tid token) (db_tasks db) = Some t" by simp
  have "row_count (owned_by tid token) (db_tasks db) \<le> 1"
    by (rule row_count_unique [OF ids, of _ tid]) (simp add: owned_by_def)
  moreover have "0 < row_count (owned_by tid token) (db_tasks db)"
    using assms(2,3) by (auto simp: row_count_pos)
  ultimately show "row_count (owned_by tid token) (db_tasks db) = 1" by simp
  show "update_rows (owned_by tid token) f (db_tasks db) = map (\<lambda>r. if r = t then f t else r) (db_tasks db)"
    using only by (auto simp: update_rows_def)
qed

lemma backoff_steps: "backoff 1 = 30000000" "backoff 2 = 120000000"
  by (simp_all add: backoff_def retry_backoff_def)

text \<open>A failure of the owning worker is recorded exactly once and only on its task: the first puts the
  task back for thirty seconds, the second for two minutes - both void the token - and the third
  marks it failed for good.\<close>

theorem failure_retried_or_final:
  assumes "tasks_ok U (db_tasks db)" "t \<in> set (db_tasks db)" "owned_by tid token t"
    and "fail now tid message token db = (b, db')"
  shows "b \<and> (\<exists>t'. db_tasks db' = map (\<lambda>r. if r = t then t' else r) (db_tasks db)
     \<and> t_id t' = tid \<and> t_retry_count t' = t_retry_count t + 1
     \<and> (if t_retry_count t = 2 then t_status t' = TFailed
        else t_status t' = TPending \<and> t_token t' = None
          \<and> t_next_attempt t' = now + (if t_retry_count t = 0 then 30000000 else 120000000)))"
proof -
  let ?retry = "t_retry_count t + 1"
  let ?f = "if ?retry \<ge> t_max_retries t then failed_for_good now ?retry message else retried_later now ?retry message"
  note found = owner_found [OF assms(1-3)]
  have run: "b = True" "db' = update_tasks (owned_by tid token) ?f db"
    using assms(4) found(1,2) by (auto simp: fail_def Let_def)
  have t: "t_id t = tid" "t_status t = TRunning"
    using assms(3) by (simp_all add: owned_by_def)
  have "t_max_retries t = 3" "t_retry_count t \<in> {0, 1, 2}"
    using assms(1,2) t by (auto simp: tasks_ok_def row_ok_def open_statuses_def)
  then have "t_id (?f t) = tid" "t_retry_count (?f t) = ?retry"
      "if t_retry_count t = 2 then t_status (?f t) = TFailed
       else t_status (?f t) = TPending \<and> t_token (?f t) = None
         \<and> t_next_attempt (?f t) = now + (if t_retry_count t = 0 then 30000000 else 120000000)"
    using t backoff_steps by (auto simp: failed_for_good_def retried_later_def)
  with run found(3) [of ?f] show ?thesis
    by (intro conjI exI [of _ "?f t"]) simp_all
qed

definition sample_running :: task where
  "sample_running = claimed 5 ''k2'' sample_task"

lemma sample_claimed_ok: "tasks_ok {''t1'', ''k2''} (db_tasks sample_claimed)"
  "sample_running \<in> set (db_tasks sample_claimed)" "owned_by ''t1'' ''k2'' sample_running"
proof -
  have "db_tasks sample_claimed = [sample_running]"
    by code_simp
  moreover have "t_id sample_running = ''t1''" "t_max_retries sample_running = 3" "t_retry_count sample_running = 0"
      "t_status sample_running = TRunning" "t_token sample_running = Some ''k2''"
    by code_simp+
  ultimately show "tasks_ok {''t1'', ''k2''} (db_tasks sample_claimed)"
      "sample_running \<in> set (db_tasks sample_claimed)" "owned_by ''t1'' ''k2'' sample_running"
    by (simp_all add: tasks_ok_def row_ok_def tokens_unique_def owned_by_def)
qed

theorem failure_retried_or_final_witness:
  "fst (fail 7 ''t1'' ''boom'' ''k2'' sample_claimed)"
  by (rule conjunct1 [OF failure_retried_or_final [OF sample_claimed_ok surjective_pairing]])

subsection \<open>Opting out\<close>

definition open_work :: "string \<Rightarrow> string \<Rightarrow> task_type \<Rightarrow> task \<Rightarrow> bool" where
  "open_work user sid type t \<longleftrightarrow>
     t_user t = user \<and> t_session t = Some sid \<and> t_type t = type \<and> t_status t \<in> open_statuses"

lemma no_row_after_update:
  assumes "\<And>r. r \<in> set rs \<Longrightarrow> P r \<Longrightarrow> \<not> Q (f r)" "\<And>r. r \<in> set rs \<Longrightarrow> \<not> P r \<Longrightarrow> \<not> Q r"
  shows "\<not> exists_row Q (update_rows P f rs)"
  using assms by (auto simp: exists_row_iff set_update_rows)

lemma revoked_work:
  "\<not> exists_row (open_work user sid type) (db_tasks (revoke_tasks now user sid type why db))"
  unfolding revoke_tasks_def update_tasks_simps
  by (rule no_row_after_update) (auto simp: open_work_def open_statuses_def)

lemma revoke_other_keeps:
  assumes "\<not> exists_row (open_work user sid type) (db_tasks db)"
  shows "\<not> exists_row (open_work user sid type) (db_tasks (revoke_tasks now u i type' why db))"
  unfolding revoke_tasks_def update_tasks_simps
  by (rule no_row_after_update) (use assms in \<open>simp_all add: open_work_def open_statuses_def exists_row_iff\<close>)

lemma revoke_opted_out_work:
  assumes "sp_analytics p = Some False"
  shows "\<not> exists_row (open_work user sid SummaryTask) (db_tasks (revoke_opted_out now user sid p db))"
  using assms revoked_work revoke_other_keeps by (simp add: revoke_opted_out_def Let_def)

lemma patched_flag:
  "sp_analytics p = Some False \<Longrightarrow> \<not> s_analytics_enabled (patch_row now p ac current s)"
  by (simp add: patch_row_def Let_def)

lemma changing_update:
  assumes "find_session db user sid = Some s0" "\<not> changes_nothing p" "\<And>ac. \<not> repeats ac p s0"
    and "update_session env refresh now db user sid p = Inr (s, db')"
  obtains ac db1 where "activate env refresh db user s0 p = Inr (ac, db1)"
    "apply_patch env now db1 user sid s0 p ac = Inr db'" "find_session db' user sid = Some s"
proof -
  have "stored db user sid = Inr (s0, db)"
    using assms(1) by (simp add: stored_def)
  with assms(4,2) have "bindE (activate env refresh db user s0 p) (\<lambda>(ac, db1).
      if repeats ac p s0 then Inr (s0, db1)
      else bindE (apply_patch env now db1 user sid s0 p ac) (\<lambda>db2. stored db2 user sid)) = Inr (s, db')"
    by (simp add: update_session_def split: if_splits)
  with assms(3) that show thesis
    by (auto simp: bindE_eq_Inr stored_Inr)
qed

text \<open>The row that an update leaves behind was patched.\<close>

lemma applied_row:
  assumes "sessions_ok db" "apply_patch env now db user sid current p ac = Inr db'"
    and "find_session db' user sid = Some s"
  shows "\<exists>s0. s = patch_row now p ac current s0"
proof -
  let ?P = "patch_target user sid (captured p current)"
  have applied: "row_count ?P (db_sessions db) \<noteq> 0"
      "db_sessions db' = update_rows ?P (patch_row now p ac current) (db_sessions db)"
    using assms(2) by (auto simp: apply_patch_def bindE_eq_Inr Let_def split: if_splits)
  then obtain s0 where s0: "s0 \<in> set (db_sessions db)" "?P s0"
    by (auto simp: row_count_def filter_empty_conv)
  have key: "session_key (patch_row now p ac current r) = session_key r" for r
    using advances_patch_row by (simp add: advances_def)
  have found: "find_session db user sid = Some s0"
    using found_session [OF assms(1) s0(1)] s0(2) by (simp add: patch_target_def)
  have "find_session db' user sid = find_session (update_sessions ?P (patch_row now p ac current) db) user sid"
    by (simp add: find_session_def applied(2))
  also have "\<dots> = Some (patch_row now p ac current s0)"
    using found s0(2) by (simp add: find_session_update [OF key])
  finally show ?thesis using assms(3) by auto
qed

text \<open>Opting a session out of analytics stops its work at once: when the update that switches the flag off
  succeeds, no summary task of the session is pending or running any more, so no worker owns one, and
  the next attempt to queue one is refused and changes nothing.\<close>

theorem opt_out_stops_work:
  assumes "sessions_ok db" "find_session db user sid = Some s0" "s_analytics_enabled s0"
    and "sp_analytics p = Some False" "sid \<noteq> []"
    and "update_session env (refresh_inherited_policy n env now) now db user sid p = Inr (s, db')"
  shows "\<not> exists_row (open_work user sid SummaryTask) (db_tasks db')
     \<and> (eq_type q = SummaryTask \<and> eq_user q = user \<and> eq_session q = Some sid
          \<longrightarrow> enqueue str_of now' tid q db' = (None, db'))"
proof -
  obtain ac db1 where ac: "activate env (refresh_inherited_policy n env now) db user s0 p = Inr (ac, db1)"
      "apply_patch env now db1 user sid s0 p ac = Inr db'" "find_session db' user sid = Some s"
    by (rule changing_update [OF assms(2) _ _ assms(6)])
      (use assms(3,4) in \<open>simp_all add: changes_nothing_def repeats_def unset_or_def\<close>)
  have "sessions_ok db1"
    using keys.activate_kept [OF keys.refresh_kept ac(1)] assms(1) by blast
  then have off: "\<not> s_analytics_enabled s"
    using applied_row [OF _ ac(2,3)] patched_flag [OF assms(4)] by blast
  have "\<exists>db2. db' = revoke_opted_out now user sid p db2"
    using ac(2) by (auto simp: apply_patch_def bindE_eq_Inr Let_def split: if_splits)
  then have "\<not> exists_row (open_work user sid SummaryTask) (db_tasks db')"
    using revoke_opted_out_work [OF assms(4)] by blast
  moreover have "enqueue str_of now' tid q db' = (None, db')"
    if "eq_type q = SummaryTask" "eq_user q = user" "eq_session q = Some sid"
    using that off ac(3) assms(5) by (simp add: enqueue_def admit_def given_def)
  ultimately show ?thesis by blast
qed

definition sample_env :: policy_env where
  "sample_env = \<lparr>env_digest = (\<lambda>_. []), env_prepare = (\<lambda>d _ _ _. Inr d), env_registry = (\<lambda>_ _. False)\<rparr>"

definition opted_out :: "session_error + session \<times> database" where
  "opted_out = update_session sample_env (refresh_inherited_policy 0 sample_env 8) 8 sample_claimed ''u'' ''s''
     (empty_patch\<lparr>sp_analytics := Some False\<rparr>)"

definition opted_out_db :: database where
  "opted_out_db = (case opted_out of Inr (_, db) \<Rightarrow> db | Inl _ \<Rightarrow> empty_queue)"

definition opted_out_row :: session where
  "opted_out_row = (case opted_out of Inr (s, _) \<Rightarrow> s | Inl _ \<Rightarrow> new_session [] [] [] 0)"

lemma opted_out_result: "opted_out = Inr (opted_out_row, opted_out_db)"
  by code_simp

theorem opt_out_stops_work_witness:
  "\<not> exists_row (open_work ''u'' ''s'' SummaryTask) (db_tasks opted_out_db)"
  by (rule conjunct1 [OF opt_out_stops_work [OF _ _ _ _ _ opted_out_result [unfolded opted_out_def],
        of "new_session ''u'' ''s'' ''build'' 0"]])
    (simp_all add: sample_claimed_def claim_next_def sample_queue_def sessions_ok_def find_session_def
      is_session_def new_session_def empty_patch_def split: option.split)

end
