(* ===== verification/Workflow_Scope.thy ===== *)
theory Workflow_Scope
  imports Session_Update
begin

text \<open>
  \<^verbatim>\<open>intaris/workflow_scope.py\<close>: declarations of workflow steps by their controller, and
  their match with a call.  The table \<^verbatim>\<open>workflow_step_declarations\<close> is a list of rows beside
  the database; the content hash is an argument.
\<close>

record step_declaration =
  wd_user :: string
  wd_session :: string
  wd_logical :: string
  wd_digest :: string
  wd_body :: pydict
  wd_agent :: string
  wd_execution :: string
  wd_snapshot :: string
  wd_revision :: int

record workflow_step =
  ws_session :: string
  ws_task :: string
  ws_workflow :: string
  ws_step_name :: string
  ws_step_run :: string
  ws_logical :: string
  ws_workflow_digest :: string
  ws_step_digest :: string
  ws_rendered_digest :: string
  ws_tool :: string
  ws_args_digest :: string
  ws_executor :: string
  ws_owner_configured :: bool
  ws_exact :: bool

datatype workflow_error = StepConflict | ScopeUnsupported

text \<open>\<open>model_dump\<close> of a step: its fields in the order of the class.\<close>

definition step_payload :: "workflow_step \<Rightarrow> pydict" where
  "step_payload w =
     [(''version'', VNum 1), (''origin'', VStr ''controller_workflow_step''),
      (''session_id'', VStr (ws_session w)), (''task_id'', VStr (ws_task w)),
      (''workflow_id'', VStr (ws_workflow w)), (''step_name'', VStr (ws_step_name w)),
      (''step_run_id'', VStr (ws_step_run w)), (''logical_call_id'', VStr (ws_logical w)),
      (''workflow_definition_digest'', VStr (ws_workflow_digest w)),
      (''step_definition_digest'', VStr (ws_step_digest w)),
      (''rendered_args_digest'', VStr (ws_rendered_digest w)), (''tool'', VStr (ws_tool w)),
      (''evaluated_args_digest'', VStr (ws_args_digest w)), (''executor_id'', VStr (ws_executor w)),
      (''authorized_by'', VStr (if ws_owner_configured w then ''owner_configured'' else ''agent_composed'')),
      (''projection'', VStr (if ws_exact w then ''exact'' else ''unsupported''))]"

definition in_scope :: "string \<Rightarrow> string \<Rightarrow> step_declaration \<Rightarrow> bool" where
  "in_scope user sid d \<longleftrightarrow> wd_user d = user \<and> wd_session d = sid"

definition registry_revision :: "step_declaration list \<Rightarrow> string \<Rightarrow> string \<Rightarrow> int" where
  "registry_revision ds user sid =
     (case map wd_revision (filter (in_scope user sid) ds) of [] \<Rightarrow> 0 | r # rs \<Rightarrow> Max (set (r # rs)))"

definition is_declaration :: "string \<Rightarrow> string \<Rightarrow> string \<Rightarrow> step_declaration \<Rightarrow> bool" where
  "is_declaration user sid logical d \<longleftrightarrow> in_scope user sid d \<and> wd_logical d = logical"

definition find_declaration :: "step_declaration list \<Rightarrow> string \<Rightarrow> string \<Rightarrow> string \<Rightarrow> step_declaration option" where
  "find_declaration ds user sid logical = List.find (is_declaration user sid logical) ds"

text \<open>\<open>install\<close>: repeating a step_declaration answers with the stored one, changing it is refused.\<close>

definition new_declaration ::
    "string \<Rightarrow> string \<Rightarrow> workflow_step \<Rightarrow> string \<Rightarrow> string \<times> string \<Rightarrow> int \<Rightarrow> step_declaration" where
  "new_declaration hash user w agent claims revision =
     \<lparr>wd_user = user, wd_session = ws_session w, wd_logical = ws_logical w, wd_digest = hash,
      wd_body = step_payload w, wd_agent = agent, wd_execution = fst claims, wd_snapshot = snd claims,
      wd_revision = revision\<rparr>"

definition at_revision :: "string \<Rightarrow> string \<Rightarrow> int \<Rightarrow> session \<Rightarrow> bool" where
  "at_revision user sid revision s \<longleftrightarrow> is_session user sid s \<and> s_state_revision s = revision"

definition bump_state :: "session \<Rightarrow> session" where
  "bump_state s = s\<lparr>s_state_revision := s_state_revision s + 1\<rparr>"

definition declare_step ::
    "string \<Rightarrow> string \<Rightarrow> workflow_step \<Rightarrow> string \<Rightarrow> string \<times> string \<Rightarrow> session
      \<Rightarrow> database \<times> step_declaration list \<Rightarrow> workflow_error + (string \<times> int) \<times> database \<times> step_declaration list" where
  "declare_step hash user w agent claims s st =
     (if dget (case s_policy s of None \<Rightarrow> [] | Some d \<Rightarrow> d) ''evaluation_policy_version'' \<noteq> VStr ''hybrid_v1''
      then Inl ScopeUnsupported
      else
        let target = at_revision user (ws_session w) (s_state_revision s) in
        if row_count target (db_sessions (fst st)) \<noteq> 1 then Inl StepConflict
        else let revision = s_state_revision s + 1
             in Inr ((hash, revision),
                  update_sessions target bump_state (fst st),
                  snd st @ [new_declaration hash user w agent claims revision]))"

definition install ::
    "(pyval \<Rightarrow> string) \<Rightarrow> workflow_step \<Rightarrow> string \<Rightarrow> string \<Rightarrow> string \<times> string \<Rightarrow> database \<times> step_declaration list
      \<Rightarrow> workflow_error + (string \<times> int) \<times> database \<times> step_declaration list" where
  "install digest w user agent claims st =
     (let hash = digest (VDict (step_payload w)) in
      if row_count (\<lambda>s. is_session user (ws_session w) s \<and> s_agent s = Some agent) (db_sessions (fst st)) \<noteq> 1
      then Inl StepConflict
      else case find_declaration (snd st) user (ws_session w) (ws_logical w) of
        Some old \<Rightarrow>
          if wd_digest old \<noteq> hash
             \<or> (agent, claims) \<noteq> (wd_agent old, wd_execution old, wd_snapshot old)
          then Inl StepConflict else Inr ((hash, wd_revision old), st)
      | None \<Rightarrow>
          (case find_session (fst st) user (ws_session w) of
             None \<Rightarrow> Inl StepConflict
           | Some s \<Rightarrow> declare_step hash user w agent claims s st))"

text \<open>\<open>match\<close>\<close>

record scope_match =
  sm_revision :: int
  sm_declared :: bool
  sm_matched :: bool
  sm_missing :: bool
  sm_mismatched :: bool
  sm_unsupported :: bool
  sm_reason :: "string option"
  sm_declaration :: "(pydict \<times> string) option"

definition undeclared :: "int \<Rightarrow> scope_match" where
  "undeclared revision =
     \<lparr>sm_revision = revision, sm_declared = revision \<noteq> 0, sm_matched = False, sm_missing = False,
      sm_mismatched = False, sm_unsupported = False, sm_reason = None, sm_declaration = None\<rparr>"

definition binds_call ::
    "(pyval \<Rightarrow> string) \<Rightarrow> step_declaration \<Rightarrow> string \<Rightarrow> string option \<Rightarrow> string \<Rightarrow> string \<Rightarrow> pyval \<Rightarrow> pydict \<Rightarrow> bool" where
  "binds_call digest d sid agent logical tool args ctx \<longleftrightarrow>
     Some (wd_agent d) = agent \<and> dget (wd_body d) ''session_id'' = VStr sid
     \<and> dget (wd_body d) ''tool'' = VStr tool \<and> dget (wd_body d) ''logical_call_id'' = VStr logical
     \<and> dget (wd_body d) ''evaluated_args_digest'' = VStr (digest args)
     \<and> dget (wd_body d) ''executor_id'' = dget ctx ''executor_id''
     \<and> VStr (wd_execution d) = dget ctx ''governing_execution_id''
     \<and> VStr (wd_snapshot d) = dget ctx ''governing_snapshot_id''"

definition match_step ::
    "(pyval \<Rightarrow> string) \<Rightarrow> step_declaration list \<Rightarrow> string \<Rightarrow> string \<Rightarrow> string option \<Rightarrow> string \<Rightarrow> string \<Rightarrow> pyval
      \<Rightarrow> pydict option \<Rightarrow> scope_match" where
  "match_step digest ds user sid agent logical tool args ctx =
     (let revision = registry_revision ds user sid; result = undeclared revision in
      if revision = 0 then result
      else case (find_declaration ds user sid logical, ctx) of
        (Some d, Some (entry # entries)) \<Rightarrow>
          if dget (wd_body d) ''projection'' \<noteq> VStr ''exact''
          then result\<lparr>sm_unsupported := True, sm_reason := Some ''workflow_step.argument_projection_unsupported''\<rparr>
          else if dget (wd_body d) ''authorized_by'' \<noteq> VStr ''owner_configured''
          then result\<lparr>sm_mismatched := True, sm_reason := Some ''workflow_step.definition_unverified''\<rparr>
          else if \<not> binds_call digest d sid agent logical tool args (entry # entries)
          then result\<lparr>sm_mismatched := True, sm_reason := Some ''workflow_step.declaration_mismatch''\<rparr>
          else result\<lparr>sm_matched := True, sm_declaration := Some (wd_body d, wd_digest d)\<rparr>
      | _ \<Rightarrow> result\<lparr>sm_missing := True, sm_reason := Some ''workflow_step.declaration_missing''\<rparr>)"

subsection \<open>The registry and the sessions move together\<close>

text \<open>Every step_declaration carries a positive revision that its session has reached.\<close>

definition registry_ok :: "database \<times> step_declaration list \<Rightarrow> bool" where
  "registry_ok st \<longleftrightarrow>
     sessions_ok (fst st) \<and> revisions_positive (fst st)
     \<and> (\<forall>d \<in> set (snd st). 0 < wd_revision d
          \<and> (\<exists>s. find_session (fst st) (wd_user d) (wd_session d) = Some s \<and> wd_revision d \<le> s_state_revision s))"

inductive registry_step :: "database \<times> step_declaration list \<Rightarrow> database \<times> step_declaration list \<Rightarrow> bool" where
  installed: "install digest w user agent claims st = Inr (r, st') \<Longrightarrow> registry_step st st'"
| moved: "session_step db db' \<Longrightarrow> registry_step (db, ds) (db', ds)"

lemma registry_revision_cases:
  "(filter (in_scope user sid) ds = [] \<and> registry_revision ds user sid = 0)
   \<or> (\<exists>d \<in> set ds. in_scope user sid d \<and> registry_revision ds user sid = wd_revision d
        \<and> (\<forall>e \<in> set ds. in_scope user sid e \<longrightarrow> wd_revision e \<le> wd_revision d))"
proof (cases "map wd_revision (filter (in_scope user sid) ds)")
  case Nil
  then show ?thesis by (simp add: registry_revision_def)
next
  case (Cons r rs)
  then have rev: "registry_revision ds user sid = Max (set (map wd_revision (filter (in_scope user sid) ds)))"
    by (simp add: registry_revision_def)
  have "Max (set (map wd_revision (filter (in_scope user sid) ds)))
      \<in> set (map wd_revision (filter (in_scope user sid) ds))"
    by (rule Max_in) (simp_all add: Cons)
  then obtain d where d: "d \<in> set ds" "in_scope user sid d"
      "Max (set (map wd_revision (filter (in_scope user sid) ds))) = wd_revision d"
    by auto
  have "wd_revision e \<le> wd_revision d" if "e \<in> set ds" "in_scope user sid e" for e
    using that unfolding d(3) [symmetric] by (intro Max_ge) auto
  with d rev show ?thesis by auto
qed

lemma registry_revision_append:
  "registry_revision (ds @ [d]) user sid =
     (if in_scope user sid d
      then (if filter (in_scope user sid) ds = [] then wd_revision d
            else max (registry_revision ds user sid) (wd_revision d))
      else registry_revision ds user sid)"
proof (cases "map wd_revision (filter (in_scope user sid) ds)")
  case (Cons r rs)
  then have "filter (in_scope user sid) ds \<noteq> []" by auto
  moreover have "Max (set (r # rs @ [wd_revision d])) = max (Max (set (r # rs))) (wd_revision d)"
    by (simp add: Max_insert2 [symmetric] insert_commute max.commute flip: Max_insert)
  ultimately show ?thesis
    using Cons by (simp add: registry_revision_def)
qed (simp add: registry_revision_def)

text \<open>A new declaration lies above every revision of its session.\<close>

definition grows :: "string \<Rightarrow> string \<Rightarrow> step_declaration list \<Rightarrow> step_declaration list \<Rightarrow> bool" where
  "grows user sid ds ds' \<longleftrightarrow>
     (filter (in_scope user sid) ds' = filter (in_scope user sid) ds
        \<and> registry_revision ds' user sid = registry_revision ds user sid)
     \<or> registry_revision ds user sid < registry_revision ds' user sid"

lemma grows_refl [simp, intro]: "grows user sid ds ds"
  by (simp add: grows_def)

lemma grows_trans: "grows user sid a b \<Longrightarrow> grows user sid b c \<Longrightarrow> grows user sid a c"
  by (auto simp: grows_def)

lemma grows_append:
  assumes "\<And>e. e \<in> set ds \<Longrightarrow> in_scope (wd_user d) (wd_session d) e \<Longrightarrow> wd_revision e < wd_revision d" "0 < wd_revision d"
  shows "grows user sid ds (ds @ [d])"
proof (cases "in_scope user sid d")
  case True
  then have above: "wd_revision e < wd_revision d" if "e \<in> set ds" "in_scope user sid e" for e
    using assms(1) [OF that(1)] that(2) by (simp add: in_scope_def)
  have "registry_revision ds user sid < wd_revision d"
    using registry_revision_cases [of user sid ds] above assms(2) by auto
  with True show ?thesis
    by (auto simp: grows_def registry_revision_append)
qed (simp add: grows_def registry_revision_append)

lemma install_cases:
  assumes "install digest w user agent claims st = Inr (r, st')"
  obtains "st' = st"
  | s where "find_session (fst st) user (ws_session w) = Some s"
      "fst st' = update_sessions (at_revision user (ws_session w) (s_state_revision s)) bump_state (fst st)"
      "snd st' = snd st @ [new_declaration (digest (VDict (step_payload w))) user w agent claims (s_state_revision s + 1)]"
proof (cases "find_declaration (snd st) user (ws_session w) (ws_logical w)")
  case (Some old)
  then have "st' = st"
    using assms by (simp add: install_def Let_def split: if_splits)
  then show thesis by (rule that(1))
next
  case None
  then obtain s where s: "find_session (fst st) user (ws_session w) = Some s"
      "declare_step (digest (VDict (step_payload w))) user w agent claims s st = Inr (r, st')"
    using assms by (auto simp: install_def Let_def split: if_splits option.splits)
  then show thesis
    by (intro that(2) [OF s(1)]) (auto simp: declare_step_def Let_def split: if_splits)
qed

lemma install_step:
  assumes "install digest w user agent claims st = Inr (r, st')" "registry_ok st"
  shows "registry_ok st' \<and> grows u sid (snd st) (snd st')"
  using assms(1)
proof (cases rule: install_cases)
  case (2 s)
  define d where "d = new_declaration (digest (VDict (step_payload w))) user w agent claims (s_state_revision s + 1)"
  let ?f = bump_state and ?P = "at_revision user (ws_session w) (s_state_revision s)"
  have bump: "session_key (?f r) = session_key r" "s_state_revision (?f r) = s_state_revision r + 1" for r
    by (simp_all add: bump_state_def session_key_def)
  have d: "wd_user d = user" "wd_session d = ws_session w" "wd_revision d = s_state_revision s + 1"
    by (simp_all add: d_def new_declaration_def)
  have pos: "0 < s_state_revision s"
    using assms(2) find_session_Some [OF 2(1)] by (auto simp: registry_ok_def revisions_positive_def)
  have below: "wd_revision e < wd_revision d" if "e \<in> set (snd st)" "in_scope (wd_user d) (wd_session d) e" for e
    using that assms(2) 2(1) d by (fastforce simp: registry_ok_def in_scope_def)
  have found: "find_session (fst st') v i = map_option (\<lambda>r. if ?P r then ?f r else r) (find_session (fst st) v i)" for v i
    unfolding 2(2) by (rule find_session_update) (rule bump)
  have "s \<in> set (db_sessions (fst st))" "?P s"
    using find_session_Some [OF 2(1)] by (simp_all add: is_session_def at_revision_def)
  then have new: "find_session (fst st') user (ws_session w) = Some (?f s)"
    using 2(1) found by simp
  have old: "\<exists>r'. find_session (fst st') v i = Some r' \<and> n \<le> s_state_revision r'"
    if "find_session (fst st) v i = Some r" "n \<le> s_state_revision r" for v i r n
    using that found bump(2) [of r] by (cases "?P r") auto
  have keys: "sessions_ok (fst st')"
    using assms(2) unfolding 2(2) registry_ok_def sessions_ok_def
    by (simp add: update_rows_key [where key = session_key] bump)
  have positive: "revisions_positive (fst st')"
    using assms(2) positive_update [of "fst st'" ?P ?f "fst st"] bump(2) unfolding 2(2) registry_ok_def by simp
  have "0 < wd_revision e \<and> (\<exists>r. find_session (fst st') (wd_user e) (wd_session e) = Some r \<and> wd_revision e \<le> s_state_revision r)"
    if "e \<in> set (snd st')" for e
  proof (cases "e = d")
    case True
    then show ?thesis using new d pos bump(2) by simp
  next
    case False
    then have "e \<in> set (snd st)"
      using that unfolding 2(3) [folded d_def] by simp
    then show ?thesis
      using assms(2) old unfolding registry_ok_def by blast
  qed
  with keys positive have "registry_ok st'"
    unfolding registry_ok_def by blast
  moreover have "grows u sid (snd st) (snd st')"
    unfolding 2(3) [folded d_def] by (rule grows_append [OF below]) (use d pos in simp_all)
  ultimately show ?thesis by simp
qed (simp add: assms(2))

lemma registry_step_ok:
  assumes "registry_step st st'" "registry_ok st"
  shows "registry_ok st' \<and> grows u sid (snd st) (snd st')"
  using assms
proof cases
  case (installed digest w user agent claims r)
  then show ?thesis using install_step assms(2) by blast
next
  case (moved db db' ds)
  have "rows_kept db db'" "sessions_ok db'" "revisions_positive db'"
    using moved assms(2) rows.step_kept keys.step_kept revisions.step_kept
    by (auto simp: registry_ok_def)
  moreover have "\<exists>s'. find_session db' v i = Some s' \<and> n \<le> s_state_revision s'"
    if "find_session db v i = Some s" "n \<le> s_state_revision s" for v i s n
    using calculation(1) that unfolding rows_kept_def advances_def by fastforce
  ultimately show ?thesis
    using assms(2) unfolding moved(1,2) registry_ok_def fst_conv snd_conv by blast
qed

lemma registry_run:
  assumes "registry_step\<^sup>*\<^sup>* st st'" "registry_ok st"
  shows "registry_ok st' \<and> grows u sid (snd st) (snd st')"
  using assms
proof (induction rule: rtranclp_induct)
  case (step a b)
  then show ?case
    using registry_step_ok [of a b u sid] grows_trans by blast
qed simp

subsection \<open>Properties\<close>

text \<open>The registry revision detects every change: when the revision of a session's registry at admission
  is still the one that was captured, no declaration of that session was added, changed or removed
  in between, whatever controllers and session writers did.\<close>

theorem registry_revision_detects_change:
  assumes "registry_step\<^sup>*\<^sup>* st st'" "registry_ok st"
    and "registry_revision (snd st') user sid = registry_revision (snd st) user sid"
  shows "filter (in_scope user sid) (snd st') = filter (in_scope user sid) (snd st)"
  using registry_run [OF assms(1,2), of user sid] assms(3) by (simp add: grows_def)

definition sample_hybrid_db :: database where
  "sample_hybrid_db = \<lparr>db_sessions =
     [(new_session ''u'' ''s'' ''build'' 0)\<lparr>s_agent := Some ''a'',
        s_policy := Some [(''evaluation_policy_version'', VStr ''hybrid_v1'')]\<rparr>],
     db_reservations = [], db_tasks = []\<rparr>"

definition sample_step :: "string \<Rightarrow> workflow_step" where
  "sample_step logical =
     \<lparr>ws_session = ''s'', ws_task = ''t'', ws_workflow = ''w'', ws_step_name = ''deploy'', ws_step_run = ''r'',
      ws_logical = logical, ws_workflow_digest = ''d1'', ws_step_digest = ''d2'', ws_rendered_digest = ''d3'',
      ws_tool = ''bash'', ws_args_digest = ''d4'', ws_executor = ''x'', ws_owner_configured = True, ws_exact = True\<rparr>"

definition sample_install :: "string \<Rightarrow> database \<times> step_declaration list \<Rightarrow> workflow_error + (string \<times> int) \<times> database \<times> step_declaration list" where
  "sample_install logical = install (\<lambda>_. ''h'') (sample_step logical) ''u'' ''a'' (''e'', ''g'')"

definition sample_registry :: "database \<times> step_declaration list" where
  "sample_registry = (case sample_install ''l1'' (sample_hybrid_db, []) of Inr (_, st) \<Rightarrow> st | Inl _ \<Rightarrow> (sample_hybrid_db, []))"

theorem registry_revision_detects_change_witness:
  "filter (in_scope ''u'' ''s'') (snd sample_registry) = filter (in_scope ''u'' ''s'') (snd sample_registry)"
proof (rule registry_revision_detects_change)
  have "sample_install ''l1'' sample_registry = Inr ((''h'', 2), sample_registry)"
    by code_simp
  then show "registry_step\<^sup>*\<^sup>* sample_registry sample_registry"
    unfolding sample_install_def by (intro r_into_rtranclp registry_step.installed)
  have "sample_install ''l1'' (sample_hybrid_db, []) = Inr ((''h'', 2), sample_registry)"
    by code_simp
  then show "registry_ok sample_registry"
    unfolding sample_install_def
    by (rule conjunct1 [OF install_step])
      (simp add: registry_ok_def sessions_ok_def revisions_positive_def sample_hybrid_db_def new_session_def)
qed simp

end
