(* ===== verification/Outcome_Finalization.thy ===== *)
theory Outcome_Finalization
  imports Decisions Hybrid_Policy
begin

text \<open>
  \<^verbatim>\<open>finalize_result\<close> of \<^verbatim>\<open>intaris/hybrid_runtime.py\<close> and
  \<^verbatim>\<open>enforce\<close> of \<^verbatim>\<open>intaris/read_only.py\<close>: how session bounds, request floors,
  human decisions, the Judge's configuration and the read-only ceiling turn a policy result into the
  decision of a call.  The decision and its override are threaded through the steps in source order.
\<close>

subsection \<open>The read-only ceiling\<close>

definition read_only_required :: "pydict option \<Rightarrow> bool" where
  "read_only_required overlay \<longleftrightarrow> truthy (oget overlay ''read_only_required'')"

definition enforce :: "outcome \<Rightarrow> pydict option \<Rightarrow> string \<Rightarrow> outcome \<times> string option" where
  "enforce d overlay mutation =
     (if \<not> read_only_required overlay then (d, None)
      else if mutation = ''mutating'' then (Deny, Some ''request.read_only_required'')
      else if mutation \<noteq> ''read_only'' then (Deny, Some ''request.read_only_unproven'')
      else (d, None))"

subsection \<open>The decision\<close>

type_synonym bounded = "outcome \<times> string option"

datatype finalize_error = AssessmentRequired | InvalidResolution

record finalization =
  fr_raw :: verdict
  fr_decision :: outcome
  fr_override :: "string option"
  fr_outstanding :: "obligation list"
  fr_discharged :: "string list"
  fr_waived :: "string list"
  fr_blocking :: "string list"
  fr_disposition :: string

record bounds =
  bd_maximum :: "outcome option"
  bd_minimum :: "outcome option"
  bd_human_approved :: bool
  bd_judge_allowed :: "string list option"
  bd_judge_uncertain :: string
  bd_overlay :: "pydict option"
  bd_mutation :: string
  bd_human_resolution :: "string option"

fun raw_outcome :: "verdict \<Rightarrow> outcome option" where
  "raw_outcome Denied = Some Deny"
| "raw_outcome Escalated = Some Escalate"
| "raw_outcome Approved = Some Approve"
| "raw_outcome AssessmentNeeded = None"

definition cap_stage :: "outcome option \<Rightarrow> outcome \<Rightarrow> bounded" where
  "cap_stage maximum raw =
     (let d = cap_outcome raw maximum in
      if d = Approve \<and> d \<noteq> raw then (d, Some ''waived_by_operator_bound'')
      else (d, if d \<noteq> raw then Some ''session_policy.maximum_outcome'' else None))"

definition mandatory_stage :: "policy_result \<Rightarrow> bool \<Rightarrow> bounded \<Rightarrow> bounded" where
  "mandatory_stage res human b =
     (if pr_mandatory_rule_ids res \<noteq> [] \<and> \<not> human
      then (clamp_outcome (fst b) (Some Escalate), Some ''policy.require_approval'') else b)"

definition invalid_stage :: "policy_result \<Rightarrow> bool \<Rightarrow> bounded \<Rightarrow> bounded" where
  "invalid_stage res human b =
     (if \<not> human \<and> (\<exists>item \<in> set (pr_obligations res). ob_id item = ''assessment.invalid_response'')
      then (clamp_outcome (fst b) (Some Escalate), Some ''assessment.invalid_response'') else b)"

definition human_stage :: "outcome \<Rightarrow> bool \<Rightarrow> bounded \<Rightarrow> bounded" where
  "human_stage raw human b =
     (if human \<and> raw \<noteq> Deny then (Approve, Some ''human_approval'') else b)"

text \<open>A recorded resolution replaces the decision, and tells whether a human approved.\<close>

definition resolution_stage :: "string option \<Rightarrow> bool \<Rightarrow> bounded \<Rightarrow> finalize_error + (bool \<times> bounded)" where
  "resolution_stage resolution human b =
     (case resolution of
        None \<Rightarrow> Inr (human, b)
      | Some r \<Rightarrow>
          if r = ''approve'' then Inr (True, (Approve, Some ''human_resolution''))
          else if r = ''deny'' then Inr (False, (Deny, Some ''human_resolution''))
          else Inl InvalidResolution)"

definition minimum_stage :: "outcome option \<Rightarrow> bool \<Rightarrow> bounded \<Rightarrow> bounded" where
  "minimum_stage minimum human b =
     (if minimum = Some Deny then (Deny, Some ''request.minimum_outcome'')
      else if minimum = Some Escalate \<and> \<not> human \<and> clamp_outcome (fst b) (Some Escalate) \<noteq> fst b
      then (clamp_outcome (fst b) (Some Escalate), Some ''request.minimum_outcome'') else b)"

fun judge_word :: "outcome \<Rightarrow> string" where
  "judge_word Deny = ''deny''"
| "judge_word Escalate = ''defer''"
| "judge_word Approve = ''approve''"

definition judge_stage :: "string list option \<Rightarrow> string \<Rightarrow> outcome option \<Rightarrow> bounded \<Rightarrow> bounded" where
  "judge_stage allowed uncertain maximum b =
     (case allowed of
        None \<Rightarrow> b
      | Some words \<Rightarrow>
          if judge_word (fst b) \<notin> set words then
            (let replacement = (if uncertain \<in> set words then uncertain else ''deny'') in
             (cap_outcome (if replacement = ''deny'' then Deny else Escalate) maximum,
              Some ''session_policy.judge''))
          else b)"

definition floor_stage :: "outcome option \<Rightarrow> bounded \<Rightarrow> bounded" where
  "floor_stage minimum b =
     (if minimum = Some Deny then (Deny, Some ''request.minimum_outcome'') else b)"

definition overlay_stage :: "pydict option \<Rightarrow> string \<Rightarrow> bounded \<Rightarrow> bounded \<times> string option" where
  "overlay_stage overlay mutation b =
     (let (d, ceil) = enforce (fst b) overlay mutation in
      ((d, if ceil \<noteq> None then ceil else snd b), ceil))"

definition workflow_stage :: "policy_result \<Rightarrow> outcome \<Rightarrow> bounded \<Rightarrow> bounded" where
  "workflow_stage res raw b =
     (if truthy (oget (pr_workflow_scope res) ''declared'') \<and> raw = Deny
      then (Deny, Some ''workflow_step.deny'') else b)"

subsection \<open>Obligations and blocking reasons\<close>

definition discharged_by_human :: "policy_result \<Rightarrow> obligation \<Rightarrow> bool" where
  "discharged_by_human res item \<longleftrightarrow>
     \<not> starts_with (ob_id item) ''workflow_step.''
     \<and> (\<not> ob_protected item \<or> ob_requirement item = NeedsHuman
        \<or> ob_id item \<in> (\<lambda>i. ''rule:'' @ i) ` set (pr_mandatory_rule_ids res))"

definition human_obligation :: "string \<Rightarrow> string \<Rightarrow> obligation" where
  "human_obligation identifier basis =
     \<lparr>ob_id = identifier, ob_basis = basis, ob_fields = [], ob_evidence = [],
      ob_requirement = NeedsHuman, ob_protected = True\<rparr>"

definition human_discharges ::
    "policy_result \<Rightarrow> outcome \<Rightarrow> bool \<Rightarrow> string option \<Rightarrow> string list \<times> obligation list" where
  "human_discharges res raw human resolution =
     (if human \<and> (raw \<noteq> Deny \<or> resolution = Some ''approve'') then
        (let gone = map ob_id (filter (discharged_by_human res) (pr_obligations res))
         in (gone, filter (\<lambda>item. ob_id item \<notin> set gone) (pr_obligations res)))
      else ([], pr_obligations res))"

definition minimum_obligation ::
    "outcome option \<Rightarrow> bool \<Rightarrow> string list \<times> obligation list \<Rightarrow> string list \<times> obligation list" where
  "minimum_obligation minimum human ls =
     (if minimum = Some Escalate then
        (if human then (fst ls @ [''request.minimum_outcome''], snd ls)
         else if \<not> (\<exists>item \<in> set (snd ls). ob_id item = ''request.minimum_outcome'')
         then (fst ls, snd ls @ [human_obligation ''request.minimum_outcome'' ''request.minimum_outcome''])
         else ls)
      else ls)"

definition mandatory_obligation :: "bool \<Rightarrow> string \<Rightarrow> obligation list \<Rightarrow> obligation list" where
  "mandatory_obligation human identifier outstanding =
     (if \<not> human
         \<and> \<not> (\<exists>item \<in> set outstanding. ob_id item \<in> {identifier, ''rule:'' @ identifier})
      then outstanding @ [human_obligation (''rule:'' @ identifier) identifier] else outstanding)"

definition read_only_obligation :: obligation where
  "read_only_obligation =
     \<lparr>ob_id = ''mode.read_only'', ob_basis = ''request.read_only_required'',
      ob_fields = [''mutation''], ob_evidence = [], ob_requirement = NeedsAssessment,
      ob_protected = True\<rparr>"

definition ceiling_lists ::
    "string option \<Rightarrow> string list \<times> obligation list \<Rightarrow> string list \<times> obligation list" where
  "ceiling_lists ceil ls =
     (if ceil = Some ''request.read_only_required''
      then (fst ls @ [''request.read_only_required''], snd ls)
      else if ceil = Some ''request.read_only_unproven''
           \<and> \<not> (\<exists>item \<in> set (snd ls). ob_id item = ''mode.read_only'')
      then (fst ls, snd ls @ [read_only_obligation]) else ls)"

definition protected_stage :: "string list \<Rightarrow> obligation list \<Rightarrow> bounded \<Rightarrow> bounded" where
  "protected_stage blocking outstanding b =
     (let b1 = (if ''request.read_only_required'' \<in> set blocking
                then (Deny, Some ''request.read_only_required'') else b)
      in if \<exists>item \<in> set outstanding. ob_id item = ''mode.read_only''
         then (clamp_outcome (fst b1) (Some Escalate), Some ''request.read_only_unproven'') else b1)"

definition disposition :: "bounded \<Rightarrow> bool \<Rightarrow> obligation list \<Rightarrow> string list \<times> string" where
  "disposition b human outstanding =
     (if fst b = Approve \<and> snd b = Some ''waived_by_operator_bound''
      then (map ob_id (filter (\<lambda>item. \<not> ob_protected item) outstanding), ''waived_by_operator_bound'')
      else if fst b = Approve \<and> outstanding = []
      then ([], if human then ''satisfied_by_human'' else ''satisfied'')
      else if fst b = Approve then ([], if human then ''satisfied_by_human'' else ''outstanding'')
      else ([], if fst b = Deny then ''blocked'' else ''outstanding''))"

definition limited :: "bounds \<Rightarrow> bool \<Rightarrow> bounded \<Rightarrow> bounded" where
  "limited bd human b =
     floor_stage (bd_minimum bd)
       (judge_stage (bd_judge_allowed bd) (bd_judge_uncertain bd) (bd_maximum bd)
         (minimum_stage (bd_minimum bd) human b))"

definition settled_lists ::
    "policy_result \<Rightarrow> bounds \<Rightarrow> outcome \<Rightarrow> bool \<Rightarrow> string option
      \<Rightarrow> string list \<times> string list \<times> obligation list" where
  "settled_lists res bd raw human ceil =
     (let (discharged, outstanding) = minimum_obligation (bd_minimum bd) human
             (human_discharges res raw human (bd_human_resolution bd));
          blocking = (if bd_minimum bd = Some Deny
             then pr_blocking_reasons res @ [''request.minimum_outcome''] else pr_blocking_reasons res)
      in (discharged, ceiling_lists ceil
           (blocking, fold (mandatory_obligation human) (pr_mandatory_rule_ids res) outstanding)))"

definition settle :: "policy_result \<Rightarrow> bounds \<Rightarrow> outcome \<Rightarrow> bool \<Rightarrow> bounded \<Rightarrow> finalization" where
  "settle res bd raw human b =
     (let (b2, ceil) = overlay_stage (bd_overlay bd) (bd_mutation bd) (limited bd human b);
          (discharged, blocking, outstanding) = settled_lists res bd raw human ceil;
          b4 = protected_stage blocking outstanding (workflow_stage res raw b2);
          (waived, word) = disposition b4 human outstanding
      in \<lparr>fr_raw = pr_outcome res, fr_decision = fst b4, fr_override = snd b4,
          fr_outstanding = outstanding, fr_discharged = dedup discharged, fr_waived = waived,
          fr_blocking = dedup blocking, fr_disposition = word\<rparr>)"

definition finalize_result :: "policy_result \<Rightarrow> bounds \<Rightarrow> finalize_error + finalization" where
  "finalize_result res bd =
     (case raw_outcome (pr_outcome res) of
        None \<Rightarrow> Inl AssessmentRequired
      | Some raw \<Rightarrow>
          (let human = bd_human_approved bd;
               b = human_stage raw human (invalid_stage res human (mandatory_stage res human
                     (cap_stage (bd_maximum bd) raw)))
           in bindE (resolution_stage (bd_human_resolution bd) human b)
                (\<lambda>(human', b'). Inr (settle res bd raw human' b'))))"

subsection \<open>What the later stages cannot undo\<close>

lemma enforce_cases:
  "enforce d overlay m =
     (if \<not> read_only_required overlay \<or> m = ''read_only'' then (d, None)
      else (Deny, Some (if m = ''mutating'' then ''request.read_only_required'' else ''request.read_only_unproven'')))"
  by (simp add: enforce_def)

lemma outcome_min_escalate: "clamp_outcome d (Some Escalate) \<noteq> Approve"
  by (cases d) (simp_all add: min_def)

lemma protected_stage_deny: "fst b = Deny \<Longrightarrow> fst (protected_stage blocking outstanding b) = Deny"
  by (simp add: protected_stage_def Let_def min_def)

lemma protected_stage_not_approve:
  "fst b \<noteq> Approve \<Longrightarrow> fst (protected_stage blocking outstanding b) \<noteq> Approve"
  by (cases "fst b") (simp_all add: protected_stage_def Let_def min_def)

lemma workflow_stage_deny: "fst b = Deny \<Longrightarrow> fst (workflow_stage res raw b) = Deny"
  by (simp add: workflow_stage_def)

lemma workflow_stage_not_approve: "fst b \<noteq> Approve \<Longrightarrow> fst (workflow_stage res raw b) \<noteq> Approve"
  by (simp add: workflow_stage_def)

lemma settle_parts:
  fixes res bd raw human b
  defines "b2 \<equiv> overlay_stage (bd_overlay bd) (bd_mutation bd) (limited bd human b)"
  defines "ls \<equiv> settled_lists res bd raw human (snd b2)"
  defines "b4 \<equiv> protected_stage (fst (snd ls)) (snd (snd ls)) (workflow_stage res raw (fst b2))"
  shows "fr_decision (settle res bd raw human b) = fst b4"
    and "fr_override (settle res bd raw human b) = snd b4"
    and "fr_outstanding (settle res bd raw human b) = snd (snd ls)"
    and "set (fr_blocking (settle res bd raw human b)) = set (fst (snd ls))"
    and "fr_disposition (settle res bd raw human b) = snd (disposition b4 human (snd (snd ls)))"
    and "fr_waived (settle res bd raw human b) = fst (disposition b4 human (snd (snd ls)))"
  unfolding b4_def ls_def b2_def settle_def by (simp_all add: split_beta Let_def)

lemma overlay_stage_cases:
  "overlay_stage overlay m b =
     (if \<not> read_only_required overlay \<or> m = ''read_only'' then (b, None)
      else let why = Some (if m = ''mutating'' then ''request.read_only_required'' else ''request.read_only_unproven'')
           in ((Deny, why), why))"
  by (simp add: overlay_stage_def enforce_cases Let_def)

lemma limited_floor: "bd_minimum bd = Some Deny \<Longrightarrow> limited bd human b = (Deny, Some ''request.minimum_outcome'')"
  by (simp add: limited_def floor_stage_def)

lemma settle_deny:
  assumes "bd_minimum bd = Some Deny
     \<or> (read_only_required (bd_overlay bd) \<and> bd_mutation bd \<noteq> ''read_only'')"
  shows "fr_decision (settle res bd raw human b) = Deny"
  unfolding settle_parts
  by (intro protected_stage_deny workflow_stage_deny)
    (use assms in \<open>auto simp: overlay_stage_cases limited_floor Let_def\<close>)

text \<open>The Judge's fallback is the one step after the checkpoint that can loosen a decision.\<close>

definition fallback_stays_closed :: "bounds \<Rightarrow> bool" where
  "fallback_stays_closed bd \<longleftrightarrow> bd_judge_allowed bd = None \<or> bd_maximum bd \<noteq> Some Approve"

lemma limited_not_approve:
  assumes "fst b \<noteq> Approve" "fallback_stays_closed bd"
  shows "fst (limited bd human b) \<noteq> Approve"
proof -
  have cap: "cap_outcome d (bd_maximum bd) \<noteq> Approve" if "d \<noteq> Approve" "bd_maximum bd \<noteq> Some Approve" for d
    using that by (cases "bd_maximum bd"; cases d) (auto simp: max_def)
  have "fst (minimum_stage (bd_minimum bd) human b) \<noteq> Approve"
    using assms(1) outcome_min_escalate by (simp add: minimum_stage_def)
  then have "fst (judge_stage (bd_judge_allowed bd) (bd_judge_uncertain bd) (bd_maximum bd)
      (minimum_stage (bd_minimum bd) human b)) \<noteq> Approve"
    using assms(2) cap
    by (auto simp: judge_stage_def fallback_stays_closed_def Let_def split: option.split)
  then show ?thesis
    by (simp add: limited_def floor_stage_def)
qed

lemma settle_not_approve:
  assumes "fst b \<noteq> Approve" "fallback_stays_closed bd"
  shows "fr_decision (settle res bd raw human b) \<noteq> Approve"
  unfolding settle_parts
  by (intro protected_stage_not_approve workflow_stage_not_approve)
    (use limited_not_approve [OF assms] in \<open>simp add: overlay_stage_cases Let_def\<close>)

lemma finalize_cases:
  assumes "finalize_result res bd = Inr f"
  obtains raw human b where "raw_outcome (pr_outcome res) = Some raw"
    "f = settle res bd raw human b"
    "bd_human_resolution bd = None \<Longrightarrow> human = bd_human_approved bd
       \<and> b = human_stage raw human (invalid_stage res human (mandatory_stage res human
               (cap_stage (bd_maximum bd) raw)))"
    "bd_human_resolution bd \<noteq> None \<Longrightarrow> b = (if human then Approve else Deny, Some ''human_resolution'')
       \<and> (human \<longleftrightarrow> bd_human_resolution bd = Some ''approve'')"
  using assms
  by (auto simp: finalize_result_def resolution_stage_def Let_def bindE_eq_Inr
      split: option.splits if_splits)

lemma blocking_reasons_settled:
  "bd_minimum bd = Some Deny \<Longrightarrow> ''request.minimum_outcome'' \<in> set (fst (snd (settled_lists res bd raw human c)))"
  "c = Some ''request.read_only_required'' \<Longrightarrow>
     ''request.read_only_required'' \<in> set (fst (snd (settled_lists res bd raw human c)))"
  by (auto simp: settled_lists_def ceiling_lists_def split_beta Let_def)

text \<open>Whether a human approved, in the end: a recorded resolution is the last word.\<close>

definition human_approves :: "bounds \<Rightarrow> bool" where
  "human_approves bd \<longleftrightarrow>
     (case bd_human_resolution bd of None \<Rightarrow> bd_human_approved bd | Some r \<Rightarrow> r = ''approve'')"

lemma finalize_settles:
  assumes "finalize_result res bd = Inr f"
  obtains raw b where "f = settle res bd raw (human_approves bd) b"
  using assms
  by (auto simp: finalize_result_def resolution_stage_def human_approves_def Let_def bindE_eq_Inr
      split: option.splits if_splits)

lemma settle_human_floor:
  assumes "bd_minimum bd = Some Escalate" "fallback_stays_closed bd"
  shows "fr_decision (settle res bd raw False b) \<noteq> Approve"
proof -
  let ?b1 = "minimum_stage (bd_minimum bd) False b"
  have "fst ?b1 \<noteq> Approve"
    using assms(1) outcome_min_escalate [of "fst b"] by (auto simp: minimum_stage_def)
  moreover have "limited bd False ?b1 = limited bd False b"
    using assms(1) by (simp add: limited_def minimum_stage_def min_def)
  ultimately have "fst (limited bd False b) \<noteq> Approve"
    using limited_not_approve [of ?b1 bd False] assms(2) by simp
  then show ?thesis
    unfolding settle_parts
    by (intro protected_stage_not_approve workflow_stage_not_approve) (simp add: overlay_stage_cases Let_def)
qed

lemma mandatory_obligations_kept:
  "set outstanding \<subseteq> set (fold (mandatory_obligation human) ids outstanding)"
proof (induction ids arbitrary: outstanding)
  case (Cons i ids)
  have "set outstanding \<subseteq> set (mandatory_obligation human i outstanding)" by (auto simp: mandatory_obligation_def)
  with Cons [of "mandatory_obligation human i outstanding"] show ?case by (simp add: subset_trans)
qed simp

lemma ceiling_lists_kept: "set (snd ls) \<subseteq> set (snd (ceiling_lists c ls))"
  by (auto simp: ceiling_lists_def)

text \<open>What is named as outstanding.\<close>

lemma floor_obligation_settled:
  assumes "bd_minimum bd = Some Escalate"
  shows "\<exists>item \<in> set (snd (snd (settled_lists res bd raw False c))). ob_id item = ''request.minimum_outcome''"
proof -
  let ?ls = "minimum_obligation (bd_minimum bd) False (human_discharges res raw False (bd_human_resolution bd))"
  have "\<exists>item \<in> set (snd ?ls). ob_id item = ''request.minimum_outcome''"
    using assms by (auto simp: minimum_obligation_def human_obligation_def)
  then have "\<exists>item \<in> set (fold (mandatory_obligation False) (pr_mandatory_rule_ids res) (snd ?ls)).
      ob_id item = ''request.minimum_outcome''"
    using mandatory_obligations_kept by blast
  then show ?thesis
    using ceiling_lists_kept unfolding settled_lists_def split_beta Let_def by fastforce
qed

lemma ceiling_obligation_settled:
  "\<exists>item \<in> set (snd (snd (settled_lists res bd raw human (Some ''request.read_only_unproven'')))).
     ob_id item = ''mode.read_only''"
  by (auto simp: settled_lists_def split_beta Let_def ceiling_lists_def read_only_obligation_def)

subsection \<open>Properties\<close>

text \<open>C38. Floors and ceilings bind, and are named.  Under a denial floor, or under a read-only ceiling without
  a proven read, the decision is a denial and reported as blocked whoever approved the call; a denial
  floor and a known mutation are named as blocking reasons, an unproven one as an outstanding obligation.
  Under an escalate floor that no human met, the floor is named as an outstanding obligation, and the
  call is not approved, unless the Judge's fallback meets an operator's cap at approval.\<close>

theorem floor_and_ceiling_bind:
  assumes "finalize_result res bd = Inr f"
  shows "(bd_minimum bd = Some Deny \<or> (read_only_required (bd_overlay bd) \<and> bd_mutation bd \<noteq> ''read_only'')
          \<longrightarrow> fr_decision f = Deny \<and> fr_disposition f = ''blocked'')
     \<and> (bd_minimum bd = Some Deny \<longrightarrow> ''request.minimum_outcome'' \<in> set (fr_blocking f))
     \<and> (read_only_required (bd_overlay bd) \<and> bd_mutation bd = ''mutating'' \<longrightarrow>
          ''request.read_only_required'' \<in> set (fr_blocking f))
     \<and> (read_only_required (bd_overlay bd) \<and> bd_mutation bd \<notin> {''mutating'', ''read_only''} \<longrightarrow>
          (\<exists>item \<in> set (fr_outstanding f). ob_id item = ''mode.read_only''))
     \<and> (bd_minimum bd = Some Escalate \<and> \<not> human_approves bd \<longrightarrow>
          (\<exists>item \<in> set (fr_outstanding f). ob_id item = ''request.minimum_outcome'')
          \<and> (bd_judge_allowed bd = None \<or> bd_maximum bd \<noteq> Some Approve \<longrightarrow> fr_decision f \<noteq> Approve))"
proof -
  obtain raw b where f: "f = settle res bd raw (human_approves bd) b"
    using finalize_settles [OF assms] by metis
  have deny: "fr_decision f = Deny"
    if "bd_minimum bd = Some Deny \<or> (read_only_required (bd_overlay bd) \<and> bd_mutation bd \<noteq> ''read_only'')"
    using settle_deny [OF that] by (simp add: f)
  have blocked: "fr_disposition f = ''blocked''" if "fr_decision f = Deny"
    using that unfolding f settle_parts disposition_def by (simp split: if_split)
  have floor: "''request.minimum_outcome'' \<in> set (fr_blocking f)" if "bd_minimum bd = Some Deny"
    unfolding f settle_parts using that by (rule blocking_reasons_settled)
  have mutating: "''request.read_only_required'' \<in> set (fr_blocking f)"
    if "read_only_required (bd_overlay bd) \<and> bd_mutation bd = ''mutating''"
    unfolding f settle_parts by (rule blocking_reasons_settled) (simp add: overlay_stage_cases that Let_def)
  have unproven: "\<exists>item \<in> set (fr_outstanding f). ob_id item = ''mode.read_only''"
    if "read_only_required (bd_overlay bd) \<and> bd_mutation bd \<notin> {''mutating'', ''read_only''}"
    using ceiling_obligation_settled that unfolding f settle_parts by (simp add: overlay_stage_cases Let_def)
  have asked: "\<exists>item \<in> set (fr_outstanding f). ob_id item = ''request.minimum_outcome''"
    if "bd_minimum bd = Some Escalate" "\<not> human_approves bd"
    using floor_obligation_settled [OF that(1)] that(2) unfolding f settle_parts by simp
  have "fr_decision f \<noteq> Approve"
    if "bd_minimum bd = Some Escalate" "\<not> human_approves bd" "bd_judge_allowed bd = None \<or> bd_maximum bd \<noteq> Some Approve"
    using settle_human_floor [OF that(1)] that(2,3) by (simp add: f fallback_stays_closed_def)
  with deny blocked floor mutating unproven asked show ?thesis by blast
qed

definition sample_result :: "verdict \<Rightarrow> string list \<Rightarrow> policy_result" where
  "sample_result v mandatory =
     \<lparr>pr_workflow_scope = None, pr_blocking_reasons = [], pr_outcome = v, pr_matched_rules = mandatory,
      pr_mandatory_rule_ids = mandatory, pr_unresolved_rules = [], pr_obligations = [],
      pr_constraint_matches = [], pr_permission_basis = None, pr_quality = Unresolved,
      pr_grounding = [], pr_ignored = []\<rparr>"

definition sample_bounds :: bounds where
  "sample_bounds =
     \<lparr>bd_maximum = None, bd_minimum = None, bd_human_approved = False, bd_judge_allowed = None,
      bd_judge_uncertain = ''deny'', bd_overlay = None, bd_mutation = ''unclear'',
      bd_human_resolution = None\<rparr>"

theorem floor_and_ceiling_bind_witness:
  "fr_decision (settle (sample_result Approved []) (sample_bounds\<lparr>bd_minimum := Some Deny,
      bd_human_resolution := Some ''approve''\<rparr>) Approve True (Approve, Some ''human_resolution'')) = Deny
   \<and> fr_decision (settle (sample_result Approved []) (sample_bounds\<lparr>bd_minimum := Some Escalate\<rparr>) Approve False
       (Approve, None)) \<noteq> Approve"
  using floor_and_ceiling_bind [of "sample_result Approved []"
      "sample_bounds\<lparr>bd_minimum := Some Deny, bd_human_resolution := Some ''approve''\<rparr>"
      "settle (sample_result Approved []) (sample_bounds\<lparr>bd_minimum := Some Deny,
         bd_human_resolution := Some ''approve''\<rparr>) Approve True (Approve, Some ''human_resolution'')"]
    floor_and_ceiling_bind [of "sample_result Approved []" "sample_bounds\<lparr>bd_minimum := Some Escalate\<rparr>"
      "settle (sample_result Approved []) (sample_bounds\<lparr>bd_minimum := Some Escalate\<rparr>) Approve False (Approve, None)"]
  by (simp add: finalize_result_def sample_result_def sample_bounds_def resolution_stage_def human_approves_def
      cap_stage_def mandatory_stage_def invalid_stage_def human_stage_def Let_def)

text \<open>C39. Finalization invents no grant.  When no human approved, and unless a Judge's configuration meets an
  operator's cap at approval (its fallback is then an approval, see \<open>judge_fallback_grants\<close>), an approved call
  has no required human approval and no invalid assessment open; and unless the operator capped every
  outcome at approval, the policy evaluation itself approved it.\<close>

theorem no_invented_grant:
  assumes "finalize_result res bd = Inr f" "fr_decision f = Approve"
    and "\<not> bd_human_approved bd" "bd_human_resolution bd \<noteq> Some ''approve''"
    and "bd_judge_allowed bd = None \<or> bd_maximum bd \<noteq> Some Approve"
  shows "pr_mandatory_rule_ids res = []
     \<and> (\<forall>item \<in> set (pr_obligations res). ob_id item \<noteq> ''assessment.invalid_response'')
     \<and> (bd_maximum bd \<noteq> Some Approve \<longrightarrow> pr_outcome res = Approved)"
proof -
  have closed: "fallback_stays_closed bd"
    using assms(5) by (simp add: fallback_stays_closed_def)
  show ?thesis
    using assms(1)
  proof (rule finalize_cases)
    fix raw human b
    assume raw: "raw_outcome (pr_outcome res) = Some raw" and f: "f = settle res bd raw human b"
      and no: "bd_human_resolution bd = None \<Longrightarrow> human = bd_human_approved bd
         \<and> b = human_stage raw human (invalid_stage res human (mandatory_stage res human
                 (cap_stage (bd_maximum bd) raw)))"
      and yes: "bd_human_resolution bd \<noteq> None \<Longrightarrow> b = (if human then Approve else Deny, Some ''human_resolution'')
         \<and> (human \<longleftrightarrow> bd_human_resolution bd = Some ''approve'')"
    have b: "fst b = Approve"
      using settle_not_approve [OF _ closed] assms(2) f by blast
    then have "bd_human_resolution bd = None"
      using yes assms(4) by (cases "bd_human_resolution bd") auto
    with no assms(3) have stages: "b = invalid_stage res False (mandatory_stage res False
        (cap_stage (bd_maximum bd) raw))"
      by (simp add: human_stage_def)
    then have "pr_mandatory_rule_ids res = []"
      "\<forall>item \<in> set (pr_obligations res). ob_id item \<noteq> ''assessment.invalid_response''"
      and cap: "fst (cap_stage (bd_maximum bd) raw) = Approve"
      using b outcome_min_escalate by (auto simp: invalid_stage_def mandatory_stage_def split: if_splits)
    moreover have "pr_outcome res = Approved" if "bd_maximum bd \<noteq> Some Approve"
    proof -
      have "raw = Approve"
        using cap that
        by (cases "bd_maximum bd"; cases raw) (auto simp: cap_stage_def cap_outcome_def Let_def split: if_splits)
      with raw show ?thesis by (cases "pr_outcome res") simp_all
    qed
    ultimately show ?thesis by blast
  qed
qed

theorem no_invented_grant_witness:
  "pr_mandatory_rule_ids (sample_result Approved []) = []"
  by (rule conjunct1 [OF no_invented_grant [of _ "sample_bounds"
        "settle (sample_result Approved []) sample_bounds Approve False (Approve, None)"]]) code_simp+

text \<open>
  Where the premise about the Judge's configuration fails, an unmet checkpoint is approved: the
  fallback of a decision the Judge may not give is capped by the session's maximum once more.
\<close>

lemma judge_fallback_grants:
  "fr_decision (settle (sample_result Escalated [''checkpoint''])
     (sample_bounds\<lparr>bd_maximum := Some Approve, bd_judge_allowed := Some [''approve'', ''deny'']\<rparr>)
     Escalate False (Escalate, Some ''policy.require_approval'')) = Approve"
  "finalize_result (sample_result Escalated [''checkpoint''])
     (sample_bounds\<lparr>bd_maximum := Some Approve, bd_judge_allowed := Some [''approve'', ''deny'']\<rparr>) =
   Inr (settle (sample_result Escalated [''checkpoint''])
     (sample_bounds\<lparr>bd_maximum := Some Approve, bd_judge_allowed := Some [''approve'', ''deny'']\<rparr>)
     Escalate False (Escalate, Some ''policy.require_approval''))"
  by code_simp+

end
