(* ===== verification/Audit_Log.thy ===== *)
theory Audit_Log
  imports Workflow_Scope Outcome_Finalization
begin

text \<open>
  The audit log of \<^verbatim>\<open>intaris/audit.py\<close>: its rows, its lookups and the writes that annotate
  a call.  A stored JSON text is the dictionary it encodes; the compare-and-set on
  \<^verbatim>\<open>evaluation_metadata\<close> compares these.  Dictionaries keep their order, so equal values are
  equal texts.
\<close>

subsection \<open>Rows\<close>

record audit =
  a_id :: string
  a_call :: string
  a_type :: string
  a_user :: string
  a_session :: string
  a_agent :: "string option"
  a_timestamp :: int
  a_tool :: "string option"
  a_args :: "pydict option"
  a_content :: "string option"
  a_classification :: "string option"
  a_path :: string
  a_decision :: string
  a_risk :: "string option"
  a_reasoning :: "string option"
  a_latency :: int
  a_user_decision :: "string option"
  a_user_note :: "string option"
  a_resolved_at :: "int option"
  a_resolved_by :: "string option"
  a_scope :: "string option"
  a_judge_reasoning :: "string option"
  a_judge_decision :: "string option"
  a_judge_risk :: "string option"
  a_args_hash :: "string option"
  a_profile_version :: "int option"
  a_intention :: "string option"
  a_injection :: bool
  a_raw :: string
  a_effective :: string
  a_maximum :: "string option"
  a_minimum :: "string option"
  a_override :: "string option"
  a_meta :: "pydict option"
  a_logical :: pyval
  a_digest :: pyval

record audit_state =
  au_db :: database
  au_decls :: "step_declaration list"
  au_log :: "audit list"

text \<open>\<open>HybridError\<close> codes, the messages of \<open>ValueError\<close>, and keys that a \<open>KeyError\<close> misses.\<close>

datatype audit_error =
    AuditConflict string
  | AuditInvalid string
  | AuditMissing string
  | AuditChain policy_error

type_synonym 'a audited = "audit_error + 'a"

record audit_env =
  ae_digest :: "pyval \<Rightarrow> string"
  ae_result :: "pyval \<Rightarrow> policy_result option"

definition meta_of :: "audit \<Rightarrow> pydict" where
  "meta_of r = (case a_meta r of None \<Rightarrow> [] | Some d \<Rightarrow> d)"

definition is_call :: "string \<Rightarrow> string \<Rightarrow> audit \<Rightarrow> bool" where
  "is_call user call r \<longleftrightarrow> a_call r = call \<and> a_user r = user"

definition find_call :: "audit_state \<Rightarrow> string \<Rightarrow> string \<Rightarrow> audit option" where
  "find_call st user call = List.find (is_call user call) (au_log st)"

definition get_by_call_id :: "audit_state \<Rightarrow> string \<Rightarrow> string \<Rightarrow> audit audited" where
  "get_by_call_id st user call =
     (case find_call st user call of None \<Rightarrow> Inl (AuditInvalid ''not_found'') | Some r \<Rightarrow> Inr r)"

definition get_by_id :: "audit_state \<Rightarrow> string \<Rightarrow> string \<Rightarrow> audit audited" where
  "get_by_id st user rid =
     (case List.find (\<lambda>r. a_id r = rid \<and> a_user r = user) (au_log st) of
        None \<Rightarrow> Inl (AuditInvalid ''not_found'') | Some r \<Rightarrow> Inr r)"

definition update_log :: "(audit \<Rightarrow> bool) \<Rightarrow> (audit \<Rightarrow> audit) \<Rightarrow> audit_state \<Rightarrow> audit_state" where
  "update_log P f st = st\<lparr>au_log := update_rows P f (au_log st)\<rparr>"

definition on_sessions :: "(database \<Rightarrow> database) \<Rightarrow> audit_state \<Rightarrow> audit_state" where
  "on_sessions f st = st\<lparr>au_db := f (au_db st)\<rparr>"

definition newest_first :: "audit list \<Rightarrow> audit list" where
  "newest_first rs = List.rev (sort_key (\<lambda>r. (coalesce (a_resolved_at r) 0, a_id r)) rs)"

subsection \<open>Reusing an approval\<close>

definition unattended_review :: string where
  "unattended_review = ''task.interaction_mode:judge_review''"

definition resolved_since :: "int \<Rightarrow> audit \<Rightarrow> bool" where
  "resolved_since cutoff r \<longleftrightarrow> (case a_resolved_at r of None \<Rightarrow> False | Some t \<Rightarrow> cutoff \<le> t)"

definition reusable_approval :: "string \<Rightarrow> string \<Rightarrow> string \<Rightarrow> int \<Rightarrow> audit \<Rightarrow> bool" where
  "reusable_approval user tool hash cutoff r \<longleftrightarrow>
     a_user r = user \<and> a_tool r = Some tool \<and> a_args_hash r = Some hash
     \<and> a_user_decision r = Some ''approve''
     \<and> a_override r \<noteq> Some unattended_review
     \<and> (a_resolved_by r = Some ''user'' \<or> a_raw r \<noteq> ''deny'' \<or> coalesce (a_maximum r) ''deny'' = ''deny'')
     \<and> resolved_since cutoff r"

definition latest :: "audit list \<Rightarrow> audit option" where
  "latest rs = (case List.rev (sort_key (\<lambda>r. coalesce (a_resolved_at r) 0) rs) of [] \<Rightarrow> None | r # _ \<Rightarrow> Some r)"

definition find_approved_escalation ::
    "audit_state \<Rightarrow> string \<Rightarrow> string \<Rightarrow> string \<Rightarrow> int \<Rightarrow> (string \<times> string option) option" where
  "find_approved_escalation st user tool hash cutoff =
     map_option (\<lambda>r. (a_call r, a_reasoning r))
       (latest (filter (reusable_approval user tool hash cutoff) (au_log st)))"

definition find_hybrid_approval ::
    "audit_state \<Rightarrow> string \<Rightarrow> string \<Rightarrow> string \<Rightarrow> string \<Rightarrow> int \<Rightarrow> audit option" where
  "find_hybrid_approval st user sid tool hash since =
     latest (filter (\<lambda>r. a_user r = user \<and> a_session r = sid \<and> a_tool r = Some tool
         \<and> a_args_hash r = Some hash \<and> a_user_decision r = Some ''approve''
         \<and> a_path r \<noteq> ''alignment'' \<and> resolved_since since r) (au_log st))"

subsection \<open>Freshness of task contexts\<close>

text \<open>\<^verbatim>\<open>intaris/task_context.py\<close>: the watermark over the human decisions of a session.\<close>

definition opt_int :: "int option \<Rightarrow> pyval" where
  "opt_int v = (case v of None \<Rightarrow> VNone | Some n \<Rightarrow> VNum (of_int n))"

definition decision_source :: "audit \<Rightarrow> pyval" where
  "decision_source r =
     VDict [(''id'', VStr (a_id r)), (''call_id'', VStr (a_call r)), (''resolved_at'', opt_int (a_resolved_at r)),
       (''user_decision'', opt_str (a_user_decision r)), (''user_note'', opt_str (a_user_note r)),
       (''args_hash'', opt_str (a_args_hash r)), (''logical_call_id'', a_logical r), (''action_digest'', a_digest r)]"

definition decision_rows :: "audit list \<Rightarrow> string \<Rightarrow> string \<Rightarrow> string \<Rightarrow> pyval" where
  "decision_rows rows user sid exclude =
     VList (map decision_source (take 33 (newest_first
       (filter (\<lambda>r. a_user r = user \<and> a_session r = sid \<and> a_resolved_by r = Some ''user''
          \<and> a_user_decision r \<noteq> None \<and> a_call r \<noteq> exclude
          \<and> a_scope r \<noteq> Some ''action'') rows))))"

definition decision_watermark :: "audit_env \<Rightarrow> audit list \<Rightarrow> string \<Rightarrow> string \<Rightarrow> string \<Rightarrow> string" where
  "decision_watermark env rows user sid exclude = ae_digest env (decision_rows rows user sid exclude)"

definition validate_freshness ::
    "audit_env \<Rightarrow> audit list \<Rightarrow> pydict \<Rightarrow> string \<Rightarrow> string \<Rightarrow> string \<Rightarrow> unit audited" where
  "validate_freshness env rows meta user sid exclude =
     (if truthy (dget meta ''task_context'')
         \<and> vget (vget (dget meta ''task_context'') ''watermarks'') ''decisions''
             \<noteq> VStr (decision_watermark env rows user sid exclude)
      then Inl (AuditConflict ''stale_task_context'') else Inr ())"

subsection \<open>Annotations\<close>

definition hybrid_meta :: "pydict \<Rightarrow> bool" where
  "hybrid_meta meta \<longleftrightarrow> dget meta ''evaluation_policy_version'' = VStr ''hybrid_v1''"

text \<open>The compare-and-set on the session that a hybrid write takes first.\<close>

definition session_current :: "string \<Rightarrow> string \<Rightarrow> pydict \<Rightarrow> session \<Rightarrow> bool" where
  "session_current user sid meta s \<longleftrightarrow>
     is_session user sid s
     \<and> dget meta ''policy_revision'' = VNum (of_int (s_policy_revision s))
     \<and> dget meta ''state_revision'' = VNum (of_int (s_state_revision s))
     \<and> s_status s = ''active''"

definition session_fence :: "audit_state \<Rightarrow> string \<Rightarrow> string \<Rightarrow> pydict \<Rightarrow> string \<Rightarrow> unit audited" where
  "session_fence st user sid meta code =
     (if \<not> dhas meta ''policy_revision'' then Inl (AuditMissing ''policy_revision'')
      else if \<not> dhas meta ''state_revision'' then Inl (AuditMissing ''state_revision'')
      else if row_count (session_current user sid meta) (db_sessions (au_db st)) \<noteq> 1 then Inl (AuditConflict code)
      else Inr ())"

definition set_hybrid_review ::
    "audit_env \<Rightarrow> audit_state \<Rightarrow> audit_state \<Rightarrow> string \<Rightarrow> string \<Rightarrow> pydict \<Rightarrow> string \<Rightarrow> string option
      \<Rightarrow> audit_state audited" where
  "set_hybrid_review env st0 st call user meta reasoning risk =
     bindE (get_by_call_id st0 user call) (\<lambda>record.
     bindE (session_fence st user (a_session record) meta ''stale_resolution'') (\<lambda>_.
     bindE (validate_freshness env (au_log st) meta user (a_session record) call) (\<lambda>_.
       let target = (\<lambda>r. is_call user call r \<and> a_user_decision r = None \<and> a_meta r \<noteq> None \<and> a_meta r = a_meta record) in
       if row_count target (au_log st) \<noteq> 1 then Inl (AuditConflict ''stale_review'')
       else Inr (update_log target (\<lambda>r. r\<lparr>a_meta := Some meta, a_judge_reasoning := Some reasoning,
              a_judge_decision := Some ''defer'', a_judge_risk := risk\<rparr>) st))))"

definition record_model_view ::
    "audit_state \<Rightarrow> string \<Rightarrow> string \<Rightarrow> string \<Rightarrow> pyval \<Rightarrow> audit_state audited" where
  "record_model_view st call user stage view =
     bindE (get_by_call_id st user call) (\<lambda>row.
       let target = (\<lambda>r. is_call user call r \<and> a_meta r = a_meta row) in
       if row_count target (au_log st) \<noteq> 1 then Inl (AuditConflict ''stale_model_view'')
       else Inr (update_log target (\<lambda>r. r\<lparr>a_meta := Some (dset (meta_of row) stage view)\<rparr>) st))"

definition set_judge_reasoning ::
    "string \<Rightarrow> string \<Rightarrow> string \<Rightarrow> string option \<Rightarrow> string option \<Rightarrow> string option \<Rightarrow> audit_state \<Rightarrow> audit_state" where
  "set_judge_reasoning call reasoning user decision risk override st =
     update_log (\<lambda>r. is_call user call r \<and> a_decision r = ''escalate'' \<and> a_user_decision r = None)
       (\<lambda>r. r\<lparr>a_judge_reasoning := Some reasoning,
          a_judge_decision := (if decision = None then a_judge_decision r else decision),
          a_judge_risk := (if risk = None then a_judge_risk r else risk),
          a_override := (if override = None then a_override r else override)\<rparr>) st"

end
