(* ===== verification/Audit_Admission.thy ===== *)
theory Audit_Admission
  imports Audit_Log
begin

text \<open>
  \<^verbatim>\<open>AuditStore.insert\<close> and \<^verbatim>\<open>mark_execution\<close>: the admission of an evaluated call
  under the locks of its ancestors and its session, and the claim of its dispatch.  The dispatch
  deadline in the metadata is the number its ISO text denotes.  The fan-out to the search indexer is
  left out.
\<close>

subsection \<open>The request\<close>

record admission =
  ar_call :: string
  ar_user :: string
  ar_session :: string
  ar_agent :: "string option"
  ar_tool :: "string option"
  ar_args :: "pydict option"
  ar_classification :: "string option"
  ar_path :: string
  ar_decision :: string
  ar_risk :: "string option"
  ar_reasoning :: "string option"
  ar_latency :: int
  ar_type :: string
  ar_content :: "string option"
  ar_args_hash :: "string option"
  ar_profile_version :: "int option"
  ar_intention :: "string option"
  ar_injection :: bool
  ar_raw :: "string option"
  ar_maximum :: "string option"
  ar_minimum :: "string option"
  ar_override :: "string option"
  ar_meta :: "pydict option"
  ar_snapshot :: "session option"

definition record_types :: "string set" where
  "record_types = {''tool_call'', ''reasoning'', ''checkpoint'', ''summary''}"

definition request_meta :: "admission \<Rightarrow> pydict" where
  "request_meta q = (case ar_meta q of None \<Rightarrow> [] | Some d \<Rightarrow> d)"

text \<open>A user message in the reasoning stream is evidence: it moves the session's state revision.\<close>

definition user_message :: "admission \<Rightarrow> bool" where
  "user_message q \<longleftrightarrow>
     ar_type q = ''reasoning'' \<and> starts_with (coalesce (ar_content q) []) ''User message:''"

definition from_user :: "admission \<Rightarrow> bool" where
  "from_user q =
     (let args = (case ar_args q of None \<Rightarrow> [] | Some d \<Rightarrow> d) in
      case dget_default args ''context'' (VDict args) of
        VDict role \<Rightarrow> dget_default role ''role'' (VStr ''user'') = VStr ''user''
      | _ \<Rightarrow> True)"

definition message_evidence :: "admission \<Rightarrow> pyval" where
  "message_evidence q =
     VDict [(''source'', VStr ''reasoning_client''), (''content'', opt_str (ar_content q)),
       (''source_audit_call_id'', VStr (ar_call q)),
       (''recorded_context'', case ar_args q of None \<Rightarrow> VNone | Some d \<Rightarrow> VDict d)]"

definition note_message :: "admission \<Rightarrow> database \<Rightarrow> database" where
  "note_message q db =
     (if user_message q
      then update_sessions (is_session (ar_user q) (ar_session q))
             (\<lambda>s. s\<lparr>s_state_revision := s_state_revision s + (if from_user q then 1 else 0),
                 s_latest_user_evidence := (if from_user q then message_evidence q else s_latest_user_evidence s)\<rparr>) db
      else db)"

subsection \<open>The admission fence\<close>

definition operator_bound :: "pydict \<Rightarrow> bool" where
  "operator_bound meta \<longleftrightarrow> dget meta ''operator_bound'' = VBool True"

definition snapshot_current :: "admission \<Rightarrow> session \<Rightarrow> session \<Rightarrow> bool" where
  "snapshot_current q snap s \<longleftrightarrow>
     is_session (ar_user q) (ar_session q) s \<and> s_policy_revision s = s_policy_revision snap
     \<and> (operator_bound (request_meta q)
        \<or> (s_state_revision s = s_state_revision snap \<and> s_status s = ''active''))"

definition admission_fence :: "audit_env \<Rightarrow> admission \<Rightarrow> session \<Rightarrow> audit_state \<Rightarrow> unit audited" where
  "admission_fence env q snap st =
     bindE (case validate_parent_chain (ae_digest env) (au_db st) (au_db st) snap of
              Inl e \<Rightarrow> Inl (AuditChain e) | Inr u \<Rightarrow> Inr u) (\<lambda>_.
       if row_count (snapshot_current q snap) (db_sessions (au_db st)) \<noteq> 1
       then Inl (AuditConflict (if operator_bound (request_meta q) then ''stale_policy_revision'' else ''stale_admission''))
       else Inr ())"

definition registry_fence :: "admission \<Rightarrow> audit_state \<Rightarrow> unit audited" where
  "registry_fence q st =
     (let workflow = dget (request_meta q) ''workflow_scope'' in
      if workflow = VNone then Inr ()
      else if vget workflow ''registry_revision''
          \<noteq> VNum (of_int (registry_revision (au_decls st) (ar_user q) (ar_session q)))
      then Inl (AuditConflict ''workflow_step_conflict'') else Inr ())"

text \<open>What the admission may still change: decision, override, reasoning and metadata.\<close>

record verdict_state =
  vs_decision :: string
  vs_override :: "string option"
  vs_reasoning :: "string option"
  vs_meta :: pydict

definition operator_stage :: "admission \<Rightarrow> audit_state \<Rightarrow> verdict_state \<Rightarrow> verdict_state audited" where
  "operator_stage q st v =
     (if \<not> operator_bound (vs_meta v) then Inr v
      else case find_session (au_db st) (ar_user q) (ar_session q) of
        None \<Rightarrow> Inl (AuditMissing ''session'')
      | Some current \<Rightarrow>
          if oget (s_policy current) ''maximum_outcome'' \<noteq> VStr ''approve''
             \<or> oget (s_policy current) ''policy_hash'' \<noteq> dget (vs_meta v) ''policy_hash''
          then Inl (AuditConflict ''stale_policy_hash'')
          else
            let v1 = v\<lparr>vs_meta := dset (vs_meta v) ''state_revision'' (VNum (of_int (s_state_revision current)))\<rparr>
            in Inr (if s_status current \<noteq> ''active''
                    then v1\<lparr>vs_decision := ''deny'', vs_override := Some ''hard_stop.session_lifecycle''\<rparr> else v1))"

text \<open>The exact human denial of the same action and mode, when no later human approval cleared it.\<close>

definition exact_resolutions :: "admission \<Rightarrow> audit list \<Rightarrow> audit list" where
  "exact_resolutions q rows =
     newest_first (filter (\<lambda>r. a_user r = ar_user q \<and> a_session r = ar_session q
        \<and> ar_tool q \<noteq> None \<and> a_tool r = ar_tool q \<and> ar_args_hash q \<noteq> None \<and> a_args_hash r = ar_args_hash q
        \<and> a_resolved_by r = Some ''user'' \<and> a_user_decision r \<noteq> None) rows)"

definition human_veto :: "admission \<Rightarrow> pydict \<Rightarrow> audit list \<Rightarrow> string option" where
  "human_veto q meta rows =
     (case List.find (\<lambda>r. dget (meta_of r) ''mode_identity'' = dget meta ''mode_identity'') (exact_resolutions q rows) of
        Some r \<Rightarrow> if a_user_decision r = Some ''deny'' then Some (a_call r) else None
      | None \<Rightarrow> None)"

definition veto_applies :: "pydict \<Rightarrow> bool" where
  "veto_applies meta \<longleftrightarrow>
     operator_bound meta \<or> truthy (vget (dget meta ''workflow_scope'') ''declared'')
     \<or> vget (dget meta ''policy_result'') ''permission_basis'' = VStr ''read_only_static''"

definition sync_final :: "verdict_state \<Rightarrow> verdict_state audited" where
  "sync_final v =
     (let meta = (if vs_decision v \<noteq> ''approve'' then dset (vs_meta v) ''admission'' VNone else vs_meta v) in
      case map_of meta ''final_policy_result'' of
        None \<Rightarrow> Inl (AuditMissing ''final_policy_result'')
      | Some final \<Rightarrow>
          if vget final ''decision'' = VStr (vs_decision v) then Inr (v\<lparr>vs_meta := meta\<rparr>)
          else
            let final' = dmerge (entries_of final)
                  [(''decision'', VStr (vs_decision v)), (''override'', opt_str (vs_override v)),
                   (''disposition'', VStr ''blocked''),
                   (''blocking_reasons'', VList (items_of (vget final ''blocking_reasons'') @ [opt_str (vs_override v)])),
                   (''waived_obligation_ids'', VList [])]
            in Inr (v\<lparr>vs_meta := dset (dset meta ''final_policy_result'' (VDict final')) ''obligation_disposition'' (VStr ''blocked''),
                      vs_reasoning := Some (''Authorization blocked: '' @ coalesce (vs_override v) ''None'' @ ''.'')\<rparr>))"

definition veto_stage :: "admission \<Rightarrow> audit_state \<Rightarrow> verdict_state \<Rightarrow> verdict_state audited" where
  "veto_stage q st v =
     (if \<not> veto_applies (vs_meta v) then Inr v
      else sync_final
        (case human_veto q (vs_meta v) (au_log st) of
           None \<Rightarrow> v
         | Some call \<Rightarrow> v\<lparr>vs_decision := ''deny'', vs_override := Some ''human_resolution'',
              vs_meta := dset (vs_meta v) ''human_denial_reference'' (VStr call)\<rparr>))"

definition approval_current :: "admission \<Rightarrow> pydict \<Rightarrow> pyval \<Rightarrow> audit \<Rightarrow> bool" where
  "approval_current q meta reference r \<longleftrightarrow>
     VStr (a_call r) = reference \<and> a_user r = ar_user q \<and> a_session r = ar_session q
     \<and> ar_tool q \<noteq> None \<and> a_tool r = ar_tool q \<and> ar_args_hash q \<noteq> None \<and> a_args_hash r = ar_args_hash q
     \<and> a_user_decision r = Some ''approve''
     \<and> dget (meta_of r) ''state_revision'' = dget meta ''state_revision''
     \<and> dget (meta_of r) ''policy_hash'' = dget meta ''policy_hash''
     \<and> dget (meta_of r) ''mode_identity'' = dget meta ''mode_identity''"

definition approval_stage :: "admission \<Rightarrow> audit_state \<Rightarrow> pydict \<Rightarrow> unit audited" where
  "approval_stage q st meta =
     (let reference = dget meta ''approval_reference'' in
      if truthy reference \<and> \<not> exists_row (approval_current q meta reference) (au_log st)
      then Inl (AuditConflict ''stale_approval'')
      else if truthy reference \<and> \<not> dhas meta ''state_revision'' then Inl (AuditMissing ''state_revision'')
      else Inr ())"

text \<open>Earlier rows of the same logical call: its arguments may not change, and it is admitted once.\<close>

definition same_logical :: "admission \<Rightarrow> pydict \<Rightarrow> audit \<Rightarrow> bool" where
  "same_logical q meta r \<longleftrightarrow>
     a_user r = ar_user q \<and> a_session r = ar_session q
     \<and> dget meta ''logical_call_id'' \<noteq> VNone \<and> a_logical r = dget meta ''logical_call_id''"

definition own_receipt :: "pydict \<Rightarrow> audit \<Rightarrow> bool" where
  "own_receipt meta r \<longleftrightarrow> a_decision r = ''escalate'' \<and> VStr (a_call r) = dget meta ''approval_reference''"

fun logical_stage :: "pydict \<Rightarrow> audit list \<Rightarrow> unit audited" where
  "logical_stage meta [] = Inr ()"
| "logical_stage meta (r # rs) =
     (if a_digest r \<noteq> dget meta ''action_digest'' then Inl (AuditConflict ''logical_call_conflict'')
      else if a_effective r = ''approve'' \<and> \<not> own_receipt meta r then Inl (AuditConflict ''duplicate_admission'')
      else logical_stage meta rs)"

definition admit_call :: "audit_env \<Rightarrow> admission \<Rightarrow> session \<Rightarrow> audit_state \<Rightarrow> verdict_state audited" where
  "admit_call env q snap st =
     bindE (admission_fence env q snap st) (\<lambda>_.
     bindE (registry_fence q st) (\<lambda>_.
     bindE (operator_stage q st \<lparr>vs_decision = ar_decision q, vs_override = ar_override q,
              vs_reasoning = ar_reasoning q, vs_meta = request_meta q\<rparr>) (\<lambda>v1.
     bindE (veto_stage q st v1) (\<lambda>v2.
     bindE (validate_freshness env (au_log st) (vs_meta v2) (ar_user q) (ar_session q) []) (\<lambda>_.
     bindE (approval_stage q st (vs_meta v2)) (\<lambda>_.
     bindE (logical_stage (vs_meta v2) (filter (same_logical q (vs_meta v2)) (au_log st))) (\<lambda>_.
     Inr v2)))))))"

subsection \<open>The row\<close>

definition new_record :: "int \<Rightarrow> string \<Rightarrow> admission \<Rightarrow> verdict_state \<Rightarrow> audit" where
  "new_record now rid q v =
     \<lparr>a_id = rid, a_call = ar_call q, a_type = ar_type q, a_user = ar_user q, a_session = ar_session q,
      a_agent = ar_agent q, a_timestamp = now, a_tool = ar_tool q, a_args = ar_args q, a_content = ar_content q,
      a_classification = ar_classification q, a_path = ar_path q, a_decision = vs_decision v, a_risk = ar_risk q,
      a_reasoning = vs_reasoning v, a_latency = ar_latency q, a_user_decision = None, a_user_note = None,
      a_resolved_at = None, a_resolved_by = None, a_scope = None, a_judge_reasoning = None,
      a_judge_decision = None, a_judge_risk = None, a_args_hash = ar_args_hash q,
      a_profile_version = ar_profile_version q, a_intention = ar_intention q, a_injection = ar_injection q,
      a_raw = (case ar_raw q of Some r \<Rightarrow> if r = [] then vs_decision v else r | None \<Rightarrow> vs_decision v),
      a_effective = vs_decision v, a_maximum = ar_maximum q, a_minimum = ar_minimum q,
      a_override = vs_override v,
      a_meta = (if ar_meta q = None then None else Some (vs_meta v)),
      a_logical = dget (vs_meta v) ''logical_call_id'', a_digest = dget (vs_meta v) ''action_digest''\<rparr>"

definition insert_audit ::
    "audit_env \<Rightarrow> int \<Rightarrow> string \<Rightarrow> admission \<Rightarrow> audit_state \<Rightarrow> audit audited \<times> audit_state" where
  "insert_audit env now rid q st =
     (if ar_type q \<notin> record_types then (Inl (AuditInvalid ''record_type''), st)
      else
        let st1 = on_sessions (note_message q) st in
        case (case ar_snapshot q of
                None \<Rightarrow> Inr \<lparr>vs_decision = ar_decision q, vs_override = ar_override q,
                           vs_reasoning = ar_reasoning q, vs_meta = request_meta q\<rparr>
              | Some snap \<Rightarrow> admit_call env q snap st1) of
          Inl e \<Rightarrow> (Inl e, st)
        | Inr v \<Rightarrow>
            if exists_row (\<lambda>r. a_call r = ar_call q) (au_log st) then (Inl (AuditInvalid ''duplicate call_id''), st)
            else if find_session (au_db st) (ar_user q) (ar_session q) = None
            then (Inl (AuditInvalid ''unknown session''), st)
            else let row = new_record now rid q v in (Inr row, st1\<lparr>au_log := au_log st1 @ [row]\<rparr>))"

subsection \<open>Dispatch\<close>

definition execution_state :: "audit \<Rightarrow> pyval" where
  "execution_state r = dget (meta_of r) ''execution_state''"

definition deadline_of :: "pydict \<Rightarrow> rat option" where
  "deadline_of meta =
     (if \<not> truthy (dget meta ''admission'') then None
      else case vget (dget meta ''admission'') ''dispatch_deadline'' of VNum t \<Rightarrow> Some t | _ \<Rightarrow> None)"

definition workflow_fence :: "audit_state \<Rightarrow> string \<Rightarrow> string \<Rightarrow> pydict \<Rightarrow> unit audited" where
  "workflow_fence st user sid meta =
     (let scope = dget meta ''workflow_scope'' in
      if scope = VNone then Inr ()
      else if row_count (is_session user sid) (db_sessions (au_db st)) \<noteq> 1
           \<or> vget scope ''registry_revision'' \<noteq> VNum (of_int (registry_revision (au_decls st) user sid))
      then Inl (AuditConflict ''workflow_step_conflict'') else Inr ())"

definition context_fence :: "audit_env \<Rightarrow> audit_state \<Rightarrow> string \<Rightarrow> string \<Rightarrow> string \<Rightarrow> pydict \<Rightarrow> unit audited" where
  "context_fence env st user sid call meta =
     (if \<not> truthy (dget meta ''task_context'') then Inr ()
      else if \<not> dhas meta ''state_revision'' then Inl (AuditMissing ''state_revision'')
      else if row_count (\<lambda>s. is_session user sid s
              \<and> dget meta ''state_revision'' = VNum (of_int (s_state_revision s))) (db_sessions (au_db st)) \<noteq> 1
      then Inl (AuditConflict ''stale_task_context'')
      else validate_freshness env (au_log st) meta user sid call)"

definition mark_execution ::
    "audit_env \<Rightarrow> rat \<Rightarrow> audit_state \<Rightarrow> audit_state \<Rightarrow> string \<Rightarrow> string \<Rightarrow> string
      \<Rightarrow> (pydict \<times> audit_state) audited" where
  "mark_execution env now st0 st call user state =
     bindE (get_by_call_id st0 user call) (\<lambda>record.
       let original = meta_of record;
           expected = (if state = ''dispatched'' then ''not_dispatched'' else ''dispatched'')
       in if state \<notin> {''dispatched'', ''completed'', ''uncertain''}
             \<or> dget original ''execution_state'' \<noteq> VStr expected
          then Inl (AuditConflict ''execution_state_conflict'')
          else if state = ''dispatched''
               \<and> (case deadline_of original of None \<Rightarrow> True | Some t \<Rightarrow> t \<le> now)
          then Inl (AuditConflict ''expired_admission'')
          else
            bindE (if state = ''dispatched'' then workflow_fence st user (a_session record) original else Inr ()) (\<lambda>_.
            bindE (if state = ''dispatched'' then context_fence env st user (a_session record) call original else Inr ()) (\<lambda>_.
              let target = (\<lambda>r. is_call user call r \<and> a_meta r = Some original);
                  updated = dset original ''execution_state'' (VStr state)
              in if row_count target (au_log st) \<noteq> 1 then Inl (AuditConflict ''execution_state_conflict'')
                 else Inr (updated, update_log target (\<lambda>r. r\<lparr>a_meta := Some updated\<rparr>) st))))"

end
