(* ===== verification/Audit_Resolution.thy ===== *)
theory Audit_Resolution
  imports Audit_Admission
begin

text \<open>
  \<^verbatim>\<open>AuditStore.resolve_escalation\<close>: a decision of a human or of the Judge on a call that
  was escalated or denied.  The record is read first; the transaction runs on the state as it is then.
\<close>

record resolution =
  rs_call :: string
  rs_user :: string
  rs_decision :: string
  rs_note :: "string option"
  rs_by :: string
  rs_reasoning :: "string option"
  rs_judge_decision :: "string option"
  rs_judge_risk :: "string option"
  rs_meta :: "pydict option"

subsection \<open>Checks on the record as read\<close>

definition obligation_ids :: "pydict \<Rightarrow> pyval list" where
  "obligation_ids meta =
     map (\<lambda>item. vget item ''id'')
       (items_of (if truthy (vget (dget meta ''policy_result'') ''outstanding_obligations'')
          then vget (dget meta ''policy_result'') ''outstanding_obligations''
          else dget meta ''outstanding_obligations''))"

definition alignment_override :: "resolution \<Rightarrow> audit \<Rightarrow> bool" where
  "alignment_override q r \<longleftrightarrow>
     rs_decision q = ''approve'' \<and> rs_by q = ''user''
     \<and> ((hybrid_meta (meta_of r) \<and> VStr ''alignment.compatibility'' \<in> set (obligation_ids (meta_of r)))
        \<or> a_path r = ''alignment'')"

definition mutation_word :: "pyval \<Rightarrow> string" where
  "mutation_word v = (case v of VStr m \<Rightarrow> m | _ \<Rightarrow> [])"

definition judged_mutation :: "resolution \<Rightarrow> pydict \<Rightarrow> pyval" where
  "judged_mutation q meta =
     (if vget (dget meta ''static_facts'') ''mutation'' = VStr ''mutating'' then VStr ''mutating''
      else
        let candidate = (if rs_by q = ''judge'' \<and> rs_meta q \<noteq> None \<and> rs_meta q \<noteq> Some []
                         then coalesce (rs_meta q) [] else meta)
        in dget_default candidate ''mutation''
             (dget_default (entries_of (dget candidate ''facts'')) ''mutation'' (VStr ''unclear'')))"

definition overlay_of :: "pydict \<Rightarrow> pydict option" where
  "overlay_of meta = (case dget meta ''overlay'' of VDict d \<Rightarrow> Some d | _ \<Rightarrow> None)"

definition read_only_check :: "resolution \<Rightarrow> pydict \<Rightarrow> unit audited" where
  "read_only_check q meta =
     (if rs_decision q = ''approve'' \<and> read_only_required (overlay_of meta)
         \<and> fst (enforce Approve (overlay_of meta) (mutation_word (judged_mutation q meta))) \<noteq> Approve
      then Inl (AuditConflict ''read_only_ceiling'') else Inr ())"

definition human_required :: "resolution \<Rightarrow> audit \<Rightarrow> bool" where
  "human_required q r \<longleftrightarrow>
     truthy (dget (if rs_meta q \<noteq> None \<and> rs_meta q \<noteq> Some [] then coalesce (rs_meta q) [] else meta_of r)
               ''human_approval_required'')
     \<or> a_minimum r \<in> {Some ''deny'', Some ''escalate''}"

definition floor_check :: "resolution \<Rightarrow> audit \<Rightarrow> unit audited" where
  "floor_check q r =
     (if \<not> hybrid_meta (meta_of r) \<or> rs_decision q \<noteq> ''approve'' then Inr ()
      else if a_minimum r = Some ''deny'' then Inl (AuditConflict ''mandatory_denial'')
      else if rs_by q = ''judge'' \<and> human_required q r then Inl (AuditConflict ''human_approval_required'')
      else Inr ())"

text \<open>Consent to the exact action alone leaves the authorization of sibling actions unchanged.\<close>

definition action_local :: "resolution \<Rightarrow> audit \<Rightarrow> bool" where
  "action_local q r \<longleftrightarrow>
     rs_by q = ''user'' \<and> rs_decision q = ''approve'' \<and> rs_note q \<in> {None, Some []}
     \<and> a_decision r = ''escalate''
     \<and> (a_resolved_by r = None
        \<or> (a_resolved_by r = Some ''judge'' \<and> a_user_decision r = Some ''escalate''
           \<and> a_judge_decision r = Some ''defer''))
     \<and> a_path r \<noteq> ''alignment'' \<and> \<not> alignment_override q r
     \<and> hybrid_meta (meta_of r) \<and> truthy (a_digest r)"

subsection \<open>The transaction\<close>

definition resolution_fence :: "audit_env \<Rightarrow> resolution \<Rightarrow> audit \<Rightarrow> audit_state \<Rightarrow> unit audited" where
  "resolution_fence env q r st =
     (let meta = meta_of r in
      if \<not> hybrid_meta meta \<and> \<not> truthy (dget meta ''overlay'') then Inr ()
      else
        bindE (session_fence st (rs_user q) (a_session r) meta ''stale_resolution'') (\<lambda>_.
        bindE (validate_freshness env (au_log st) meta (rs_user q) (a_session r) (rs_call q)) (\<lambda>_.
          if rs_by q = ''judge'' \<and> rs_meta q = None \<and> hybrid_meta meta
          then Inl (AuditConflict ''invalid_judge_resolution'') else Inr ())))"

definition requirement_word :: "requirement \<Rightarrow> string" where
  "requirement_word rq =
     (case rq of NeedsAssessment \<Rightarrow> ''assessment'' | NeedsReview \<Rightarrow> ''independent_review'' | NeedsHuman \<Rightarrow> ''human'')"

definition obligation_dump :: "obligation \<Rightarrow> pyval" where
  "obligation_dump ob =
     VDict [(''id'', VStr (ob_id ob)), (''basis'', VStr (ob_basis ob)), (''fields'', VStrs (ob_fields ob)),
       (''evidence'', VStrs (ob_evidence ob)), (''requirement'', VStr (requirement_word (ob_requirement ob))),
       (''protected'', VBool (ob_protected ob))]"

definition verdict_text :: "verdict \<Rightarrow> string" where
  "verdict_text v =
     (case v of Denied \<Rightarrow> ''deny'' | Escalated \<Rightarrow> ''escalate'' | Approved \<Rightarrow> ''approve''
      | AssessmentNeeded \<Rightarrow> ''needs_assessment'')"

definition finalization_dump :: "finalization \<Rightarrow> pydict" where
  "finalization_dump f =
     [(''raw_outcome'', VStr (verdict_text (fr_raw f))), (''decision'', VStr (outcome_text (fr_decision f))),
      (''override'', opt_str (fr_override f)),
      (''outstanding_obligations'', VList (map obligation_dump (fr_outstanding f))),
      (''discharged_obligation_ids'', VStrs (fr_discharged f)), (''waived_obligation_ids'', VStrs (fr_waived f)),
      (''blocking_reasons'', VStrs (fr_blocking f)), (''disposition'', VStr (fr_disposition f))]"

definition outcome_bound :: "string option \<Rightarrow> outcome option option" where
  "outcome_bound v =
     (case v of None \<Rightarrow> Some None | Some s \<Rightarrow> map_option Some (parse_outcome (VStr s)))"

definition refinalized :: "audit_env \<Rightarrow> resolution \<Rightarrow> audit \<Rightarrow> finalization audited" where
  "refinalized env q r =
     (case (ae_result env (dget (meta_of r) ''policy_result''), outcome_bound (a_maximum r), outcome_bound (a_minimum r)) of
        (Some res, Some maximum, Some minimum) \<Rightarrow>
          (case finalize_result res
             \<lparr>bd_maximum = maximum, bd_minimum = minimum, bd_human_approved = False, bd_judge_allowed = None,
              bd_judge_uncertain = ''deny'', bd_overlay = overlay_of (meta_of r),
              bd_mutation = mutation_word (dget_default (entries_of (dget (meta_of r) ''facts'')) ''mutation'' (VStr ''unclear'')),
              bd_human_resolution = Some (rs_decision q)\<rparr> of
             Inl _ \<Rightarrow> Inl (AuditConflict ''assessment_required'')
           | Inr final \<Rightarrow> Inr final)
      | _ \<Rightarrow> Inl (AuditInvalid ''policy_result''))"

text \<open>The metadata to write: a human's resolution is finalized again, the Judge brings its own.\<close>

definition resolved_meta :: "audit_env \<Rightarrow> resolution \<Rightarrow> audit \<Rightarrow> pydict option audited" where
  "resolved_meta env q r =
     (if rs_by q = ''user'' \<and> truthy (dget (meta_of r) ''policy_result'') then
        bindE (refinalized env q r) (\<lambda>final.
          if outcome_text (fr_decision final) \<noteq> rs_decision q then Inl (AuditConflict ''protected_floor'')
          else Inr (Some (dmerge (meta_of r)
                 [(''final_policy_result'', VDict (finalization_dump final)),
                  (''outstanding_obligations'', VList (map obligation_dump (fr_outstanding final))),
                  (''obligation_disposition'', VStr (fr_disposition final))])))
      else Inr (rs_meta q))"

definition open_to :: "audit \<Rightarrow> bool" where
  "open_to r \<longleftrightarrow> a_user_decision r = None \<or> a_resolved_by r = Some ''judge''"

definition write_meta :: "resolution \<Rightarrow> audit \<Rightarrow> pydict option \<Rightarrow> audit_state \<Rightarrow> audit_state audited" where
  "write_meta q r meta st =
     (case meta of
        None \<Rightarrow> Inr st
      | Some m \<Rightarrow>
          (let target = (\<lambda>x. is_call (rs_user q) (rs_call q) x \<and> open_to x \<and> a_meta x = Some (meta_of r)) in
           if row_count target (au_log st) \<noteq> 1 then Inl (AuditConflict ''stale_resolution'')
           else Inr (update_log target (\<lambda>x. x\<lparr>a_meta := Some m\<rparr>) st)))"

definition judge_reviewed :: "resolution \<Rightarrow> audit \<Rightarrow> bool" where
  "judge_reviewed q r \<longleftrightarrow>
     (rs_by q = ''judge'' \<or> a_resolved_by r = Some ''judge'')
     \<and> truthy (dget (meta_of r) ''judge_required'') \<and> hybrid_meta (meta_of r)"

definition resolvable :: "resolution \<Rightarrow> audit \<Rightarrow> audit \<Rightarrow> bool" where
  "resolvable q r x \<longleftrightarrow>
     is_call (rs_user q) (rs_call q) x
     \<and> (a_decision x \<in> {''escalate'', ''deny''} \<or> judge_reviewed q r)
     \<and> open_to x \<and> (rs_by q \<noteq> ''user'' \<or> a_override x \<noteq> Some unattended_review)"

definition resolved_row :: "int \<Rightarrow> resolution \<Rightarrow> bool \<Rightarrow> audit \<Rightarrow> audit" where
  "resolved_row now q exact x =
     x\<lparr>a_user_decision := Some (rs_decision q), a_user_note := rs_note q, a_resolved_at := Some now,
       a_resolved_by := Some (rs_by q), a_scope := Some (if exact then ''action'' else ''session''),
       a_judge_reasoning := (if rs_reasoning q = None then a_judge_reasoning x else rs_reasoning q),
       a_judge_decision := (if rs_judge_decision q = None then a_judge_decision x else rs_judge_decision q),
       a_judge_risk := (if rs_judge_risk q = None then a_judge_risk x else rs_judge_risk q),
       a_effective := rs_decision q\<rparr>"

text \<open>Why no row could be resolved.\<close>

definition refusal :: "resolution \<Rightarrow> audit_state \<Rightarrow> audit_error" where
  "refusal q st =
     (case find_call st (rs_user q) (rs_call q) of
        None \<Rightarrow> AuditInvalid ''not_found''
      | Some x \<Rightarrow>
          if rs_by q = ''user'' \<and> a_override x = Some unattended_review then AuditInvalid ''unattended_review''
          else if a_decision x \<notin> {''escalate'', ''deny''} then AuditInvalid ''not_resolvable''
          else if a_user_decision x \<notin> {None, Some []}
          then AuditInvalid (if a_resolved_by x = Some ''user'' then ''resolved_by_user'' else ''already_resolved'')
          else AuditInvalid ''failed'')"

definition write_resolution :: "int \<Rightarrow> resolution \<Rightarrow> audit \<Rightarrow> audit_state \<Rightarrow> audit_state audited" where
  "write_resolution now q r st =
     (if row_count (resolvable q r) (au_log st) = 0 then Inl (refusal q st)
      else Inr (update_log (resolvable q r) (resolved_row now q (action_local q r)) st))"

definition clear_alignment :: "int \<Rightarrow> resolution \<Rightarrow> audit \<Rightarrow> audit_state \<Rightarrow> audit_state" where
  "clear_alignment now q r st =
     (if alignment_override q r
      then on_sessions (update_sessions (is_session (rs_user q) (a_session r))
             (\<lambda>s. s\<lparr>s_alignment_state := ''ready'', s_alignment_overridden := True, s_updated := now\<rparr>)) st
      else st)"

text \<open>
  A human decision that is not confined to the action moves the session's state revision; the receipt
  then belongs to the new one.
\<close>

definition move_session :: "resolution \<Rightarrow> audit \<Rightarrow> pydict option \<Rightarrow> audit_state
    \<Rightarrow> ((int \<times> int) option \<times> audit_state) audited" where
  "move_session q r meta st =
     (if rs_by q = ''user'' \<and> \<not> action_local q r then
        (let st1 = on_sessions (update_sessions (is_session (rs_user q) (a_session r)) bump_state) st in
         case find_session (au_db st1) (rs_user q) (a_session r) of
           None \<Rightarrow> Inl (AuditMissing ''session'')
         | Some s \<Rightarrow>
             Inr (Some (s_policy_revision s, s_state_revision s),
              if meta_of r = [] then st1
              else
                let receipt = dset (if meta \<noteq> None \<and> meta \<noteq> Some [] then coalesce meta [] else meta_of r)
                       ''state_revision'' (VNum (of_int (s_state_revision s)))
                in update_log (is_call (rs_user q) (rs_call q)) (\<lambda>x. x\<lparr>a_meta := Some receipt\<rparr>) st1))
      else
        Inr (map_option (\<lambda>s. (s_policy_revision s, s_state_revision s)) (find_session (au_db st) (rs_user q) (a_session r)),
         st))"

definition resolve_transaction ::
    "audit_env \<Rightarrow> int \<Rightarrow> resolution \<Rightarrow> audit \<Rightarrow> audit_state \<Rightarrow> ((int \<times> int) option \<times> audit_state) audited" where
  "resolve_transaction env now q r st =
     bindE (resolution_fence env q r st) (\<lambda>_.
     bindE (resolved_meta env q r) (\<lambda>meta.
     bindE (write_meta q r meta st) (\<lambda>st1.
     bindE (write_resolution now q r st1) (\<lambda>st2.
     move_session q r meta (clear_alignment now q r st2)))))"

definition resolve_escalation ::
    "audit_env \<Rightarrow> int \<Rightarrow> resolution \<Rightarrow> audit_state \<Rightarrow> audit_state \<Rightarrow> ((int \<times> int) option \<times> audit_state) audited" where
  "resolve_escalation env now q st0 st =
     (if rs_decision q \<notin> {''approve'', ''deny''} then Inl (AuditInvalid ''user_decision'')
      else if rs_by q \<notin> {''user'', ''judge''} then Inl (AuditInvalid ''resolved_by'')
      else
        bindE (get_by_call_id st0 (rs_user q) (rs_call q)) (\<lambda>r.
        bindE (read_only_check q (meta_of r)) (\<lambda>_.
        bindE (floor_check q r) (\<lambda>_.
        resolve_transaction env now q r st))))"

end
