(* ===== verification/Audit_Properties.thy ===== *)
theory Audit_Properties
  imports Audit_Resolution
begin

text \<open>
  What the audit log promises: a human decision is final, an approval respects the floors it was given
  under, an admission is current when it commits, and a call is dispatched at most once.
\<close>

subsection \<open>Steps of the log\<close>

text \<open>Any interleaving; every operation may act on a record that it read in some other state.\<close>

inductive audit_step :: "audit_state \<Rightarrow> audit_state \<Rightarrow> bool" where
  inserted: "insert_audit env now rid q st = (Inr row, st') \<Longrightarrow> audit_step st st'"
| resolved: "resolve_escalation env now q st0 st = Inr (revision, st') \<Longrightarrow> audit_step st st'"
| executed: "mark_execution env at_time st0 st call user state = Inr (meta, st') \<Longrightarrow> audit_step st st'"
| reviewed: "set_hybrid_review env st0 st call user meta reasoning risk = Inr st' \<Longrightarrow> audit_step st st'"
| viewed: "record_model_view st call user stage view = Inr st' \<Longrightarrow> audit_step st st'"
| reasoned: "set_judge_reasoning call reasoning user decision risk override st = st' \<Longrightarrow> audit_step st st'"
| moved: "registry_step (au_db st, au_decls st) (db', ds') \<Longrightarrow> audit_step st (st\<lparr>au_db := db', au_decls := ds'\<rparr>)"

lemma update_log_simps [simp]:
  "au_log (update_log P f st) = update_rows P f (au_log st)"
  "au_db (update_log P f st) = au_db st" "au_decls (update_log P f st) = au_decls st"
  by (simp_all add: update_log_def)

lemma on_sessions_simps [simp]:
  "au_log (on_sessions f st) = au_log st" "au_db (on_sessions f st) = f (au_db st)"
  "au_decls (on_sessions f st) = au_decls st"
  by (simp_all add: on_sessions_def)

subsection \<open>Settled rows\<close>

definition settled :: "audit \<Rightarrow> bool" where
  "settled r \<longleftrightarrow> a_user_decision r \<noteq> None \<and> a_resolved_by r = Some ''user''"

definition same_resolution :: "audit \<Rightarrow> audit \<Rightarrow> bool" where
  "same_resolution r r' \<longleftrightarrow>
     a_user_decision r' = a_user_decision r \<and> a_resolved_by r' = a_resolved_by r
     \<and> a_effective r' = a_effective r \<and> a_resolved_at r' = a_resolved_at r \<and> a_decision r' = a_decision r
     \<and> a_override r' = a_override r"

definition row_kept :: "audit \<Rightarrow> audit \<Rightarrow> bool" where
  "row_kept r r' \<longleftrightarrow>
     a_call r' = a_call r \<and> a_user r' = a_user r \<and> a_tool r' = a_tool r \<and> a_args_hash r' = a_args_hash r
     \<and> (settled r \<longrightarrow> same_resolution r r')"

definition log_kept :: "audit list \<Rightarrow> audit list \<Rightarrow> bool" where
  "log_kept l l' \<longleftrightarrow> (\<exists>kept new. l' = kept @ new \<and> list_all2 row_kept l kept)"

lemma row_kept_refl [simp, intro]: "row_kept r r"
  by (simp add: row_kept_def same_resolution_def)

lemma row_kept_trans: "row_kept a b \<Longrightarrow> row_kept b c \<Longrightarrow> row_kept a c"
  by (auto simp: row_kept_def same_resolution_def settled_def)

lemma log_kept_refl [simp, intro]: "log_kept l l"
  unfolding log_kept_def by (intro exI [of _ l] exI [of _ "[]"]) (simp add: list.rel_refl)

lemma log_kept_append [intro]: "log_kept l (l @ new)"
  unfolding log_kept_def by (intro exI [of _ l] exI [of _ new]) (simp add: list.rel_refl)

lemma log_kept_trans:
  assumes "log_kept a b" "log_kept b c"
  shows "log_kept a c"
proof -
  obtain k1 n1 where ab: "b = k1 @ n1" "list_all2 row_kept a k1"
    using assms(1) unfolding log_kept_def by blast
  obtain k2 n2 where bc: "c = k2 @ n2" "list_all2 row_kept b k2"
    using assms(2) unfolding log_kept_def by blast
  obtain x y where xy: "k2 = x @ y" "list_all2 row_kept k1 x"
    using bc(2) unfolding ab(1) list_all2_append1 by blast
  have "list_all2 row_kept a x"
    using ab(2) xy(2) by (blast intro: list_all2_trans [of row_kept row_kept row_kept] row_kept_trans)
  then show ?thesis
    unfolding log_kept_def using bc(1) xy(1) by auto
qed

lemma log_kept_update:
  assumes "\<And>r. P r \<Longrightarrow> row_kept r (f r)"
  shows "log_kept l (update_rows P f l)"
  unfolding log_kept_def
  by (intro exI [of _ "update_rows P f l"] exI [of _ "[]"])
    (simp add: update_rows_def list_all2_conv_all_nth assms)

lemma find_kept:
  assumes "list_all2 row_kept l k" "List.find (is_call user call) l = Some r"
  shows "\<exists>r'. List.find (is_call user call) k = Some r' \<and> row_kept r r'"
  using assms
proof (induction rule: list_all2_induct)
  case (Cons x xs y ys)
  then have "is_call user call y = is_call user call x"
    by (simp add: row_kept_def is_call_def)
  with Cons show ?case by (auto split: if_splits)
qed simp

lemma member_kept:
  assumes "log_kept l l'" "r \<in> set l"
  shows "\<exists>r' \<in> set l'. row_kept r r'"
proof -
  obtain kept new where "l' = kept @ new" "list_all2 row_kept l kept"
    using assms(1) unfolding log_kept_def by blast
  with assms(2) show ?thesis
    by (metis Un_iff in_set_conv_nth list_all2_conv_all_nth set_append)
qed

lemma find_call_kept:
  assumes "log_kept (au_log st) (au_log st')" "find_call st user call = Some r"
  shows "\<exists>r'. find_call st' user call = Some r' \<and> row_kept r r'"
proof -
  obtain kept new where kept: "au_log st' = kept @ new" "list_all2 row_kept (au_log st) kept"
    using assms(1) unfolding log_kept_def by blast
  obtain r' where "List.find (is_call user call) kept = Some r'" "row_kept r r'"
    using find_kept [OF kept(2)] assms(2) unfolding find_call_def by blast
  then show ?thesis
    by (simp add: find_call_def kept(1) find_append_case)
qed

subsection \<open>Every step keeps them\<close>

lemma insert_cases:
  assumes "insert_audit env now rid q st = (Inr row, st')"
  obtains v where "row = new_record now rid q v" "\<not> exists_row (\<lambda>r. a_call r = ar_call q) (au_log st)"
    "st' = (on_sessions (note_message q) st)\<lparr>au_log := au_log st @ [row]\<rparr>"
    "ar_snapshot q = None \<or> (\<exists>snap. ar_snapshot q = Some snap
       \<and> admit_call env q snap (on_sessions (note_message q) st) = Inr v)"
  using assms by (auto simp: insert_audit_def Let_def split: if_splits option.splits sum.splits)

lemma write_meta_kept: "write_meta q r meta st = Inr st' \<Longrightarrow> log_kept (au_log st) (au_log st')"
  by (auto simp: write_meta_def Let_def row_kept_def same_resolution_def split: option.splits if_splits
      intro!: log_kept_update)

lemma write_resolution_kept: "write_resolution now q r st = Inr st' \<Longrightarrow> log_kept (au_log st) (au_log st')"
  by (auto simp: write_resolution_def resolvable_def open_to_def row_kept_def settled_def resolved_row_def
      split: if_splits intro!: log_kept_update)

lemma move_session_kept: "move_session q r meta st = Inr (revision, st') \<Longrightarrow> log_kept (au_log st) (au_log st')"
  by (auto simp: move_session_def Let_def row_kept_def same_resolution_def split: option.splits if_splits
      intro!: log_kept_update)

lemma clear_alignment_log [simp]: "au_log (clear_alignment now q r st) = au_log st"
  by (simp add: clear_alignment_def)

lemma resolve_kept:
  assumes "resolve_escalation env now q st0 st = Inr (revision, st')"
  shows "log_kept (au_log st) (au_log st')"
proof -
  obtain r meta st1 st2 where "write_meta q r meta st = Inr st1" "write_resolution now q r st1 = Inr st2"
      "move_session q r meta (clear_alignment now q r st2) = Inr (revision, st')"
    using assms by (auto simp: resolve_escalation_def resolve_transaction_def bindE_eq_Inr split: if_splits)
  from this(3) have "log_kept (au_log st2) (au_log st')" by (auto dest: move_session_kept)
  with write_meta_kept [OF \<open>write_meta q r meta st = Inr st1\<close>]
    write_resolution_kept [OF \<open>write_resolution now q r st1 = Inr st2\<close>]
  show ?thesis by (blast intro: log_kept_trans)
qed

lemma mark_execution_cases:
  assumes "mark_execution env now st0 st call user state = Inr (meta, st')"
  obtains seen where "find_call st0 user call = Some seen" "state \<in> {''dispatched'', ''completed'', ''uncertain''}"
    "dget (meta_of seen) ''execution_state'' = VStr (if state = ''dispatched'' then ''not_dispatched'' else ''dispatched'')"
    "meta = dset (meta_of seen) ''execution_state'' (VStr state)"
    "row_count (\<lambda>r. is_call user call r \<and> a_meta r = Some (meta_of seen)) (au_log st) = 1"
    "st' = update_log (\<lambda>r. is_call user call r \<and> a_meta r = Some (meta_of seen)) (\<lambda>r. r\<lparr>a_meta := Some meta\<rparr>) st"
  using assms
  by (auto simp: mark_execution_def get_by_call_id_def bindE_eq_Inr Let_def split: if_splits option.splits)

lemma audit_step_kept: "audit_step st st' \<Longrightarrow> log_kept (au_log st) (au_log st')"
proof (induction rule: audit_step.induct)
  case (inserted env now rid q st row st')
  then show ?case by (cases rule: insert_cases) auto
next
  case (resolved env now q st0 st revision st')
  then show ?case by (rule resolve_kept)
next
  case (executed env at_time st0 st call user state meta st')
  then show ?case
    by (cases rule: mark_execution_cases) (auto simp: row_kept_def same_resolution_def intro!: log_kept_update)
next
  case (reviewed env st0 st call user meta reasoning risk st')
  then show ?case
    by (auto simp: set_hybrid_review_def bindE_eq_Inr Let_def row_kept_def same_resolution_def
        split: if_splits intro!: log_kept_update)
next
  case (viewed st call user stage view st')
  then show ?case
    by (auto simp: record_model_view_def bindE_eq_Inr Let_def row_kept_def same_resolution_def
        split: if_splits intro!: log_kept_update)
next
  case (reasoned call reasoning user decision risk override st st')
  then show ?case
    by (auto simp: set_judge_reasoning_def row_kept_def same_resolution_def settled_def intro!: log_kept_update)
qed auto

lemma audit_steps_kept: "audit_step\<^sup>*\<^sup>* st st' \<Longrightarrow> log_kept (au_log st) (au_log st')"
  by (induction rule: rtranclp_induct) (auto intro: log_kept_trans audit_step_kept)

subsection \<open>Properties\<close>

text \<open>C13. A human decision on a call is final: whatever humans, Judges, admissions, dispatches and session
  writers do afterwards, and on however stale a reading, the call keeps the decision, its author and
  its effect.\<close>

theorem human_decision_final:
  assumes "audit_step\<^sup>*\<^sup>* st st'" "find_call st user call = Some r"
    and "a_resolved_by r = Some ''user''" "a_user_decision r = Some d"
  shows "\<exists>r'. find_call st' user call = Some r' \<and> a_user_decision r' = Some d
     \<and> a_resolved_by r' = Some ''user'' \<and> a_effective r' = a_effective r"
  using find_call_kept [OF audit_steps_kept [OF assms(1)] assms(2)] assms(3,4)
  by (auto simp: row_kept_def settled_def same_resolution_def)

definition sample_audit_env :: audit_env where
  "sample_audit_env = \<lparr>ae_digest = (\<lambda>_. ''h''), ae_result = (\<lambda>_. None)\<rparr>"

definition sample_request :: "string \<Rightarrow> string \<Rightarrow> pydict option \<Rightarrow> session option \<Rightarrow> admission" where
  "sample_request call decision meta snap =
     \<lparr>ar_call = call, ar_user = ''u'', ar_session = ''s'', ar_agent = Some ''a'', ar_tool = Some ''bash'',
      ar_args = None, ar_classification = Some ''write'', ar_path = ''llm'', ar_decision = decision,
      ar_risk = Some ''low'', ar_reasoning = None, ar_latency = 1, ar_type = ''tool_call'', ar_content = None,
      ar_args_hash = Some ''x'', ar_profile_version = None, ar_intention = None, ar_injection = False,
      ar_raw = None, ar_maximum = None, ar_minimum = None, ar_override = None, ar_meta = meta, ar_snapshot = snap\<rparr>"

definition sample_state :: audit_state where
  "sample_state = \<lparr>au_db = sample_hybrid_db, au_decls = [], au_log = []\<rparr>"

definition escalated_state :: audit_state where
  "escalated_state = snd (insert_audit sample_audit_env 1 ''r1'' (sample_request ''c1'' ''escalate'' None None) sample_state)"

definition sample_resolution :: "string \<Rightarrow> string \<Rightarrow> resolution" where
  "sample_resolution by decision =
     \<lparr>rs_call = ''c1'', rs_user = ''u'', rs_decision = decision, rs_note = None, rs_by = by, rs_reasoning = None,
      rs_judge_decision = None, rs_judge_risk = None, rs_meta = None\<rparr>"

definition resolved_state :: audit_state where
  "resolved_state = (case resolve_escalation sample_audit_env 2 (sample_resolution ''user'' ''deny'') escalated_state escalated_state
     of Inr (_, st) \<Rightarrow> st | Inl _ \<Rightarrow> sample_state)"

definition resolved_call :: audit where
  "resolved_call = hd (au_log resolved_state)"

lemma resolved_call_row:
  "find_call resolved_state ''u'' ''c1'' = Some resolved_call"
  "a_resolved_by resolved_call = Some ''user''" "a_user_decision resolved_call = Some ''deny''"
  by code_simp+

definition annotated_state :: audit_state where
  "annotated_state = set_judge_reasoning ''c1'' ''late'' ''u'' (Some ''approve'') None None resolved_state"

theorem human_decision_final_witness:
  "\<exists>r'. find_call annotated_state ''u'' ''c1'' = Some r' \<and> a_user_decision r' = Some ''deny''
     \<and> a_resolved_by r' = Some ''user'' \<and> a_effective r' = a_effective resolved_call"
  by (rule human_decision_final [OF r_into_rtranclp resolved_call_row])
    (rule audit_step.reasoned, rule annotated_state_def [symmetric])

subsection \<open>Approvals and floors\<close>

lemma enforce_approve: "fst (enforce Approve overlay m) = Approve \<Longrightarrow> read_only_required overlay \<Longrightarrow> m = ''read_only''"
  by (auto simp: enforce_def split: if_splits)

lemma session_fence_current:
  "session_fence st user sid meta code = Inr () \<Longrightarrow> \<exists>s \<in> set (db_sessions (au_db st)). session_current user sid meta s"
  using row_count_pos [of "session_current user sid meta" "db_sessions (au_db st)"]
  by (simp add: session_fence_def split: if_splits)

text \<open>C18. An approval respects the bounds the call was evaluated under.  A read-only requirement that the
  evidence does not prove cannot be approved past.  On a call evaluated by the hybrid policy, no one can
  approve past a denial floor and the Judge cannot stand in for a required human; there, and under a
  read-only overlay, the session must be unchanged and active since the evaluation; and a human approval
  of a call with a policy result still has to survive the protected bounds.  Calls evaluated without the
  hybrid policy carry no denial floor into their resolution: a human has the last word on them.\<close>

theorem approval_respects_floors:
  assumes "resolve_escalation env now q st0 st = Inr (revision, st')" "rs_decision q = ''approve''"
    and "find_call st0 (rs_user q) (rs_call q) = Some r"
  shows "(read_only_required (overlay_of (meta_of r)) \<longrightarrow> judged_mutation q (meta_of r) = VStr ''read_only'')
     \<and> (hybrid_meta (meta_of r) \<longrightarrow> a_minimum r \<noteq> Some ''deny''
          \<and> (rs_by q = ''judge'' \<longrightarrow> \<not> human_required q r \<and> rs_meta q \<noteq> None))
     \<and> (hybrid_meta (meta_of r) \<or> truthy (dget (meta_of r) ''overlay'') \<longrightarrow>
          (\<exists>s \<in> set (db_sessions (au_db st)). session_current (rs_user q) (a_session r) (meta_of r) s))
     \<and> (rs_by q = ''user'' \<and> truthy (dget (meta_of r) ''policy_result'') \<longrightarrow>
          (\<exists>final. refinalized env q r = Inr final \<and> fr_decision final = Approve))"
proof -
  have run: "read_only_check q (meta_of r) = Inr ()" "floor_check q r = Inr ()"
      "resolve_transaction env now q r st = Inr (revision, st')"
    using assms(1,3) by (auto simp: resolve_escalation_def get_by_call_id_def bindE_eq_Inr split: if_splits)
  obtain meta where fence: "resolution_fence env q r st = Inr ()" "resolved_meta env q r = Inr meta"
    using run(3) by (auto simp: resolve_transaction_def bindE_eq_Inr)
  have "mutation_word (judged_mutation q (meta_of r)) = ''read_only''" if "read_only_required (overlay_of (meta_of r))"
    using run(1) assms(2) that by (auto simp: read_only_check_def dest: enforce_approve split: if_splits)
  then have mutation: "judged_mutation q (meta_of r) = VStr ''read_only''" if "read_only_required (overlay_of (meta_of r))"
    using that by (cases "judged_mutation q (meta_of r)") (auto simp: mutation_word_def)
  have hybrid: "a_minimum r \<noteq> Some ''deny'' \<and> (rs_by q = ''judge'' \<longrightarrow> \<not> human_required q r \<and> rs_meta q \<noteq> None)"
    if "hybrid_meta (meta_of r)"
    using run(2) fence(1) assms(2) that
    by (auto simp: floor_check_def resolution_fence_def Let_def bindE_eq_Inr split: if_splits)
  have current: "\<exists>s \<in> set (db_sessions (au_db st)). session_current (rs_user q) (a_session r) (meta_of r) s"
    if "hybrid_meta (meta_of r) \<or> truthy (dget (meta_of r) ''overlay'')"
    using fence(1) that session_fence_current
    by (auto simp: resolution_fence_def Let_def bindE_eq_Inr split: if_splits)
  have "\<exists>final. refinalized env q r = Inr final \<and> fr_decision final = Approve"
    if "rs_by q = ''user''" "truthy (dget (meta_of r) ''policy_result'')"
  proof -
    note human = that
    obtain final where final: "refinalized env q r = Inr final" "outcome_text (fr_decision final) = ''approve''"
      using fence(2) human assms(2) by (auto simp: resolved_meta_def bindE_eq_Inr split: if_splits)
    then show ?thesis by (cases "fr_decision final") auto
  qed
  with mutation hybrid current show ?thesis by blast
qed

definition hybrid_sample :: pydict where
  "hybrid_sample =
     [(''evaluation_policy_version'', VStr ''hybrid_v1''), (''policy_revision'', VNum 1), (''state_revision'', VNum 1)]"

definition hybrid_state :: audit_state where
  "hybrid_state = snd (insert_audit sample_audit_env 1 ''r1'' (sample_request ''c1'' ''escalate'' (Some hybrid_sample) None) sample_state)"

definition hybrid_call :: audit where
  "hybrid_call = hd (au_log hybrid_state)"

definition judge_approval :: resolution where
  "judge_approval = (sample_resolution ''judge'' ''approve'')\<lparr>rs_meta := Some hybrid_sample\<rparr>"

definition judged_state :: audit_state where
  "judged_state = (case resolve_escalation sample_audit_env 2 judge_approval hybrid_state hybrid_state
     of Inr (_, st) \<Rightarrow> st | Inl _ \<Rightarrow> sample_state)"

lemma judge_approves:
  "resolve_escalation sample_audit_env 2 judge_approval hybrid_state hybrid_state = Inr (Some (1, 1), judged_state)"
  "rs_decision judge_approval = ''approve''"
  "find_call hybrid_state (rs_user judge_approval) (rs_call judge_approval) = Some hybrid_call"
  "hybrid_meta (meta_of hybrid_call)" "rs_by judge_approval = ''judge''"
  by code_simp+

theorem approval_respects_floors_witness:
  "a_minimum hybrid_call \<noteq> Some ''deny'' \<and> \<not> human_required judge_approval hybrid_call"
  using approval_respects_floors [OF judge_approves(1-3)] judge_approves(4,5) by blast

end
