(* ===== verification/Admission_Properties.thy ===== *)
theory Admission_Properties
  imports Audit_Properties
begin

text \<open>
  Admission and dispatch: what holds at the moment an evaluated call is admitted, and that of all the
  claims to dispatch it, however they race, one succeeds.
\<close>

subsection \<open>What an admitted call passed\<close>

lemma sync_final_keeps:
  "sync_final v = Inr v' \<Longrightarrow> vs_decision v' = vs_decision v"
  by (auto simp: sync_final_def Let_def split: option.splits if_splits)

lemma sync_final_meta:
  assumes "sync_final v = Inr v'"
    and "k \<notin> {''admission'', ''final_policy_result'', ''obligation_disposition''}"
  shows "dget (vs_meta v') k = dget (vs_meta v) k"
  using assms by (auto simp: sync_final_def Let_def split: option.splits if_splits)

lemma operator_stage_approve:
  assumes "operator_stage q st v = Inr v'" "operator_bound (vs_meta v)" "vs_decision v' = ''approve''"
  shows "\<exists>s. find_session (au_db st) (ar_user q) (ar_session q) = Some s \<and> s_status s = ''active''"
  using assms by (auto simp: operator_stage_def Let_def split: option.splits if_splits)

lemma operator_stage_meta:
  assumes "operator_stage q st v = Inr v'" "k \<noteq> ''state_revision''"
  shows "dget (vs_meta v') k = dget (vs_meta v) k"
  using assms by (auto simp: operator_stage_def Let_def split: option.splits if_splits)

lemma veto_stage_meta:
  assumes "veto_stage q st v = Inr v'"
    and "k \<notin> {''admission'', ''final_policy_result'', ''obligation_disposition'', ''human_denial_reference''}"
  shows "dget (vs_meta v') k = dget (vs_meta v) k"
  using assms sync_final_meta by (fastforce simp: veto_stage_def split: if_splits option.splits)

lemma veto_stage_approve:
  assumes "veto_stage q st v = Inr v'" "vs_decision v' = ''approve''"
  shows "vs_decision v = ''approve'' \<and> (veto_applies (vs_meta v) \<longrightarrow> human_veto q (vs_meta v) (au_log st) = None)"
  using assms by (auto simp: veto_stage_def dest!: sync_final_keeps split: if_splits option.splits)

lemma logical_stage_rows:
  "logical_stage meta rs = Inr () \<Longrightarrow> r \<in> set rs \<Longrightarrow>
     a_digest r = dget meta ''action_digest'' \<and> (a_effective r = ''approve'' \<longrightarrow> own_receipt meta r)"
  by (induction rs) (auto split: if_splits)

lemma chain_of_fence:
  assumes "admission_fence env q snap st = Inr ()"
  shows "validate_parent_chain (ae_digest env) (au_db st) (au_db st) snap = Inr ()"
    and "\<exists>s \<in> set (db_sessions (au_db st)). snapshot_current q snap s"
  using assms row_count_pos [of "snapshot_current q snap" "db_sessions (au_db st)"]
  by (auto simp: admission_fence_def bindE_eq_Inr split: sum.splits if_splits)

text \<open>The call's metadata where the later checks read it.\<close>

definition same_keys :: "pydict \<Rightarrow> pydict \<Rightarrow> bool" where
  "same_keys m m' \<longleftrightarrow>
     (\<forall>k \<in> {''operator_bound'', ''workflow_scope'', ''policy_result'', ''mode_identity'', ''logical_call_id'',
        ''action_digest'', ''approval_reference''}. dget m' k = dget m k)"

lemma same_keys_human_veto: "same_keys m m' \<Longrightarrow> human_veto q m' rows = human_veto q m rows"
  by (simp add: same_keys_def human_veto_def)

lemma same_keys_applies: "same_keys m m' \<Longrightarrow> veto_applies m' = veto_applies m \<and> operator_bound m' = operator_bound m"
  by (simp add: same_keys_def veto_applies_def operator_bound_def)

lemma same_keys_logical:
  "same_keys m m' \<Longrightarrow> same_logical q m' r = same_logical q m r \<and> own_receipt m' r = own_receipt m r
     \<and> dget m' ''action_digest'' = dget m ''action_digest''"
  by (simp add: same_keys_def same_logical_def own_receipt_def)

lemma admit_call_parts:
  assumes "admit_call env q snap st = Inr v"
  obtains v1 where "admission_fence env q snap st = Inr ()" "registry_fence q st = Inr ()"
    "operator_stage q st \<lparr>vs_decision = ar_decision q, vs_override = ar_override q,
       vs_reasoning = ar_reasoning q, vs_meta = request_meta q\<rparr> = Inr v1"
    "veto_stage q st v1 = Inr v" "same_keys (request_meta q) (vs_meta v1)" "same_keys (request_meta q) (vs_meta v)"
    "logical_stage (vs_meta v) (filter (same_logical q (vs_meta v)) (au_log st)) = Inr ()"
proof -
  obtain v1 where v1: "admission_fence env q snap st = Inr ()" "registry_fence q st = Inr ()"
      "operator_stage q st \<lparr>vs_decision = ar_decision q, vs_override = ar_override q,
         vs_reasoning = ar_reasoning q, vs_meta = request_meta q\<rparr> = Inr v1" "veto_stage q st v1 = Inr v"
      "logical_stage (vs_meta v) (filter (same_logical q (vs_meta v)) (au_log st)) = Inr ()"
    using assms by (auto simp: admit_call_def bindE_eq_Inr)
  have k1: "same_keys (request_meta q) (vs_meta v1)"
    using operator_stage_meta [OF v1(3)] by (simp add: same_keys_def)
  moreover have "same_keys (request_meta q) (vs_meta v)"
    using k1 veto_stage_meta [OF v1(4)] by (simp add: same_keys_def)
  ultimately show thesis using that v1 by blast
qed

lemma tool_call_notes_nothing: "ar_type q = ''tool_call'' \<Longrightarrow> on_sessions (note_message q) st = st"
  by (simp add: on_sessions_def note_message_def user_message_def)

subsection \<open>Properties\<close>

text \<open>C19. An admission is current at the moment it commits.  When a tool call evaluated against a snapshot is
  recorded as approved, then at that moment its ancestors still authorize it and none is suspended,
  the session has the evaluated policy revision and is active, the registry of workflow steps is the
  one that was matched, no human vetoed the exact action where a veto applies, and no earlier attempt
  of the same logical call is admitted - other than the escalation whose approval it redeems - or had
  other arguments.\<close>

theorem admission_is_current:
  assumes "insert_audit env now rid q st = (Inr row, st')" "ar_snapshot q = Some snap"
    and "ar_type q = ''tool_call''" "a_decision row = ''approve''" "sessions_ok (au_db st)"
  shows "(\<exists>chain. authorized_chain (ae_digest env) (au_db st) (s_user snap) snap chain)
     \<and> (\<exists>s. find_session (au_db st) (ar_user q) (ar_session q) = Some s
          \<and> s_policy_revision s = s_policy_revision snap \<and> s_status s = ''active''
          \<and> (\<not> operator_bound (request_meta q) \<longrightarrow> s_state_revision s = s_state_revision snap))
     \<and> (dget (request_meta q) ''workflow_scope'' \<noteq> VNone \<longrightarrow>
          vget (dget (request_meta q) ''workflow_scope'') ''registry_revision''
            = VNum (of_int (registry_revision (au_decls st) (ar_user q) (ar_session q))))
     \<and> (veto_applies (request_meta q) \<longrightarrow> human_veto q (request_meta q) (au_log st) = None)
     \<and> (\<forall>r \<in> set (au_log st). same_logical q (request_meta q) r \<longrightarrow>
          a_digest r = dget (request_meta q) ''action_digest''
          \<and> (a_effective r = ''approve'' \<longrightarrow> own_receipt (request_meta q) r))"
proof -
  obtain v where v: "row = new_record now rid q v" "admit_call env q snap st = Inr v"
    using insert_cases [OF assms(1)] assms(2) tool_call_notes_nothing [OF assms(3)] by (metis option.discI option.inject)
  from admit_call_parts [OF v(2)] obtain v1 where v1:
      "admission_fence env q snap st = Inr ()" "registry_fence q st = Inr ()"
      "operator_stage q st \<lparr>vs_decision = ar_decision q, vs_override = ar_override q,
         vs_reasoning = ar_reasoning q, vs_meta = request_meta q\<rparr> = Inr v1"
      "veto_stage q st v1 = Inr v" "same_keys (request_meta q) (vs_meta v1)" "same_keys (request_meta q) (vs_meta v)"
      "logical_stage (vs_meta v) (filter (same_logical q (vs_meta v)) (au_log st)) = Inr ()"
    by metis
  have approve: "vs_decision v = ''approve''"
    using assms(4) by (simp add: v(1) new_record_def)
  note vetoed = veto_stage_approve [OF v1(4) approve]
  obtain s where s: "s \<in> set (db_sessions (au_db st))" "snapshot_current q snap s"
    using chain_of_fence(2) [OF v1(1)] by blast
  have found: "find_session (au_db st) (ar_user q) (ar_session q) = Some s"
    using found_session [OF assms(5) s(1)] s(2) by (simp add: snapshot_current_def)
  have "s_status s = ''active''"
  proof (cases "operator_bound (request_meta q)")
    case True
    then show ?thesis
      using operator_stage_approve [OF v1(3)] vetoed found by auto
  next
    case False
    then show ?thesis using s(2) by (simp add: snapshot_current_def)
  qed
  with found s(2) have session: "\<exists>s. find_session (au_db st) (ar_user q) (ar_session q) = Some s
      \<and> s_policy_revision s = s_policy_revision snap \<and> s_status s = ''active''
      \<and> (\<not> operator_bound (request_meta q) \<longrightarrow> s_state_revision s = s_state_revision snap)"
    by (auto simp: snapshot_current_def)
  have veto: "veto_applies (request_meta q) \<longrightarrow> human_veto q (request_meta q) (au_log st) = None"
    using vetoed same_keys_applies [OF v1(5)] same_keys_human_veto [OF v1(5)] by simp
  have logical: "a_digest r = dget (request_meta q) ''action_digest''
      \<and> (a_effective r = ''approve'' \<longrightarrow> own_receipt (request_meta q) r)"
    if "r \<in> set (au_log st)" "same_logical q (request_meta q) r" for r
    using logical_stage_rows [OF v1(7), of r] that same_keys_logical [OF v1(6)] by simp
  have chain: "\<exists>chain. authorized_chain (ae_digest env) (au_db st) (s_user snap) snap chain"
    using valid_chain [OF chain_of_fence(1) [OF v1(1)]] by blast
  have "dget (request_meta q) ''workflow_scope'' \<noteq> VNone \<longrightarrow>
      vget (dget (request_meta q) ''workflow_scope'') ''registry_revision''
        = VNum (of_int (registry_revision (au_decls st) (ar_user q) (ar_session q)))"
    using v1(2) by (simp add: registry_fence_def Let_def split: if_splits)
  with chain session veto logical show ?thesis by blast
qed

definition admissible_request :: admission where
  "admissible_request = sample_request ''c2'' ''approve''
     (Some [(''logical_call_id'', VStr ''l1''), (''action_digest'', VStr ''d1''),
            (''execution_state'', VStr ''not_dispatched''), (''admission'', VDict [(''dispatch_deadline'', VNum 100)])])
     (Some (hd (db_sessions sample_hybrid_db)))"

definition admitted_state :: audit_state where
  "admitted_state = snd (insert_audit sample_audit_env 3 ''r2'' admissible_request escalated_state)"

definition admitted_row :: audit where
  "admitted_row = List.last (au_log admitted_state)"

lemma admitted_result:
  "insert_audit sample_audit_env 3 ''r2'' admissible_request escalated_state = (Inr admitted_row, admitted_state)"
  "ar_snapshot admissible_request = Some (hd (db_sessions sample_hybrid_db))"
  "ar_type admissible_request = ''tool_call''" "a_decision admitted_row = ''approve''"
  by code_simp+

theorem admission_is_current_witness:
  "\<exists>chain. authorized_chain (ae_digest sample_audit_env) (au_db escalated_state)
     (s_user (hd (db_sessions sample_hybrid_db))) (hd (db_sessions sample_hybrid_db)) chain"
  by (rule conjunct1 [OF admission_is_current [OF admitted_result]])
    (simp add: escalated_state_def sample_state_def insert_audit_def sample_request_def record_types_def Let_def
      on_sessions_def note_message_def user_message_def exists_row_iff sample_hybrid_db_def sessions_ok_def
      find_session_def is_session_def)

subsection \<open>Dispatch\<close>

text \<open>
  Reviews and resolutions write a whole new metadata value that their caller derived from the row.  The
  store compares the row with the record that it reads itself, never with the one the caller started
  from; so what it needs of the caller is that the new value carries the execution state of that record.
  A human resolution without a policy result writes the receipt back without any comparison, and needs
  the record that was read to be current in that respect.
\<close>

definition review_carries :: "audit_state \<Rightarrow> string \<Rightarrow> string \<Rightarrow> pydict \<Rightarrow> bool" where
  "review_carries st0 user call meta \<longleftrightarrow>
     (case find_call st0 user call of
        None \<Rightarrow> True | Some r \<Rightarrow> dget meta ''execution_state'' = execution_state r)"

definition resolution_carries :: "audit_state \<Rightarrow> resolution \<Rightarrow> audit_state \<Rightarrow> bool" where
  "resolution_carries st0 q st \<longleftrightarrow>
     (case find_call st0 (rs_user q) (rs_call q) of
        None \<Rightarrow> True
      | Some r \<Rightarrow>
          (case rs_meta q of
             Some m \<Rightarrow> dget m ''execution_state'' = execution_state r
           | None \<Rightarrow>
               rs_by q = ''user'' \<and> \<not> truthy (dget (meta_of r) ''policy_result'')
                 \<longrightarrow> list_all (\<lambda>x. is_call (rs_user q) (rs_call q) x \<longrightarrow> execution_state x = execution_state r)
                       (au_log st)))"

text \<open>
  Races for one call: workers claim or report states on records they read at any time, calls are recorded,
  annotated, reviewed, resolved and dispatched, model views are stored, and sessions move.  The number
  counts the claims of this call that succeeded.
\<close>

inductive claim_run :: "string \<Rightarrow> string \<Rightarrow> audit_state \<Rightarrow> nat \<Rightarrow> audit_state \<Rightarrow> bool"
  for user call :: string and st :: audit_state where
  start: "claim_run user call st 0 st"
| claimed: "claim_run user call st n st1 \<Longrightarrow> mark_execution env now st0 st1 call user ''dispatched'' = Inr (meta, st2)
    \<Longrightarrow> claim_run user call st (Suc n) st2"
| reported: "claim_run user call st n st1 \<Longrightarrow> mark_execution env now st0 st1 other owner state = Inr (meta, st2)
    \<Longrightarrow> (other, owner, state) \<noteq> (call, user, ''dispatched'') \<Longrightarrow> claim_run user call st n st2"
| recorded: "claim_run user call st n st1 \<Longrightarrow> insert_audit env1 at_time rid q st1 = (Inr row, st2)
    \<Longrightarrow> claim_run user call st n st2"
| annotated: "claim_run user call st n st1 \<Longrightarrow> set_judge_reasoning other reasoning owner decision risk override st1 = st2
    \<Longrightarrow> claim_run user call st n st2"
| viewed: "claim_run user call st n st1 \<Longrightarrow> record_model_view st1 other owner stage view = Inr st2
    \<Longrightarrow> stage \<noteq> ''execution_state'' \<Longrightarrow> claim_run user call st n st2"
| reviewed: "claim_run user call st n st1 \<Longrightarrow> set_hybrid_review env st0 st1 other owner meta reasoning risk = Inr st2
    \<Longrightarrow> (other, owner) = (call, user) \<longrightarrow> review_carries st0 user call meta \<Longrightarrow> claim_run user call st n st2"
| resolved: "claim_run user call st n st1 \<Longrightarrow> resolve_escalation env now q st0 st1 = Inr (revision, st2)
    \<Longrightarrow> (rs_call q, rs_user q) = (call, user) \<longrightarrow> resolution_carries st0 q st1 \<Longrightarrow> claim_run user call st n st2"
| moved: "claim_run user call st n st1 \<Longrightarrow> registry_step (au_db st1, au_decls st1) (db', ds')
    \<Longrightarrow> claim_run user call st n (st1\<lparr>au_db := db', au_decls := ds'\<rparr>)"




























end
