(* ===== verification/Rule_Codec.thy ===== *)
theory Rule_Codec
  imports Predicates
begin

text \<open>
  Rules as the JSON objects policies store: \<^verbatim>\<open>Rule.model_validate\<close> and
  \<^verbatim>\<open>model_dump(exclude_none=True)\<close> of \<^verbatim>\<open>intaris/hybrid.py\<close> (unknown keys are
  forbidden, absent keys take their defaults), and \<^verbatim>\<open>validate_rules\<close> on raw objects.
\<close>

subsection \<open>Words of the wire format\<close>

definition op_words :: "(string \<times> pop) list" where
  "op_words =
     [(''all'', OpAll), (''any'', OpAny), (''not'', OpNot), (''eq'', OpEq), (''in'', OpIn),
      (''contains'', OpContains), (''tool_matches'', OpTool), (''command_matches'', OpCommand),
      (''path_matches'', OpPath)]"

definition quantifier_words :: "(string \<times> quantifier) list" where
  "quantifier_words = [(''any'', QAny), (''all'', QAll)]"

definition effect_words :: "(string \<times> rule_effect) list" where
  "effect_words = [(''allow'', AllowRule), (''deny'', DenyRule), (''require_approval'', RequireApproval)]"

definition word_of :: "(string \<times> 'a) list \<Rightarrow> 'a \<Rightarrow> string" where
  "word_of table x = the (map_of (map (\<lambda>(w, y). (y, w)) table) x)"

fun read_str :: "pyval \<Rightarrow> string option" where
  "read_str (VStr s) = Some s"
| "read_str _ = None"

definition read_word :: "(string \<times> 'a) list \<Rightarrow> pyval \<Rightarrow> 'a option" where
  "read_word table v = (case read_str v of None \<Rightarrow> None | Some s \<Rightarrow> map_of table s)"

definition read_opt :: "(pyval \<Rightarrow> 'a option) \<Rightarrow> pyval \<Rightarrow> 'a option option" where
  "read_opt f v = (if v = VNone then Some None else map_option Some (f v))"

definition write_opt :: "string \<Rightarrow> ('a \<Rightarrow> string) \<Rightarrow> 'a option \<Rightarrow> pydict" where
  "write_opt key f x = (case x of None \<Rightarrow> [] | Some y \<Rightarrow> [(key, VStr (f y))])"

subsection \<open>Predicates\<close>

definition pred_keys :: "string list" where
  "pred_keys = [''op'', ''children'', ''field'', ''value'', ''quantifier'']"

lemma dget_size: "dget d k = VList cs \<Longrightarrow> c \<in> set cs \<Longrightarrow> size c < size (VDict d)"
proof -
  assume "dget d k = VList cs" "c \<in> set cs"
  then have member: "(k, VList cs) \<in> set d"
    by (auto simp: dget_def dest: map_of_SomeD split: option.splits)
  have "size c < size (VList cs)"
    using \<open>c \<in> set cs\<close> by (auto simp: less_Suc_eq_le intro!: size_list_estimation')
  also have "\<dots> < size (VDict d)"
    using size_list_estimation' [OF member, of "size (VList cs)" "size_prod (\<lambda>_. 0) size"] by simp
  finally show ?thesis .
qed

function parse_pred :: "pyval \<Rightarrow> pred option" where
  "parse_pred v =
     (case v of
        VDict d \<Rightarrow>
          (if \<not> set (map fst d) \<subseteq> set pred_keys then None
           else
             (case (read_word op_words (dget d ''op''),
                    (case dget d ''children'' of
                       VNone \<Rightarrow> Some None
                     | VList cs \<Rightarrow> map_option Some (those (map parse_pred cs))
                     | _ \<Rightarrow> None),
                    read_opt read_str (dget d ''field''),
                    read_opt (read_word quantifier_words) (dget d ''quantifier'')) of
                (Some op, Some children, Some field, Some quant) \<Rightarrow>
                  (let p = Pred op children field (dget d ''value'') quant in
                   if validate_operation p = None then Some p else None)
              | _ \<Rightarrow> None))
      | _ \<Rightarrow> None)"
  by pat_completeness auto
termination
  by (relation "measure size") (auto dest: dget_size)

declare parse_pred.simps [simp del]

fun dump_pred :: "pred \<Rightarrow> pyval" where
  "dump_pred (Pred op children f v q) =
     VDict ([(''op'', VStr (word_of op_words op))]
       @ (case children of None \<Rightarrow> [] | Some cs \<Rightarrow> [(''children'', VList (map dump_pred cs))])
       @ write_opt ''field'' id f
       @ (if v = VNone then [] else [(''value'', v)])
       @ write_opt ''quantifier'' (word_of quantifier_words) q)"

subsection \<open>Rules\<close>

definition rule_keys :: "string list" where
  "rule_keys = [''id'', ''effect'', ''when'', ''description'']"

definition parse_rule :: "pyval \<Rightarrow> rule option" where
  "parse_rule v =
     (case v of
        VDict d \<Rightarrow>
          (if \<not> set (map fst d) \<subseteq> set rule_keys then None
           else
             (case (read_str (dget d ''id''), read_word effect_words (dget d ''effect''),
                    parse_pred (dget d ''when''), read_opt read_str (dget d ''description'')) of
                (Some i, Some effect, Some condition, Some description) \<Rightarrow>
                  (let r = \<lparr>r_id = i, r_effect = effect, r_when = condition, r_description = description\<rparr> in
                   if valid_rule r then Some r else None)
              | _ \<Rightarrow> None))
      | _ \<Rightarrow> None)"

definition dump_rule :: "rule \<Rightarrow> pyval" where
  "dump_rule r =
     VDict ([(''id'', VStr (r_id r)), (''effect'', VStr (word_of effect_words (r_effect r))),
        (''when'', dump_pred (r_when r))] @ write_opt ''description'' id (r_description r))"

definition load_rules :: "pyval list \<Rightarrow> rules_error + rule list" where
  "load_rules raw =
     (if length raw > 64 then Inl TooManyRules
      else case those (map parse_rule raw) of
        None \<Rightarrow> Inl InvalidRule
      | Some rules \<Rightarrow> if \<not> distinct (map r_id rules) then Inl DuplicateRuleIds else Inr rules)"

subsection \<open>Reading back what was written\<close>

lemma word_tables:
  "map_of op_words (word_of op_words op) = Some op"
  "map_of quantifier_words (word_of quantifier_words q) = Some q"
  "map_of effect_words (word_of effect_words e) = Some e"
  subgoal by (cases op; simp add: word_of_def op_words_def)
  subgoal by (cases q; simp add: word_of_def quantifier_words_def)
  subgoal by (cases e; simp add: word_of_def effect_words_def)
  done

lemma those_map_Some: "(\<forall>x \<in> set xs. f x = Some (g x)) \<Longrightarrow> those (map f xs) = Some (map g xs)"
  by (induction xs) auto

lemma those_Some: "those xs = Some ys \<longleftrightarrow> xs = map Some ys"
proof (induction xs arbitrary: ys)
  case (Cons x xs)
  then show ?case by (cases ys) (auto split: option.splits)
qed auto

lemma parse_dump_pred: "valid_pred p \<Longrightarrow> parse_pred (dump_pred p) = Some p"
proof (induction p rule: dump_pred.induct)
  case (1 op children f v q)
  have children: "those (map parse_pred (map dump_pred cs)) = Some cs" if "children = Some cs" for cs
    using 1 that those_map_Some [of cs "parse_pred \<circ> dump_pred" id] by simp
  have "validate_operation (Pred op children f v q) = None"
    using 1(2) by simp
  with children show ?case
    by (cases children; cases f; cases q; cases "v = VNone")
      (simp_all add: parse_pred.simps [of "VDict _"] pred_keys_def write_opt_def read_opt_def read_word_def
        word_tables dget_def Let_def)
qed

lemma parse_dump_rule: "valid_rule r \<Longrightarrow> parse_rule (dump_rule r) = Some r"
  using parse_dump_pred [of "r_when r"]
  by (cases "r_description r")
    (auto simp: parse_rule_def dump_rule_def rule_keys_def write_opt_def read_opt_def read_word_def word_tables
      dget_def Let_def valid_rule_def)

lemma parse_rule_valid: "parse_rule v = Some r \<Longrightarrow> valid_rule r"
  by (auto simp: parse_rule_def Let_def split: pyval.splits option.splits if_splits)

lemma load_rulesD:
  assumes "load_rules raw = Inr rules"
  shows "list_all valid_rule rules" "distinct (map r_id rules)" "length rules \<le> 64"
    "map parse_rule raw = map Some rules"
proof -
  show parsed: "map parse_rule raw = map Some rules"
    using assms by (auto simp: load_rules_def those_Some split: if_splits option.splits)
  then show "list_all valid_rule rules"
    using parse_rule_valid by (auto simp: list_all_iff dest!: arg_cong [where f = set])
      (metis image_eqI imageE parse_rule_valid)
  show "distinct (map r_id rules)" "length rules \<le> 64"
    using assms arg_cong [OF parsed, of length] by (auto simp: load_rules_def those_Some split: if_splits option.splits)
qed

lemma parse_dump_rules:
  "list_all valid_rule rules \<Longrightarrow> those (map parse_rule (map dump_rule rules)) = Some rules"
  using those_map_Some [of rules "parse_rule \<circ> dump_rule" id] parse_dump_rule by (simp add: list_all_iff)

text \<open>C26. Rules survive storage: what a policy's raw rules validate to is a list of valid, distinct rules, and
  its dump validates to the same list again - as it must when an evaluation reads the rules back from
  the stored snapshot.\<close>

theorem rules_survive_storage:
  assumes "load_rules raw = Inr rules"
  shows "load_rules (map dump_rule rules) = Inr rules \<and> validate_rules rules = Inr rules"
proof -
  note loaded = load_rulesD [OF assms]
  with parse_dump_rules show ?thesis
    by (simp add: load_rules_def validate_rules_def)
qed

definition sample_raw_rules :: "pyval list" where
  "sample_raw_rules =
     [VDict [(''id'', VStr ''r1''), (''effect'', VStr ''deny''),
        (''when'', VDict [(''op'', VStr ''all''), (''children'', VList
           [VDict [(''op'', VStr ''eq''), (''field'', VStr ''environment''), (''value'', VStr ''production'')],
            VDict [(''op'', VStr ''path_matches''), (''value'', VStr ''/etc/*''), (''quantifier'', VStr ''any'')]])])]]"

definition sample_loaded_rules :: "rule list" where
  "sample_loaded_rules =
     [\<lparr>r_id = ''r1'', r_effect = DenyRule,
       r_when = Pred OpAll (Some [Pred OpEq None (Some ''environment'') (VStr ''production'') None,
          Pred OpPath None None (VStr ''/etc/*'') (Some QAny)]) None VNone None,
       r_description = None\<rparr>]"

theorem rules_survive_storage_witness:
  "load_rules (map dump_rule sample_loaded_rules) = Inr sample_loaded_rules
     \<and> validate_rules sample_loaded_rules = Inr sample_loaded_rules"
  by (rule rules_survive_storage [of sample_raw_rules]) code_simp

end
