(* ===== verification/Json_Text.thy ===== *)
theory Json_Text
  imports Prelude
begin

text \<open>
  \<^verbatim>\<open>json.dumps\<close> with \<^verbatim>\<open>sort_keys=True\<close> and the separators the code chooses, and the
  law the code relies on: two values without numbers that print alike are the same value.  The only
  numbers the code prints where the text matters are integers.
\<close>

subsection \<open>Strings\<close>

definition hex_digit :: "nat \<Rightarrow> char" where
  "hex_digit k = char_of (if k < 10 then 48 + k else 87 + k)"

definition json_escape :: "char \<Rightarrow> string" where
  "json_escape c =
     (let n = (of_char c :: nat) in
      if n = 34 then [CHR 0x5C, CHR 0x22]
      else if n = 92 then [CHR 0x5C, CHR 0x5C]
      else if n = 8 then [CHR 0x5C, CHR ''b'']
      else if n = 9 then [CHR 0x5C, CHR ''t'']
      else if n = 10 then [CHR 0x5C, CHR ''n'']
      else if n = 12 then [CHR 0x5C, CHR ''f'']
      else if n = 13 then [CHR 0x5C, CHR ''r'']
      else if 32 \<le> n \<and> n \<le> 126 then [c]
      else [CHR 0x5C, CHR ''u'', CHR ''0'', CHR ''0'', hex_digit (n div 16), hex_digit (n mod 16)])"

definition json_string :: "string \<Rightarrow> string" where
  "json_string s = CHR 0x22 # concat (map json_escape s) @ [CHR 0x22]"

subsection \<open>Values\<close>

definition int_text :: "int \<Rightarrow> string" where
  "int_text k = (if k < 0 then ''-'' @ nat_str (nat (- k)) else nat_str (nat k))"

definition num_text :: "rat \<Rightarrow> string" where
  "num_text r = (let (a, b) = quotient_of r in if b = 1 then int_text a else int_text a @ ''/'' @ int_text b)"

text \<open>The separators between items and between a key and its value.\<close>

type_synonym separators = "string \<times> string"

fun json_text :: "separators \<Rightarrow> pyval \<Rightarrow> string"
and json_items :: "separators \<Rightarrow> pyval list \<Rightarrow> string"
and json_members :: "separators \<Rightarrow> pydict \<Rightarrow> string" where
  "json_text sep VNone = ''null''"
| "json_text sep (VBool b) = (if b then ''true'' else ''false'')"
| "json_text sep (VNum r) = num_text r"
| "json_text sep (VStr s) = json_string s"
| "json_text sep (VList []) = ''[]''"
| "json_text sep (VList (v # vs)) = ''['' @ json_text sep v @ json_items sep vs"
| "json_text sep (VDict []) = ''{}''"
| "json_text sep (VDict ((k, v) # d)) =
     ''{'' @ json_string k @ snd sep @ json_text sep v @ json_members sep d"
| "json_items sep [] = '']''"
| "json_items sep (v # vs) = fst sep @ json_text sep v @ json_items sep vs"
| "json_members sep [] = ''}''"
| "json_members sep ((k, v) # d) =
     fst sep @ json_string k @ snd sep @ json_text sep v @ json_members sep d"

fun sort_keys :: "pyval \<Rightarrow> pyval" where
  "sort_keys (VList vs) = VList (map sort_keys vs)"
| "sort_keys (VDict d) = VDict (sort_key fst (map (\<lambda>(k, v). (k, sort_keys v)) d))"
| "sort_keys v = v"

definition json_dumps :: "separators \<Rightarrow> pyval \<Rightarrow> string" where
  "json_dumps sep v = json_text sep (sort_keys v)"

definition wide :: separators where
  "wide = ('', '', '': '')"

definition compact :: separators where
  "compact = ('','', '':'')"

subsection \<open>Printing is injective\<close>

text \<open>Reading back one escaped character.\<close>

definition hex_value :: "char \<Rightarrow> nat" where
  "hex_value c = (let n = of_char c in if n < 58 then n - 48 else n - 87)"

definition short_escapes :: "(char \<times> nat) list" where
  "short_escapes = [(CHR ''b'', 8), (CHR ''t'', 9), (CHR ''n'', 10), (CHR ''f'', 12), (CHR ''r'', 13)]"

fun unescape :: "string \<Rightarrow> char \<times> string" where
  "unescape (x # y # s) =
     (if x \<noteq> CHR 0x5C then (x, y # s)
      else if y = CHR ''u'' then (char_of (16 * hex_value (s ! 2) + hex_value (s ! 3)), drop 4 s)
      else (case map_of short_escapes y of Some n \<Rightarrow> (char_of n, s) | None \<Rightarrow> (y, s)))"
| "unescape s = (hd s, tl s)"

lemma hex_value_digit: "k < 16 \<Longrightarrow> hex_value (hex_digit k) = k"
  by (auto simp: hex_value_def hex_digit_def Let_def)

lemma unescape_escape: "unescape (json_escape c @ x # r) = (c, x # r)"
proof -
  obtain n where c: "c = char_of (n :: nat)" and n: "n < 256"
    using char_of_char nat_of_char_less_256 by metis
  have quotes: "char_of (34 :: nat) = CHR 0x22" "char_of (92 :: nat) = CHR 0x5C"
    by (simp_all add: char_of_def bit_simps)
  have digits: "n div 16 < 16" "16 * (n div 16) + n mod 16 = n"
    using n by auto
  have "c = CHR 0x5C \<longleftrightarrow> of_char c = (of_char (CHR 0x5C) :: nat)"
    by (simp only: of_char_eq_iff)
  then have backslash: "c = CHR 0x5C \<longleftrightarrow> n = 92"
    using n by (simp add: c)
  show ?thesis
  proof (cases "n \<in> {34, 92, 8, 9, 10, 12, 13}")
    case True
    then show ?thesis
      unfolding c by (elim insertE emptyE) (simp_all add: json_escape_def short_escapes_def quotes)
  next
    case False
    then have "json_escape c = (if 32 \<le> n \<and> n \<le> 126 then [c]
        else [CHR 0x5C, CHR ''u'', CHR ''0'', CHR ''0'', hex_digit (n div 16), hex_digit (n mod 16)])"
      using n by (simp add: json_escape_def Let_def c of_char_of)
    with False backslash show ?thesis
      by (simp add: hex_value_digit digits) (simp add: c)
  qed
qed

lemma escape_starts: "\<exists>y s. json_escape c = y # s \<and> y \<noteq> CHR 0x22"
proof -
  have "y \<noteq> CHR 0x22" if "y = c" "of_char c \<noteq> (34 :: nat)" for y
    using that by auto
  then show ?thesis
    by (auto simp: json_escape_def Let_def)
qed

lemma json_string_inject:
  "json_string s @ r = json_string t @ r' \<longleftrightarrow> s = t \<and> r = r'"
proof -
  have "concat (map json_escape s) @ CHR 0x22 # r = concat (map json_escape t) @ CHR 0x22 # r'
      \<Longrightarrow> s = t \<and> r = r'"
  proof (induction s arbitrary: t)
    case Nil
    then show ?case
      using escape_starts by (cases t) (auto, metis append_Cons list.inject)
  next
    case (Cons c s)
    obtain d t' where t: "t = d # t'"
      using Cons.prems escape_starts [of c] by (cases t) auto
    have "\<exists>x u. concat (map json_escape s) @ CHR 0x22 # r = x # u" for s r
      by (cases "concat (map json_escape s) @ CHR 0x22 # r") auto
    then obtain x u x' u' where rest: "concat (map json_escape s) @ CHR 0x22 # r = x # u"
        "concat (map json_escape t') @ CHR 0x22 # r' = x' # u'"
      by metis
    have "json_escape c @ x # u = json_escape d @ x' # u'"
      using Cons.prems by (simp add: t rest)
    then have "c = d" "x # u = x' # u'"
      using unescape_escape by (metis prod.inject)+
    with Cons.IH [of t'] show ?case
      by (simp add: t rest)
  qed
  then show ?thesis
    by (auto simp: json_string_def)
qed

text \<open>Values without numbers.\<close>

fun numberless :: "pyval \<Rightarrow> bool" where
  "numberless (VNum r) \<longleftrightarrow> False"
| "numberless (VList vs) \<longleftrightarrow> (\<forall>v \<in> set vs. numberless v)"
| "numberless (VDict d) \<longleftrightarrow> (\<forall>kv \<in> set d. numberless (snd kv))"
| "numberless v \<longleftrightarrow> True"

text \<open>Separators begin with a comma and a colon.\<close>

definition proper :: "separators \<Rightarrow> bool" where
  "proper sep \<longleftrightarrow> starts_with (fst sep) '','' \<and> starts_with (snd sep) '':''"

lemma proper_separators [simp]: "proper wide" "proper compact"
  by (simp_all add: proper_def wide_def compact_def starts_with_def)

lemma json_text_start:
  "numberless v \<Longrightarrow> \<exists>y s. json_text sep v = y # s \<and> y \<noteq> CHR '']''"
  by (cases "(sep, v)" rule: json_text.cases) (auto simp: json_string_def)

lemma json_text_not_closed:
  "numberless v \<Longrightarrow> CHR '']'' # r \<noteq> json_text sep v @ s"
  "numberless v \<Longrightarrow> json_text sep v @ s \<noteq> CHR '']'' # r"
  by (drule json_text_start [of v sep], auto)+

lemma json_text_inject:
  "proper sep \<Longrightarrow> numberless v \<Longrightarrow> numberless w \<Longrightarrow>
     json_text sep v @ r = json_text sep w @ r' \<Longrightarrow> v = w \<and> r = r'"
  "proper sep \<Longrightarrow> (\<forall>v \<in> set vs. numberless v) \<Longrightarrow> (\<forall>v \<in> set ws. numberless v) \<Longrightarrow>
     json_items sep vs @ r = json_items sep ws @ r' \<Longrightarrow> vs = ws \<and> r = r'"
  "proper sep \<Longrightarrow> (\<forall>kv \<in> set d. numberless (snd kv)) \<Longrightarrow> (\<forall>kv \<in> set e. numberless (snd kv)) \<Longrightarrow>
     json_members sep d @ r = json_members sep e @ r' \<Longrightarrow> d = e \<and> r = r'"
proof (induction sep v and sep vs and sep d arbitrary: w r r' and ws r r' and e r r'
    rule: json_text_json_items_json_members.induct)
  case (5 sep)
  then show ?case
    by (cases "(sep, w)" rule: json_text.cases) (auto simp: json_string_def json_text_not_closed split: if_splits)
next
  case (6 sep v vs)
  show ?case
  proof (cases "(sep, w)" rule: json_text.cases)
    case (6 sep' v' vs')
    with "6.prems" have "json_text sep v @ json_items sep vs @ r = json_text sep v' @ json_items sep vs' @ r'"
      by simp
    with "6.IH"(1) [of v' "json_items sep vs @ r" "json_items sep vs' @ r'"] "6.IH"(2) [of vs' r r'] "6.prems" 6
    show ?thesis by simp
  qed (use "6.prems" in \<open>auto simp: json_string_def json_text_not_closed split: if_splits\<close>)
next
  case (8 sep k v d)
  show ?case
  proof (cases "(sep, w)" rule: json_text.cases)
    case (8 sep' k' v' d')
    with "8.prems" have "k = k' \<and> snd sep @ json_text sep v @ json_members sep d @ r
        = snd sep @ json_text sep v' @ json_members sep d' @ r'"
      using json_string_inject [of k "snd sep @ json_text sep v @ json_members sep d @ r" k'
          "snd sep @ json_text sep v' @ json_members sep d' @ r'"] by simp
    with "8.IH"(1) [of v' "json_members sep d @ r" "json_members sep d' @ r'"] "8.IH"(2) [of d' r r'] "8.prems" 8
    show ?thesis by simp
  qed (use "8.prems" in \<open>auto simp: json_string_def split: if_splits\<close>)
next
  case (9 sep)
  then show ?case by (cases ws) (auto simp: proper_def starts_with_iff)
next
  case (10 sep v vs)
  show ?case
  proof (cases ws)
    case Nil
    with "10.prems" show ?thesis by (auto simp: proper_def starts_with_iff)
  next
    case (Cons v' vs')
    with "10.IH"(1) [of v' "json_items sep vs @ r" "json_items sep vs' @ r'"] "10.IH"(2) [of vs' r r'] "10.prems"
    show ?thesis by simp
  qed
next
  case (11 sep)
  then show ?case by (cases e) (auto simp: proper_def starts_with_iff)
next
  case (12 sep k v d)
  show ?case
  proof (cases e)
    case Nil
    with "12.prems" show ?thesis by (auto simp: proper_def starts_with_iff)
  next
    case (Cons kv d')
    obtain k' v' where kv: "kv = (k', v')"
      by fastforce
    from "12.prems" have "k = k' \<and> snd sep @ json_text sep v @ json_members sep d @ r
        = snd sep @ json_text sep v' @ json_members sep d' @ r'"
      using json_string_inject [of k "snd sep @ json_text sep v @ json_members sep d @ r" k'
          "snd sep @ json_text sep v' @ json_members sep d' @ r'"] by (simp add: Cons kv)
    with "12.IH"(1) [of v' "json_members sep d @ r" "json_members sep d' @ r'"] "12.IH"(2) [of d' r r']
      "12.prems" Cons kv
    show ?thesis by simp
  qed
next
  case (4 sep s)
  then show ?case
    by (cases "(sep, w)" rule: json_text.cases) (auto simp: json_string_inject, auto simp: json_string_def split: if_splits)
next
  case (1 sep)
  then show ?case by (cases "(sep, w)" rule: json_text.cases) (auto simp: json_string_def split: if_splits)
next
  case (2 sep b)
  then show ?case by (cases "(sep, w)" rule: json_text.cases) (auto simp: json_string_def split: if_splits)
next
  case (7 sep)
  then show ?case by (cases "(sep, w)" rule: json_text.cases) (auto simp: json_string_def split: if_splits)
qed simp

lemma json_dumps_inject:
  assumes "proper sep" "numberless (sort_keys v)" "numberless (sort_keys w)"
    and "json_dumps sep v = json_dumps sep w"
  shows "sort_keys v = sort_keys w"
  using json_text_inject(1) [OF assms(1-3), of "[]" "[]"] assms(4) by (simp add: json_dumps_def)

end
