(* ===== verification/Pattern.thy ===== *)
theory Pattern
  imports Prelude
begin

text \<open>
  The part of Python's \<^verbatim>\<open>re\<close> the code uses.  A pattern lists its matches at a position of
  a text in the order in which the engine would try them, each with its groups and the position behind
  it; a position is what precedes it, reversed, and what follows.  Searching, substituting and finding
  all matches try the positions from left to right and go on behind a match.
\<close>

type_synonym position = "string \<times> string"
type_synonym groups = "(nat \<times> string) list"

datatype rx =
    Lit string
  | One "char \<Rightarrow> bool"
  | Many "char \<Rightarrow> bool"
  | Seq rx rx
  | Alt rx rx
  | Opt rx
  | Rep rx
  | Cap nat rx
  | Look "string \<Rightarrow> string \<Rightarrow> bool"

text \<open>The positions after one or more characters of a class, the longest match first.\<close>

fun runs :: "(char \<Rightarrow> bool) \<Rightarrow> string \<Rightarrow> string \<Rightarrow> position list" where
  "runs cls b [] = []"
| "runs cls b (c # cs) = (if cls c then runs cls (c # b) cs @ [(c # b, cs)] else [])"

text \<open>Any number of matches, the most first; an empty one ends the repetition.\<close>

fun repeated :: "nat \<Rightarrow> (position \<Rightarrow> (groups \<times> position) list) \<Rightarrow> position \<Rightarrow> (groups \<times> position) list" where
  "repeated 0 f p = [([], p)]"
| "repeated (Suc n) f p =
     concat (map (\<lambda>(m, q). if length (snd q) < length (snd p)
                          then map (\<lambda>(m', q'). (m @ m', q')) (repeated n f q) else []) (f p))
     @ [([], p)]"

text \<open>\<open>Lit\<close> ignores case, as \<^verbatim>\<open>re.I\<close> does; \<open>exact\<close> below does not.\<close>

primrec rx_match :: "rx \<Rightarrow> position \<Rightarrow> (groups \<times> position) list" where
  "rx_match (Lit w) p =
     (if py_lower (take (length w) (snd p)) = w
      then [([], (rev (take (length w) (snd p)) @ fst p, drop (length w) (snd p)))] else [])"
| "rx_match (One cls) p = (case snd p of [] \<Rightarrow> [] | c # cs \<Rightarrow> if cls c then [([], (c # fst p, cs))] else [])"
| "rx_match (Many cls) p = map (\<lambda>q. ([], q)) (runs cls (fst p) (snd p))"
| "rx_match (Seq a b) p =
     concat (map (\<lambda>(m, q). map (\<lambda>(m', q'). (m @ m', q')) (rx_match b q)) (rx_match a p))"
| "rx_match (Alt a b) p = rx_match a p @ rx_match b p"
| "rx_match (Opt a) p = rx_match a p @ [([], p)]"
| "rx_match (Rep a) p = repeated (length (snd p)) (rx_match a) p"
| "rx_match (Cap i a) p =
     map (\<lambda>(m, q). ((i, take (length (snd p) - length (snd q)) (snd p)) # m, q)) (rx_match a p)"
| "rx_match (Look f) p = (if f (fst p) (snd p) then [([], p)] else [])"

definition seqs :: "rx list \<Rightarrow> rx" where
  "seqs ps = foldr Seq ps (Lit [])"

definition alts :: "string list \<Rightarrow> rx" where
  "alts ws = foldr (\<lambda>w p. Alt (Lit w) p) (butlast ws) (Lit (last ws))"

definition exact :: "string \<Rightarrow> rx" where
  "exact w = seqs (map (\<lambda>c. One (\<lambda>a. a = c)) w)"

definition exacts :: "string list \<Rightarrow> rx" where
  "exacts ws = foldr (\<lambda>w p. Alt (exact w) p) (butlast ws) (exact (last ws))"

definition spaces :: rx where
  "spaces = Many is_space"

definition opt_spaces :: rx where
  "opt_spaces = Opt (Many is_space)"

subsection \<open>Character classes\<close>

definition is_digit :: "char \<Rightarrow> bool" where
  "is_digit c \<longleftrightarrow> CHR ''0'' \<le> c \<and> c \<le> CHR ''9''"

definition is_lower :: "char \<Rightarrow> bool" where
  "is_lower c \<longleftrightarrow> CHR ''a'' \<le> c \<and> c \<le> CHR ''z''"

definition is_letter :: "char \<Rightarrow> bool" where
  "is_letter c \<longleftrightarrow> is_lower c \<or> CHR ''A'' \<le> c \<and> c \<le> CHR ''Z''"

text \<open>\<^verbatim>\<open>str.isalnum\<close>; \<^verbatim>\<open>\w\<close> has the underscore too.\<close>

definition is_alnum :: "char \<Rightarrow> bool" where
  "is_alnum c \<longleftrightarrow>
     (let n = (of_char c :: nat) in
      is_letter c \<or> is_digit c \<or> n \<in> {170, 178, 179, 181, 185, 186, 188, 189, 190}
      \<or> 192 \<le> n \<and> n \<noteq> 215 \<and> n \<noteq> 247)"

definition word_char :: "char \<Rightarrow> bool" where
  "word_char c \<longleftrightarrow> is_alnum c \<or> c = CHR ''_''"

definition non_newline :: "char \<Rightarrow> bool" where
  "non_newline c \<longleftrightarrow> c \<noteq> CHR 0x0A"

definition one_of :: "string \<Rightarrow> char \<Rightarrow> bool" where
  "one_of s c \<longleftrightarrow> c \<in> set s"

subsection \<open>Assertions\<close>

definition head_in :: "(char \<Rightarrow> bool) \<Rightarrow> string \<Rightarrow> bool" where
  "head_in cls s = (case s of [] \<Rightarrow> False | c # _ \<Rightarrow> cls c)"

definition boundary :: rx where
  "boundary = Look (\<lambda>b r. head_in word_char b \<noteq> head_in word_char r)"

definition at_start :: rx where
  "at_start = Look (\<lambda>b r. b = [])"

definition at_end :: rx where
  "at_end = Look (\<lambda>b r. r = [] \<or> r = [CHR 0x0A])"

definition after :: "(char \<Rightarrow> bool) \<Rightarrow> rx" where
  "after cls = Look (\<lambda>b r. head_in cls b)"

definition not_after :: "(char \<Rightarrow> bool) \<Rightarrow> rx" where
  "not_after cls = Look (\<lambda>b r. \<not> head_in cls b)"

definition before :: "(char \<Rightarrow> bool) \<Rightarrow> rx" where
  "before cls = Look (\<lambda>b r. head_in cls r)"

definition not_before :: "(char \<Rightarrow> bool) \<Rightarrow> rx" where
  "not_before cls = Look (\<lambda>b r. \<not> head_in cls r)"

subsection \<open>The functions of the module\<close>

definition match_at :: "rx \<Rightarrow> position \<Rightarrow> (groups \<times> position) option" where
  "match_at pat p = (case rx_match pat p of [] \<Rightarrow> None | m # _ \<Rightarrow> Some m)"

text \<open>The text a group matched; \<open>None\<close> when it took no part.\<close>

definition grp :: "groups \<Rightarrow> nat \<Rightarrow> string option" where
  "grp m i = map_of m i"

definition fullmatch :: "rx \<Rightarrow> string \<Rightarrow> groups option" where
  "fullmatch pat s = map_option fst (List.find (\<lambda>(m, q). snd q = []) (rx_match pat ([], s)))"

definition matches_prefix :: "rx \<Rightarrow> string \<Rightarrow> bool" where
  "matches_prefix pat s \<longleftrightarrow> rx_match pat ([], s) \<noteq> []"

fun search_from :: "rx \<Rightarrow> string \<Rightarrow> string \<Rightarrow> groups option" where
  "search_from pat b [] = map_option fst (match_at pat (b, []))"
| "search_from pat b (c # cs) =
     (case match_at pat (b, c # cs) of Some m \<Rightarrow> Some (fst m) | None \<Rightarrow> search_from pat (c # b) cs)"

definition re_search :: "rx \<Rightarrow> string \<Rightarrow> groups option" where
  "re_search pat s = search_from pat [] s"

definition found :: "rx \<Rightarrow> string \<Rightarrow> bool" where
  "found pat s \<longleftrightarrow> re_search pat s \<noteq> None"

text \<open>
  The text cut at the matches of a pattern that matches no empty text: \<open>Inl\<close> a character outside
  every match, \<open>Inr\<close> the groups of a match.
\<close>

function scan :: "rx \<Rightarrow> string \<Rightarrow> string \<Rightarrow> (char + groups) list" where
  "scan pat b [] = []"
| "scan pat b (c # cs) =
     (case match_at pat (b, c # cs) of
        None \<Rightarrow> Inl c # scan pat (c # b) cs
      | Some (m, (b', r)) \<Rightarrow>
          if length r < length (c # cs) then Inr m # scan pat b' r else Inl c # scan pat (c # b) cs)"
  by pat_completeness auto
termination
  by (relation "measure (\<lambda>(pat, b, s). length s)") auto

definition re_sub :: "rx \<Rightarrow> string \<Rightarrow> string \<Rightarrow> string" where
  "re_sub pat new s = concat (map (case_sum (\<lambda>c. [c]) (\<lambda>_. new)) (scan pat [] s))"

definition findall :: "rx \<Rightarrow> string \<Rightarrow> groups list" where
  "findall pat s = concat (map (case_sum (\<lambda>_. []) (\<lambda>m. [m])) (scan pat [] s))"

definition group_text :: "groups \<Rightarrow> nat \<Rightarrow> string" where
  "group_text m i = (case grp m i of None \<Rightarrow> [] | Some t \<Rightarrow> t)"

text \<open>\<^verbatim>\<open>re.split\<close> with a pattern of no groups.\<close>

fun split_pieces :: "string \<Rightarrow> (char + groups) list \<Rightarrow> string list" where
  "split_pieces acc [] = [acc]"
| "split_pieces acc (Inl c # ps) = split_pieces (acc @ [c]) ps"
| "split_pieces acc (Inr m # ps) = acc # split_pieces [] ps"

definition re_split :: "rx \<Rightarrow> string \<Rightarrow> string list" where
  "re_split pat s = split_pieces [] (scan pat [] s)"

lemma pattern_samples:
  "re_split (Alt (exact ''||'') (Alt (exact ''&&'') (One (one_of ''|;&'')))) ''a||b;c&&d'' = [''a'', ''b'', ''c'', ''d'']"
  "found (seqs [boundary, exact ''mkfs'', boundary]) ''x mkfs.ext4 y''"
  "\<not> found (seqs [boundary, exact ''mkfs'', boundary]) ''xmkfs y''"
  "re_sub (seqs [Many is_digit, at_end]) ''n'' ''a1b22'' = ''a1bn''"
  "map (\<lambda>m. group_text m 1) (findall (seqs [not_after is_letter, Cap 1 (Rep (exact ''ab''))]) ''abab ab'') = [''abab'', ''ab'']"
  by code_simp+

end
