(* ===== verification/Policy_Coverage.thy ===== *)
theory Policy_Coverage
  imports Rule_Codec Json_Text Pattern "HOL-Library.Multiset"
begin

text \<open>
  \<^verbatim>\<open>intaris/policy_coverage.py\<close>: the predicate that an English policy clause of the
  bounded subset stands for, and the canonical text in which a compiled predicate is compared with
  it.  Where the source reads the canonical text of a child back with \<^verbatim>\<open>json.loads\<close>,
  the model keeps the predicate.
\<close>

subsection \<open>Clauses\<close>

definition eq_pred :: "string \<Rightarrow> string \<Rightarrow> pred" where
  "eq_pred field v = Pred OpEq None (Some field) (VStr v) None"

definition effect_pred :: "string \<Rightarrow> pred" where
  "effect_pred v = Pred OpContains None (Some ''effects'') (VStr v) None"

definition junction :: "pop \<Rightarrow> pred list \<Rightarrow> pred" where
  "junction op cs = Pred op (Some cs) None VNone None"

definition rstrip_dots :: "string \<Rightarrow> string" where
  "rstrip_dots s = rev (dropWhile (\<lambda>c. c = CHR ''.'') (rev s))"

definition is_quote :: "char \<Rightarrow> bool" where
  "is_quote c \<longleftrightarrow> c \<in> {CHR 0x60, CHR 0x22, CHR 0x27}"

definition unquoted :: "char \<Rightarrow> bool" where
  "unquoted c \<longleftrightarrow> \<not> is_quote c \<and> \<not> is_space c"

definition clause_pattern :: "string \<Rightarrow> rx" where
  "clause_pattern effect =
     seqs [alts (if effect = ''allow'' then [''allow'', ''permit''] else [''deny'', ''forbid'', ''do not'', ''never'']),
       spaces, Cap 1 (Many (\<lambda>c. c \<noteq> CHR 0x0A))]"

definition glob_pattern :: "nat \<Rightarrow> rx" where
  "glob_pattern i = seqs [Opt (One is_quote), Cap i (Many unquoted), Opt (One is_quote)]"

definition path_pattern :: rx where
  "path_pattern =
     seqs [Cap 1 (Alt (Seq (Lit ''read'') (Opt (Lit ''s''))) (Lit ''deletion'')), spaces, Lit ''of'', spaces,
       alts [''files'', ''paths''], spaces, Opt (Cap 2 (Seq (Lit ''not'') spaces)), Lit ''matching'', spaces,
       glob_pattern 3]"

definition environment_pattern :: rx where
  "environment_pattern =
     seqs [Alt (alts [''modify'', ''modification of''])
         (seqs [Lit ''modification'', Opt (Lit ''s''), Lit '' '', alts [''of'', ''in'']]),
       spaces, Cap 1 (alts [''production'', ''development'']), spaces, Lit ''resources'']"

definition action_pattern :: rx where
  "action_pattern =
     Cap 1 (alts [''read'', ''reads'', ''reading'', ''write'', ''writes'', ''writing'', ''delete'', ''deletion''])"

definition tool_pattern :: rx where
  "tool_pattern = seqs [alts [''tool'', ''tools''], spaces, Lit ''matching'', spaces, glob_pattern 1]"

definition path_constraint :: "string \<Rightarrow> groups \<Rightarrow> pred" where
  "path_constraint effect m =
     (let reads = starts_with (py_lower (group_text m 1)) ''read'';
          negated = grp m 2 \<noteq> None;
          target = Pred OpPath None None (VStr (group_text m 3))
                     (Some (if effect = ''deny'' \<and> \<not> negated then QAny else QAll))
      in junction OpAll
           ([if reads then eq_pred ''operation'' ''read'' else effect_pred ''delete'',
             if negated then junction OpNot [target] else target]
            @ (if reads
               then effect_pred ''read''
                 # map (\<lambda>e. junction OpNot [effect_pred e]) [''write'', ''delete'', ''execute'', ''transmit'']
               else [])))"

definition environment_constraint :: "groups \<Rightarrow> pred" where
  "environment_constraint m =
     junction OpAll [eq_pred ''environment'' (py_lower (group_text m 1)),
       junction OpAny [effect_pred ''write'', effect_pred ''delete'']]"

definition action_constraint :: "groups \<Rightarrow> pred" where
  "action_constraint m =
     (let word = py_lower (group_text m 1) in
      if starts_with word ''delet'' then effect_pred ''delete''
      else eq_pred ''operation'' (if starts_with word ''read'' then ''read'' else ''write''))"

definition source_constraint :: "string \<Rightarrow> string \<Rightarrow> pred option" where
  "source_constraint text effect =
     (case fullmatch (clause_pattern effect) (py_strip (rstrip_dots (py_strip text))) of
        None \<Rightarrow> None
      | Some m \<Rightarrow>
          (let clause = group_text m 1 in
           case fullmatch path_pattern clause of Some p \<Rightarrow> Some (path_constraint effect p)
           | None \<Rightarrow>
             (case fullmatch environment_pattern clause of Some e \<Rightarrow> Some (environment_constraint e)
              | None \<Rightarrow>
                (case fullmatch action_pattern clause of Some a \<Rightarrow> Some (action_constraint a)
                 | None \<Rightarrow>
                   (case fullmatch tool_pattern clause of
                      Some t \<Rightarrow> Some (Pred OpTool None None (VStr (group_text t 1)) None)
                    | None \<Rightarrow> None)))))"

lemma source_constraint_samples:
  "source_constraint ''Deny deletion of files matching `/srv/*`.'' ''deny'' =
     Some (junction OpAll [effect_pred ''delete'', Pred OpPath None None (VStr ''/srv/*'') (Some QAny)])"
  "source_constraint ''Allow modifications  in Production resources'' ''allow'' = None"
  "source_constraint ''Allow modifications in Production resources'' ''allow'' =
     Some (junction OpAll [eq_pred ''environment'' ''production'',
       junction OpAny [effect_pred ''write'', effect_pred ''delete'']])"
  "source_constraint ''Permit tools matching github_*'' ''allow'' =
     Some (Pred OpTool None None (VStr ''github_*'') None)"
  "source_constraint ''Do not touch anything'' ''deny'' = None"
  by code_simp+

text \<open>
  The conjuncts that make a read grant cover the whole call are added to denials too.  A denied read
  is then not denied when the call does something else with what it read.
\<close>

lemma denied_read_misses_copies:
  "map_option (\<lambda>p. test_predicate p
       [(''operation'', VStr ''read''), (''effects'', VList [VStr ''read'', VStr ''transmit'']),
        (''paths'', VList [VStr ''/srv/secret.key'']), (''paths_complete'', VBool True)])
     (source_constraint ''Deny reads of files matching *.key'' ''deny'') = Some TFalse"
  "map_option (\<lambda>p. test_predicate p
       [(''operation'', VStr ''read''), (''effects'', VList [VStr ''read'']),
        (''paths'', VList [VStr ''/srv/secret.key'']), (''paths_complete'', VBool True)])
     (source_constraint ''Deny reads of files matching *.key'' ''deny'') = Some TTrue"
  by code_simp+

subsection \<open>Canonical predicates\<close>

definition pred_text :: "separators \<Rightarrow> pred \<Rightarrow> string" where
  "pred_text sep p = json_dumps sep (dump_pred p)"

text \<open>A membership in a list of one is an equality; \<open>len\<close> and indexing also apply to a string.\<close>

fun sole_member :: "pyval \<Rightarrow> pyval option" where
  "sole_member (VList [v]) = Some v"
| "sole_member (VStr [c]) = Some (VStr [c])"
| "sole_member _ = None"

definition canonical_leaf :: "pop \<Rightarrow> pyval \<Rightarrow> pop \<times> pyval" where
  "canonical_leaf op v =
     (case (if op = OpIn then sole_member v else None) of Some w \<Rightarrow> (OpEq, w) | None \<Rightarrow> (op, v))"

definition flatten :: "pop \<Rightarrow> pred list \<Rightarrow> pred list" where
  "flatten op cs = concat (map (\<lambda>c. if p_op c = op then children_of c else [c]) cs)"

definition ordered :: "pred list \<Rightarrow> pred list" where
  "ordered cs = sort_key (pred_text wide) cs"

text \<open>Nodes are counted without their values; canonicalization does not add any.\<close>

function canonical :: "pred \<Rightarrow> pred" where
  "canonical (Pred op children f v q) =
     (case children of
        None \<Rightarrow> Pred (fst (canonical_leaf op v)) None f (snd (canonical_leaf op v)) q
      | Some cs \<Rightarrow>
          (if op = OpAll \<or> op = OpAny then
             (case ordered (flatten op (map canonical cs)) of
                [c] \<Rightarrow> canonical c
              | ds \<Rightarrow> Pred op (Some ds) f v q)
           else Pred (fst (canonical_leaf op v)) (Some (map canonical cs)) f (snd (canonical_leaf op v)) q))"
  by pat_completeness auto

lemma sum_nodes_flatten:
  assumes "\<forall>c \<in> set cs. pred_nodes (g c) \<le> pred_nodes c"
  shows "sum_list (map pred_nodes (flatten op (map g cs))) \<le> sum_list (map pred_nodes cs)"
  using assms
proof (induction cs)
  case (Cons c cs)
  have "sum_list (map pred_nodes (if p_op (g c) = op then children_of (g c) else [g c])) \<le> pred_nodes (g c)"
    by (cases "g c") (auto simp: children_of_def)
  with Cons show ?case by (simp add: flatten_def)
qed (simp add: flatten_def)

lemma sum_list_sort_key: "sum_list (map h (sort_key k xs)) = sum_list (map h xs)" for h :: "'a \<Rightarrow> nat"
  by (metis mset_map mset_sort sum_mset_sum_list)

lemma ordered_nodes:
  assumes "\<forall>c \<in> set cs. pred_nodes (g c) \<le> pred_nodes c"
  shows "sum_list (map pred_nodes (ordered (flatten op (map g cs)))) \<le> sum_list (map pred_nodes cs)"
  using sum_nodes_flatten [OF assms] by (simp add: ordered_def sum_list_sort_key)

lemma canonical_nodes: "canonical_dom p \<Longrightarrow> pred_nodes (canonical p) \<le> pred_nodes p"
proof (induction p rule: canonical.pinduct)
  case (1 op children f v q)
  show ?case
  proof (cases children)
    case None
    then show ?thesis using 1(1) by (simp add: canonical.psimps)
  next
    case (Some cs)
    have children: "\<forall>c \<in> set cs. pred_nodes (canonical c) \<le> pred_nodes c"
      by (cases "op = OpAll \<or> op = OpAny") (use 1 Some in auto)
    show ?thesis
    proof (cases "op = OpAll \<or> op = OpAny")
      case False
      with children show ?thesis
        using 1(1) Some by (simp add: canonical.psimps sum_list_mono)
    next
      case junction: True
      define ds where "ds = ordered (flatten op (map canonical cs))"
      have bound: "sum_list (map pred_nodes ds) \<le> sum_list (map pred_nodes cs)"
        unfolding ds_def using children by (rule ordered_nodes)
      show ?thesis
      proof (cases "\<exists>c. ds = [c]")
        case True
        then obtain c where c: "ds = [c]" by blast
        then have "pred_nodes (canonical c) \<le> pred_nodes c"
          using 1 Some junction unfolding ds_def by simp
        with bound c show ?thesis
          using 1(1) Some junction ds_def by (simp add: canonical.psimps)
      next
        case False
        then have "canonical (Pred op children f v q) = Pred op (Some ds) f v q"
          using 1(1) Some junction by (auto simp: canonical.psimps ds_def [symmetric] split: list.split)
        with bound show ?thesis
          by (simp add: Some)
      qed
    qed
  qed
qed

lemma member_nodes: "c \<in> set cs \<Longrightarrow> pred_nodes c < Suc (sum_list (map pred_nodes cs))"
  using member_le_sum_list [of "pred_nodes c" "map pred_nodes cs"] by auto

lemma sole_nodes:
  assumes "\<And>c. c \<in> set cs \<Longrightarrow> canonical_dom c" "ordered (flatten op (map canonical cs)) = [c]"
  shows "pred_nodes c < Suc (sum_list (map pred_nodes cs))"
  using ordered_nodes [of cs canonical op] canonical_nodes assms by simp

termination canonical
  by (relation "measure pred_nodes") (auto intro: member_nodes sole_nodes)

declare canonical.simps [simp del]

subsection \<open>Canonicalization keeps the meaning\<close>

text \<open>Values as validated rules hold them: strings, and lists of strings for memberships.\<close>

fun is_str :: "pyval \<Rightarrow> bool" where
  "is_str (VStr s) = True"
| "is_str _ = False"

fun matcher_value :: "pop \<Rightarrow> pyval \<Rightarrow> bool" where
  "matcher_value op (VList vs) \<longleftrightarrow> op = OpIn \<and> list_all is_str vs"
| "matcher_value op (VStr s) \<longleftrightarrow> op \<noteq> OpIn"
| "matcher_value op VNone \<longleftrightarrow> op \<noteq> OpIn"
| "matcher_value op _ \<longleftrightarrow> False"

fun textual :: "pred \<Rightarrow> bool" where
  "textual (Pred op children f v q) \<longleftrightarrow>
     matcher_value op v \<and> (\<forall>c \<in> set (case children of None \<Rightarrow> [] | Some cs \<Rightarrow> cs). textual c)"

lemma combine_append:
  assumes "op = OpAll \<or> op = OpAny"
  shows "combine op (xs @ ys) = combine op [combine op xs, combine op ys]"
  using assms by (elim disjE) (auto simp: combine_def)

lemma combine_single: "op = OpAll \<or> op = OpAny \<Longrightarrow> combine op [t] = t"
  by (cases t) (auto simp: combine_def)

lemma combine_Cons: "op = OpAll \<or> op = OpAny \<Longrightarrow> combine op (t # ts) = combine op [t, combine op ts]"
  using combine_append [of op "[t]" ts] by (simp add: combine_single)

lemma combine_concat:
  "op = OpAll \<or> op = OpAny \<Longrightarrow> combine op (concat (map h ds)) = combine op (map (\<lambda>d. combine op (h d)) ds)"
  by (induction ds) (simp_all add: combine_append combine_Cons [of op _ "map _ _"])

lemma combine_set:
  "op = OpAll \<or> op = OpAny \<Longrightarrow> set ts = set us \<Longrightarrow> combine op ts = combine op us"
  by (auto simp: combine_def)

lemma set_ordered [simp]: "set (ordered cs) = set cs"
  by (simp add: ordered_def)

lemma test_junction:
  "op = OpAll \<or> op = OpAny \<Longrightarrow> p_op p = op \<Longrightarrow>
     test_predicate p facts = combine op (map (\<lambda>c. test_predicate c facts) (children_of p))"
  by (cases p) (auto simp: children_of_def split: option.split)

lemma test_flatten:
  assumes "op = OpAll \<or> op = OpAny"
  shows "combine op (map (\<lambda>c. test_predicate c facts) (ordered (flatten op ds))) =
     combine op (map (\<lambda>c. test_predicate c facts) ds)"
proof -
  have "combine op (map (\<lambda>c. test_predicate c facts) (ordered (flatten op ds)))
      = combine op (map (\<lambda>c. test_predicate c facts) (flatten op ds))"
    using assms by (intro combine_set) simp_all
  also have "\<dots> = combine op (concat (map (\<lambda>d. map (\<lambda>c. test_predicate c facts)
      (if p_op d = op then children_of d else [d])) ds))"
    by (simp add: flatten_def map_concat o_def)
  also have "\<dots> = combine op (map (\<lambda>d. combine op (map (\<lambda>c. test_predicate c facts)
      (if p_op d = op then children_of d else [d]))) ds)"
    using assms by (rule combine_concat)
  also have "\<dots> = combine op (map (\<lambda>c. test_predicate c facts) ds)"
    using assms by (intro arg_cong [where f = "combine op"] map_cong refl)
      (simp add: test_junction combine_single)
  finally show ?thesis .
qed

lemma canonical_leaf_cases:
  assumes "matcher_value op v"
  obtains "canonical_leaf op v = (op, v)"
  | w where "op = OpIn" "v = VList [w]" "canonical_leaf op v = (OpEq, w)" "is_str w"
  using assms
  by (cases "op = OpIn"; cases v rule: sole_member.cases) (auto simp: canonical_leaf_def)

lemma canonical_junction:
  assumes "op = OpAll \<or> op = OpAny"
  obtains c where "ordered (flatten op (map canonical cs)) = [c]"
      "canonical (Pred op (Some cs) f v q) = canonical c"
    | "canonical (Pred op (Some cs) f v q) = Pred op (Some (ordered (flatten op (map canonical cs)))) f v q"
proof (cases "\<exists>c. ordered (flatten op (map canonical cs)) = [c]")
  case True
  with assms that(1) show thesis by (auto simp: canonical.simps)
next
  case False
  then have "canonical (Pred op (Some cs) f v q) = Pred op (Some (ordered (flatten op (map canonical cs)))) f v q"
    using assms by (auto simp: canonical.simps split: list.split)
  then show thesis by (rule that(2))
qed

lemma canonical_other:
  "\<not> (op = OpAll \<or> op = OpAny) \<Longrightarrow> canonical (Pred op children f v q) =
     Pred (fst (canonical_leaf op v)) (map_option (map canonical) children) f (snd (canonical_leaf op v)) q"
  "canonical (Pred op None f v q) = Pred (fst (canonical_leaf op v)) None f (snd (canonical_leaf op v)) q"
  by (simp_all add: canonical.simps split: option.split)

lemma textual_flatten: "\<forall>d \<in> set ds. textual d \<Longrightarrow> c \<in> set (flatten op ds) \<Longrightarrow> textual c"
proof -
  assume all: "\<forall>d \<in> set ds. textual d" and "c \<in> set (flatten op ds)"
  then obtain d where d: "d \<in> set ds" "c \<in> set (if p_op d = op then children_of d else [d])"
    by (auto simp: flatten_def)
  with all show "textual c"
    by (cases d) (auto simp: children_of_def split: if_splits option.splits)
qed

lemma textual_canonical: "textual p \<Longrightarrow> textual (canonical p)"
proof (induction p rule: canonical.induct)
  case (1 op children f v q)
  have leaf: "matcher_value (fst (canonical_leaf op v)) (snd (canonical_leaf op v))"
    by (rule canonical_leaf_cases [of op v]) (use 1(4) in \<open>auto elim: is_str.elims\<close>)
  show ?case
  proof (cases "(op = OpAll \<or> op = OpAny) \<and> children \<noteq> None")
    case True
    then obtain cs where cs: "children = Some cs" and op: "op = OpAll \<or> op = OpAny" by blast
    have "textual (canonical c)" if "c \<in> set cs" for c
      using 1(1) [OF cs op that] 1(4) that by (simp add: cs)
    then have flat: "textual c" if "c \<in> set (ordered (flatten op (map canonical cs)))" for c
      using textual_flatten [of "map canonical cs" c op] that by auto
    show ?thesis
      unfolding cs
    proof (rule canonical_junction [OF op, of cs f v q])
      fix c
      assume "ordered (flatten op (map canonical cs)) = [c]" "canonical (Pred op (Some cs) f v q) = canonical c"
      then show "textual (canonical (Pred op (Some cs) f v q))"
        using 1(2) [OF cs op] flat by auto
    next
      assume "canonical (Pred op (Some cs) f v q) = Pred op (Some (ordered (flatten op (map canonical cs)))) f v q"
      then show "textual (canonical (Pred op (Some cs) f v q))"
        using flat 1(4) by simp
    qed
  next
    case False
    then show ?thesis
    proof (cases children)
      case None
      then show ?thesis by (simp add: canonical_other leaf)
    next
      case (Some cs)
      with False 1(3) [OF Some] 1(4) show ?thesis
        by (simp add: canonical_other leaf)
    qed
  qed
qed

lemma test_canonical: "textual p \<Longrightarrow> test_predicate (canonical p) facts = test_predicate p facts"
proof (induction p rule: canonical.induct)
  case (1 op children f v q)
  show ?case
  proof (cases "(op = OpAll \<or> op = OpAny) \<and> children \<noteq> None")
    case True
    then obtain cs where cs: "children = Some cs" and op: "op = OpAll \<or> op = OpAny" by blast
    have same: "test_predicate (canonical c) facts = test_predicate c facts" if "c \<in> set cs" for c
      using 1(1) [OF cs op that] 1(4) that by (simp add: cs)
    have textual: "textual c" if "c \<in> set (ordered (flatten op (map canonical cs)))" for c
      using textual_flatten [of "map canonical cs" c op] textual_canonical 1(4) that by (auto simp: cs)
    have "combine op (map (\<lambda>c. test_predicate c facts) (ordered (flatten op (map canonical cs))))
        = test_predicate (Pred op children f v q) facts"
      unfolding test_flatten [OF op] using op same by (auto simp: cs o_def cong: map_cong)
    moreover have "test_predicate (canonical (Pred op (Some cs) f v q)) facts
        = combine op (map (\<lambda>c. test_predicate c facts) (ordered (flatten op (map canonical cs))))"
    proof (rule canonical_junction [OF op, of cs f v q])
      fix c
      assume c: "ordered (flatten op (map canonical cs)) = [c]" "canonical (Pred op (Some cs) f v q) = canonical c"
      have "test_predicate (canonical c) facts = test_predicate c facts"
        using 1(2) [OF cs op c(1)] textual c(1) by simp
      then show ?thesis
        using op by (simp add: c combine_single)
    next
      assume "canonical (Pred op (Some cs) f v q) = Pred op (Some (ordered (flatten op (map canonical cs)))) f v q"
      then show ?thesis
        using op by auto
    qed
    ultimately show ?thesis by (simp add: cs)
  next
    case False
    have same: "test_predicate (canonical c) facts = test_predicate c facts"
      if "children = Some cs" "c \<in> set cs" for c cs
      using 1(3) [OF that(1)] False 1(4) that by simp
    have shape: "canonical (Pred op children f v q) =
        Pred (fst (canonical_leaf op v)) (map_option (map canonical) children) f (snd (canonical_leaf op v)) q"
      using False by (cases children) (auto simp: canonical_other)
    have "matcher_value op v"
      using 1(4) by simp
    then show ?thesis
      unfolding shape
    proof (rule canonical_leaf_cases)
      assume "canonical_leaf op v = (op, v)"
      then show "test_predicate (Pred (fst (canonical_leaf op v)) (map_option (map canonical) children) f
          (snd (canonical_leaf op v)) q) facts = test_predicate (Pred op children f v q) facts"
        using False same by (cases children) (auto simp: o_def cong: map_cong)
    next
      fix w
      assume "op = OpIn" "v = VList [w]" "canonical_leaf op v = (OpEq, w)"
      then show "test_predicate (Pred (fst (canonical_leaf op v)) (map_option (map canonical) children) f
          (snd (canonical_leaf op v)) q) facts = test_predicate (Pred op children f v q) facts"
        by (simp add: is_matcher_def test_leaf_def Let_def)
    qed
  qed
qed

subsection \<open>Canonical texts\<close>

definition canonical_predicate :: "pred \<Rightarrow> string" where
  "canonical_predicate p = pred_text compact (canonical p)"

lemma map_of_sort_key: "distinct (map fst d) \<Longrightarrow> map_of (sort_key fst d) k = map_of d k"
proof -
  assume d: "distinct (map fst d)"
  have "mset (map fst (sort_key fst d)) = mset (map fst d)"
    by (simp only: mset_map mset_sort)
  then have "distinct (map fst (sort_key fst d))"
    using d mset_eq_imp_distinct_iff by blast
  with d have "map_of (sort_key fst d) = map_of d"
    by (subst map_of_inject_set) simp_all
  then show ?thesis by simp
qed

lemma vget_sort_keys:
  "distinct (map fst d) \<Longrightarrow> vget (sort_keys (VDict d)) k = (case map_of d k of None \<Rightarrow> VNone | Some v \<Rightarrow> sort_keys v)"
proof -
  assume "distinct (map fst d)"
  moreover have "map fst (map (\<lambda>(k, v). (k, sort_keys v)) d) = map fst d"
    by (simp add: split_beta o_def)
  ultimately have "map_of (sort_key fst (map (\<lambda>(k, v). (k, sort_keys v)) d)) k =
      map_of (map (\<lambda>(k, v). (k, sort_keys v)) d) k"
    by (intro map_of_sort_key) (simp only:)
  then show ?thesis
    by (simp add: dget_def map_of_map split: option.split)
qed

lemma dump_entries:
  obtains d where "dump_pred p = VDict d" "distinct (map fst d)"
    "map_of d ''op'' = Some (VStr (word_of op_words (p_op p)))"
    "map_of d ''children'' = map_option (\<lambda>cs. VList (map dump_pred cs)) (p_children p)"
    "map_of d ''field'' = map_option VStr (p_field p)"
    "map_of d ''value'' = (if p_value p = VNone then None else Some (p_value p))"
    "map_of d ''quantifier'' = map_option (\<lambda>q. VStr (word_of quantifier_words q)) (p_quantifier p)"
proof (cases p)
  case (Pred op children f v q)
  show thesis
    by (rule that, unfold Pred dump_pred.simps, rule refl)
      (cases children; cases f; cases "v = VNone"; cases q; simp add: write_opt_def)+
qed

lemma vget_dump:
  "vget (sort_keys (dump_pred p)) ''op'' = VStr (word_of op_words (p_op p))"
  "vget (sort_keys (dump_pred p)) ''children'' =
     (case p_children p of None \<Rightarrow> VNone | Some cs \<Rightarrow> VList (map (sort_keys \<circ> dump_pred) cs))"
  "vget (sort_keys (dump_pred p)) ''field'' = (case p_field p of None \<Rightarrow> VNone | Some f \<Rightarrow> VStr f)"
  "vget (sort_keys (dump_pred p)) ''value'' = sort_keys (p_value p)"
  "vget (sort_keys (dump_pred p)) ''quantifier'' =
     (case p_quantifier p of None \<Rightarrow> VNone | Some q \<Rightarrow> VStr (word_of quantifier_words q))"
proof -
  obtain d where d: "dump_pred p = VDict d" "distinct (map fst d)"
    "map_of d ''op'' = Some (VStr (word_of op_words (p_op p)))"
    "map_of d ''children'' = map_option (\<lambda>cs. VList (map dump_pred cs)) (p_children p)"
    "map_of d ''field'' = map_option VStr (p_field p)"
    "map_of d ''value'' = (if p_value p = VNone then None else Some (p_value p))"
    "map_of d ''quantifier'' = map_option (\<lambda>q. VStr (word_of quantifier_words q)) (p_quantifier p)"
    by (rule dump_entries)
  note get = vget_sort_keys [OF d(2)]
  show "vget (sort_keys (dump_pred p)) ''op'' = VStr (word_of op_words (p_op p))"
    unfolding d(1) get d(3) by simp
  show "vget (sort_keys (dump_pred p)) ''children'' =
     (case p_children p of None \<Rightarrow> VNone | Some cs \<Rightarrow> VList (map (sort_keys \<circ> dump_pred) cs))"
    unfolding d(1) get d(4) by (simp split: option.split)
  show "vget (sort_keys (dump_pred p)) ''field'' = (case p_field p of None \<Rightarrow> VNone | Some f \<Rightarrow> VStr f)"
    unfolding d(1) get d(5) by (simp split: option.split)
  show "vget (sort_keys (dump_pred p)) ''value'' = sort_keys (p_value p)"
    unfolding d(1) get d(6) by simp
  show "vget (sort_keys (dump_pred p)) ''quantifier'' =
     (case p_quantifier p of None \<Rightarrow> VNone | Some q \<Rightarrow> VStr (word_of quantifier_words q))"
    unfolding d(1) get d(7) by (simp split: option.split)
qed

lemma word_of_inject:
  "word_of op_words a = word_of op_words b \<longleftrightarrow> a = b"
  "word_of quantifier_words q = word_of quantifier_words q' \<longleftrightarrow> q = q'"
  using word_tables by (metis option.inject)+

lemma plain_sorted: "matcher_value op v \<Longrightarrow> sort_keys v = v \<and> numberless v"
proof (cases v)
  case (VList vs)
  assume "matcher_value op v"
  then have "w \<in> set vs \<Longrightarrow> sort_keys w = w \<and> numberless w" for w
    using VList by (cases w) (auto simp: list_all_iff)
  then show ?thesis
    by (simp add: VList map_idI)
qed auto

lemma dump_inject:
  "textual p \<Longrightarrow> textual q \<Longrightarrow> sort_keys (dump_pred p) = sort_keys (dump_pred q) \<Longrightarrow> p = q"
proof (induction p arbitrary: q rule: dump_pred.induct)
  case (1 op children f v quant)
  let ?p = "Pred op children f v quant"
  have same: "vget (sort_keys (dump_pred ?p)) k = vget (sort_keys (dump_pred q)) k" for k
    using 1(4) by simp
  have op: "op = p_op q"
    using same [of "''op''"] by (simp add: vget_dump word_of_inject del: dump_pred.simps)
  have f: "f = p_field q"
    using same [of "''field''"] by (simp add: vget_dump del: dump_pred.simps split: option.splits)
  have quant: "quant = p_quantifier q"
    using same [of "''quantifier''"]
    by (simp add: vget_dump word_of_inject del: dump_pred.simps split: option.splits)
  have "matcher_value op v" "matcher_value (p_op q) (p_value q)"
    using 1(2,3) by (cases q; simp)+
  then have v: "v = p_value q"
    using same [of "''value''"] plain_sorted by (simp add: vget_dump del: dump_pred.simps)
  have "children = p_children q"
  proof (cases children)
    case None
    then show ?thesis
      using same [of "''children''"] by (simp add: vget_dump del: dump_pred.simps split: option.splits)
  next
    case (Some cs)
    then obtain ds where ds: "p_children q = Some ds" "map (sort_keys \<circ> dump_pred) cs = map (sort_keys \<circ> dump_pred) ds"
      using same [of "''children''"] by (auto simp: vget_dump simp del: dump_pred.simps split: option.splits)
    have "list_all2 (\<lambda>c d. sort_keys (dump_pred c) = sort_keys (dump_pred d)) cs ds"
      using ds(2) by (simp add: list_all2_map1 [symmetric] list_all2_map2 [symmetric] list.rel_eq [symmetric] list_all2_conv_all_nth list_eq_iff_nth_eq)
    moreover have "\<forall>d \<in> set ds. textual d"
      using 1(3) ds(1) by (cases q) auto
    ultimately have "list_all2 (=) cs ds"
      using 1(1) [OF Some] 1(2) Some by (auto simp: list_all2_conv_all_nth)
    then show ?thesis
      by (simp add: Some ds(1) list.rel_eq)
  qed
  with op f quant v show ?case by (cases q) simp
qed

lemma dump_numberless: "textual p \<Longrightarrow> numberless (sort_keys (dump_pred p))"
proof (induction p rule: dump_pred.induct)
  case (1 op children f v q)
  have "numberless (sort_keys v)"
    using plain_sorted 1(2) by (metis textual.simps)
  with 1 show ?case
    by (cases children; cases f; cases q) (auto simp: write_opt_def)
qed

lemma canonical_predicate_inject:
  assumes "textual p" "textual q" "canonical_predicate p = canonical_predicate q"
  shows "canonical p = canonical q"
  using assms textual_canonical dump_inject dump_numberless json_dumps_inject [of compact]
  by (simp add: canonical_predicate_def pred_text_def)

lemma canonical_predicate_meaning:
  assumes "textual p" "textual q" "canonical_predicate p = canonical_predicate q"
  shows "test_predicate p facts = test_predicate q facts"
  using canonical_predicate_inject [OF assms] test_canonical assms(1,2) by metis

lemma textual_valid: "valid_pred p \<Longrightarrow> textual p"
proof (induction p rule: valid_pred.induct)
  case (1 op children f v q)
  have "matcher_value op v"
    using 1(2) by (auto simp: validate_operation_def is_matcher_def Let_def list_all_iff
        elim!: enum_member.elims split: if_splits pyval.splits option.splits)
  with 1 show ?case by simp
qed

lemma textual_source: "source_constraint text effect = Some p \<Longrightarrow> textual p"
  by (auto simp: source_constraint_def path_constraint_def environment_constraint_def action_constraint_def
      junction_def eq_pred_def effect_pred_def Let_def split: option.splits if_splits)

end
