(* ===== verification/Policy_Activation.thy ===== *)
theory Policy_Activation
  imports Policy_Coverage
begin

text \<open>
  \<^verbatim>\<open>intaris/policy_activation.py\<close>: the compilation of English clauses by a language
  model, with its bounded cache, and the preparation of a policy snapshot.  The model's reply, the
  content hash, the configured identity of the client and the generated JSON schema are arguments.
  Rules are kept as records where the source keeps their dump (\<^verbatim>\<open>Rule_Codec\<close> relates
  the two).
\<close>

subsection \<open>Clauses and replies\<close>

record policy_clause =
  cl_id :: string
  cl_effect :: string
  cl_text :: string
  cl_source :: pyval

definition clause_dict :: "policy_clause \<Rightarrow> pyval" where
  "clause_dict c =
     VDict [(''id'', VStr (cl_id c)), (''effect'', VStr (cl_effect c)), (''text'', VStr (cl_text c)),
       (''source'', cl_source c)]"

datatype activation_error = HybridFailure string | RulesRejected

record compilation =
  cm_supported :: bool
  cm_reason :: string
  cm_rules :: "rule list"

definition true_words :: "string list" where
  "true_words = [''1'', ''on'', ''t'', ''true'', ''y'', ''yes'']"

definition false_words :: "string list" where
  "false_words = [''0'', ''off'', ''f'', ''false'', ''n'', ''no'']"

text \<open>Pydantic's lenient reading of a boolean.\<close>

fun read_bool :: "pyval \<Rightarrow> bool option" where
  "read_bool (VBool b) = Some b"
| "read_bool (VNum n) = (if n = 1 then Some True else if n = 0 then Some False else None)"
| "read_bool (VStr s) =
     (if py_lower s \<in> set true_words then Some True
      else if py_lower s \<in> set false_words then Some False else None)"
| "read_bool _ = None"

definition parse_compilation :: "pyval \<Rightarrow> compilation option" where
  "parse_compilation v =
     (case v of
        VDict d \<Rightarrow>
          (if \<not> set (map fst d) \<subseteq> {''supported'', ''reason'', ''rules''} then None
           else
             (case (read_bool (dget d ''supported''), read_str (dget d ''reason''), dget d ''rules'') of
                (Some supported, Some reason, VList raw) \<Rightarrow>
                  (if length raw > 64 then None
                   else map_option (\<lambda>rules. \<lparr>cm_supported = supported, cm_reason = reason, cm_rules = rules\<rparr>)
                     (those (map parse_rule raw)))
              | _ \<Rightarrow> None))
      | _ \<Rightarrow> None)"

subsection \<open>The compiler\<close>

record compiler_env =
  ce_digest :: "pyval \<Rightarrow> string"
  ce_identity :: "pyval option"
  ce_route :: string
  ce_schema :: pyval
  ce_reply :: "policy_clause list \<Rightarrow> pydict \<Rightarrow> pyval option"

record compiler =
  cp_cache :: "(string \<times> rule list) list"
  cp_capacity :: nat

definition bundle_version :: string where
  "bundle_version = ''builtin-v10''"

definition compiler_version :: string where
  "compiler_version = ''compiler-v4''"

definition classification_version :: string where
  "classification_version = ''action-intention-v2''"

definition compile_key :: "compiler_env \<Rightarrow> string \<Rightarrow> policy_clause list \<Rightarrow> pydict \<Rightarrow> pyval \<Rightarrow> pyval" where
  "compile_key env tenant clauses scope identity =
     VDict [(''tenant'', VStr tenant), (''clauses'', VList (map clause_dict clauses)), (''scope'', VDict scope),
       (''compiler'', VStr compiler_version), (''bundle'', VStr bundle_version), (''schema'', ce_schema env),
       (''classification_schema'', VStr classification_version), (''route'', VStr (ce_route env)),
       (''client'', identity)]"

definition constraint_of :: "policy_clause \<Rightarrow> pred option" where
  "constraint_of c = source_constraint (cl_text c) (cl_effect c)"

text \<open>The clause that a rule's identity names: the last one, where a dictionary is built from the list.\<close>

definition clause_named :: "policy_clause list \<Rightarrow> string \<Rightarrow> policy_clause option" where
  "clause_named clauses i = List.find (\<lambda>c. cl_id c = i) (rev clauses)"

definition effects_match :: "policy_clause list \<Rightarrow> rule list \<Rightarrow> bool" where
  "effects_match clauses rules \<longleftrightarrow>
     set (map r_id rules) = set (map cl_id clauses)
     \<and> (\<forall>c \<in> set clauses. map_option cl_effect (clause_named clauses (cl_id c)) =
          map_option (\<lambda>r. word_of effect_words (r_effect r)) (List.find (\<lambda>r. r_id r = cl_id c) (rev rules)))
     \<and> length rules = length clauses"

definition keeps_source :: "policy_clause list \<Rightarrow> rule \<Rightarrow> bool" where
  "keeps_source clauses r \<longleftrightarrow>
     (case clause_named clauses (r_id r) of
        None \<Rightarrow> False
      | Some c \<Rightarrow>
          (case constraint_of c of
             None \<Rightarrow> False
           | Some required \<Rightarrow> canonical_predicate (r_when r) = canonical_predicate required))"

definition checked_rules :: "policy_clause list \<Rightarrow> pyval option \<Rightarrow> activation_error + rule list" where
  "checked_rules clauses reply =
     (case (case reply of None \<Rightarrow> None | Some v \<Rightarrow> parse_compilation v) of
        None \<Rightarrow> Inl (HybridFailure ''policy_compilation_failed'')
      | Some result \<Rightarrow>
          if \<not> cm_supported result then Inl (HybridFailure ''unsupported_policy'')
          else if \<not> effects_match clauses (cm_rules result) then Inl (HybridFailure ''invalid_compilation'')
          else if \<not> distinct (map r_id (cm_rules result)) then Inl RulesRejected
          else if \<not> list_all (keeps_source clauses) (cm_rules result) then Inl (HybridFailure ''unsupported_policy'')
          else Inr (cm_rules result))"

definition move_to_end :: "string \<Rightarrow> (string \<times> 'v) list \<Rightarrow> (string \<times> 'v) list" where
  "move_to_end key cache = filter (\<lambda>kv. fst kv \<noteq> key) cache @ filter (\<lambda>kv. fst kv = key) cache"

text \<open>\<open>popitem(last=False)\<close> while the cache is over its capacity.\<close>

definition remember :: "string \<Rightarrow> rule list \<Rightarrow> compiler \<Rightarrow> compiler" where
  "remember key rules cp =
     cp\<lparr>cp_cache := (let cache = cp_cache cp @ [(key, rules)] in drop (length cache - cp_capacity cp) cache)\<rparr>"

definition outside_subset :: "policy_clause list \<Rightarrow> bool" where
  "outside_subset clauses \<longleftrightarrow>
     (\<exists>c \<in> set clauses. map_option constraint_of (clause_named clauses (cl_id c)) = Some None)"

definition compile_policy ::
    "compiler_env \<Rightarrow> string \<Rightarrow> policy_clause list \<Rightarrow> pydict \<Rightarrow> compiler \<Rightarrow> (activation_error + rule list) \<times> compiler" where
  "compile_policy env tenant clauses scope cp =
     (if outside_subset clauses
      then (Inl (HybridFailure ''unsupported_policy''), cp)
      else case ce_identity env of
        None \<Rightarrow> (Inl (HybridFailure ''policy_compilation_failed''), cp)
      | Some identity \<Rightarrow>
          (let key = ce_digest env (compile_key env tenant clauses scope identity) in
           case map_of (cp_cache cp) key of
             Some rules \<Rightarrow> (Inr rules, cp\<lparr>cp_cache := move_to_end key (cp_cache cp)\<rparr>)
           | None \<Rightarrow>
               (case checked_rules clauses (ce_reply env clauses scope) of
                  Inl e \<Rightarrow> (Inl e, cp)
                | Inr rules \<Rightarrow> (Inr rules, remember key rules cp))))"

subsection \<open>The policy a session declares\<close>

text \<open>\<open>SessionPolicy\<close>: every field is optional; a value is checked against the type of its field.\<close>

datatype field_type = StrictBool | Words "string list" | Texts | TextsOrDicts | Dicts | Text | Dict

definition policy_fields :: "(string \<times> field_type) list" where
  "policy_fields =
     [(''read_only_required'', StrictBool), (''minimum_outcome'', Words [''deny'', ''escalate'', ''approve'']),
      (''evaluation_policy_version'', Words [''legacy'', ''hybrid_v1'']),
      (''profile'', Words [''strict'', ''balanced'', ''bounded_autonomy'']), (''rules'', Dicts),
      (''intention_gate'', Words [''disabled'', ''jev'']),
      (''maximum_outcome'', Words [''deny'', ''escalate'', ''approve'']), (''allow_tools'', Texts),
      (''deny_tools'', Texts), (''allow_commands'', Texts), (''deny_commands'', Texts), (''allow_paths'', Texts),
      (''deny_paths'', Texts), (''allow_policies'', TextsOrDicts), (''deny_policies'', TextsOrDicts),
      (''interaction_mode'', Text), (''judge'', Dict)]"

fun is_dict :: "pyval \<Rightarrow> bool" where
  "is_dict (VDict d) = True"
| "is_dict _ = False"

fun is_list :: "pyval \<Rightarrow> bool" where
  "is_list (VList vs) = True"
| "is_list _ = False"

fun field_accepts :: "field_type \<Rightarrow> pyval \<Rightarrow> bool" where
  "field_accepts StrictBool v \<longleftrightarrow> v \<in> {VBool True, VBool False}"
| "field_accepts (Words ws) v \<longleftrightarrow> enum_member ws v"
| "field_accepts Texts v \<longleftrightarrow> is_list v \<and> list_all is_str (items_of v)"
| "field_accepts TextsOrDicts v \<longleftrightarrow> is_list v \<and> list_all (\<lambda>x. is_str x \<or> is_dict x) (items_of v)"
| "field_accepts Dicts v \<longleftrightarrow> is_list v \<and> list_all is_dict (items_of v)"
| "field_accepts Text v \<longleftrightarrow> is_str v"
| "field_accepts Dict v \<longleftrightarrow> is_dict v"

definition session_policy :: "pydict \<Rightarrow> pydict option" where
  "session_policy d =
     (if \<exists>(k, t) \<in> set policy_fields. dget d k \<noteq> VNone \<and> \<not> field_accepts t (dget d k) then None
      else Some (map (\<lambda>(k, t). (k, dget d k)) (filter (\<lambda>(k, t). dget d k \<noteq> VNone) policy_fields)))"

definition ddrop :: "string list \<Rightarrow> 'v dict \<Rightarrow> 'v dict" where
  "ddrop ks d = filter (\<lambda>kv. fst kv \<notin> set ks) d"

definition policy_version :: string where
  "policy_version = ''hybrid_v1''"

definition default_version :: "string \<Rightarrow> activation_error + string" where
  "default_version setting =
     (if setting \<in> {''legacy'', policy_version} then Inr setting else Inl (HybridFailure ''unsupported_policy_version''))"

definition requested_version :: "string \<Rightarrow> string option \<Rightarrow> pydict \<Rightarrow> activation_error + pyval" where
  "requested_version setting existing original =
     bindE (if existing \<noteq> None \<and> existing \<noteq> Some [] then Inr (the existing) else default_version setting)
       (\<lambda>fallback. Inr (dget_default original ''evaluation_policy_version'' (VStr fallback)))"

definition uncertain_approves :: "pydict \<Rightarrow> bool" where
  "uncertain_approves validated \<longleftrightarrow>
     (let judge = dget validated ''judge'' in
      vget judge ''on_uncertain'' = VStr ''approve''
      \<or> vget judge ''allowed_decisions'' = VList [VStr ''approve''])"

definition clause_text :: "pyval \<Rightarrow> pyval" where
  "clause_text item =
     (if is_str item then item
      else if truthy (vget item ''text'') then vget item ''text''
      else if truthy (vget item ''description'') then vget item ''description'' else vget item ''policy'')"

definition container_clauses :: "string \<times> string \<Rightarrow> pydict \<Rightarrow> activation_error + policy_clause list" where
  "container_clauses ce validated =
     (let items = items_of (dget validated (fst ce)) in
      if \<exists>item \<in> set items. case read_str (clause_text item) of None \<Rightarrow> True | Some t \<Rightarrow> py_strip t = []
      then Inl (HybridFailure ''invalid_policy_clause'')
      else Inr (map (\<lambda>(i, item). \<lparr>cl_id = fst ce @ ''.'' @ nat_str i, cl_effect = snd ce,
                   cl_text = the (read_str (clause_text item)), cl_source = item\<rparr>)
             (enumerate 0 items)))"

definition policy_clauses :: "pydict \<Rightarrow> activation_error + policy_clause list" where
  "policy_clauses validated =
     bindE (container_clauses (''allow_policies'', ''allow'') validated) (\<lambda>allow.
     bindE (container_clauses (''deny_policies'', ''deny'') validated) (\<lambda>deny. Inr (allow @ deny)))"

subsection \<open>Preparing a snapshot\<close>

text \<open>The rules to activate and the clauses that stay advisory.\<close>

definition compiled_clauses ::
    "compiler_env \<Rightarrow> string \<Rightarrow> policy_clause list \<Rightarrow> pydict \<Rightarrow> compiler
      \<Rightarrow> (activation_error + rule list \<times> policy_clause list) \<times> compiler" where
  "compiled_clauses env tenant clauses scope cp =
     (let compilable = filter (\<lambda>c. constraint_of c \<noteq> None) clauses;
          advisory = filter (\<lambda>c. constraint_of c = None) clauses
      in if compilable = [] then (Inr ([], advisory), cp)
         else case compile_policy env tenant compilable scope cp of
           (Inr rules, cp') \<Rightarrow> (Inr (rules, advisory), cp')
         | (Inl e, cp') \<Rightarrow>
             (if e = HybridFailure ''unsupported_policy'' then Inr ([], clauses) else Inl e, cp'))"

definition policy_snapshot ::
    "compiler_env \<Rightarrow> pydict \<Rightarrow> rule list \<Rightarrow> policy_clause list \<Rightarrow> policy_clause list \<Rightarrow> pydict" where
  "policy_snapshot env validated rules advisory clauses =
     [(''evaluation_policy_version'', VStr policy_version),
      (''profile'', dget_default validated ''profile'' (VStr ''balanced'')),
      (''bundle_version'', VStr bundle_version), (''classification_schema_version'', VStr classification_version),
      (''compiled_policy_hash'', VStr (ce_digest env (VList (map dump_rule rules)))),
      (''rules'', VList (map dump_rule rules)), (''advisory_clauses'', VList (map clause_dict advisory)),
      (''compiler_metadata'', VDict [(''version'', VStr compiler_version),
         (''sources'', VList (map clause_dict clauses))])]"

definition activated :: "compiler_env \<Rightarrow> pydict \<Rightarrow> pydict \<Rightarrow> pydict" where
  "activated env snapshot validated =
     (let v = dset (dset (dset validated ''evaluation_policy_version'' (VStr policy_version))
            ''profile'' (dget snapshot ''profile'')) ''active_policy'' (VDict snapshot)
      in dset v ''policy_hash'' (VStr (ce_digest env (VDict v))))"

definition prepare_hybrid ::
    "compiler_env \<Rightarrow> string \<Rightarrow> pydict \<Rightarrow> pydict \<Rightarrow> compiler \<Rightarrow> (activation_error + pydict) \<times> compiler" where
  "prepare_hybrid env tenant scope original cp =
     (if \<not> set (map fst original) \<subseteq> set (map fst policy_fields) then (Inl (HybridFailure ''invalid_policy''), cp)
      else case session_policy original of
        None \<Rightarrow> (Inl (HybridFailure ''invalid_policy''), cp)
      | Some validated \<Rightarrow>
          (case load_rules (items_of (dget validated ''rules'')) of
             Inl _ \<Rightarrow> (Inl (HybridFailure ''invalid_policy''), cp)
           | Inr custom \<Rightarrow>
               if uncertain_approves validated then (Inl (HybridFailure ''unsupported_judge_policy''), cp)
               else (case policy_clauses validated of
                 Inl e \<Rightarrow> (Inl e, cp)
               | Inr clauses \<Rightarrow>
                   (case compiled_clauses env tenant clauses scope cp of
                      (Inl e, cp') \<Rightarrow> (Inl e, cp')
                    | (Inr (rules, advisory), cp') \<Rightarrow>
                        (case load_rules (map dump_rule (custom @ rules)) of
                           Inl _ \<Rightarrow> (Inl (HybridFailure ''invalid_policy''), cp')
                         | Inr all_rules \<Rightarrow>
                             (Inr (activated env (policy_snapshot env validated all_rules advisory clauses) validated),
                              cp'))))))"

definition prepare_policy ::
    "compiler_env \<Rightarrow> string \<Rightarrow> string \<Rightarrow> pydict \<Rightarrow> string option \<Rightarrow> pydict option \<Rightarrow> compiler
      \<Rightarrow> (activation_error + pydict option) \<times> compiler" where
  "prepare_policy env setting tenant scope existing policy cp =
     (let original = ddrop [''active_policy'', ''policy_hash''] (case policy of None \<Rightarrow> [] | Some d \<Rightarrow> d) in
      case requested_version setting existing original of
        Inl e \<Rightarrow> (Inl e, cp)
      | Inr version \<Rightarrow>
          if version = VStr ''legacy'' then (Inr policy, cp)
          else if version \<noteq> VStr policy_version then (Inl (HybridFailure ''unsupported_policy_version''), cp)
          else case prepare_hybrid env tenant scope original cp of
            (Inl e, cp') \<Rightarrow> (Inl e, cp')
          | (Inr d, cp') \<Rightarrow> (Inr (Some d), cp'))"

lemma prepare_hybrid_parts:
  assumes "prepare_hybrid env tenant scope original cp = (Inr v, cp')"
  obtains validated custom clauses rules advisory all_rules where
    "session_policy original = Some validated" "load_rules (items_of (dget validated ''rules'')) = Inr custom"
    "policy_clauses validated = Inr clauses"
    "compiled_clauses env tenant clauses scope cp = (Inr (rules, advisory), cp')"
    "load_rules (map dump_rule (custom @ rules)) = Inr all_rules"
    "v = activated env (policy_snapshot env validated all_rules advisory clauses) validated"
  using assms unfolding prepare_hybrid_def
  by (auto split: if_splits option.splits sum.splits prod.splits)

end
