(* ===== verification/Activation_Properties.thy ===== *)
theory Activation_Properties
  imports Policy_Activation
begin

text \<open>
  What the language model can and cannot do to a policy: the rules it compiles mean what the clauses
  say, whatever it replied, and no clause of a prepared policy is lost.
\<close>

subsection \<open>Rules that stand for clauses\<close>

definition means :: "policy_clause \<Rightarrow> rule \<Rightarrow> bool" where
  "means c r \<longleftrightarrow>
     r_id r = cl_id c \<and> word_of effect_words (r_effect r) = cl_effect c
     \<and> (\<exists>p. constraint_of c = Some p \<and> (\<forall>facts. test_predicate (r_when r) facts = test_predicate p facts))"

definition covers :: "policy_clause list \<Rightarrow> rule list \<Rightarrow> bool" where
  "covers clauses rules \<longleftrightarrow>
     set (map r_id rules) = set (map cl_id clauses) \<and> length rules = length clauses
     \<and> list_all valid_rule rules \<and> (\<forall>r \<in> set rules. \<exists>c \<in> set clauses. means c r)"

lemma parse_compilation_valid:
  "parse_compilation v = Some cm \<Longrightarrow> r \<in> set (cm_rules cm) \<Longrightarrow> valid_rule r"
  by (auto simp: parse_compilation_def those_Some map_eq_conv split: pyval.splits if_splits option.splits
      dest!: arg_cong [where f = set]) (metis image_eqI imageE parse_rule_valid)

lemma find_rev_distinct:
  "distinct (map f xs) \<Longrightarrow> x \<in> set xs \<Longrightarrow> List.find (\<lambda>y. f y = f x) (rev xs) = Some x"
proof -
  assume distinct: "distinct (map f xs)" "x \<in> set xs"
  then obtain y where y: "List.find (\<lambda>y. f y = f x) (rev xs) = Some y"
    by (cases "List.find (\<lambda>y. f y = f x) (rev xs)") (auto simp: find_None_iff)
  then have "f y = f x" "y \<in> set xs"
    by (auto simp: find_Some_iff) (metis length_rev nth_mem set_rev)
  with y distinct show ?thesis
    by (auto simp: distinct_map dest: inj_onD)
qed

lemma checked_rules_cover:
  assumes "checked_rules clauses reply = Inr rules"
  shows "covers clauses rules"
proof -
  obtain v cm where cm: "parse_compilation v = Some cm" "rules = cm_rules cm" "effects_match clauses rules"
      "distinct (map r_id rules)" "list_all (keeps_source clauses) rules"
    using assms by (auto simp: checked_rules_def split: option.splits if_splits)
  have "\<exists>c \<in> set clauses. means c r" if "r \<in> set rules" for r
  proof -
    have "keeps_source clauses r"
      using cm(5) that by (simp add: list_all_iff)
    then obtain c p where c: "clause_named clauses (r_id r) = Some c" "constraint_of c = Some p"
        and same: "canonical_predicate (r_when r) = canonical_predicate p"
      by (auto simp: keeps_source_def split: option.splits)
    have id: "cl_id c = r_id r" and member: "c \<in> set clauses"
      using c(1) by (auto simp: clause_named_def find_Some_iff) (metis length_rev nth_mem set_rev)
    have "List.find (\<lambda>r'. r_id r' = cl_id c) (rev rules) = Some r"
      using find_rev_distinct [OF cm(4) that] by (simp add: id)
    then have "word_of effect_words (r_effect r) = cl_effect c"
      using cm(3) member c(1) by (auto simp: effects_match_def id)
    moreover have "valid_pred (r_when r)"
      using parse_compilation_valid [OF cm(1)] that cm(2) by (simp add: valid_rule_def)
    then have "\<forall>facts. test_predicate (r_when r) facts = test_predicate p facts"
      using canonical_predicate_meaning [OF textual_valid textual_source same] c(2)
      by (simp add: constraint_of_def)
    ultimately have "means c r"
      using id c(2) unfolding means_def by simp
    with member show ?thesis by blast
  qed
  moreover have "list_all valid_rule rules"
    using parse_compilation_valid [OF cm(1)] by (simp add: cm(2) list_all_iff)
  ultimately show ?thesis
    using cm(3) by (simp add: covers_def effects_match_def)
qed

subsection \<open>The cache\<close>

definition request_keys :: "compiler_env \<Rightarrow> string \<Rightarrow> policy_clause list \<Rightarrow> pydict \<Rightarrow> pyval list" where
  "request_keys env tenant clauses scope =
     (case ce_identity env of None \<Rightarrow> [] | Some i \<Rightarrow> [compile_key env tenant clauses scope i])"

text \<open>Any sequence of compilations under one hash, from an empty cache: replies and identities may vary.\<close>

inductive compile_run :: "(pyval \<Rightarrow> string) \<Rightarrow> pyval list \<Rightarrow> compiler \<Rightarrow> bool" for digest where
  fresh: "compile_run digest [] \<lparr>cp_cache = [], cp_capacity = n\<rparr>"
| compiled: "compile_run digest keys cp \<Longrightarrow> ce_digest env = digest \<Longrightarrow>
     compile_policy env tenant clauses scope cp = (res, cp') \<Longrightarrow>
     compile_run digest (request_keys env tenant clauses scope @ keys) cp'"

definition cache_ok :: "(pyval \<Rightarrow> string) \<Rightarrow> pyval list \<Rightarrow> compiler \<Rightarrow> bool" where
  "cache_ok digest keys cp \<longleftrightarrow>
     length (cp_cache cp) \<le> cp_capacity cp
     \<and> (\<forall>(k, rules) \<in> set (cp_cache cp). \<exists>key \<in> set keys. \<exists>clauses.
          k = digest key \<and> vget key ''clauses'' = VList (map clause_dict clauses) \<and> covers clauses rules)"

lemma key_clauses [simp]: "vget (compile_key env tenant clauses scope i) ''clauses'' = VList (map clause_dict clauses)"
  by (simp add: compile_key_def dget_def)

lemma clause_dict_inject: "map clause_dict cs = map clause_dict ds \<longleftrightarrow> cs = ds"
proof -
  have "inj clause_dict"
    by (auto simp: inj_def clause_dict_def intro: policy_clause.equality)
  then show ?thesis
    by (simp add: inj_map_eq_map)
qed

lemma compile_policy_cases:
  assumes "compile_policy env tenant clauses scope cp = (res, cp')"
  obtains e where "res = Inl e" "cp' = cp"
  | i rules where "ce_identity env = Some i" "res = Inr rules"
      "map_of (cp_cache cp) (ce_digest env (compile_key env tenant clauses scope i)) = Some rules"
      "cp' = cp\<lparr>cp_cache := move_to_end (ce_digest env (compile_key env tenant clauses scope i)) (cp_cache cp)\<rparr>"
  | i rules where "ce_identity env = Some i" "res = Inr rules" "covers clauses rules"
      "cp' = remember (ce_digest env (compile_key env tenant clauses scope i)) rules cp"
proof (cases "outside_subset clauses \<or> ce_identity env = None")
  case True
  with assms have "cp' = cp" "\<exists>e. res = Inl e"
    by (auto simp: compile_policy_def split: if_splits)
  with that(1) show thesis by blast
next
  case False
  then obtain i where i: "ce_identity env = Some i" by blast
  let ?key = "ce_digest env (compile_key env tenant clauses scope i)"
  have step: "(res, cp') = (case map_of (cp_cache cp) ?key of
      Some rules \<Rightarrow> (Inr rules, cp\<lparr>cp_cache := move_to_end ?key (cp_cache cp)\<rparr>)
    | None \<Rightarrow> (case checked_rules clauses (ce_reply env clauses scope) of
        Inl e \<Rightarrow> (Inl e, cp) | Inr rules \<Rightarrow> (Inr rules, remember ?key rules cp)))"
    using assms False i by (simp add: compile_policy_def Let_def)
  show thesis
  proof (cases "map_of (cp_cache cp) ?key")
    case (Some rules)
    with step that(2) [OF i] show thesis by simp
  next
    case None
    with step that(1) that(3) [OF i] checked_rules_cover show thesis
      by (cases "checked_rules clauses (ce_reply env clauses scope)") auto
  qed
qed

lemma move_to_end_simps [simp]:
  "set (move_to_end key cache) = set cache" "length (move_to_end key cache) = length cache"
  using sum_length_filter_compl [of "\<lambda>kv. fst kv = key" cache] by (auto simp: move_to_end_def)

lemma compile_run_ok: "compile_run digest keys cp \<Longrightarrow> cache_ok digest keys cp"
proof (induction rule: compile_run.induct)
  case (fresh n)
  then show ?case by (simp add: cache_ok_def)
next
  case (compiled keys cp env tenant clauses scope res cp')
  have keep: "cache_ok digest (more @ keys) cp" for more
    using compiled.IH unfolding cache_ok_def by fastforce
  show ?case
    using compiled.hyps(3)
  proof (cases rule: compile_policy_cases)
    case 1
    with keep show ?thesis by simp
  next
    case (2 i rules)
    with keep show ?thesis by (simp add: cache_ok_def)
  next
    case (3 i rules)
    have "set (cp_cache cp') \<subseteq> insert (digest (compile_key env tenant clauses scope i), rules) (set (cp_cache cp))"
      unfolding 3(4) remember_def compiled.hyps(2) by (auto simp: Let_def dest: in_set_dropD)
    moreover have "length (cp_cache cp') \<le> cp_capacity cp'"
      by (simp add: 3(4) remember_def Let_def)
    moreover have "compile_key env tenant clauses scope i \<in> set (request_keys env tenant clauses scope @ keys)"
      by (simp add: request_keys_def 3(1))
    moreover have "\<forall>(k, rules) \<in> set (cp_cache cp). \<exists>key \<in> set (request_keys env tenant clauses scope @ keys).
        \<exists>clauses. k = digest key \<and> vget key ''clauses'' = VList (map clause_dict clauses) \<and> covers clauses rules"
      using keep unfolding cache_ok_def by blast
    ultimately show ?thesis
      unfolding cache_ok_def using 3(3) key_clauses [of env tenant clauses scope i] by blast
  qed
qed

lemma compiled_covers:
  assumes "compile_run (ce_digest env) keys cp"
    and "inj_on (ce_digest env) (set (request_keys env tenant clauses scope @ keys))"
    and "compile_policy env tenant clauses scope cp = (Inr rules, cp')"
  shows "covers clauses rules"
  using assms(3)
proof (cases rule: compile_policy_cases)
  case (2 i rules')
  then have "(ce_digest env (compile_key env tenant clauses scope i), rules) \<in> set (cp_cache cp)"
    by (auto dest: map_of_SomeD)
  then obtain key clauses' where key: "key \<in> set keys" "covers clauses' rules"
      "ce_digest env (compile_key env tenant clauses scope i) = ce_digest env key"
      "vget key ''clauses'' = VList (map clause_dict clauses')"
    using compile_run_ok [OF assms(1)] unfolding cache_ok_def by fastforce
  then have "key = compile_key env tenant clauses scope i"
    using assms(2) 2(1) by (auto simp: request_keys_def dest: inj_onD)
  with key show ?thesis
    by (simp add: clause_dict_inject)
qed simp_all

text \<open>C25. The language model cannot change what a policy says.  Whatever it replies, now or in any earlier
  compilation of the run, a successful compilation answers with exactly one rule per clause, of the
  clause's effect, whose condition has on every set of facts the truth value of the predicate the
  clause's English stands for; and the cache stays within its capacity.  The content hash is assumed
  to tell the requests of the run apart.\<close>

theorem compiled_rules_mean_source:
  assumes "compile_run (ce_digest env) keys cp"
    and "inj_on (ce_digest env) (set (request_keys env tenant clauses scope @ keys))"
    and "compile_policy env tenant clauses scope cp = (Inr rules, cp')"
  shows "covers clauses rules \<and> length (cp_cache cp') \<le> cp_capacity cp'"
proof -
  have "cache_ok (ce_digest env) (request_keys env tenant clauses scope @ keys) cp'"
    by (rule compile_run_ok, rule compiled [OF assms(1) refl assms(3)])
  moreover have "covers clauses rules"
    using assms by (rule compiled_covers)
  ultimately show ?thesis
    by (simp add: cache_ok_def)
qed

definition sample_clauses :: "policy_clause list" where
  "sample_clauses =
     [\<lparr>cl_id = ''deny_policies.0'', cl_effect = ''deny'', cl_text = ''Deny deletion of files matching /srv/*.'',
       cl_source = VStr ''Deny deletion of files matching /srv/*.''\<rparr>]"

definition sample_reply :: pyval where
  "sample_reply =
     VDict [(''supported'', VBool True), (''reason'', VStr []), (''rules'', VList
       [VDict [(''id'', VStr ''deny_policies.0''), (''effect'', VStr ''deny''),
          (''when'', VDict [(''op'', VStr ''all''), (''children'', VList
             [VDict [(''op'', VStr ''path_matches''), (''value'', VStr ''/srv/*''), (''quantifier'', VStr ''any'')],
              VDict [(''op'', VStr ''contains''), (''field'', VStr ''effects''), (''value'', VStr ''delete'')]])])]])]"

definition sample_compiler_env :: compiler_env where
  "sample_compiler_env =
     \<lparr>ce_digest = (\<lambda>v. ''hash''), ce_identity = Some VNone, ce_route = [], ce_schema = VNone,
      ce_reply = (\<lambda>clauses scope. Some sample_reply)\<rparr>"

definition sample_compiler :: compiler where
  "sample_compiler = \<lparr>cp_cache = [], cp_capacity = 128\<rparr>"

definition sample_compiled :: "rule list" where
  "sample_compiled =
     [\<lparr>r_id = ''deny_policies.0'', r_effect = DenyRule,
       r_when = Pred OpAll (Some [Pred OpPath None None (VStr ''/srv/*'') (Some QAny),
          Pred OpContains None (Some ''effects'') (VStr ''delete'') None]) None VNone None,
       r_description = None\<rparr>]"

theorem compiled_rules_mean_source_witness:
  "covers sample_clauses sample_compiled
     \<and> length (cp_cache (remember ''hash'' sample_compiled sample_compiler)) \<le>
        cp_capacity (remember ''hash'' sample_compiled sample_compiler)"
proof (rule compiled_rules_mean_source [where env = sample_compiler_env and keys = "[]" and cp = sample_compiler])
  show "compile_run (ce_digest sample_compiler_env) [] sample_compiler"
    unfolding sample_compiler_def by (rule fresh)
  show "inj_on (ce_digest sample_compiler_env) (set (request_keys sample_compiler_env ''u'' sample_clauses [] @ []))"
    by (simp add: request_keys_def sample_compiler_env_def)
  show "compile_policy sample_compiler_env ''u'' sample_clauses [] sample_compiler =
      (Inr sample_compiled, remember ''hash'' sample_compiled sample_compiler)"
    by code_simp
qed

subsection \<open>Clause identities\<close>

lemma nat_str_parts: "nat_str n = (if n < 10 then [] else nat_str (n div 10)) @ [char_of (48 + n mod 10)]"
  by (subst nat_str.simps) simp

lemma nat_str_inject: "nat_str m = nat_str n \<longleftrightarrow> m = n"
proof (induction m arbitrary: n rule: nat_str.induct)
  case (1 m)
  have not_Nil: "nat_str k \<noteq> []" for k
    by (subst nat_str_parts) simp
  show ?case
  proof
    assume "nat_str m = nat_str n"
    then have "(if m < 10 then [] else nat_str (m div 10)) = (if n < 10 then [] else nat_str (n div 10))"
        and digit: "char_of (48 + m mod 10) = (char_of (48 + n mod 10) :: char)"
      by (subst (asm) (1 2) nat_str_parts, simp)+
    then have "m div 10 = n div 10"
      using 1 not_Nil not_Nil [symmetric] by (auto split: if_splits)
    moreover have "m mod 10 = n mod 10"
      using digit mod_less_divisor [of 10 m] mod_less_divisor [of 10 n] by simp
    ultimately show "m = n"
      by (metis div_mult_mod_eq)
  qed simp
qed

lemma container_clause_ids:
  assumes "container_clauses (container, effect) validated = Inr cs"
  shows "distinct (map cl_id cs)" "\<forall>i \<in> set (map cl_id cs). starts_with i (container @ ''.'')"
proof -
  have ids: "map cl_id cs = map (\<lambda>i. container @ ''.'' @ nat_str i) [0..<length (items_of (dget validated container))]"
  proof -
    have "map cl_id cs = map (\<lambda>i. container @ ''.'' @ nat_str i)
        (map fst (enumerate 0 (items_of (dget validated container))))"
      using assms
      by (auto simp: container_clauses_def Let_def split_beta o_def simp del: map_fst_enumerate split: if_splits)
    then show ?thesis
      by (simp only: map_fst_enumerate add_0)
  qed
  show "distinct (map cl_id cs)"
    unfolding ids by (simp add: distinct_map inj_on_def nat_str_inject)
  show "\<forall>i \<in> set (map cl_id cs). starts_with i (container @ ''.'')"
    unfolding ids by (simp add: starts_with_def)
qed

lemma policy_clause_ids: "policy_clauses validated = Inr cs \<Longrightarrow> distinct (map cl_id cs)"
proof -
  assume "policy_clauses validated = Inr cs"
  then obtain allow deny where "container_clauses (''allow_policies'', ''allow'') validated = Inr allow"
      "container_clauses (''deny_policies'', ''deny'') validated = Inr deny" "cs = allow @ deny"
    by (auto simp: policy_clauses_def bindE_eq_Inr)
  moreover have "\<not> (starts_with i ''allow_policies.'' \<and> starts_with i ''deny_policies.'')" for i
    by (auto simp: starts_with_iff)
  ultimately show ?thesis
    using container_clause_ids by (fastforce simp: distinct_append)
qed

subsection \<open>Prepared policies\<close>

lemma compiled_clauses_covered:
  assumes "compile_run (ce_digest env) keys cp"
    and "inj_on (ce_digest env)
      (set (request_keys env tenant (filter (\<lambda>c. constraint_of c \<noteq> None) clauses) scope @ keys))"
    and "distinct (map cl_id clauses)"
    and "compiled_clauses env tenant clauses scope cp = (Inr (rules, advisory), cp')"
  shows "list_all valid_rule rules \<and> (\<forall>c \<in> set clauses. c \<in> set advisory \<or> (\<exists>r \<in> set rules. means c r))"
proof -
  let ?compilable = "filter (\<lambda>c. constraint_of c \<noteq> None) clauses"
  consider "rules = []" "set clauses \<subseteq> set advisory"
    | "compile_policy env tenant ?compilable scope cp = (Inr rules, cp')"
      "advisory = filter (\<lambda>c. constraint_of c = None) clauses"
    using assms(4) by (auto simp: compiled_clauses_def Let_def filter_empty_conv split: if_splits prod.splits sum.splits)
  then show ?thesis
  proof cases
    case 2
    have covers: "covers ?compilable rules"
      using assms(1,2) 2(1) by (rule compiled_covers)
    have "\<exists>r \<in> set rules. means c r" if c: "c \<in> set clauses" "c \<notin> set advisory" for c
    proof -
      have "cl_id c \<in> set (map r_id rules)"
        using covers c 2(2) by (auto simp: covers_def)
      then obtain r where r: "r \<in> set rules" "r_id r = cl_id c" by auto
      then obtain c' where c': "c' \<in> set ?compilable" "means c' r"
        using covers r(1) unfolding covers_def by blast
      then have "c' = c"
        using assms(3) c(1) r(2) by (auto simp: means_def distinct_map dest: inj_onD)
      with r c' show ?thesis by blast
    qed
    with covers show ?thesis
      by (auto simp: covers_def)
  qed auto
qed

text \<open>No clause of a policy is lost, and no rule is invented.  In the snapshot that preparation activates,
  every clause of the policy is kept as an advisory clause or is represented by a rule of its effect
  and meaning, whatever the language model replied; the rules are the validated custom rules followed
  by the compiled ones, and they validate again when an evaluation loads the stored snapshot.\<close>

theorem policy_clauses_covered:
  assumes "prepare_hybrid env tenant scope original cp = (Inr v, cp')"
    and "compile_run (ce_digest env) keys cp"
    and "\<And>validated clauses. session_policy original = Some validated \<Longrightarrow> policy_clauses validated = Inr clauses \<Longrightarrow>
      inj_on (ce_digest env)
        (set (request_keys env tenant (filter (\<lambda>c. constraint_of c \<noteq> None) clauses) scope @ keys))"
  shows "\<exists>validated custom clauses rules advisory.
     session_policy original = Some validated \<and> policy_clauses validated = Inr clauses
     \<and> load_rules (items_of (dget validated ''rules'')) = Inr custom
     \<and> dget v ''active_policy'' = VDict (policy_snapshot env validated (custom @ rules) advisory clauses)
     \<and> load_rules (items_of (vget (dget v ''active_policy'') ''rules'')) = Inr (custom @ rules)
     \<and> (\<forall>c \<in> set clauses. c \<in> set advisory \<or> (\<exists>r \<in> set rules. means c r))"
proof -
  obtain validated custom clauses rules advisory all_rules where parts:
    "session_policy original = Some validated" "load_rules (items_of (dget validated ''rules'')) = Inr custom"
    "policy_clauses validated = Inr clauses"
    "compiled_clauses env tenant clauses scope cp = (Inr (rules, advisory), cp')"
    "load_rules (map dump_rule (custom @ rules)) = Inr all_rules"
    "v = activated env (policy_snapshot env validated all_rules advisory clauses) validated"
    using assms(1) by (rule prepare_hybrid_parts)
  have covered: "list_all valid_rule rules" "\<forall>c \<in> set clauses. c \<in> set advisory \<or> (\<exists>r \<in> set rules. means c r)"
    using compiled_clauses_covered [OF assms(2) assms(3) [OF parts(1,3)] policy_clause_ids [OF parts(3)] parts(4)]
    by blast+
  have "all_rules = custom @ rules"
    using parts(5) parse_dump_rules [of "custom @ rules"] covered(1) load_rulesD(1) [OF parts(2)]
    by (auto simp: load_rules_def split: if_splits option.splits)
  moreover have active: "dget v ''active_policy'' = VDict (policy_snapshot env validated all_rules advisory clauses)"
    by (simp add: parts(6) activated_def Let_def)
  moreover have "items_of (vget (VDict (policy_snapshot env validated all_rules advisory clauses)) ''rules'')
      = map dump_rule all_rules"
    by (simp add: policy_snapshot_def dget_def)
  ultimately show ?thesis
    using parts covered(2) by (intro exI conjI) auto
qed

definition sample_session_policy :: pydict where
  "sample_session_policy =
     [(''deny_policies'', VList [VStr ''Deny deletion of files matching /srv/*.'', VStr ''Be careful'']),
      (''rules'', VList sample_raw_rules)]"

definition sample_prepared :: "(activation_error + pydict) \<times> compiler" where
  "sample_prepared = prepare_hybrid sample_compiler_env ''u'' [] sample_session_policy sample_compiler"

definition prepared_policy :: pydict where
  "prepared_policy = (case fst sample_prepared of Inr d \<Rightarrow> d | Inl _ \<Rightarrow> [])"

lemma sample_prepared_result: "sample_prepared = (Inr prepared_policy, snd sample_prepared)"
proof -
  have "\<not> isl (fst sample_prepared)"
    by code_simp
  then show ?thesis
    by (cases "fst sample_prepared") (auto simp: prepared_policy_def prod_eq_iff)
qed

theorem policy_clauses_covered_witness:
  "\<exists>validated custom clauses rules advisory.
     session_policy sample_session_policy = Some validated \<and> policy_clauses validated = Inr clauses
     \<and> load_rules (items_of (dget validated ''rules'')) = Inr custom
     \<and> dget prepared_policy ''active_policy'' =
        VDict (policy_snapshot sample_compiler_env validated (custom @ rules) advisory clauses)
     \<and> load_rules (items_of (vget (dget prepared_policy ''active_policy'') ''rules'')) = Inr (custom @ rules)
     \<and> (\<forall>c \<in> set clauses. c \<in> set advisory \<or> (\<exists>r \<in> set rules. means c r))"
proof (rule policy_clauses_covered)
  show "prepare_hybrid sample_compiler_env ''u'' [] sample_session_policy sample_compiler =
      (Inr prepared_policy, snd sample_prepared)"
    using sample_prepared_result by (simp only: sample_prepared_def)
  show "compile_run (ce_digest sample_compiler_env) [] sample_compiler"
    unfolding sample_compiler_def by (rule fresh)
qed (simp add: request_keys_def sample_compiler_env_def)

end
