(* ===== verification/Delegated_Denial.thy ===== *)
theory Delegated_Denial
  imports Hybrid_Safety Policy_Inheritance Outcome_Finalization Policy_Activation
begin

text \<open>
  The way of a deny rule from a parent's policy through composition, activation, evaluation and
  finalization: each component keeps it.
\<close>

lemma map_of_present:
  "map_of (map (\<lambda>(k, t). (k, g k)) (filter (\<lambda>(k, t). g k \<noteq> VNone) fs)) k =
     (if k \<in> fst ` set fs \<and> g k \<noteq> VNone then Some (g k) else None)"
  by (induction fs) auto

lemma session_policy_rules:
  assumes "session_policy d = Some v"
  shows "dget v ''rules'' = dget d ''rules''"
proof -
  have "v = map (\<lambda>(k, t). (k, dget d k)) (filter (\<lambda>(k, t). dget d k \<noteq> VNone) policy_fields)"
    using assms unfolding session_policy_def by (simp split: if_splits)
  then have "map_of v ''rules'' = (if dget d ''rules'' \<noteq> VNone then Some (dget d ''rules'') else None)"
    by (simp only: map_of_present) (simp add: policy_fields_def)
  then show ?thesis
    by (simp add: dget_def [of v])
qed

lemma dget_ddrop: "k \<notin> set ks \<Longrightarrow> dget (ddrop ks d) k = dget d k"
  by (induction d) (auto simp: ddrop_def dget_def)

lemma load_dumped_keep:
  assumes "load_rules (map dump_rule rs) = Inr rules" "r \<in> set rs" "valid_rule r"
  shows "r \<in> set rules"
proof -
  have "map parse_rule (map dump_rule rs) = map Some rules"
    using assms(1) by (rule load_rulesD(4))
  then have "parse_rule (dump_rule r) \<in> Some ` set rules"
    using assms(2) by (metis (no_types, opaque_lifting) image_eqI list.set_map)
  then show ?thesis
    using parse_dump_rule [OF assms(3)] by auto
qed

lemma load_rules_parses:
  assumes "load_rules raw = Inr rules" "x \<in> set raw" "parse_rule x = Some r"
  shows "r \<in> set rules" "valid_rule r"
proof -
  have "Some r \<in> Some ` set rules"
    using load_rulesD(4) [OF assms(1)] assms(2,3) by (metis image_eqI list.set_map)
  then show "r \<in> set rules" by auto
  show "valid_rule r"
    using assms(3) by (rule parse_rule_valid)
qed

lemma prepared_keeps_rules:
  assumes "prepare_policy env setting tenant scope existing (Some policy) cp = (Inr (Some v), cp')"
    and "dget v ''evaluation_policy_version'' = VStr policy_version"
    and "x \<in> set (items_of (dget policy ''rules''))" "parse_rule x = Some r"
    and "load_rules (items_of (vget (dget v ''active_policy'') ''rules'')) = Inr rules"
  shows "r \<in> set rules"
proof -
  let ?original = "ddrop [''active_policy'', ''policy_hash''] policy"
  obtain version where version: "requested_version setting existing ?original = Inr version"
    using assms(1) by (auto simp: prepare_policy_def Let_def split: sum.splits)
  have "prepare_hybrid env tenant scope ?original cp = (Inr v, cp')"
  proof (cases "version = VStr ''legacy''")
    case True
    then have "v = policy"
      using assms(1) version by (simp add: prepare_policy_def Let_def)
    then have "dget ?original ''evaluation_policy_version'' = VStr policy_version"
      using assms(2) by (simp add: dget_ddrop)
    then have "version = VStr policy_version"
      using version by (auto simp: requested_version_def bindE_eq_Inr dget_def dget_default_def split: option.splits)
    with True show ?thesis by (simp add: policy_version_def)
  next
    case False
    then show ?thesis
      using assms(1) version by (auto simp: prepare_policy_def Let_def split: if_splits prod.splits sum.splits)
  qed
  then show ?thesis
  proof (rule prepare_hybrid_parts)
    fix validated custom clauses compiled advisory all_rules
    assume parts: "session_policy ?original = Some validated"
        "load_rules (items_of (dget validated ''rules'')) = Inr custom"
        "load_rules (map dump_rule (custom @ compiled)) = Inr all_rules"
        "v = activated env (policy_snapshot env validated all_rules advisory clauses) validated"
    have "x \<in> set (items_of (dget validated ''rules''))"
      using assms(3) session_policy_rules [OF parts(1)] by (simp add: dget_ddrop)
    note custom = load_rules_parses [OF parts(2) this assms(4)]
    then have "r \<in> set all_rules"
      using load_dumped_keep [OF parts(3)] by simp
    moreover have "items_of (vget (dget v ''active_policy'') ''rules'') = map dump_rule all_rules"
      by (simp add: parts(4) activated_def policy_snapshot_def dget_def Let_def)
    ultimately show ?thesis
      using load_dumped_keep [of all_rules rules r] assms(5) custom(2) by simp
  qed
qed

lemma denied_not_approved:
  assumes "finalize_result res bd = Inr f" "pr_outcome res = Denied"
    and "bd_human_resolution bd \<noteq> Some ''approve''" "bd_maximum bd \<noteq> Some Approve"
  shows "fr_decision f \<noteq> Approve"
  using assms(1)
proof (rule finalize_cases)
  fix raw human b
  assume raw: "raw_outcome (pr_outcome res) = Some raw" and f: "f = settle res bd raw human b"
    and no: "bd_human_resolution bd = None \<Longrightarrow> human = bd_human_approved bd
       \<and> b = human_stage raw human (invalid_stage res human (mandatory_stage res human
               (cap_stage (bd_maximum bd) raw)))"
    and yes: "bd_human_resolution bd \<noteq> None \<Longrightarrow> b = (if human then Approve else Deny, Some ''human_resolution'')
       \<and> (human \<longleftrightarrow> bd_human_resolution bd = Some ''approve'')"
  have raw: "raw = Deny"
    using raw by (simp add: assms(2))
  have cap: "fst (cap_stage (bd_maximum bd) Deny) \<noteq> Approve"
    using assms(4) by (cases "bd_maximum bd") (auto simp: cap_stage_def Let_def max_def split: outcome.splits)
  have "fst b \<noteq> Approve"
  proof (cases "bd_human_resolution bd")
    case None
    with no raw have "b = invalid_stage res human (mandatory_stage res human (cap_stage (bd_maximum bd) Deny))"
      by (simp add: human_stage_def)
    then show ?thesis
      using cap outcome_min_escalate by (simp add: invalid_stage_def mandatory_stage_def)
  next
    case (Some resolution)
    with yes assms(3) show ?thesis by simp
  qed
  then show ?thesis
    unfolding f by (rule settle_not_approve) (use assms(4) in \<open>simp add: fallback_stays_closed_def\<close>)
qed

end
