(* ===== verification/Shell_Words.thy ===== *)
theory Shell_Words
  imports Pattern
begin

text \<open>
  The lexer of Python's \<^verbatim>\<open>shlex\<close> module as \<^verbatim>\<open>intaris/classifier.py\<close> configures it (always
  with \<^verbatim>\<open>whitespace_split\<close>, so the table of word characters plays no part), and
  \<^verbatim>\<open>shlex.split\<close>, \<^verbatim>\<open>quote\<close> and \<^verbatim>\<open>join\<close>.  The lemmas bound the text of the tokens
  by the text they come from, and show that joined tokens split into themselves.
\<close>

subsection \<open>The lexer\<close>

datatype lex_error = NoClosingQuotation | NoEscapedCharacter

record lexer =
  lx_posix :: bool
  lx_punct :: string
  lx_space :: string
  lx_comment :: string

text \<open>\<open>Escaped\<close> remembers the state to return to: a word, or a quoted part.\<close>

datatype lex_state = Blank | Word | Punct | Quoted char | Escaped "char option"

definition quote_char :: "char \<Rightarrow> bool" where
  "quote_char c \<longleftrightarrow> c = CHR 0x27 \<or> c = CHR 0x22"

definition backslash :: char where
  "backslash = CHR 0x5C"

text \<open>What \<^verbatim>\<open>readline\<close> leaves.\<close>

definition skip_line :: "string \<Rightarrow> string" where
  "skip_line s = drop 1 (dropWhile non_newline s)"

lemma skip_line_length: "length (skip_line s) \<le> length s"
  using length_dropWhile_le [of non_newline s] by (simp add: skip_line_def)

lemma skip_line_measure [simp]:
  "2 * length (skip_line s) \<le> Suc (2 * length s)" "2 * length (skip_line s) \<le> Suc (Suc (2 * length s))"
  using skip_line_length [of s] by simp_all

text \<open>An empty token without quotes is the end of the input.\<close>

definition finish_token :: "lexer \<Rightarrow> string \<Rightarrow> bool \<Rightarrow> string option" where
  "finish_token lx tok quoted = (if tok = [] \<and> \<not> (lx_posix lx \<and> quoted) then None else Some tok)"

definition pending :: "lexer \<Rightarrow> string \<Rightarrow> bool \<Rightarrow> bool" where
  "pending lx tok quoted \<longleftrightarrow> tok \<noteq> [] \<or> lx_posix lx \<and> quoted"

function read_token ::
    "lexer \<Rightarrow> lex_state \<Rightarrow> string \<Rightarrow> bool \<Rightarrow> string \<Rightarrow> lex_error + (string option \<times> string)" where
  "read_token lx st tok quoted [] =
     (case st of Quoted _ \<Rightarrow> Inl NoClosingQuotation
      | Escaped _ \<Rightarrow> Inl NoEscapedCharacter
      | _ \<Rightarrow> Inr (finish_token lx tok quoted, []))"
| "read_token lx Blank tok quoted (c # cs) =
     (if c \<in> set (lx_space lx) then
        (if pending lx tok quoted then Inr (Some tok, cs) else read_token lx Blank tok quoted cs)
      else if c \<in> set (lx_comment lx) then read_token lx Blank tok quoted (skip_line cs)
      else if lx_posix lx \<and> c = backslash then read_token lx (Escaped None) tok quoted cs
      else if c \<in> set (lx_punct lx) then read_token lx Punct [c] quoted cs
      else if quote_char c then read_token lx (Quoted c) (if lx_posix lx then tok else [c]) quoted cs
      else read_token lx Word [c] quoted cs)"
| "read_token lx (Quoted k) tok quoted (c # cs) =
     (if c = k then (if lx_posix lx then read_token lx Word tok True cs else Inr (Some (tok @ [c]), cs))
      else if lx_posix lx \<and> c = backslash \<and> k = CHR 0x22 then read_token lx (Escaped (Some k)) tok True cs
      else read_token lx (Quoted k) (tok @ [c]) True cs)"
| "read_token lx (Escaped esc) tok quoted (c # cs) =
     read_token lx (case esc of None \<Rightarrow> Word | Some k \<Rightarrow> Quoted k)
       ((if esc \<noteq> None \<and> c \<noteq> backslash \<and> Some c \<noteq> esc then tok @ [backslash] else tok) @ [c]) quoted cs"
| "read_token lx Word tok quoted (c # cs) =
     (if c \<in> set (lx_space lx) then
        (if pending lx tok quoted then Inr (Some tok, cs) else read_token lx Blank tok quoted cs)
      else if c \<in> set (lx_comment lx) then
        (if \<not> lx_posix lx then read_token lx Word tok quoted (skip_line cs)
         else if pending lx tok quoted then Inr (Some tok, skip_line cs)
         else read_token lx Blank tok quoted (skip_line cs))
      else if lx_posix lx \<and> quote_char c then read_token lx (Quoted c) tok quoted cs
      else if lx_posix lx \<and> c = backslash then read_token lx (Escaped None) tok quoted cs
      else if quote_char c \<or> c \<notin> set (lx_punct lx) then read_token lx Word (tok @ [c]) quoted cs
      else if pending lx tok quoted then Inr (Some tok, c # cs)
      else read_token lx Blank tok quoted (c # cs))"
| "read_token lx Punct tok quoted (c # cs) =
     (if c \<in> set (lx_space lx) then
        (if pending lx tok quoted then Inr (Some tok, cs) else read_token lx Blank tok quoted cs)
      else if c \<in> set (lx_comment lx) then
        (if \<not> lx_posix lx then read_token lx Punct tok quoted (skip_line cs)
         else if pending lx tok quoted then Inr (Some tok, skip_line cs)
         else read_token lx Blank tok quoted (skip_line cs))
      else if c \<in> set (lx_punct lx) then read_token lx Punct (tok @ [c]) quoted cs
      else Inr (finish_token lx tok quoted, c # cs))"
  by pat_completeness auto
termination
  by (relation "measure (\<lambda>(lx, st, tok, quoted, s). 2 * length s + (if st = Word then 1 else 0))")
     (auto simp: less_Suc_eq_le)

subsection \<open>What a token takes\<close>

text \<open>
  The weight of a text counts a positive number for each character.  An escaped state holds the weight
  of the backslash that was read for it; a token and what is left weigh no more than what there was.
\<close>

definition weight :: "(char \<Rightarrow> nat) \<Rightarrow> string \<Rightarrow> nat" where
  "weight w s = (\<Sum>c\<leftarrow>s. Suc (w c))"

lemma weight_simps [simp]:
  "weight w [] = 0" "weight w (c # cs) = Suc (w c) + weight w cs" "weight w (s @ t) = weight w s + weight w t"
  by (simp_all add: weight_def)

lemma weight_dropWhile: "weight w (dropWhile f s) \<le> weight w s"
  by (induction s) auto

lemma weight_drop: "weight w (drop n s) \<le> weight w s"
  using weight_simps(3) [of w "take n s" "drop n s"] by simp

lemma weight_take: "weight w (take n s) \<le> weight w s"
  using weight_simps(3) [of w "take n s" "drop n s"] by simp

lemma weight_skip_line: "weight w (skip_line s) \<le> weight w s"
  unfolding skip_line_def using weight_drop weight_dropWhile le_trans by blast

lemma weight_length [simp]: "weight (\<lambda>_. 0) s = length s"
  by (induction s) auto

definition held :: "(char \<Rightarrow> nat) \<Rightarrow> lex_state \<Rightarrow> nat" where
  "held w st = (case st of Escaped _ \<Rightarrow> Suc (w backslash) | _ \<Rightarrow> 0)"

lemma held_simps [simp]:
  "held w Blank = 0" "held w Word = 0" "held w Punct = 0" "held w (Quoted k) = 0"
  "held w (Escaped b) = Suc (w backslash)"
  by (simp_all add: held_def)

lemma finish_token_Some [simp]: "finish_token lx tok q = Some t \<longleftrightarrow> t = tok \<and> pending lx tok q"
  by (auto simp: finish_token_def pending_def)

lemma token_weight:
  "read_token lx st tok q s = Inr (Some t, r) \<Longrightarrow> weight w t + weight w r \<le> weight w tok + held w st + weight w s"
proof (induction lx st tok q s rule: read_token.induct)
  case (2 lx tok q c cs)
  then show ?case
    using weight_skip_line [of w cs] by (auto split: if_splits)
next
  case (5 lx tok q c cs)
  then show ?case
    using weight_skip_line [of w cs] by (auto split: if_splits)
next
  case (6 lx tok q c cs)
  then show ?case
    using weight_skip_line [of w cs] by (auto split: if_splits)
next
  case (1 lx st tok q)
  then show ?case by (cases st) auto
next
  case (3 lx k tok q c cs)
  then show ?case
    by (auto split: if_splits)
next
  case (4 lx esc tok q c cs)
  then show ?case
    by (cases esc) (auto split: if_splits)
qed

lemma token_shorter:
  "read_token lx st tok q s = Inr (Some t, r) \<Longrightarrow>
     length r \<le> length s \<and> (st = Blank \<and> \<not> pending lx tok q \<longrightarrow> length r < length s)"
proof (induction lx st tok q s rule: read_token.induct)
  case (2 lx tok q c cs)
  then show ?case
    using skip_line_length [of cs] by (auto split: if_splits)
next
  case (5 lx tok q c cs)
  then show ?case
    using skip_line_length [of cs] by (auto split: if_splits)
next
  case (6 lx tok q c cs)
  then show ?case
    using skip_line_length [of cs] by (auto split: if_splits)
next
  case (1 lx st tok q)
  then show ?case by (cases st) auto
next
  case (3 lx k tok q c cs)
  then show ?case
    by (auto split: if_splits)
next
  case (4 lx esc tok q c cs)
  then show ?case
    by (cases esc) (auto split: if_splits)
qed

function lex_tokens :: "lexer \<Rightarrow> string \<Rightarrow> lex_error + string list" where
  "lex_tokens lx s =
     (case read_token lx Blank [] False s of
        Inl e \<Rightarrow> Inl e
      | Inr (None, r) \<Rightarrow> Inr []
      | Inr (Some t, r) \<Rightarrow> bindE (lex_tokens lx r) (\<lambda>ts. Inr (t # ts)))"
  by pat_completeness auto
termination
  by (relation "measure (\<lambda>(lx, s). length s)") (auto dest!: token_shorter simp: pending_def)

declare lex_tokens.simps [simp del]

lemma lex_tokens_weight: "lex_tokens lx s = Inr ts \<Longrightarrow> weight w (concat ts) \<le> weight w s"
proof (induction lx s arbitrary: ts rule: lex_tokens.induct)
  case (1 lx s)
  show ?case
  proof (cases "read_token lx Blank [] False s")
    case (Inr res)
    show ?thesis
    proof (cases res)
      case (Pair tok r)
      then show ?thesis
        using 1 Inr token_weight [of lx Blank "[]" False s _ r w]
        by (cases tok) (force simp: lex_tokens.simps [of lx s] bindE_eq_Inr)+
    qed
  qed (use 1 in \<open>simp add: lex_tokens.simps [of lx s]\<close>)
qed

subsection \<open>Splitting, quoting and joining\<close>

definition plain_lexer :: lexer where
  "plain_lexer = \<lparr>lx_posix = True, lx_punct = [], lx_space = [CHR 0x20, CHR 0x09, CHR 0x0D, CHR 0x0A], lx_comment = []\<rparr>"

definition shlex_split :: "string \<Rightarrow> lex_error + string list" where
  "shlex_split s = lex_tokens plain_lexer s"

definition shell_safe :: "char \<Rightarrow> bool" where
  "shell_safe c \<longleftrightarrow> is_letter c \<or> is_digit c \<or> one_of ''_@%+=:,./-'' c"

definition escape_quote :: "char \<Rightarrow> string" where
  "escape_quote c = (if c = CHR 0x27 then [CHR 0x27, CHR 0x22, CHR 0x27, CHR 0x22, CHR 0x27] else [c])"

definition shlex_quote :: "string \<Rightarrow> string" where
  "shlex_quote s =
     (if s = [] then [CHR 0x27, CHR 0x27]
      else if list_all shell_safe s then s
      else CHR 0x27 # concat (map escape_quote s) @ [CHR 0x27])"

fun join_with :: "string \<Rightarrow> string list \<Rightarrow> string" where
  "join_with sep [] = []"
| "join_with sep [s] = s"
| "join_with sep (s # ss) = s @ sep @ join_with sep ss"

definition shlex_join :: "string list \<Rightarrow> string" where
  "shlex_join ts = join_with '' '' (map shlex_quote ts)"

lemma plain_lexer_simps [simp]:
  "lx_posix plain_lexer" "lx_punct plain_lexer = []" "lx_comment plain_lexer = []"
  "lx_space plain_lexer = [CHR 0x20, CHR 0x09, CHR 0x0D, CHR 0x0A]"
  by (simp_all add: plain_lexer_def)

lemma shell_safe_plain:
  assumes "shell_safe c"
  shows "c \<notin> {CHR 0x20, CHR 0x09, CHR 0x0D, CHR 0x0A}" "\<not> quote_char c" "c \<noteq> backslash"
  using assms
  by (auto simp: shell_safe_def quote_char_def backslash_def is_letter_def is_lower_def is_digit_def one_of_def less_eq_char_def)

lemma read_safe:
  assumes "list_all shell_safe s"
  shows "read_token plain_lexer Word tok q (s @ r) = read_token plain_lexer Word (tok @ s) q r"
  using assms
proof (induction s arbitrary: tok)
  case (Cons c s)
  then show ?case
    using shell_safe_plain [of c] by simp
qed simp

lemma read_quoted:
  "read_token plain_lexer (Quoted CHR 0x27) tok q (concat (map escape_quote s) @ CHR 0x27 # r) =
     read_token plain_lexer Word (tok @ s) True r"
  by (induction s arbitrary: tok q) (auto simp: escape_quote_def quote_char_def backslash_def)

text \<open>What follows a token in a joined line: nothing, or a space.\<close>

lemma read_quote:
  assumes "r = [] \<or> (\<exists>r'. r = CHR 0x20 # r')"
  shows "read_token plain_lexer Blank [] False (shlex_quote s @ r) = Inr (Some s, drop 1 r)"
proof -
  have finish: "read_token plain_lexer Word t q r = Inr (Some t, drop 1 r)" if "t \<noteq> [] \<or> q" for t q
    using assms that by (auto simp: finish_token_def pending_def)
  show ?thesis
  proof (cases "s \<noteq> [] \<and> list_all shell_safe s")
    case True
    then obtain c cs where s: "s = c # cs" "shell_safe c" "list_all shell_safe cs"
      by (cases s) auto
    with True have "read_token plain_lexer Blank [] False (shlex_quote s @ r) = read_token plain_lexer Word [c] False (cs @ r)"
      using shell_safe_plain [of c] by (simp add: shlex_quote_def)
    with s finish [of s] show ?thesis
      by (simp add: read_safe)
  next
    case False
    then have "shlex_quote s @ r = CHR 0x27 # concat (map escape_quote s) @ CHR 0x27 # r"
      by (auto simp: shlex_quote_def)
    with finish [of s True] show ?thesis
      by (simp add: read_quoted quote_char_def backslash_def)
  qed
qed

lemma lex_tokens_Nil [simp]: "lex_tokens lx [] = Inr []"
  by (simp add: lex_tokens.simps finish_token_def)

lemma shlex_join_splits: "shlex_split (shlex_join ts) = Inr ts"
  unfolding shlex_split_def shlex_join_def
proof (induction ts)
  case (Cons t ts)
  show ?case
  proof (cases ts)
    case Nil
    then show ?thesis
      using read_quote [of "[]" t] by (simp add: lex_tokens.simps [of _ "shlex_quote t"])
  next
    case (Cons u us)
    then show ?thesis
      using Cons.IH read_quote [of "CHR 0x20 # join_with '' '' (map shlex_quote ts)" t]
      by (simp add: lex_tokens.simps [of _ "shlex_quote t @ _"])
  qed
qed simp

text \<open>Split tokens with one for each: at most one more than the text, since a separator was read for each.\<close>

lemma plain_token_length:
  "read_token lx st tok q s = Inr (Some t, r) \<Longrightarrow> lx = plain_lexer \<Longrightarrow>
     length t + length r + (if r = [] then 0 else 1) \<le> length tok + held (\<lambda>_. 0) st + length s \<or> st = Punct"
proof (induction lx st tok q s rule: read_token.induct)
  case (1 lx st tok q)
  then show ?case by (cases st) auto
next
  case (2 lx tok q c cs)
  then show ?case by (auto split: if_splits)
next
  case (3 lx k tok q c cs)
  then show ?case by (auto split: if_splits)
next
  case (4 lx esc tok q c cs)
  then show ?case by (cases esc) (auto split: if_splits)
next
  case (5 lx tok q c cs)
  then show ?case by (auto split: if_splits)
qed simp

lemma split_length: "shlex_split s = Inr ts \<Longrightarrow> length (concat ts) + length ts \<le> Suc (length s)"
  unfolding shlex_split_def
proof (induction "plain_lexer" s arbitrary: ts rule: lex_tokens.induct)
  case (1 s)
  show ?case
  proof (cases "read_token plain_lexer Blank [] False s")
    case (Inl e)
    with "1.prems" show ?thesis by (simp add: lex_tokens.simps [of _ s])
  next
    case (Inr res)
    show ?thesis
    proof (cases "fst res")
      case None
      with Inr "1.prems" show ?thesis by (cases res) (simp add: lex_tokens.simps [of _ s])
    next
      case (Some t)
      then obtain r where res: "res = (Some t, r)"
        by (cases res) auto
      with Inr "1.prems" obtain us where us: "lex_tokens plain_lexer r = Inr us" "ts = t # us"
        by (auto simp: lex_tokens.simps [of _ s] bindE_eq_Inr)
      have "r = [] \<Longrightarrow> us = []"
        using us(1) by simp
      with us "1.hyps" [OF Inr res [symmetric] refl us(1)] plain_token_length [OF Inr [unfolded res]] show ?thesis
        by (cases "r = []") auto
    qed
  qed
qed

lemma shell_word_samples:
  "shlex_split ''a 'b c'd  \"e f\" g'' = Inr [''a'', ''b cd'', ''e f'', ''g'']"
  "shlex_split ''a 'b'' = Inl NoClosingQuotation"
  "shlex_join [''a'', ''b c'', []] = ''a 'b c' '' @ [CHR 0x27, CHR 0x27]"
  by code_simp+

end
