(* ===== verification/Paths.thy ===== *)
theory Paths
  imports Shell_Words
begin

text \<open>
  Path arithmetic on strings: the functions of Python's \<^verbatim>\<open>posixpath\<close> the code uses, and
  \<^verbatim>\<open>resolve_path\<close> and \<^verbatim>\<open>is_path_within\<close> of \<^verbatim>\<open>intaris/classifier.py\<close>.  The
  lemmas relate them to walking the steps of a path through a tree of directories.
\<close>

subsection \<open>\<open>posixpath\<close>\<close>

abbreviation slash :: char where
  "slash \<equiv> CHR 0x2F"

fun split_on :: "char \<Rightarrow> string \<Rightarrow> string list" where
  "split_on sep [] = [[]]"
| "split_on sep (c # cs) =
     (if c = sep then [] # split_on sep cs
      else (case split_on sep cs of [] \<Rightarrow> [[c]] | w # ws \<Rightarrow> (c # w) # ws))"

definition isabs :: "string \<Rightarrow> bool" where
  "isabs path \<longleftrightarrow> starts_with path ''/''"

definition path_join :: "string \<Rightarrow> string \<Rightarrow> string" where
  "path_join a b =
     (if starts_with b ''/'' then b
      else if a = [] \<or> ends_with a ''/'' then a @ b
      else a @ ''/'' @ b)"

definition basename :: "string \<Rightarrow> string" where
  "basename path = last (split_on slash path)"

text \<open>POSIX keeps exactly two leading slashes; three or more count as one.\<close>

definition initial_slashes :: "string \<Rightarrow> nat" where
  "initial_slashes path =
     (if \<not> starts_with path ''/'' then 0
      else if starts_with path ''//'' \<and> \<not> starts_with path ''///'' then 2
      else 1)"

definition norm_step :: "bool \<Rightarrow> string list \<Rightarrow> string \<Rightarrow> string list" where
  "norm_step absolute acc part =
     (if part = [] \<or> part = ''.'' then acc
      else if part \<noteq> ''..'' \<or> (\<not> absolute \<and> acc = []) \<or> (acc \<noteq> [] \<and> last acc = ''..'') then acc @ [part]
      else butlast acc)"

definition norm_parts :: "string \<Rightarrow> string list" where
  "norm_parts path = foldl (norm_step (initial_slashes path \<noteq> 0)) [] (split_on slash path)"

definition normpath :: "string \<Rightarrow> string" where
  "normpath path =
     (if path = [] then ''.''
      else let result = replicate (initial_slashes path) slash @ join_with ''/'' (norm_parts path)
           in if result = [] then ''.'' else result)"

subsection \<open>Resolution and containment\<close>

definition resolve_path :: "string \<Rightarrow> string \<Rightarrow> string" where
  "resolve_path path working_directory =
     (if isabs path then normpath path else normpath (path_join working_directory path))"

definition is_path_within :: "string \<Rightarrow> string \<Rightarrow> bool" where
  "is_path_within resolved_path directory =
     (let norm_dir = normpath directory;
          norm_path = normpath resolved_path
      in norm_path = norm_dir \<or> starts_with norm_path (norm_dir @ ''/''))"

subsection \<open>Splitting and joining\<close>

lemma split_on_nonempty [simp]: "split_on sep s \<noteq> []"
  by (induction s) (auto split: list.splits)

lemma split_on_append:
  "split_on sep (s @ sep # t) = split_on sep s @ split_on sep t"
  by (induction s) (auto split: list.splits)

lemma split_on_free: "sep \<notin> set s \<Longrightarrow> split_on sep s = [s]"
  by (induction s) auto

lemma split_on_parts: "w \<in> set (split_on sep s) \<Longrightarrow> sep \<notin> set w"
  by (induction s arbitrary: w) (auto split: list.splits if_splits)

lemma split_join:
  assumes "\<forall>w \<in> set ws. sep \<notin> set w" "ws \<noteq> []"
  shows "split_on sep (join_with [sep] ws) = ws"
  using assms
proof (induction "[sep]" ws rule: join_with.induct)
  case (2 s)
  then show ?case by (simp add: split_on_free)
next
  case (3 s v va)
  then show ?case by (simp add: split_on_append split_on_free)
qed simp

lemma join_append:
  "ws \<noteq> [] \<Longrightarrow> vs \<noteq> [] \<Longrightarrow> join_with sep (ws @ vs) = join_with sep ws @ sep @ join_with sep vs"
proof (induction sep ws rule: join_with.induct)
  case (2 sep s)
  then show ?case by (cases vs) auto
qed auto

subsection \<open>Steps through the tree\<close>

text \<open>
  The reference: the directory, as the names from the root down, that the steps of a path lead to.
  An empty step and a dot stay, two dots go to the parent, the root being its own, a name goes down.
\<close>

definition follow_step :: "string list \<Rightarrow> string \<Rightarrow> string list" where
  "follow_step here part =
     (if part = [] \<or> part = ''.'' then here else if part = ''..'' then butlast here else here @ [part])"

definition follow :: "string list \<Rightarrow> string \<Rightarrow> string list" where
  "follow here path = foldl follow_step here (split_on slash path)"

definition destination :: "string \<Rightarrow> string \<Rightarrow> string list" where
  "destination path working_directory = (if isabs path then follow [] path else follow (follow [] working_directory) path)"

definition plain_name :: "string \<Rightarrow> bool" where
  "plain_name w \<longleftrightarrow> w \<noteq> [] \<and> w \<noteq> ''.'' \<and> w \<noteq> ''..'' \<and> slash \<notin> set w"

lemma follow_step_plain:
  assumes "list_all plain_name here" "slash \<notin> set w"
  shows "list_all plain_name (follow_step here w)"
proof -
  have "set (butlast here) \<subseteq> set here"
    by (auto dest: in_set_butlastD)
  with assms show ?thesis
    unfolding follow_step_def list_all_iff by (auto simp: plain_name_def)
qed

lemma follow_steps_plain:
  assumes "list_all plain_name here" "\<forall>w \<in> set ws. slash \<notin> set w"
  shows "list_all plain_name (foldl follow_step here ws)"
  using assms
proof (induction ws arbitrary: here)
  case (Cons w ws)
  then show ?case
    by (simp add: follow_step_plain)
qed simp

lemma follow_plain: "list_all plain_name here \<Longrightarrow> list_all plain_name (follow here path)"
  unfolding follow_def using follow_steps_plain split_on_parts by blast

lemma destination_plain: "list_all plain_name (destination path wd)"
  by (simp add: destination_def follow_plain)

lemma plain_no_dots: "list_all plain_name here \<Longrightarrow> here \<noteq> [] \<Longrightarrow> last here \<noteq> ''..''"
  by (induction here) (auto simp: plain_name_def)

lemma norm_steps_follow:
  assumes "list_all plain_name here" "\<forall>w \<in> set ws. slash \<notin> set w"
  shows "foldl (norm_step True) here ws = foldl follow_step here ws"
  using assms
proof (induction ws arbitrary: here)
  case (Cons w ws)
  have "norm_step True here w = follow_step here w"
    using plain_no_dots [OF Cons.prems(1)] by (auto simp: norm_step_def follow_step_def)
  moreover have "list_all plain_name (follow_step here w)"
    using follow_step_plain Cons.prems by simp
  ultimately show ?case
    using Cons by simp
qed simp

definition rooted :: "string \<Rightarrow> bool" where
  "rooted path \<longleftrightarrow> initial_slashes path = 1"

definition absolute_path :: "string list \<Rightarrow> string" where
  "absolute_path ws = slash # join_with ''/'' ws"

lemma norm_parts_follow:
  assumes "isabs path"
  shows "norm_parts path = follow [] path"
proof -
  have "foldl (norm_step True) [] (split_on slash path) = follow [] path"
    unfolding follow_def using split_on_parts by (intro norm_steps_follow) auto
  with assms show ?thesis
    by (simp add: norm_parts_def isabs_def initial_slashes_def)
qed

lemma normpath_rooted: "rooted path \<Longrightarrow> normpath path = absolute_path (follow [] path)"
  by (cases path)
     (auto simp: normpath_def rooted_def absolute_path_def norm_parts_follow isabs_def initial_slashes_def starts_with_def
       split: if_splits)

text \<open>A path whose names are all plain is its own normal form.\<close>

lemma follow_absolute:
  assumes "list_all plain_name ws"
  shows "follow [] (absolute_path ws) = ws"
proof (cases "ws = []")
  case False
  have names: "\<forall>w \<in> set ws. slash \<notin> set w"
    using assms by (auto simp: list_all_iff plain_name_def)
  have "foldl follow_step here ws = here @ ws" for here
    using assms by (induction ws arbitrary: here) (auto simp: follow_step_def plain_name_def)
  with False names show ?thesis
    by (simp add: follow_def absolute_path_def split_join follow_step_def)
qed (simp add: follow_def absolute_path_def follow_step_def)

lemma join_no_slash: "list_all plain_name ws \<Longrightarrow> \<not> starts_with (join_with ''/'' ws) ''/''"
  by (cases ws rule: remdups_adj.cases) (auto simp: starts_with_def plain_name_def neq_Nil_conv)

lemma rooted_absolute: "list_all plain_name ws \<Longrightarrow> rooted (absolute_path ws)"
  using join_no_slash [of ws] by (auto simp: rooted_def absolute_path_def initial_slashes_def starts_with_def)

lemma normpath_absolute: "list_all plain_name ws \<Longrightarrow> normpath (absolute_path ws) = absolute_path ws"
  by (simp add: normpath_rooted rooted_absolute follow_absolute)

lemma absolute_inject:
  "list_all plain_name ws \<Longrightarrow> list_all plain_name vs \<Longrightarrow> absolute_path ws = absolute_path vs \<longleftrightarrow> ws = vs"
  by (metis follow_absolute)

text \<open>Below a directory other than the root: its names are a proper prefix.\<close>

lemma below_iff:
  assumes "list_all plain_name ws" "list_all plain_name vs" "vs \<noteq> []"
  shows "starts_with (absolute_path ws) (absolute_path vs @ ''/'') \<longleftrightarrow> strict_prefix vs ws"
proof
  assume "starts_with (absolute_path ws) (absolute_path vs @ ''/'')"
  then obtain t where t: "join_with ''/'' ws = join_with ''/'' vs @ slash # t"
    by (auto simp: starts_with_iff absolute_path_def)
  then have "ws \<noteq> []" by auto
  then have "ws = split_on slash (join_with ''/'' ws)"
    using assms(1) by (subst split_join) (auto simp: list_all_iff plain_name_def)
  also have "\<dots> = vs @ split_on slash t"
    unfolding t split_on_append using assms(2,3)
    by (subst split_join) (auto simp: list_all_iff plain_name_def)
  finally show "strict_prefix vs ws"
    by (metis split_on_nonempty strict_prefixI' list.exhaust)
next
  assume "strict_prefix vs ws"
  then obtain us where "ws = vs @ us" "us \<noteq> []"
    by (metis append_Nil2 prefixE strict_prefix_def)
  with assms(3) have "absolute_path ws = (absolute_path vs @ ''/'') @ join_with ''/'' us"
    by (simp add: absolute_path_def join_append)
  then show "starts_with (absolute_path ws) (absolute_path vs @ ''/'')"
    by (metis starts_with_append)
qed

lemma rooted_iff: "rooted s \<longleftrightarrow> starts_with s ''/'' \<and> (starts_with s ''//'' \<longrightarrow> starts_with s ''///'')"
  by (auto simp: rooted_def initial_slashes_def)

lemma rooted_append:
  assumes "rooted wd" "\<not> starts_with t ''/'' \<or> wd \<noteq> ''/''"
  shows "rooted (wd @ t)"
proof (cases wd)
  case (Cons a ws)
  with assms show ?thesis
    by (cases ws; cases "tl ws") (auto simp: rooted_iff starts_with_def)
qed (use assms in \<open>simp add: rooted_iff starts_with_def\<close>)

lemma follow_slash: "follow here (s @ slash # t) = follow (follow here s) t"
  by (simp add: follow_def split_on_append)

lemma follow_Nil [simp]: "follow here [] = here"
  by (simp add: follow_def follow_step_def)

lemma follow_join:
  assumes "rooted wd" "\<not> isabs path"
  shows "rooted (path_join wd path)" "follow [] (path_join wd path) = follow (follow [] wd) path"
proof -
  have wd: "wd \<noteq> []"
    using assms(1) by (auto simp: rooted_iff starts_with_def)
  have "rooted (path_join wd path) \<and> follow [] (path_join wd path) = follow (follow [] wd) path"
  proof (cases "ends_with wd ''/''")
    case True
    then obtain w where "wd = w @ [slash]"
      using wd by (metis append_butlast_last_id append_take_drop_id ends_with_def last_snoc)
    moreover have "rooted (wd @ path)"
      using assms by (intro rooted_append) (simp_all add: isabs_def)
    ultimately show ?thesis
      using True assms(2) by (simp add: path_join_def isabs_def follow_slash)
  next
    case False
    then have "wd \<noteq> ''/''"
      by (auto simp: ends_with_def)
    then have "rooted (wd @ slash # path)"
      using assms(1) by (intro rooted_append) simp_all
    with False assms(2) wd show ?thesis
      by (simp add: path_join_def isabs_def follow_slash)
  qed
  then show "rooted (path_join wd path)" "follow [] (path_join wd path) = follow (follow [] wd) path"
    by simp_all
qed

lemma resolve_rooted:
  assumes "rooted wd" "isabs path \<longrightarrow> rooted path"
  shows "resolve_path path wd = absolute_path (destination path wd)"
  using assms follow_join [OF assms(1), of path]
  by (auto simp: resolve_path_def destination_def normpath_rooted)

lemma within_iff_below:
  assumes "rooted wd" "isabs path \<longrightarrow> rooted path" "rooted dir" "follow [] dir \<noteq> []"
  shows "is_path_within (resolve_path path wd) dir \<longleftrightarrow> prefix (follow [] dir) (destination path wd)"
  using assms
  by (simp add: is_path_within_def resolve_rooted normpath_rooted normpath_absolute destination_plain follow_plain
      absolute_inject below_iff strict_prefix_def) auto

lemma path_samples:
  "normpath ''/a/./b//../c/'' = ''/a/c''" "normpath ''//a/..'' = ''//''" "normpath ''../x/..'' = ''..''" "normpath [] = ''.''"
  "resolve_path ''../../etc/passwd'' ''/home/u'' = ''/etc/passwd''"
  "is_path_within ''/home/u/x'' ''/home/u/'' " "\<not> is_path_within ''/home/user2'' ''/home/user''"
  by code_simp+

text \<open>Below the root, the prefix test looks for two slashes.\<close>

lemma root_contains_nothing:
  assumes "list_all plain_name ws" "ws \<noteq> []"
  shows "\<not> is_path_within (absolute_path ws) ''/''"
proof -
  have root: "normpath ''/'' = absolute_path []"
    by code_simp
  have "\<not> starts_with (absolute_path ws) ''//''"
    using rooted_absolute [OF assms(1)] assms by (cases ws rule: remdups_adj.cases)
      (auto simp: rooted_iff absolute_path_def starts_with_def plain_name_def neq_Nil_conv)
  with assms show ?thesis
    unfolding is_path_within_def Let_def root normpath_absolute [OF assms(1)]
    using absolute_inject [OF assms(1), of "[]"] by (auto simp: absolute_path_def)
qed

end
