(* ===== verification/Shell_Observations.thy ===== *)
theory Shell_Observations
  imports Paths
begin

text \<open>
  What the classifier reads off a command line without running it: quoted text, command substitutions
  and redirections (\<^verbatim>\<open>intaris/shell_observations.py\<close>), the segments of a line, the command a
  wrapper runs and the operands that name files (\<^verbatim>\<open>intaris/classifier.py\<close>).
\<close>

subsection \<open>Quotes, substitutions, redirections\<close>

definition quoted_string :: rx where
  "quoted_string =
     Alt (seqs [One (\<lambda>c. c = CHR 0x27), Opt (Many (\<lambda>c. c \<noteq> CHR 0x27)), One (\<lambda>c. c = CHR 0x27)])
         (seqs [One (\<lambda>c. c = CHR 0x22),
            Rep (Alt (One (\<lambda>c. c \<noteq> CHR 0x22 \<and> c \<noteq> backslash)) (Seq (One (\<lambda>c. c = backslash)) (One non_newline))),
            One (\<lambda>c. c = CHR 0x22)])"

definition strip_quoted_strings :: "string \<Rightarrow> string" where
  "strip_quoted_strings command = re_sub quoted_string [CHR 0x22, CHR 0x22] command"

definition toggle_quote :: "char option \<Rightarrow> char \<Rightarrow> char option" where
  "toggle_quote quote c = (if quote = Some c then None else if quote = None then Some c else quote)"

text \<open>The nested command of a substitution up to its closing mark, and what follows it.\<close>

function substitution_end :: "bool \<Rightarrow> char option \<Rightarrow> nat \<Rightarrow> string \<Rightarrow> (string \<times> string) option" where
  "substitution_end dollar quote depth [] = None"
| "substitution_end dollar quote depth (c # cs) =
     (if c = backslash \<and> quote \<noteq> Some CHR 0x27 then
        map_option (\<lambda>(n, r). (c # take 1 cs @ n, r)) (substitution_end dollar quote depth (drop 1 cs))
      else if quote_char c then
        map_option (\<lambda>(n, r). (c # n, r)) (substitution_end dollar (toggle_quote quote c) depth cs)
      else if quote = None \<and> (if dollar then c = CHR '')'' \<and> depth = 1 else c = CHR 0x60) then Some ([], cs)
      else map_option (\<lambda>(n, r). (c # n, r))
        (substitution_end dollar quote
          (if quote = None \<and> dollar \<and> c = CHR ''('' then depth + 1
           else if quote = None \<and> dollar \<and> c = CHR '')'' then depth - 1 else depth) cs))"
  by pat_completeness auto
termination
  by (relation "measure (\<lambda>(dollar, quote, depth, s). length s)") auto

lemma substitution_end_weight:
  "substitution_end dollar quote depth s = Some (n, r) \<Longrightarrow>
     weight w n + weight w r + Suc (w (if dollar then CHR '')'' else CHR 0x60)) \<le> weight w s"
proof (induction dollar quote depth s arbitrary: n rule: substitution_end.induct)
  case (2 dollar quote depth c cs)
  have drop: "weight w (take 1 cs) + weight w (drop 1 cs) = weight w cs"
    by (metis append_take_drop_id weight_simps(3))
  consider (escaped) "c = backslash \<and> quote \<noteq> Some CHR 0x27"
    | (quoted) "\<not> (c = backslash \<and> quote \<noteq> Some CHR 0x27)" "quote_char c"
    | (closed) "\<not> (c = backslash \<and> quote \<noteq> Some CHR 0x27)" "\<not> quote_char c"
        "quote = None \<and> (if dollar then c = CHR '')'' \<and> depth = 1 else c = CHR 0x60)"
    | (other) "\<not> (c = backslash \<and> quote \<noteq> Some CHR 0x27)" "\<not> quote_char c"
        "\<not> (quote = None \<and> (if dollar then c = CHR '')'' \<and> depth = 1 else c = CHR 0x60))"
    by blast
  then show ?case
  proof cases
    case escaped
    then obtain m where "n = c # take 1 cs @ m" "substitution_end dollar quote depth (drop 1 cs) = Some (m, r)"
      using "2.prems" by auto
    with "2.IH"(1) [OF escaped] drop show ?thesis by fastforce
  next
    case quoted
    then obtain m where "n = c # m" "substitution_end dollar (toggle_quote quote c) depth cs = Some (m, r)"
      using "2.prems" by auto
    with "2.IH"(2) [OF quoted] show ?thesis by fastforce
  next
    case closed
    with "2.prems" show ?thesis by (simp split: if_splits)
  next
    case other
    define d where "d = (if quote = None \<and> dollar \<and> c = CHR ''('' then depth + 1
        else if quote = None \<and> dollar \<and> c = CHR '')'' then depth - 1 else depth)"
    have "substitution_end dollar quote depth (c # cs) = map_option (\<lambda>(n, r). (c # n, r)) (substitution_end dollar quote d cs)"
      unfolding substitution_end.simps(2) if_not_P [OF other(1)] if_not_P [OF other(2)] if_not_P [OF other(3)] d_def ..
    from trans [OF this [symmetric] "2.prems"]
    obtain m where "n = c # m" "substitution_end dollar quote d cs = Some (m, r)"
      by (auto simp del: substitution_end.simps)
    with "2.IH"(3) [OF other] show ?thesis unfolding d_def by fastforce
  qed
qed simp

lemma substitution_end_length: "substitution_end dollar quote depth s = Some (n, r) \<Longrightarrow> length n + length r < length s"
  using substitution_end_weight [of dollar quote depth s n r "\<lambda>_. 0"] by simp

definition opens_substitution :: "char option \<Rightarrow> char \<Rightarrow> string \<Rightarrow> bool" where
  "opens_substitution quote c cs \<longleftrightarrow>
     quote \<noteq> Some CHR 0x27 \<and> (c = CHR ''$'' \<and> starts_with cs ''('' \<or> c = CHR 0x60)"

definition closed_substitution :: "char option \<Rightarrow> char \<Rightarrow> string \<Rightarrow> (string \<times> string) option" where
  "closed_substitution quote c cs =
     (if opens_substitution quote c cs
      then substitution_end (c = CHR ''$'') None 1 (if c = CHR ''$'' then drop 1 cs else cs) else None)"

lemma closed_substitution_length:
  "closed_substitution quote c cs = Some (n, r) \<Longrightarrow> length n < length cs \<and> length r < length cs"
  by (auto simp: closed_substitution_def dest!: substitution_end_length split: if_splits)

function substitutions_from :: "char option \<Rightarrow> string \<Rightarrow> string \<times> string list" where
  "substitutions_from quote [] = ([], [])"
| "substitutions_from quote (c # cs) =
     (if c = backslash \<and> quote \<noteq> Some CHR 0x27 \<and> cs \<noteq> [] then
        apfst (\<lambda>out. c # hd cs # out) (substitutions_from quote (tl cs))
      else if quote_char c then apfst (\<lambda>out. c # out) (substitutions_from (toggle_quote quote c) cs)
      else (case closed_substitution quote c cs of
              Some (n, r) \<Rightarrow> map_prod (\<lambda>out. ''SUBSTITUTION'' @ out) (\<lambda>nested. n # nested) (substitutions_from quote r)
            | None \<Rightarrow> apfst (\<lambda>out. c # out) (substitutions_from quote cs)))"
  by pat_completeness auto
termination
  by (relation "measure (\<lambda>(quote, s). length s)") (auto dest: closed_substitution_length)

definition substitutions :: "string \<Rightarrow> string \<times> string list" where
  "substitutions command = substitutions_from None command"

definition discards :: "string \<Rightarrow> bool" where
  "discards target \<longleftrightarrow>
     starts_with target ''/dev/null''
     \<and> \<not> head_in (\<lambda>c. is_alnum c \<or> one_of ''._/-'' c) (drop (length ''/dev/null'') target)"

function redirect_from :: "char option \<Rightarrow> string \<Rightarrow> bool" where
  "redirect_from quote [] = False"
| "redirect_from quote (c # cs) =
     (if c = backslash \<and> quote \<noteq> Some CHR 0x27 then redirect_from quote (drop 1 cs)
      else if quote_char c then redirect_from (toggle_quote quote c) cs
      else if c = CHR ''>'' \<and> quote = None then
        (if starts_with cs ''&'' then redirect_from quote (drop 1 cs)
         else if discards (dropWhile is_space (if starts_with cs ''>'' then drop 1 cs else cs))
              then redirect_from quote cs
         else True)
      else redirect_from quote cs)"
  by pat_completeness auto
termination
  by (relation "measure (\<lambda>(quote, s). length s)") auto

definition unquoted_redirect :: "string \<Rightarrow> bool" where
  "unquoted_redirect command = redirect_from None command"

definition shell_redirect :: rx where
  "shell_redirect =
     Seq (not_after (one_of [CHR 0x27, CHR 0x22, backslash]))
       (Alt (seqs [Opt (Many is_digit), exact ''>'', Opt (exact ''>'')])
       (Alt (exact ''&>>'') (Alt (exact ''&>'')
            (seqs [exact ''<'', Opt (exact ''<''), not_before (\<lambda>c. c = CHR ''<'')]))))"

definition has_shell_redirect :: "string \<Rightarrow> bool" where
  "has_shell_redirect command = found shell_redirect command"

subsection \<open>Segments\<close>

definition all_in :: "string \<Rightarrow> string \<Rightarrow> bool" where
  "all_in chars token \<longleftrightarrow> token \<noteq> [] \<and> list_all (one_of chars) token"

text \<open>Tokens of control characters end a segment.\<close>

fun cut_segments :: "string \<Rightarrow> string list \<Rightarrow> string list \<Rightarrow> string list list" where
  "cut_segments marks current [] = [current]"
| "cut_segments marks current (t # ts) =
     (if all_in marks t then current # cut_segments marks [] ts else cut_segments marks (current @ [t]) ts)"

definition simple_lexer :: lexer where
  "simple_lexer =
     \<lparr>lx_posix = True, lx_punct = ''|;&'', lx_space = [CHR 0x20, CHR 0x09, CHR 0x0D, CHR 0x0A], lx_comment = ''#''\<rparr>"

definition simple_shell_segments :: "string \<Rightarrow> string list list" where
  "simple_shell_segments command =
     (if CHR 0x0A \<in> set command \<or> sublist ''<<'' command then []
      else case lex_tokens simple_lexer command of
             Inl _ \<Rightarrow> []
           | Inr ts \<Rightarrow> filter (\<lambda>seg. seg \<noteq> []) (cut_segments ''|;&'' [] ts))"

definition ends_word :: rx where
  "ends_word = Look (\<lambda>b r. r = [] \<or> head_in (\<lambda>c. is_space c \<or> one_of '';&|'' c) r)"

definition discarded_output :: rx where
  "discarded_output =
     seqs [Alt (after is_space) at_start, Alt (Opt (One is_digit)) (exact ''&''), exact ''>'', Opt (exact ''>''),
           opt_spaces, exact ''/dev/null'', ends_word]"

definition merged_stream :: rx where
  "merged_stream = seqs [after is_space, Opt (One is_digit), exact ''>&'', One is_digit, ends_word]"

definition without_discards :: "string \<Rightarrow> string" where
  "without_discards command = py_strip (re_sub merged_stream '' '' (re_sub discarded_output '' '' command))"

definition read_lexer :: lexer where
  "read_lexer =
     \<lparr>lx_posix = True, lx_punct = '';&|'', lx_space = [CHR 0x20, CHR 0x09, CHR 0x0D, CHR 0x0A], lx_comment = []\<rparr>"

text \<open>Segments between the control operators; nothing between two of them, or another operator, voids the line.\<close>

fun read_loop :: "string list \<Rightarrow> string list list \<Rightarrow> string list \<Rightarrow> string list \<Rightarrow> string list list" where
  "read_loop operators segments current [] = (if current = [] then [] else segments @ [current])"
| "read_loop operators segments current (t # ts) =
     (if t \<in> set operators then (if current = [] then [] else read_loop operators (segments @ [current]) [] ts)
      else if all_in '';&|'' t then []
      else read_loop operators segments (current @ [t]) ts)"

definition forbidden_chars :: string where
  "forbidden_chars = [CHR 0x0A, CHR 0x0D, CHR ''$'', CHR 0x60, backslash, CHR ''('', CHR '')'', CHR ''<'']"

definition read_segments :: "bool \<Rightarrow> string \<Rightarrow> string list list" where
  "read_segments legacy command0 =
     (let command = without_discards command0 in
      if command = [] \<or> list_ex (one_of forbidden_chars) command
         \<or> (if legacy then unquoted_redirect command else list_ex (one_of ''<>'') command)
      then []
      else case lex_tokens read_lexer command of
             Inl _ \<Rightarrow> []
           | Inr ts \<Rightarrow> read_loop (if legacy then ['';'', ''&&'', ''||'', ''|'', ''&''] else ['';'', ''&&'', ''||'', ''|'']) [] [] ts)"

lemma observation_samples:
  "strip_quoted_strings ''a 'b' c \"d\" e'' = ''a \"\" c \"\" e''"
  "substitutions ''a $(b (c) `d`) '$(e)' f'' = (''a SUBSTITUTION '$(e)' f'', [''b (c) `d`''])"
  "unquoted_redirect ''ls > x''" "\<not> unquoted_redirect ''ls 2>&1 >>/dev/null''" "\<not> unquoted_redirect ''echo '>' ''"
  "simple_shell_segments ''a b|c # d'' = [[''a'', ''b''], [''c'']]"
  "read_segments False ''ls -l 2>/dev/null | wc'' = [[''ls'', ''-l''], [''wc'']]"
  "read_segments False ''ls >x'' = []" "read_segments True ''ls &'' = []"
  by code_simp+

end
