(* ===== verification/Read_Operands.thy ===== *)
theory Read_Operands
  imports Shell_Observations Predicates
begin

text \<open>
  The command behind the wrappers of a shell segment, its file operands, and the file names that are
  treated as secrets (\<^verbatim>\<open>intaris/classifier.py\<close>).
\<close>

subsection \<open>Wrappers\<close>

definition after_first :: "char \<Rightarrow> string \<Rightarrow> string" where
  "after_first sep s = drop 1 (dropWhile (\<lambda>c. c \<noteq> sep) s)"

definition before_first :: "char \<Rightarrow> string \<Rightarrow> string" where
  "before_first sep s = takeWhile (\<lambda>c. c \<noteq> sep) s"

definition bash_command_wrappers :: "string list" where
  "bash_command_wrappers = [''command'', ''env'', ''time'']"

definition env_options_with_separate_values :: "string list" where
  "env_options_with_separate_values = [''-u'', ''--unset'', ''-C'', ''--chdir'', ''-a'', ''--argv0'']"

definition env_options_with_attached_values :: "string list" where
  "env_options_with_attached_values = [''-u'', ''-C'', ''-a'', ''--unset='', ''--chdir='', ''--argv0='']"

definition env_name :: rx where
  "env_name = Seq (One (\<lambda>c. is_letter c \<or> c = CHR ''_'')) (Opt (Many (\<lambda>c. is_letter c \<or> is_digit c \<or> c = CHR ''_'')))"

definition looks_like_env_assignment :: "string \<Rightarrow> bool" where
  "looks_like_env_assignment token \<longleftrightarrow>
     CHR ''='' \<in> set token \<and> fullmatch env_name (before_first CHR ''='' token) \<noteq> None"

definition split_env_split_string :: "string \<Rightarrow> string list" where
  "split_env_split_string text = (case shlex_split text of Inl _ \<Rightarrow> [] | Inr ts \<Rightarrow> ts)"

text \<open>The text a token of \<^verbatim>\<open>env\<close> splits in place of itself.\<close>

definition attached_split :: "string \<Rightarrow> string option" where
  "attached_split token =
     (if starts_with token ''--split-string='' then Some (after_first CHR ''='' token)
      else if starts_with token ''-S'' \<and> token \<noteq> ''-S'' then Some (drop 2 token)
      else None)"

definition skipped_option :: "string \<Rightarrow> bool" where
  "skipped_option token \<longleftrightarrow>
     list_ex (\<lambda>p. starts_with token p \<and> token \<noteq> p) env_options_with_attached_values
     \<or> starts_with token ''-'' \<or> looks_like_env_assignment token"

definition extent :: "string list \<Rightarrow> nat" where
  "extent ts = length (concat ts) + length ts"

lemma extent_simps [simp]:
  "extent [] = 0" "extent (t # ts) = Suc (length t) + extent ts" "extent (ts @ us) = extent ts + extent us"
  by (simp_all add: extent_def)

lemma extent_drop: "extent (drop n ts) \<le> extent ts"
  by (metis append_take_drop_id extent_simps(3) le_add2)

lemma extent_split: "extent (split_env_split_string s) \<le> Suc (length s)"
  using split_length [of s] by (auto simp: split_env_split_string_def extent_def split: sum.splits)

lemma attached_split_shorter: "attached_split token = Some s \<Longrightarrow> Suc (length s) \<le> length token"
  by (auto simp: attached_split_def after_first_def starts_with_iff split: if_splits)

function env_remaining :: "string list \<Rightarrow> string list" where
  "env_remaining [] = []"
| "env_remaining (token # ts) =
     (if token = ''--'' then ts
      else if token \<in> {''-S'', ''--split-string''} then
        (case ts of [] \<Rightarrow> [] | split_value # us \<Rightarrow> env_remaining (split_env_split_string split_value @ us))
      else case attached_split token of
        Some s \<Rightarrow> env_remaining (split_env_split_string s @ ts)
      | None \<Rightarrow>
          if token \<in> set env_options_with_separate_values then env_remaining (drop 1 ts)
          else if skipped_option token then env_remaining ts
          else token # ts)"
  by pat_completeness auto
termination
  by (relation "measure extent")
     (auto simp: less_Suc_eq_le intro: le_trans [OF extent_split] le_trans [OF extent_drop] dest: attached_split_shorter)

lemma env_remaining_extent: "extent (env_remaining ts) \<le> extent ts"
proof (induction ts rule: env_remaining.induct)
  case (2 token ts)
  show ?case
  proof (cases "token = ''--''")
    case False
    note dash = False
    show ?thesis
    proof (cases "token \<in> {''-S'', ''--split-string''}")
      case True
      show ?thesis
      proof (cases ts)
        case (Cons split_value us)
        with True dash 2(1) [OF dash True Cons] extent_split [of split_value] show ?thesis
          by auto
      qed (use True dash in auto)
    next
      case False
      note plain = False
      show ?thesis
      proof (cases "attached_split token")
        case (Some s)
        with dash plain 2(4) [OF dash plain Some] extent_split [of s] attached_split_shorter [OF Some] show ?thesis
          by auto
      next
        case None
        with dash plain 2(2) [OF dash plain None] 2(3) [OF dash plain None] extent_drop [of 1 ts] show ?thesis
          by auto
      qed
    qed
  qed simp
qed simp

function unwrap_read_command :: "string list \<Rightarrow> string list" where
  "unwrap_read_command [] = []"
| "unwrap_read_command (wrapper # ts) =
     (if wrapper \<in> set bash_command_wrappers
      then unwrap_read_command (if wrapper = ''env'' then env_remaining ts else ts)
      else wrapper # ts)"
  by pat_completeness auto
termination
  by (relation "measure extent") (auto simp: env_remaining_extent less_Suc_eq_le trans_le_add2)

subsection \<open>File operands\<close>

definition bash_file_operand_commands :: "string list" where
  "bash_file_operand_commands =
     [''awk'', ''cat'', ''cut'', ''diff'', ''du'', ''file'', ''grep'', ''head'', ''less'', ''ls'', ''more'', ''rg'',
      ''sort'', ''stat'', ''sed'', ''tail'', ''tree'', ''uniq'', ''wc'']"

definition nonempty_args :: "string list \<Rightarrow> string list" where
  "nonempty_args = filter (\<lambda>arg. arg \<noteq> [])"

definition attached_option_value :: "string \<Rightarrow> string \<Rightarrow> string option \<Rightarrow> string option" where
  "attached_option_value token short_option long_option =
     (case long_option of
        Some l \<Rightarrow> if starts_with token (l @ ''='') then Some (after_first CHR ''='' token)
                  else if starts_with token short_option \<and> token \<noteq> short_option
                  then Some (drop (length short_option) token) else None
      | None \<Rightarrow> if starts_with token short_option \<and> token \<noteq> short_option
                then Some (drop (length short_option) token) else None)"

fun generic_file_operands :: "bool \<Rightarrow> string list \<Rightarrow> string list" where
  "generic_file_operands skip_next [] = []"
| "generic_file_operands skip_next (token # ts) =
     (if skip_next then generic_file_operands False ts
      else if token = ''--'' then nonempty_args ts
      else if starts_with token ''-'' then
        generic_file_operands (token \<in> {''-d'', ''-n'', ''-c'', ''-m'', ''--label'', ''-L''}) ts
      else token # generic_file_operands False ts)"

datatype pending_value = PendFile | PendPattern | PendOption

definition rest_operands :: "bool \<Rightarrow> string list \<Rightarrow> string list" where
  "rest_operands seen ts = nonempty_args (if seen then ts else drop 1 ts)"

definition grep_value_options :: "string list" where
  "grep_value_options =
     [''--exclude'', ''--include'', ''--exclude-dir'', ''--include-dir'', ''--label'', ''--binary-files'', ''--devices'',
      ''--directories'', ''-m'', ''-A'', ''-B'', ''-C'']"

fun grep_file_operands :: "bool \<Rightarrow> pending_value option \<Rightarrow> string list \<Rightarrow> string list" where
  "grep_file_operands seen pend [] = []"
| "grep_file_operands seen (Some v) (token # ts) =
     (if v = PendFile then token # grep_file_operands True None ts
      else grep_file_operands (seen \<or> v = PendPattern) None ts)"
| "grep_file_operands seen None (token # ts) =
     (if token = ''--'' then rest_operands seen ts
      else if token \<in> {''-f'', ''--file''} then grep_file_operands seen (Some PendFile) ts
      else case attached_option_value token ''-f'' (Some ''--file'') of
        Some f \<Rightarrow> if f \<noteq> [] then f # grep_file_operands True None ts else grep_file_operands seen None ts
      | None \<Rightarrow>
        if token \<in> {''-e'', ''--regexp''} then grep_file_operands seen (Some PendPattern) ts
        else if attached_option_value token ''-e'' (Some ''--regexp'') \<noteq> None then grep_file_operands True None ts
        else if token \<in> set grep_value_options then grep_file_operands seen (Some PendOption) ts
        else if starts_with token ''-'' then grep_file_operands seen None ts
        else if \<not> seen then grep_file_operands True None ts
        else token # grep_file_operands seen None ts)"

fun sed_file_operands :: "bool \<Rightarrow> pending_value option \<Rightarrow> string list \<Rightarrow> string list" where
  "sed_file_operands seen pend [] = []"
| "sed_file_operands seen (Some v) (token # ts) =
     (if v = PendFile then token # sed_file_operands True None ts else sed_file_operands True None ts)"
| "sed_file_operands seen None (token # ts) =
     (if token = ''--'' then rest_operands seen ts
      else if token \<in> {''-f'', ''--file''} then sed_file_operands seen (Some PendFile) ts
      else case attached_option_value token ''-f'' (Some ''--file'') of
        Some f \<Rightarrow> if f \<noteq> [] then f # sed_file_operands True None ts else sed_file_operands seen None ts
      | None \<Rightarrow>
        if token \<in> {''-e'', ''--expression''} then sed_file_operands seen (Some PendPattern) ts
        else if attached_option_value token ''-e'' (Some ''--expression'') \<noteq> None then sed_file_operands True None ts
        else if starts_with token ''-'' then sed_file_operands seen None ts
        else if \<not> seen then sed_file_operands True None ts
        else token # sed_file_operands seen None ts)"

fun awk_file_operands :: "bool \<Rightarrow> pending_value option \<Rightarrow> string list \<Rightarrow> string list" where
  "awk_file_operands seen pend [] = []"
| "awk_file_operands seen (Some v) (token # ts) =
     (if v = PendFile then token # awk_file_operands True None ts else awk_file_operands seen None ts)"
| "awk_file_operands seen None (token # ts) =
     (if token = ''--'' then rest_operands seen ts
      else if token = ''-f'' then awk_file_operands seen (Some PendFile) ts
      else case attached_option_value token ''-f'' None of
        Some f \<Rightarrow> if f \<noteq> [] then f # awk_file_operands True None ts else awk_file_operands seen None ts
      | None \<Rightarrow>
        if token = ''-v'' then awk_file_operands seen (Some PendOption) ts
        else if starts_with token ''-'' then awk_file_operands seen None ts
        else if \<not> seen then awk_file_operands True None ts
        else if looks_like_env_assignment token then awk_file_operands seen None ts
        else token # awk_file_operands seen None ts)"

definition file_operands_for_command :: "string list \<Rightarrow> string list" where
  "file_operands_for_command tokens =
     (let command = hd tokens; args = tl tokens in
      if command \<in> {''grep'', ''rg''} then grep_file_operands False None args
      else if command = ''sed'' then sed_file_operands False None args
      else if command = ''awk'' then awk_file_operands False None args
      else generic_file_operands False args)"

lemma operand_samples:
  "unwrap_read_command [''env'', ''-S'', ''A=1 grep -f x'', ''y''] = [''grep'', ''-f'', ''x'', ''y'']"
  "file_operands_for_command [''grep'', ''-n'', ''token'', ''a'', ''b''] = [''a'', ''b'']"
  "file_operands_for_command [''sed'', ''-n'', ''-e'', ''1p'', ''f''] = [''f'']"
  "file_operands_for_command [''awk'', ''-v'', ''a=b'', ''{print}'', ''x=1'', ''f''] = [''f'']"
  "file_operands_for_command [''head'', ''-n'', ''5'', ''f''] = [''f'']"
  by code_simp+

end
