(* ===== verification/Secret_Paths.thy ===== *)
theory Secret_Paths
  imports Read_Operands
begin

text \<open>
  Secrets as \<^verbatim>\<open>intaris/classifier.py\<close> recognizes them: the names and places of files that
  hold credentials, and the commands that print them or an environment.
\<close>

subsection \<open>Names\<close>

definition sensitive_literal_basenames :: "string list" where
  "sensitive_literal_basenames =
     [''.env'', ''.npmrc'', ''.pypirc'', ''.netrc'', ''.pgpass'', ''.git-credentials'', ''id_rsa'', ''id_dsa'',
      ''id_ecdsa'', ''id_ecdsa_sk'', ''id_ed25519'', ''id_ed25519_sk'']"

definition benign_template_basenames :: "string list" where
  "benign_template_basenames = [''.env.example'', ''.env.sample'', ''.env.template'']"

definition sensitive_basename_globs :: "string list" where
  "sensitive_basename_globs =
     [''.env'', ''.env*'', ''.env.*'', ''.npmrc'', ''.pypirc'', ''.netrc'', ''.pgpass'', ''.git-credentials'',
      ''id_rsa'', ''id_ed25519'', ''*.key'', ''*private*.pem'', ''*privkey*.pem'', ''*-key.pem'', ''*_key.pem'',
      ''*.key.pem'']"

definition sensitive_suffixes :: "string list" where
  "sensitive_suffixes = [''.key'']"

definition mark_before :: rx where
  "mark_before = Alt at_start (One (one_of ''._-''))"

definition mark_behind :: rx where
  "mark_behind = Alt at_end (One (one_of ''._-''))"

definition public_pem :: rx where
  "public_pem =
     Alt (exacts [''cert'', ''crt'', ''chain'', ''bundle'', ''public''])
         (seqs [mark_before, exacts [''pub'', ''ca'', ''root''], mark_behind])"

definition ssh_private_key :: rx where
  "ssh_private_key =
     seqs [exact ''id_'', exacts [''rsa'', ''dsa'', ''ecdsa'', ''ed25519''], Opt (exact ''_sk''),
           Opt (Seq (exact ''.'') (Many non_newline))]"

definition sensitive_home_dirs :: "string list" where
  "sensitive_home_dirs = [''.ssh'', ''.gnupg'', ''.aws'', ''.kube'', ''.config/gcloud'', ''.config/gh'']"

definition sensitive_home_files :: "string list" where
  "sensitive_home_files = [''.docker/config.json'']"

definition sensitive_system :: rx where
  "sensitive_system =
     seqs [Alt at_start (exact ''/''),
       Alt (Seq (exact ''etc/'')
             (Alt (Seq (Opt (exact ''g'')) (exact ''shadow''))
                  (Seq (exact ''sudoers'') (Opt (Seq (exact ''.d'') (Opt (Seq (exact ''/'') (Opt (Many non_newline)))))))))
           (seqs [exact ''proc/'', Many (\<lambda>c. c \<noteq> slash), exact ''/'',
                  Opt (seqs [exact ''task/'', Many (\<lambda>c. c \<noteq> slash), exact ''/'']), exacts [''environ'', ''mem'']]),
       at_end]"

definition sensitive_system_paths :: "string list" where
  "sensitive_system_paths =
     [''/etc/shadow'', ''/etc/gshadow'', ''/etc/sudoers'', ''/etc/sudoers.d/*'', ''/proc/*/environ'', ''/proc/*/mem'']"

definition replace_char :: "char \<Rightarrow> char \<Rightarrow> string \<Rightarrow> string" where
  "replace_char a b s = map (\<lambda>c. if c = a then b else c) s"

definition has_glob :: "string \<Rightarrow> bool" where
  "has_glob s \<longleftrightarrow> list_ex (one_of ''*?['') s"

definition count_slashes :: "string \<Rightarrow> nat" where
  "count_slashes s = length (filter (\<lambda>c. c = slash) s)"

definition home_file_match :: "string list \<Rightarrow> string \<Rightarrow> bool" where
  "home_file_match segments name =
     (let parts = split_on slash name; n = length segments; k = length parts in
      n \<ge> k \<and> take (k - 1) (drop (n - k) segments) = butlast parts \<and> fnmatchcase (last parts) (last segments))"

definition is_credential_location :: "string \<Rightarrow> string \<Rightarrow> bool" where
  "is_credential_location normalized base =
     (if normalized = [] then False
      else
        let full = replace_char backslash slash (normpath normalized);
            segmented = ''/'' @ dropWhile (\<lambda>c. c = slash) full @ ''/''
        in case List.find (\<lambda>d. sublist (''/'' @ d @ ''/'') segmented) sensitive_home_dirs of
             Some d \<Rightarrow> \<not> (d = ''.ssh'' \<and> (base = ''known_hosts'' \<or> ends_with base ''.pub''))
           | None \<Rightarrow>
               list_ex (home_file_match (split_on slash full)) sensitive_home_files
               \<or> found sensitive_system full
               \<or> starts_with full ''/'' \<and> has_glob full
                 \<and> list_ex (\<lambda>pat. count_slashes full = count_slashes pat \<and> fnmatchcase pat full) sensitive_system_paths)"

definition is_benign_env_template :: "string \<Rightarrow> bool" where
  "is_benign_env_template base \<longleftrightarrow>
     base \<in> set benign_template_basenames \<or> list_ex (ends_with base) [''.example'', ''.sample'', ''.template'']"

definition private_pem :: "string \<Rightarrow> bool" where
  "private_pem base \<longleftrightarrow>
     ends_with base ''.pem''
     \<and> (sublist ''private'' base \<or> sublist ''privkey'' base
        \<or> found (seqs [mark_before, exact ''key'', mark_behind]) base
        \<or> \<not> found public_pem (take (length base - 4) base))"

definition private_ssh_key :: "string \<Rightarrow> bool" where
  "private_ssh_key base \<longleftrightarrow>
     (fullmatch ssh_private_key base \<noteq> None \<or> starts_with base ''id_'' \<and> CHR ''.'' \<notin> set base)
     \<and> \<not> ends_with base ''.pub''"

definition normalized_name :: "string \<Rightarrow> string" where
  "normalized_name path =
     py_lower (rev (dropWhile (\<lambda>c. c = slash) (rev (replace_char backslash slash path))))"

definition is_sensitive_path :: "string \<Rightarrow> bool" where
  "is_sensitive_path path =
     (let normalized = normalized_name path; base = basename normalized in
      if is_credential_location normalized base then True
      else if has_glob base then
        list_ex (\<lambda>l. fnmatchcase l base) sensitive_literal_basenames
        \<or> list_ex (\<lambda>pat. fnmatchcase base pat) sensitive_basename_globs
      else if is_benign_env_template base then False
      else base \<in> set sensitive_literal_basenames
        \<or> (starts_with base ''.env.'' \<and> \<not> is_benign_env_template base)
        \<or> list_ex (ends_with base) sensitive_suffixes
        \<or> private_pem base
        \<or> private_ssh_key base
        \<or> normalized = ''config/database.yml''
        \<or> ends_with normalized ''/config/database.yml'')"

lemma sensitive_samples:
  "is_sensitive_path ''/home/u/.ssh/id_rsa''" "\<not> is_sensitive_path ''~/.ssh/id_rsa.pub''"
  "is_sensitive_path ''/proc/self/environ''" "is_sensitive_path ''app/.env.local''" "\<not> is_sensitive_path ''.env.example''"
  "is_sensitive_path ''/etc/shad*''" "is_sensitive_path ''server.pem''" "\<not> is_sensitive_path ''ca-bundle.pem''"
  "\<not> is_sensitive_path ''src/main.py''"
  by code_simp+

subsection \<open>Commands\<close>

definition ps_value_options :: "string list" where
  "ps_value_options =
     [''-o'', ''-O'', ''-p'', ''-q'', ''-u'', ''-U'', ''-g'', ''-G'', ''-C'', ''-t'', ''--format'', ''--pid'', ''--ppid'',
      ''--user'', ''--sort'']"

fun ps_discloses :: "string \<Rightarrow> string list \<Rightarrow> bool" where
  "ps_discloses previous [] = False"
| "ps_discloses previous (a # ts) =
     (if previous \<in> set ps_value_options then ps_discloses [] ts
      else if a = ''-E'' \<or> (a \<noteq> [] \<and> list_all is_letter a \<and> CHR ''e'' \<in> set a) then True
      else ps_discloses a ts)"

text \<open>\<open>zip(["", *args], args)\<close>: every argument with the one before it.\<close>

definition with_previous :: "string list \<Rightarrow> (string \<times> string) list" where
  "with_previous args = zip ([] # args) args"

definition names_secret :: "string \<Rightarrow> bool" where
  "names_secret a \<longleftrightarrow> a \<in> {''secret'', ''secrets''} \<or> starts_with a ''secret/'' \<or> starts_with a ''secrets/''"

definition full_format :: rx where
  "full_format = exacts [''yaml'', ''json'', ''jsonpath'', ''go-template'']"

definition prints_resource :: "string \<times> string \<Rightarrow> bool" where
  "prints_resource pa \<longleftrightarrow>
     snd pa \<in> {''-oyaml'', ''-ojson''}
     \<or> matches_prefix (seqs [exacts [''-o'', ''--output''], Opt (exact ''=''), full_format]) (snd pa)
     \<or> fst pa \<in> {''-o'', ''--output''} \<and> matches_prefix full_format (snd pa)"

definition kubectl_discloses :: "string list \<Rightarrow> bool" where
  "kubectl_discloses args =
     (if \<not> list_ex names_secret args then False
      else if ''describe'' \<in> set args then True
      else ''get'' \<in> set args \<and> list_ex prints_resource (with_previous args))"

definition shown_properties :: "string list \<Rightarrow> string list" where
  "shown_properties args =
     concat (map (\<lambda>(previous, a).
       if previous \<in> {''-p'', ''--property''} then [a]
       else if starts_with a ''--property='' then [after_first CHR ''='' a]
       else if starts_with a ''-p'' \<and> a \<noteq> ''-p'' then [drop 2 a]
       else []) (with_previous args))"

definition command_discloses :: "string \<Rightarrow> string list \<Rightarrow> bool" where
  "command_discloses command args =
     (if command = ''printenv'' then True
      else if command = ''export'' then args = [] \<or> ''-p'' \<in> set args
      else if command \<in> {''declare'', ''typeset''} then
        \<not> list_ex (\<lambda>a. CHR ''='' \<in> set a) args
        \<and> (args = [] \<or> list_ex (\<lambda>a. starts_with a ''-'' \<and> (CHR ''p'' \<in> set a \<or> CHR ''x'' \<in> set a)) args)
      else if command = ''set'' then args = []
      else if command = ''compgen'' then list_ex (\<lambda>a. a \<in> {''-v'', ''-e''} \<or> a \<in> {''variable'', ''export''}) args
      else if command = ''ps'' then ps_discloses [] args
      else if command = ''kubectl'' then kubectl_discloses args
      else if command \<in> {''docker'', ''podman''} then ''inspect'' \<in> set (take 2 args)
      else if command = ''systemctl'' \<and> ''show'' \<in> set args then
        shown_properties args = [] \<or> list_ex (sublist ''Environment'') (shown_properties args)
      else False)"

definition segment_discloses_secrets :: "string list \<Rightarrow> bool" where
  "segment_discloses_secrets segment0 =
     (let segment = basename (hd segment0) # tl segment0 in
      case unwrap_read_command segment of
        [] \<Rightarrow> hd segment = ''env''
      | t # args \<Rightarrow> command_discloses (basename t) args)"

definition control_operator :: rx where
  "control_operator = Alt (exact ''||'') (Alt (exact ''&&'') (One (one_of ''|;&'')))"

definition segment_sensitive_paths :: "string \<Rightarrow> string list" where
  "segment_sensitive_paths segment =
     (case shlex_split segment of
        Inl _ \<Rightarrow> []
      | Inr tokens0 \<Rightarrow>
          let tokens = unwrap_read_command tokens0 in
          if tokens = [] \<or> hd tokens \<notin> set bash_file_operand_commands then []
          else filter is_sensitive_path (file_operands_for_command tokens))"

definition extract_sensitive_bash_paths :: "string \<Rightarrow> string list" where
  "extract_sensitive_bash_paths command = concat (map segment_sensitive_paths (re_split control_operator command))"

lemma disclosure_samples:
  "segment_discloses_secrets [''/usr/bin/env'', ''A=1'']" "\<not> segment_discloses_secrets [''env'', ''A=1'', ''make'']"
  "segment_discloses_secrets [''kubectl'', ''get'', ''secret/db'', ''-o'', ''yaml'']"
  "segment_discloses_secrets [''ps'', ''auxe'']" "\<not> segment_discloses_secrets [''ps'', ''-u'', ''me'']"
  "extract_sensitive_bash_paths ''ls src; cat .env x | wc'' = [''.env'']"
  by code_simp+

end
