(* ===== verification/Read_Only_Calls.thy ===== *)
theory Read_Only_Calls
  imports Secret_Paths
begin

text \<open>
  The read-only allowlists of \<^verbatim>\<open>intaris/classifier.py\<close>: \<^verbatim>\<open>verified_read_only_bash\<close>, the
  witness that a command line only reads, per command, and \<^verbatim>\<open>is_read_only\<close> with the wider lists
  of the static classification.
\<close>

definition read_only_tools :: "string list" where
  "read_only_tools =
     [''read'', ''glob'', ''grep'', ''search'', ''find'', ''list'', ''get'', ''view'', ''show'', ''describe'', ''explain'',
      ''help'', ''info'', ''status'', ''whoami'', ''version'', ''list_directory'', ''get_current_datetime'',
      ''skill_load'', ''todoread'', ''todowrite'']"

definition read_only_bash_commands :: "string list" where
  "read_only_bash_commands =
     [''ls'', ''cat'', ''head'', ''tail'', ''find'', ''tree'', ''wc'', ''grep'', ''rg'', ''fd'', ''pwd'', ''echo'',
      ''printf'', ''sleep'', ''true'', ''false'', ''which'', ''type'', ''file'', ''stat'', ''du'', ''df'', ''env'',
      ''printenv'', ''uname'', ''hostname'', ''whoami'', ''id'', ''date'', ''uptime'', ''free'', ''ps'', ''top'',
      ''less'', ''more'', ''diff'', ''sort'', ''uniq'', ''cut'', ''tr'', ''awk'', ''sed'', ''jq'', ''yq'', ''python'',
      ''node'']"

definition read_only_git_subcommands :: "string list" where
  "read_only_git_subcommands =
     [''status'', ''log'', ''diff'', ''show'', ''describe'', ''rev-parse'', ''rev-list'', ''ls-files'', ''ls-tree'',
      ''cat-file'', ''name-rev'', ''shortlog'', ''merge-base'', ''blame'']"

definition git_subcommands_with_checks :: "string list" where
  "git_subcommands_with_checks = [''branch'', ''remote'', ''tag'', ''stash'', ''config'']"

definition read_only_mcp_tools :: "string list" where
  "read_only_mcp_tools =
     [''initialize_memory'', ''add_memory'', ''add_memories'', ''search_memories'', ''find_memories'', ''ask_memories'',
      ''get_core_memories'', ''get_recent_memories'', ''list_memories'', ''list_categories'', ''update_memory'',
      ''delete_memory'', ''delete_memories'', ''delete_all_memories'', ''save_artifact'', ''get_artifact'',
      ''get_artifact_url'', ''list_artifacts'', ''delete_artifact'', ''sequentialthinking'',
      ''sequentialthinking_sequentialthinking'']"

subsection \<open>Git\<close>

definition system_command_name :: "string \<Rightarrow> string" where
  "system_command_name command =
     (case List.find (\<lambda>p. starts_with command p \<and> slash \<notin> set (drop (length p) command))
             [''/usr/local/bin/'', ''/usr/bin/'', ''/bin/''] of
        Some p \<Rightarrow> drop (length p) command
      | None \<Rightarrow> command)"

fun git_read_arguments :: "string list \<Rightarrow> string list" where
  "git_read_arguments [] = []"
| "git_read_arguments [a] = (if a = ''--no-pager'' then [] else [a])"
| "git_read_arguments (a # b # ts) =
     (if a = ''--no-pager'' then git_read_arguments (b # ts)
      else if a = ''-C'' then git_read_arguments ts
      else a # b # ts)"

text \<open>An option key that abbreviates, or is, one of the long options.\<close>

definition option_key :: "string \<Rightarrow> string" where
  "option_key a = before_first CHR ''='' a"

definition abbreviates :: "string list \<Rightarrow> string \<Rightarrow> bool" where
  "abbreviates flags a \<longleftrightarrow>
     (let key = option_key a in
      starts_with key ''--'' \<and> length key > 2 \<and> list_ex (\<lambda>flag. starts_with flag key) flags)"

definition until_dashes :: "string list \<Rightarrow> string list" where
  "until_dashes = takeWhile (\<lambda>a. a \<noteq> ''--'')"

definition short_option :: "string \<Rightarrow> bool" where
  "short_option a \<longleftrightarrow> starts_with a ''-'' \<and> \<not> starts_with a ''--''"

definition git_grep_opens_pager :: "string list \<Rightarrow> bool" where
  "git_grep_opens_pager arguments =
     list_ex (\<lambda>a. abbreviates [''--open-files-in-pager''] a \<or> short_option a \<and> CHR ''O'' \<in> set a)
       (until_dashes arguments)"

definition git_read_subcommands :: "string list" where
  "git_read_subcommands =
     [''status'', ''rev-parse'', ''log'', ''diff'', ''show'', ''describe'', ''rev-list'', ''ls-files'', ''ls-tree'',
      ''shortlog'', ''config'', ''remote'', ''merge-base'', ''cat-file'', ''grep'', ''blame'']"

definition git_blocked_options :: "string list" where
  "git_blocked_options =
     [''--output'', ''--config-env'', ''--exec-path'', ''--upload-pack'', ''--receive-pack'', ''--work-tree'', ''--exec'',
      ''--batch-command'', ''--edit'', ''--unset'', ''--unset-all'', ''--add'', ''--replace-all'', ''--rename-section'',
      ''--remove-section'', ''--file'', ''--blob'']"

definition git_transport :: rx where
  "git_transport =
     Alt (seqs [One is_letter, Opt (Many (\<lambda>c. is_letter c \<or> is_digit c \<or> one_of ''+.-'' c)), exact ''://''])
     (Alt (exact ''ext::'')
          (seqs [at_start, Many (\<lambda>c. c \<noteq> slash), exact ''@'', Many (\<lambda>c. c \<noteq> CHR '':''), exact '':'']))"

definition git_option_allowed :: "string \<Rightarrow> string \<Rightarrow> bool" where
  "git_option_allowed subcommand a \<longleftrightarrow>
     \<not> abbreviates git_blocked_options a
     \<and> \<not> (list_ex (starts_with a) [''-o'', ''-c'', ''-u''] \<and> \<not> starts_with a ''--'')
     \<and> \<not> (starts_with (option_key a) ''--git-dir'' \<and> subcommand \<noteq> ''rev-parse'')"

definition git_branch_flags :: "string list" where
  "git_branch_flags =
     [''--show-current'', ''--list'', ''-a'', ''--all'', ''-r'', ''--remotes'', ''-v'', ''-vv'', ''--verbose'']"

definition git_verified :: "string list \<Rightarrow> bool" where
  "git_verified arguments =
     (case arguments of
        [] \<Rightarrow> False
      | sub # args \<Rightarrow>
          if sub = ''branch'' then list_all (\<lambda>a. a \<in> set git_branch_flags) args
          else sub \<in> set git_read_subcommands
            \<and> \<not> (sub = ''grep'' \<and> git_grep_opens_pager args)
            \<and> \<not> list_ex (found git_transport) arguments
            \<and> \<not> (sub = ''config'' \<and> (args = [] \<or> hd args \<notin> {''--get'', ''--list''}))
            \<and> \<not> (sub = ''remote'' \<and> list_ex (\<lambda>a. a \<notin> {''-v'', ''--verbose''}) args)
            \<and> list_all (git_option_allowed sub) (until_dashes args)
            \<and> \<not> (sub = ''config'' \<and>
                  list_ex (\<lambda>a. starts_with a ''-'' \<and>
                     a \<notin> {''--get'', ''--list'', ''--show-origin'', ''--show-scope'', ''--null''}) (until_dashes args)))"

subsection \<open>Other commands\<close>

definition journal_maintenance :: "string list" where
  "journal_maintenance =
     [''--rotate'', ''--vacuum-size'', ''--vacuum-time'', ''--vacuum-files'', ''--flush'', ''--sync'', ''--relinquish-var'',
      ''--smart-relinquish-var'', ''--setup-keys'', ''--update-catalog'']"

definition systemctl_flags :: "string list" where
  "systemctl_flags =
     [''--user'', ''--system'', ''--all'', ''-a'', ''--no-pager'', ''--no-legend'', ''--full'', ''-l'', ''--failed'',
      ''--plain'', ''-q'', ''--quiet'']"

definition systemctl_verified :: "string list \<Rightarrow> bool" where
  "systemctl_verified arguments =
     (let verbs = filter (\<lambda>a. a \<notin> set systemctl_flags) arguments in
      \<not> list_ex (\<lambda>a. starts_with a ''-'') verbs \<and> verbs \<noteq> []
      \<and> hd verbs \<in> {''status'', ''show'', ''cat'', ''list-units'', ''list-timers'', ''list-unit-files'', ''list-sockets'',
                    ''is-active'', ''is-enabled'', ''is-failed''})"

definition kubectl_valued :: "string list" where
  "kubectl_valued =
     [''-n'', ''--namespace'', ''--context'', ''--cluster'', ''--kubeconfig'', ''--user'', ''-l'', ''--selector'', ''-o'',
      ''--output'', ''-c'', ''--container'', ''--since'', ''--since-time'', ''--tail'', ''--field-selector'', ''--sort-by'',
      ''--request-timeout'']"

definition kubectl_pre_verb :: "string list" where
  "kubectl_pre_verb = [''-n'', ''--namespace'', ''--context'', ''--cluster'', ''--kubeconfig'']"

text \<open>The positional arguments; \<open>None\<close> when an unknown option precedes the verb.\<close>

fun kubectl_positional :: "bool \<Rightarrow> bool \<Rightarrow> string list \<Rightarrow> string list option" where
  "kubectl_positional skip seen_verb [] = Some []"
| "kubectl_positional skip seen_verb (a # ts) =
     (if skip then kubectl_positional False seen_verb ts
      else if starts_with a ''-'' then
        (if \<not> seen_verb \<and> option_key a \<notin> set kubectl_pre_verb then None
         else kubectl_positional (a \<in> set kubectl_valued) seen_verb ts)
      else map_option (\<lambda>ps. a # ps) (kubectl_positional False True ts))"

definition kubectl_verbs :: "string list" where
  "kubectl_verbs =
     [''logs'', ''get'', ''describe'', ''top'', ''version'', ''explain'', ''api-resources'', ''api-versions'',
      ''cluster-info'', ''events'']"

definition kubectl_verified :: "string list \<Rightarrow> bool" where
  "kubectl_verified arguments =
     (case kubectl_positional False False arguments of
        None \<Rightarrow> False
      | Some [] \<Rightarrow> False
      | Some (verb # ps) \<Rightarrow>
          (if verb = ''auth'' then take 1 ps = [''can-i'']
           else if verb = ''cluster-info'' \<and> ''dump'' \<in> set ps then False
           else verb \<in> set kubectl_verbs)
          \<and> \<not> list_ex names_secret (verb # ps))"

definition sort_writes :: "string \<Rightarrow> bool" where
  "sort_writes a \<longleftrightarrow>
     starts_with a ''--o'' \<or> starts_with a ''--c'' \<and> a \<noteq> ''--check'' \<or> short_option a \<and> CHR ''o'' \<in> set a"

definition all_digits :: "string \<Rightarrow> bool" where
  "all_digits a \<longleftrightarrow> a \<noteq> [] \<and> list_all (\<lambda>c. is_digit c \<or> (of_char c :: nat) \<in> {178, 179, 185}) a"

definition uniq_writes :: "string \<times> string \<Rightarrow> bool" where
  "uniq_writes pa \<longleftrightarrow>
     snd pa = ''--''
     \<or> \<not> starts_with (snd pa) ''-'' \<and> \<not> (all_digits (snd pa) \<and> fst pa \<in> {''-f'', ''-s'', ''-w''})"

definition date_sets :: "string \<times> string \<Rightarrow> bool" where
  "date_sets pa \<longleftrightarrow>
     starts_with (snd pa) ''--s'' \<or> short_option (snd pa) \<and> CHR ''s'' \<in> set (snd pa)
     \<or> \<not> list_ex (starts_with (snd pa)) [''-'', ''+'']
       \<and> fst pa \<notin> {''-d'', ''-r'', ''-f'', ''--date'', ''--reference'', ''--file''}"

definition harmless_commands :: "string list" where
  "harmless_commands =
     [''stat'', ''pgrep'', ''free'', ''nproc'', ''which'', ''sleep'', ''true'', ''false'', ''printf'',
      ''ls'', ''cat'', ''head'', ''tail'', ''grep'', ''wc'', ''cut'', ''tr'', ''pwd'', ''du'', ''df'', ''uname'', ''whoami'',
      ''id'', ''uptime'', ''echo'', ''diff'']"

definition segment_verified :: "string list \<Rightarrow> bool" where
  "segment_verified tokens =
     (let cmd = system_command_name (hd tokens); arguments = tl tokens in
      if cmd = ''git'' then git_verified (git_read_arguments arguments)
      else if cmd = ''ps'' then arguments \<in> {[], [''aux''], [''ax''], [''-ef''], [''-e''], [''-f'']}
      else if cmd = ''journalctl'' then \<not> list_ex (abbreviates journal_maintenance) arguments
      else if cmd = ''systemctl'' then systemctl_verified arguments
      else if cmd = ''kubectl'' then kubectl_verified arguments
      else if cmd = ''rclone'' then arguments = [''version'']
      else if cmd = ''sort'' then \<not> list_ex sort_writes arguments
      else if cmd = ''uniq'' then \<not> list_ex uniq_writes (with_previous arguments)
      else if cmd = ''date'' then \<not> list_ex date_sets (with_previous arguments)
      else if cmd = ''rg'' then \<not> list_ex (\<lambda>a. starts_with a ''--pre'' \<or> starts_with a ''--hostname-bin'') arguments
      else cmd \<in> set harmless_commands)"

subsection \<open>The verified reads\<close>

text \<open>
  \<^verbatim>\<open>str(v)\<close> of the values a command argument can be: a string, null or a boolean.  Numbers,
  lists and objects are not commands of any client; their text is not modelled.
\<close>

fun arg_text :: "pyval \<Rightarrow> string" where
  "arg_text (VStr s) = s"
| "arg_text VNone = ''None''"
| "arg_text (VBool b) = (if b then ''True'' else ''False'')"
| "arg_text _ = []"

definition extract_bash_command :: "pydict \<Rightarrow> string" where
  "extract_bash_command args =
     (let command = dget_default args ''command'' (VStr []) in
      py_strip (arg_text (if truthy command then command else dget_default args ''cmd'' (VStr []))))"

definition verified_line :: "string \<Rightarrow> bool" where
  "verified_line command \<longleftrightarrow>
     read_segments False command \<noteq> [] \<and> list_all segment_verified (read_segments False command)"

definition verified_read_only_bash :: "pydict \<Rightarrow> bool" where
  "verified_read_only_bash args = verified_line (extract_bash_command args)"

definition observational_mcp :: "string list" where
  "observational_mcp =
     [''knowledgebase_list_artifacts'', ''search_memories'', ''find_memories'', ''get_core_memories'',
      ''get_recent_memories'', ''list_memories'', ''list_categories'', ''get_artifact'', ''get_artifact_url'',
      ''list_artifacts'', ''list-chats'']"

definition verified_read_only :: "string \<Rightarrow> pydict \<Rightarrow> bool" where
  "verified_read_only tool args =
     (let base = last (re_split (Alt (exact '':'') (exact ''__'')) tool) in
      base \<in> set observational_mcp
      \<or> (if tool = ''bash'' then verified_read_only_bash args
         else py_lower tool \<in> set read_only_tools \<and> py_lower tool \<noteq> ''todowrite''))"

subsection \<open>The static allowlist\<close>

definition git_branch_read_flags :: "string list" where
  "git_branch_read_flags =
     [''-a'', ''-r'', ''--list'', ''-v'', ''-vv'', ''--merged'', ''--no-merged'', ''--contains'', ''--no-contains'',
      ''--sort'', ''--format'', ''--color'', ''--no-color'', ''--column'', ''--no-column'']"

definition is_git_subcommand_read_only :: "string \<Rightarrow> string list \<Rightarrow> bool" where
  "is_git_subcommand_read_only subcommand remaining =
     (if subcommand = ''stash'' then remaining \<noteq> [] \<and> hd remaining \<in> {''list'', ''show''}
      else if subcommand = ''config'' then list_ex (\<lambda>a. a \<in> {''--get'', ''--get-all'', ''--list'', ''-l''}) remaining
      else if subcommand = ''branch'' then
        remaining = [] \<or> list_all (\<lambda>a. starts_with a ''-'' \<and> a \<in> set git_branch_read_flags) remaining
      else if subcommand = ''tag'' then remaining = [] \<or> hd remaining \<in> {''-l'', ''--list''}
      else if subcommand = ''remote'' then
        remaining = [] \<or> hd remaining \<in> {''-v'', ''--verbose''} \<or> hd remaining \<in> {''show'', ''get-url''}
      else False)"

definition tokens_read_only :: "string list \<Rightarrow> bool" where
  "tokens_read_only tokens =
     (case tokens of
        [] \<Rightarrow> False
      | base_cmd # args \<Rightarrow>
          if base_cmd = ''git'' \<and> args \<noteq> [] then
            (case git_read_arguments args of
               [] \<Rightarrow> False
             | sub # remaining \<Rightarrow>
                 if sub = ''grep'' then \<not> git_grep_opens_pager remaining
                 else if sub \<in> set read_only_git_subcommands then True
                 else if sub \<in> set git_subcommands_with_checks then is_git_subcommand_read_only sub remaining
                 else False)
          else if base_cmd = ''sed'' \<and> list_ex (\<lambda>t. t = ''-i'' \<or> starts_with t ''-i'') args then False
          else if base_cmd \<in> {''python'', ''python3'', ''node''} then False
          else base_cmd \<in> set read_only_bash_commands)"

definition is_single_command_read_only :: "string \<Rightarrow> bool" where
  "is_single_command_read_only command =
     (if has_shell_redirect command then False
      else case shlex_split command of Inl _ \<Rightarrow> False | Inr tokens \<Rightarrow> tokens_read_only tokens)"

definition is_read_only_bash :: "pydict \<Rightarrow> bool" where
  "is_read_only_bash args =
     (let segments = read_segments True (extract_bash_command args) in
      segments \<noteq> [] \<and> list_all (\<lambda>tokens. is_single_command_read_only (shlex_join tokens)) segments)"

text \<open>The text behind the last double underscore, and behind each underscore.\<close>

definition after_last_dunder :: "string \<Rightarrow> string" where
  "after_last_dunder tool = rev (hd (re_split (exact ''__'') (rev tool)))"

fun underscore_suffixes :: "string \<Rightarrow> string list" where
  "underscore_suffixes [] = []"
| "underscore_suffixes (c # cs) = (if c = CHR ''_'' then [cs] else []) @ underscore_suffixes cs"

definition is_read_only :: "string \<Rightarrow> pydict \<Rightarrow> bool" where
  "is_read_only tool args =
     (if py_lower tool \<in> set read_only_tools \<or> py_lower tool \<noteq> ''bash'' \<and> verified_read_only tool args then True
      else if last (split_on CHR '':'' tool) \<in> set read_only_mcp_tools then True
      else if starts_with tool ''mcp__'' \<and> sublist ''__'' (drop 5 tool)
              \<and> after_last_dunder tool \<in> set read_only_mcp_tools then True
      else if CHR ''_'' \<in> set tool \<and> \<not> starts_with tool ''mcp__''
              \<and> list_ex (\<lambda>c. c \<in> set read_only_mcp_tools) (underscore_suffixes tool) then True
      else if tool = ''bash'' then is_read_only_bash args
      else False)"

subsection \<open>What the witness guarantees\<close>

text \<open>The tokens the read grammar yields are the tokens that were there: no segment is empty.\<close>

lemma read_loop_nonempty:
  "list_all (\<lambda>seg. seg \<noteq> []) segments \<Longrightarrow> list_all (\<lambda>seg. seg \<noteq> []) (read_loop ops segments current ts)"
  by (induction ops segments current ts rule: read_loop.induct) auto

lemma read_segments_nonempty: "seg \<in> set (read_segments legacy command) \<Longrightarrow> seg \<noteq> []"
  using read_loop_nonempty [of "[]"]
  by (auto simp: read_segments_def Let_def list_all_iff split: if_splits sum.splits)

text \<open>Joining a segment and splitting it again gives the segment: the check sees the tokens of the line.\<close>

lemma joined_check:
  "is_single_command_read_only (shlex_join tokens) \<longleftrightarrow>
     \<not> has_shell_redirect (shlex_join tokens) \<and> tokens_read_only tokens"
  by (simp add: is_single_command_read_only_def shlex_join_splits)

lemma read_only_samples:
  "verified_line ''git -C /x log --oneline | head -n 3; ls -l 2>/dev/null''"
  "\<not> verified_line ''git -c core.pager=x log''" "\<not> verified_line ''git grep -Ovi x''" "\<not> verified_line ''sort -uo f f''"
  "verified_line ''kubectl -n x get pods''" "\<not> verified_line ''kubectl get secret/x''" "\<not> verified_line ''env rm x''"
  "is_read_only ''mcp__m__search_memories'' []" "is_read_only ''mnemory_get_core_memories'' []" "\<not> is_read_only ''edit'' []"
  by code_simp+

end
