(* ===== verification/Pattern_Measure.thy ===== *)
theory Pattern_Measure
  imports Shell_Words
begin

text \<open>
  What a match of a pattern takes from the text: its groups, the rest of the text and a constant of the
  pattern weigh together no more than the text.
\<close>

text \<open>The least a match takes from the text beyond what it captures, for patterns whose groups do not nest.\<close>

primrec has_groups :: "rx \<Rightarrow> bool" where
  "has_groups (Lit w) = False"
| "has_groups (One cls) = False"
| "has_groups (Many cls) = False"
| "has_groups (Seq a b) = (has_groups a \<or> has_groups b)"
| "has_groups (Alt a b) = (has_groups a \<or> has_groups b)"
| "has_groups (Opt a) = has_groups a"
| "has_groups (Rep a) = has_groups a"
| "has_groups (Cap i a) = True"
| "has_groups (Look f) = False"

primrec flat_groups :: "rx \<Rightarrow> bool" where
  "flat_groups (Lit w) = True"
| "flat_groups (One cls) = True"
| "flat_groups (Many cls) = True"
| "flat_groups (Seq a b) = (flat_groups a \<and> flat_groups b)"
| "flat_groups (Alt a b) = (flat_groups a \<and> flat_groups b)"
| "flat_groups (Opt a) = flat_groups a"
| "flat_groups (Rep a) = flat_groups a"
| "flat_groups (Cap i a) = (\<not> has_groups a \<and> flat_groups a)"
| "flat_groups (Look f) = True"

primrec slack :: "rx \<Rightarrow> nat" where
  "slack (Lit w) = length w"
| "slack (One cls) = 1"
| "slack (Many cls) = 1"
| "slack (Seq a b) = slack a + slack b"
| "slack (Alt a b) = min (slack a) (slack b)"
| "slack (Opt a) = 0"
| "slack (Rep a) = 0"
| "slack (Cap i a) = 0"
| "slack (Look f) = 0"

definition captured :: "(char \<Rightarrow> nat) \<Rightarrow> groups \<Rightarrow> nat" where
  "captured w m = (\<Sum>g\<leftarrow>m. weight w (snd g))"

lemma captured_simps [simp]:
  "captured w [] = 0" "captured w (g # m) = weight w (snd g) + captured w m"
  "captured w (m @ m') = captured w m + captured w m'"
  by (simp_all add: captured_def)

lemma length_le_weight: "length s \<le> weight w s"
  by (induction s) auto

lemma runs_suffix:
  assumes "q \<in> set (runs cls b s)"
  shows "suffix (snd q) s \<and> snd q \<noteq> s"
  using assms
proof (induction s arbitrary: b)
  case (Cons c s)
  then have "q \<in> set (runs cls (c # b) s) \<or> snd q = s"
    by (auto split: if_splits)
  with Cons.IH have "suffix (snd q) s"
    by auto
  then show ?case
    by (auto simp: suffix_Cons dest: suffix_length_le)
qed simp

lemma suffix_weight: "suffix t s \<Longrightarrow> weight w t \<le> weight w s"
  by (auto simp: suffix_def)

lemma proper_suffix_weight: "suffix t s \<Longrightarrow> t \<noteq> s \<Longrightarrow> Suc (weight w t) \<le> weight w s"
  by (auto simp: suffix_def) (metis Suc_le_eq add_Suc_right length_le_weight length_greater_0_conv less_le_trans
      plus_1_eq_Suc add_le_mono1 Suc_leI)

lemma Seq_match:
  assumes "(m, q) \<in> set (rx_match (Seq a b) p)"
  obtains m1 m2 q1 where "m = m1 @ m2" "(m1, q1) \<in> set (rx_match a p)" "(m2, q) \<in> set (rx_match b q1)"
proof -
  from assms obtain x y where "x \<in> set (rx_match a p)" "y \<in> set (rx_match b (snd x))" "m = fst x @ fst y" "q = snd y"
    by (auto simp: case_prod_beta)
  then show thesis
    by (intro that [of "fst x" "fst y" "snd x"]) simp_all
qed

lemma repeated_match:
  assumes "(m, q) \<in> set (repeated (Suc n) f p)"
  shows "(m = [] \<and> q = p) \<or>
     (\<exists>m1 m2 q1. m = m1 @ m2 \<and> (m1, q1) \<in> set (f p) \<and> (m2, q) \<in> set (repeated n f q1))"
proof -
  from assms have "(m = [] \<and> q = p) \<or>
     (\<exists>x \<in> set (f p). \<exists>y \<in> set (repeated n f (snd x)). m = fst x @ fst y \<and> q = snd y)"
    by (auto simp: case_prod_beta split: if_splits)
  then show ?thesis
    by (metis prod.collapse)
qed

lemma Cap_match:
  assumes "(m, q) \<in> set (rx_match (Cap i a) p)"
  obtains m' where "m = (i, take (length (snd p) - length (snd q)) (snd p)) # m'" "(m', q) \<in> set (rx_match a p)"
  using assms by (auto simp: case_prod_beta)

text \<open>Matches of a repetition satisfy what one match does when that composes.\<close>

lemma repeated_induct:
  assumes "(m, q) \<in> set (repeated n f p)"
    and "\<And>p. P [] p p"
    and "\<And>m1 m2 p q1 q. (m1, q1) \<in> set (f p) \<Longrightarrow> P m2 q1 q \<Longrightarrow> P (m1 @ m2) p q"
  shows "P m p q"
  using assms(1)
proof (induction n arbitrary: m p)
  case 0
  with assms(2) show ?case by simp
next
  case (Suc n)
  from repeated_match [OF Suc.prems] show ?case
    using assms(2,3) Suc.IH by blast
qed

lemma no_groups_match: "\<not> has_groups r \<Longrightarrow> (m, q) \<in> set (rx_match r p) \<Longrightarrow> m = []"
proof (induction r arbitrary: m p q)
  case (Seq a b)
  from Seq.prems(2) obtain m1 m2 q1
    where "m = m1 @ m2" "(m1, q1) \<in> set (rx_match a p)" "(m2, q) \<in> set (rx_match b q1)"
    by (rule Seq_match)
  with Seq.IH Seq.prems(1) show ?case by simp
next
  case (Alt a b)
  from Alt.prems have "(m, q) \<in> set (rx_match a p) \<or> (m, q) \<in> set (rx_match b p)"
    by auto
  then show ?case
    using Alt.IH(1) [of m q p] Alt.IH(2) [of m q p] Alt.prems by auto
next
  case (Opt a)
  from Opt.prems have "(m, q) \<in> set (rx_match a p) \<or> m = [] \<and> q = p"
    by auto
  then show ?case
    using Opt.IH [of m q p] Opt.prems by auto
next
  case (Rep r)
  from Rep.prems(2) have "(m, q) \<in> set (repeated (length (snd p)) (rx_match r) p)"
    by simp
  then show ?case
    by (rule repeated_induct) (use Rep in auto)
qed (auto split: if_splits list.splits)

lemma rest_is_suffix: "(m, q) \<in> set (rx_match r p) \<Longrightarrow> suffix (snd q) (snd p)"
proof (induction r arbitrary: m p q)
  case (Many cls)
  then show ?case by (auto dest: runs_suffix)
next
  case (Seq a b)
  from Seq.prems obtain m1 m2 q1
    where "m = m1 @ m2" "(m1, q1) \<in> set (rx_match a p)" "(m2, q) \<in> set (rx_match b q1)"
    by (rule Seq_match)
  with Seq.IH show ?case by (blast intro: suffix_order.trans)
next
  case (Alt a b)
  from Alt.prems have "(m, q) \<in> set (rx_match a p) \<or> (m, q) \<in> set (rx_match b p)"
    by auto
  then show ?case
    using Alt.IH(1) [of m q p] Alt.IH(2) [of m q p] Alt.prems by auto
next
  case (Opt a)
  from Opt.prems have "(m, q) \<in> set (rx_match a p) \<or> m = [] \<and> q = p"
    by auto
  then show ?case
    using Opt.IH [of m q p] Opt.prems by auto
next
  case (Rep r)
  from Rep.prems have "(m, q) \<in> set (repeated (length (snd p)) (rx_match r) p)"
    by simp
  then show ?case
    by (rule repeated_induct) (auto dest: Rep.IH intro: suffix_order.trans)
next
  case (Cap i a)
  from Cap.prems obtain m' where "(m', q) \<in> set (rx_match a p)"
    by (rule Cap_match)
  with Cap.IH show ?case by blast
next
  case (One cls)
  then show ?case
    by (cases "snd p") (auto intro: suffix_ConsI split: if_splits)
qed (auto simp: suffix_drop split: if_splits)

lemma match_weight:
  "flat_groups r \<Longrightarrow> (m, q) \<in> set (rx_match r p) \<Longrightarrow>
     captured w m + weight w (snd q) + slack r \<le> weight w (snd p)"
proof (induction r arbitrary: m p q)
  case (Lit x)
  have "weight w (take (length x) (snd p)) + weight w (drop (length x) (snd p)) = weight w (snd p)"
    by (metis append_take_drop_id weight_simps(3))
  moreover have "length x \<le> weight w (take (length x) (snd p))" if "py_lower (take (length x) (snd p)) = x"
    using length_le_weight [of "take (length x) (snd p)" w] arg_cong [OF that, of length] by (simp add: py_lower_def)
  ultimately show ?case
    using Lit by (auto split: if_splits)
next
  case (Many cls)
  then obtain x where "x \<in> set (runs cls (fst p) (snd p))" "m = []" "q = x"
    by auto
  with runs_suffix proper_suffix_weight show ?case by simp
next
  case (Seq a b)
  from Seq.prems(2) obtain m1 m2 q1
    where "m = m1 @ m2" "(m1, q1) \<in> set (rx_match a p)" "(m2, q) \<in> set (rx_match b q1)"
    by (rule Seq_match)
  with Seq.IH(1) [of m1 q1 p] Seq.IH(2) [of m2 q q1] Seq.prems(1) show ?case by simp
next
  case (Alt a b)
  from Alt.prems(2) consider "(m, q) \<in> set (rx_match a p)" | "(m, q) \<in> set (rx_match b p)"
    by auto
  then show ?case
  proof cases
    case 1
    with Alt.IH(1) [of m q p] Alt.prems(1) show ?thesis by simp
  next
    case 2
    with Alt.IH(2) [of m q p] Alt.prems(1) show ?thesis by simp
  qed
next
  case (Opt a)
  from Opt.prems(2) consider "(m, q) \<in> set (rx_match a p)" | "m = [] \<and> q = p"
    by auto
  then show ?case
  proof cases
    case 1
    with Opt.IH [of m q p] Opt.prems(1) show ?thesis by simp
  qed simp
next
  case (Rep r)
  from Rep.prems(2) have "(m, q) \<in> set (repeated (length (snd p)) (rx_match r) p)"
    by simp
  then have "captured w m + weight w (snd q) \<le> weight w (snd p)"
  proof (rule repeated_induct)
    fix m1 m2 p q1 q
    assume "(m1, q1) \<in> set (rx_match r p)" "captured w m2 + weight w (snd q) \<le> weight w (snd (q1 :: position))"
    with Rep.IH [of m1 q1 p] Rep.prems(1)
    show "captured w (m1 @ m2) + weight w (snd q) \<le> weight w (snd (p :: position))" by simp
  qed simp
  then show ?case by simp
next
  case (Cap i a)
  from Cap.prems(2) obtain m'
    where m: "m = (i, take (length (snd p) - length (snd q)) (snd p)) # m'" "(m', q) \<in> set (rx_match a p)"
    by (rule Cap_match)
  then have "m' = []"
    using Cap.prems(1) no_groups_match [of a m' q p] by simp
  moreover obtain t where "snd p = t @ snd q"
    using rest_is_suffix [OF m(2)] by (auto simp: suffix_def)
  ultimately show ?case
    using m by simp
next
  case (One cls)
  then show ?case
    by (cases "snd p") (auto split: if_splits)
next
  case (Look f)
  then show ?case by (auto split: if_splits)
qed

lemma match_at_weight:
  assumes "flat_groups r" "match_at r p = Some (m, q)"
  shows "captured w m + weight w (snd q) + slack r \<le> weight w (snd p)"
  using assms match_weight [of r m q p w] by (auto simp: match_at_def split: list.splits)

lemma findall_weight:
  assumes "flat_groups r"
  shows "(\<Sum>m\<leftarrow>findall r s. captured w m + slack r) \<le> weight w s"
proof -
  let ?total = "\<lambda>ps. \<Sum>m\<leftarrow>concat (map (case_sum (\<lambda>_. []) (\<lambda>m. [m])) ps). captured w m + slack r"
  have "pat = r \<Longrightarrow> ?total (scan pat b s) \<le> weight w s" for pat b
  proof (induction pat b s rule: scan.induct)
    case (2 pat b c cs)
    show ?case
    proof (cases "match_at pat (b, c # cs)")
      case None
      with 2 show ?thesis by simp
    next
      case (Some res)
      obtain m b' t where res: "res = (m, (b', t))"
        by (metis prod.exhaust)
      with Some "2.prems" match_at_weight [of r "(b, c # cs)" m "(b', t)" w] assms
      have taken: "captured w m + weight w t + slack r \<le> weight w (c # cs)"
        by simp
      show ?thesis
      proof (cases "length t < length (c # cs)")
        case True
        with Some res taken "2.IH"(2) [OF Some res [symmetric] refl True "2.prems"] "2.prems" show ?thesis
          by simp
      next
        case False
        with Some res "2.IH"(3) [OF Some res [symmetric] refl False "2.prems"] "2.prems" show ?thesis
          by simp
      qed
    qed
  qed simp
  then show ?thesis
    by (simp add: findall_def)
qed

end
