(* ===== verification/Critical_Commands.thy ===== *)
theory Critical_Commands
  imports Read_Operands Pattern_Measure
begin

text \<open>
  \<^verbatim>\<open>_is_critical\<close> of \<^verbatim>\<open>intaris/classifier.py\<close>: commands that are never approved, looked for at
  the positions where a shell would run them - the segments of a line, the argument of \<^verbatim>\<open>sh -c\<close>,
  command substitutions and the lines of a script, but not the text of a here-document.  The recursion
  ends: a weight that counts the marks of a substitution more than the placeholder that masks it falls
  from a command to each command in it.
\<close>

subsection \<open>Patterns\<close>

definition opt_letters :: rx where
  "opt_letters = Opt (Many is_letter)"

definition opt_class :: "(char \<Rightarrow> bool) \<Rightarrow> rx" where
  "opt_class cls = Opt (Many cls)"

definition recursive_force :: rx where
  "recursive_force =
     Alt (seqs [exact ''-'', opt_letters, exact ''r'', opt_letters, exact ''f''])
     (Alt (seqs [exact ''--recursive'', spaces, exact ''--force''])
          (seqs [exact ''-'', opt_letters, exact ''f'', opt_letters, exact ''r'']))"

definition root_only :: rx where
  "root_only = seqs [spaces, exact ''/'', opt_spaces, at_end]"

definition recursive_flag :: rx where
  "recursive_flag = Opt (seqs [exact ''-'', opt_letters, exact ''R'', opt_letters, spaces])"

definition piped_shell :: rx where
  "piped_shell = seqs [exact ''|'', opt_spaces, Opt (exact ''ba''), exact ''sh'', boundary]"

definition fork_bomb :: rx where
  "fork_bomb =
     seqs [exact '':()'', opt_spaces, exact ''{'', opt_spaces, exact '':|:&'', opt_spaces, exact ''}'', opt_spaces, exact '';'']"

definition critical_patterns :: "rx list" where
  "critical_patterns =
     [seqs [boundary, exact ''rm'', spaces, recursive_force, root_only],
      seqs [boundary, exact ''rm'', spaces, recursive_force, spaces, exact ''/'', Many is_lower, opt_spaces, at_end],
      seqs [boundary, exact ''rm'', spaces, exact ''-rf'', spaces, exact ''*'', opt_spaces, at_end],
      seqs [boundary, exact ''dd'', spaces, opt_class non_newline, exact ''if=/dev/'', exacts [''zero'', ''random'', ''urandom'']],
      seqs [boundary, exact ''mkfs'', boundary],
      seqs [boundary, exact ''fdisk'', boundary],
      seqs [boundary, exact ''parted'', boundary],
      seqs [boundary, exact ''chmod'', spaces, recursive_flag, exact ''777'', root_only],
      seqs [boundary, exact ''chown'', spaces, recursive_flag, Many (\<lambda>c. \<not> is_space c), root_only],
      fork_bomb,
      seqs [boundary, exact ''curl'', boundary, opt_class non_newline, piped_shell],
      seqs [boundary, exact ''wget'', boundary, opt_class non_newline, piped_shell],
      seqs [boundary, Alt (exacts [''shutdown'', ''reboot'', ''halt'', ''poweroff''])
                          (seqs [exact ''init'', spaces, One (one_of ''06'')]), boundary],
      seqs [boundary, exacts [''insmod'', ''rmmod'', ''modprobe''], boundary],
      seqs [boundary, exact ''iptables'', spaces, exact ''-F'', boundary]]"

subsection \<open>Here-documents\<close>

definition line_break :: "char \<Rightarrow> bool" where
  "line_break c \<longleftrightarrow> (of_char c :: nat) \<in> {10, 11, 12, 13, 28, 29, 30, 133}"

text \<open>\<^verbatim>\<open>splitlines(keepends=True)\<close>, and without the ends.\<close>

function lines_keep :: "string \<Rightarrow> string list" where
  "lines_keep s =
     (if s = [] then []
      else case dropWhile (\<lambda>c. \<not> line_break c) s of
             [] \<Rightarrow> [s]
           | c # cs \<Rightarrow>
               if c = CHR 0x0D \<and> head_in (\<lambda>d. d = CHR 0x0A) cs
               then (takeWhile (\<lambda>c. \<not> line_break c) s @ [c, CHR 0x0A]) # lines_keep (drop 1 cs)
               else (takeWhile (\<lambda>c. \<not> line_break c) s @ [c]) # lines_keep cs)"
  by pat_completeness auto

lemma dropWhile_Cons_shorter: "dropWhile f s = c # cs \<Longrightarrow> length cs < length s"
  by (metis Suc_le_eq length_Cons length_dropWhile_le)

termination lines_keep
  by (relation "measure length") (auto dest: dropWhile_Cons_shorter)

declare lines_keep.simps [simp del]

definition splitlines :: "string \<Rightarrow> string list" where
  "splitlines s = map (takeWhile (\<lambda>c. \<not> line_break c)) (lines_keep s)"

definition rstrip_chars :: "string \<Rightarrow> string \<Rightarrow> string" where
  "rstrip_chars chars s = rev (dropWhile (one_of chars) (rev s))"

definition heredoc_word :: "nat \<Rightarrow> rx" where
  "heredoc_word i = Cap i (Seq (One (\<lambda>c. is_letter c \<or> c = CHR ''_'')) (opt_class word_char))"

definition quoted_word :: "char \<Rightarrow> rx" where
  "quoted_word k = seqs [One (\<lambda>c. c = k), heredoc_word 3, One (\<lambda>c. c = k)]"

definition output_file :: rx where
  "output_file =
     Opt (seqs [spaces, exact ''>'', Opt (exact ''>''), opt_spaces,
                Many (\<lambda>c. \<not> one_of [CHR '';'', CHR ''&'', CHR ''|'', CHR ''$'', CHR 0x60] c \<and> \<not> is_space c)])"

definition inert_header :: rx where
  "inert_header =
     seqs [at_start, opt_spaces, exacts [''cat'', ''tee''], output_file, opt_spaces, exact ''<<'',
           Cap 1 (Opt (exact ''-'')), opt_spaces, Alt (quoted_word CHR 0x27) (quoted_word CHR 0x22),
           output_file, opt_spaces, at_end]"

definition heredoc_header :: rx where
  "heredoc_header =
     seqs [exact ''<<'', Opt (exact ''-''), opt_spaces,
       Alt (seqs [Cap 1 (One (\<lambda>c. c = CHR 0x27)), heredoc_word 2, One (\<lambda>c. c = CHR 0x27)])
       (Alt (seqs [Cap 1 (One (\<lambda>c. c = CHR 0x22)), heredoc_word 2, One (\<lambda>c. c = CHR 0x22)])
            (heredoc_word 2))]"

definition shell_name :: rx where
  "shell_name = seqs [boundary, exacts [''sh'', ''bash'', ''zsh'', ''dash''], boundary]"

definition simple_substitution :: rx where
  "simple_substitution =
     Alt (seqs [exact ''$('', Cap 1 (opt_class (\<lambda>c. c \<noteq> CHR ''('' \<and> c \<noteq> CHR '')'')), exact '')''])
         (seqs [exact [CHR 0x60], Cap 2 (opt_class (\<lambda>c. c \<noteq> CHR 0x60)), exact [CHR 0x60]])"

text \<open>The lines before the first with a property, and those after it.\<close>

definition cut_at :: "(string \<Rightarrow> bool) \<Rightarrow> string list \<Rightarrow> (string list \<times> string list) option" where
  "cut_at f ls =
     (case dropWhile (\<lambda>l. \<not> f l) ls of [] \<Rightarrow> None | _ # rest \<Rightarrow> Some (takeWhile (\<lambda>l. \<not> f l) ls, rest))"

definition inert_end :: "string \<Rightarrow> string list \<Rightarrow> string list option" where
  "inert_end l ls =
     (case fullmatch inert_header (rstrip_chars [CHR 0x0A] l) of
        None \<Rightarrow> None
      | Some m \<Rightarrow>
          map_option snd (cut_at (\<lambda>e.
            let marker = rstrip_chars [CHR 0x0D, CHR 0x0A] e in
            (if group_text m 1 \<noteq> [] then dropWhile (\<lambda>c. c = CHR 0x09) marker else marker) = group_text m 3) ls))"

definition line_substitutions :: "string \<Rightarrow> string list" where
  "line_substitutions l =
     map (\<lambda>m. (if group_text m 1 \<noteq> [] then group_text m 1 else group_text m 2) @ [CHR 0x0A])
       (findall simple_substitution l)"

text \<open>The lines that stand for another here-document, and what follows it.\<close>

definition heredoc_lines :: "string \<Rightarrow> string list \<Rightarrow> (string list \<times> string list) option" where
  "heredoc_lines l ls =
     (case re_search heredoc_header l of
        None \<Rightarrow> None
      | Some m \<Rightarrow>
          if found shell_name l then None
          else map_option (\<lambda>(body, rest).
                 (l # (if group_text m 1 = [] then concat (map line_substitutions body) else []), rest))
               (cut_at (\<lambda>e. py_strip e = group_text m 2) ls))"

lemma cut_at_parts: "cut_at f ls = Some (body, rest) \<Longrightarrow> \<exists>e. ls = body @ e # rest"
  by (auto simp: cut_at_def split: list.splits) (metis takeWhile_dropWhile_id)

lemma cut_at_length: "cut_at f ls = Some (body, rest) \<Longrightarrow> length rest < length ls"
  by (auto dest!: cut_at_parts)

lemma inert_end_length: "inert_end l ls = Some rest \<Longrightarrow> length rest < length ls"
  by (auto simp: inert_end_def dest: cut_at_length split: option.splits)

lemma heredoc_lines_length: "heredoc_lines l ls = Some (out, rest) \<Longrightarrow> length rest < length ls"
  by (auto simp: heredoc_lines_def dest: cut_at_length split: option.splits if_splits)

function command_lines :: "string list \<Rightarrow> string list" where
  "command_lines [] = []"
| "command_lines (l # ls) =
     (case inert_end l ls of
        Some rest \<Rightarrow> [CHR ''c'', CHR ''a'', CHR ''t'', CHR 0x0A] # command_lines rest
      | None \<Rightarrow>
          (case heredoc_lines l ls of
             Some (out, rest) \<Rightarrow> out @ command_lines rest
           | None \<Rightarrow> l # command_lines ls))"
  by pat_completeness auto
termination
  by (relation "measure length") (auto dest: inert_end_length heredoc_lines_length)

definition critical_command_view :: "string \<Rightarrow> string" where
  "critical_command_view command = concat (command_lines (lines_keep command))"

subsection \<open>One level of the search\<close>

text \<open>A segment without \<^verbatim>\<open>sudo\<close> and its options.\<close>

definition unprivileged :: "string list \<Rightarrow> string list" where
  "unprivileged tokens =
     (if tokens \<noteq> [] \<and> hd tokens = ''sudo'' then dropWhile (\<lambda>t. starts_with t ''-'') (tl tokens) else tokens)"

definition segment_command :: "string list \<Rightarrow> string list" where
  "segment_command segment = unprivileged (unwrap_read_command segment)"

definition shell_argument :: "string list \<Rightarrow> string list" where
  "shell_argument tokens =
     (if tokens \<noteq> [] \<and> basename (hd tokens) \<in> {''sh'', ''bash'', ''zsh'', ''dash''}
      then (case dropWhile (\<lambda>t. t \<noteq> ''-c'') tokens of _ # x # _ \<Rightarrow> [x] | _ \<Rightarrow> []) else [])"

definition segment_critical :: "string \<Rightarrow> string list \<Rightarrow> bool" where
  "segment_critical stripped tokens \<longleftrightarrow>
     tokens \<noteq> []
     \<and> (list_ex (\<lambda>pat. matches_prefix pat (join_with '' '' (basename (hd tokens) # tl tokens))) critical_patterns
        \<or> basename (hd tokens) \<in> {''curl'', ''wget''} \<and> found piped_shell stripped)"

text \<open>Whether a command is critical by itself, and the commands in it that are searched in turn.\<close>

definition critical_step :: "string \<Rightarrow> bool \<times> string list" where
  "critical_step command0 =
     (let (command, nested) = substitutions (critical_command_view command0);
          stripped = strip_quoted_strings command;
          segments = simple_shell_segments command
      in if starts_with (dropWhile is_space stripped) '':()'' then (found fork_bomb stripped, [])
         else if segments = [] then
           (False, (if CHR 0x0A \<in> set command then filter (\<lambda>l. py_strip l \<noteq> []) (splitlines command) else []) @ nested)
         else (list_ex (\<lambda>seg. segment_critical stripped (segment_command seg)) segments,
               concat (map (\<lambda>seg. shell_argument (segment_command seg)) segments) @ nested))"

subsection \<open>The weight falls\<close>

definition heavy :: "string \<Rightarrow> nat" where
  "heavy = weight (\<lambda>c. if c = CHR ''$'' \<or> c = CHR 0x60 then 12 else 0)"

lemma heavy_simps [simp]:
  "heavy [] = 0" "heavy (c # cs) = (if c = CHR ''$'' \<or> c = CHR 0x60 then 13 else 1) + heavy cs"
  "heavy (s @ t) = heavy s + heavy t"
  by (simp_all add: heavy_def)

lemma heavy_pos: "s \<noteq> [] \<Longrightarrow> 0 < heavy s"
  by (cases s) auto

lemma heavy_member: "t \<in> set ts \<Longrightarrow> heavy t \<le> heavy (concat ts)"
  by (induction ts) auto

lemma heavy_takeWhile: "heavy (takeWhile f s) \<le> heavy s"
  by (induction s) auto

lemma heavy_dropWhile: "heavy (dropWhile f s) \<le> heavy s"
  by (induction s) auto

lemma heavy_drop: "heavy (drop n s) \<le> heavy s"
  by (simp add: heavy_def weight_drop)

lemma heavy_take: "heavy (take n s) \<le> heavy s"
  by (simp add: heavy_def weight_take)

lemma heavy_rstrip: "heavy (rstrip_chars chars s) \<le> heavy s"
proof -
  have "heavy (rev u) = heavy u" for u
    by (induction u) auto
  then show ?thesis
    using heavy_dropWhile [of "one_of chars" "rev s"] by (simp add: rstrip_chars_def)
qed

lemma lines_keep_concat: "concat (lines_keep s) = s"
proof (induction s rule: lines_keep.induct)
  case (1 s)
  show ?case
  proof (cases "s = []")
    case False
    show ?thesis
    proof (cases "dropWhile (\<lambda>c. \<not> line_break c) s")
      case Nil
      have "lines_keep s = [s]"
        unfolding lines_keep.simps [of s] Nil using False by simp
      then show ?thesis by simp
    next
      case (Cons c cs)
      have s: "s = takeWhile (\<lambda>c. \<not> line_break c) s @ c # cs"
        using takeWhile_dropWhile_id [of "\<lambda>c. \<not> line_break c" s] Cons by simp
      show ?thesis
      proof (cases "c = CHR 0x0D \<and> head_in (\<lambda>d. d = CHR 0x0A) cs")
        case True
        then have "cs = CHR 0x0A # drop 1 cs"
          by (cases cs) (auto simp: head_in_def)
        with True s 1(1) [OF False Cons] Cons False show ?thesis
          by (simp add: lines_keep.simps [of s])
      next
        case other: False
        have "lines_keep s = (takeWhile (\<lambda>c. \<not> line_break c) s @ [c]) # lines_keep cs"
          unfolding lines_keep.simps [of s] Cons using other False by simp
        with s 1(2) [OF False Cons other] show ?thesis
          by simp
      qed
    qed
  qed (simp add: lines_keep.simps)
qed

text \<open>The header of an inert document weighs more than the line that replaces it.\<close>

lemma inert_header_heavy:
  assumes "fullmatch inert_header s = Some m"
  shows "4 \<le> heavy s"
proof -
  from assms obtain q where "(m, q) \<in> set (rx_match inert_header ([], s))"
    by (auto simp: fullmatch_def find_Some_iff) (metis nth_mem)
  moreover have "flat_groups inert_header" "7 \<le> slack inert_header"
    by code_simp+
  ultimately show ?thesis
    using match_weight [of inert_header m q "([], s)" "\<lambda>c. if c = CHR ''$'' \<or> c = CHR 0x60 then 12 else 0"]
    by (simp add: heavy_def)
qed

lemma inert_end_heavy: "inert_end l ls = Some rest \<Longrightarrow> 4 \<le> heavy l \<and> heavy (concat rest) \<le> heavy (concat ls)"
  using heavy_rstrip [of "[CHR 0x0A]" l]
  by (auto simp: inert_end_def dest!: inert_header_heavy cut_at_parts split: option.splits)

lemma line_substitutions_heavy: "heavy (concat (line_substitutions l)) \<le> heavy l"
proof -
  let ?w = "\<lambda>c. if c = CHR ''$'' \<or> c = CHR 0x60 then 12 else (0 :: nat)"
  have group: "heavy (group_text m i) \<le> captured ?w m" for m i
    by (induction m) (auto simp: group_text_def grp_def heavy_def split: option.splits)
  have "heavy (concat (map (\<lambda>m. (if group_text m 1 \<noteq> [] then group_text m 1 else group_text m 2) @ [CHR 0x0A]) ms))
      \<le> (\<Sum>m\<leftarrow>ms. captured ?w m + slack simple_substitution)" for ms
  proof (induction ms)
    case (Cons m ms)
    have "1 \<le> slack simple_substitution"
      by code_simp
    with Cons group [of m 1] group [of m 2] show ?case
      by simp
  qed simp
  moreover have "flat_groups simple_substitution"
    by code_simp
  ultimately show ?thesis
    using findall_weight [of simple_substitution ?w l] unfolding line_substitutions_def heavy_def
    by (meson le_trans)
qed

lemma body_heavy: "heavy (concat (concat (map line_substitutions body))) \<le> heavy (concat body)"
  by (induction body) (use line_substitutions_heavy in \<open>auto intro: add_mono\<close>)

lemma heredoc_lines_heavy:
  "heredoc_lines l ls = Some (out, rest) \<Longrightarrow> heavy (concat out) + heavy (concat rest) \<le> heavy l + heavy (concat ls)"
  using body_heavy
  by (auto simp: heredoc_lines_def dest!: cut_at_parts split: option.splits if_splits)
    (metis add_leD1 add_mono le_add1 le_trans nat_add_left_cancel_le)+

lemma command_lines_heavy: "heavy (concat (command_lines ls)) \<le> heavy (concat ls)"
proof (induction ls rule: command_lines.induct)
  case (2 l ls)
  show ?case
  proof (cases "inert_end l ls")
    case (Some rest)
    with 2(3) [OF Some] inert_end_heavy [OF Some] show ?thesis by simp
  next
    case None
    note inert = None
    show ?thesis
    proof (cases "heredoc_lines l ls")
      case None
      with inert 2(1) [OF inert None] show ?thesis by simp
    next
      case (Some res)
      obtain out rest where res: "res = (out, rest)"
        by (metis prod.exhaust)
      with Some inert 2(2) [OF inert Some res [symmetric]] heredoc_lines_heavy [of l ls out rest] show ?thesis
        by simp
    qed
  qed
qed simp

lemma view_heavy: "heavy (critical_command_view s) \<le> heavy s"
  using command_lines_heavy [of "lines_keep s"] by (simp add: critical_command_view_def lines_keep_concat)

lemma substitutions_heavy:
  "substitutions_from quote s = (out, nested) \<Longrightarrow> heavy out \<le> heavy s \<and> (\<forall>n \<in> set nested. heavy n < heavy s)"
proof (induction quote s arbitrary: out nested rule: substitutions_from.induct)
  case (2 quote c cs)
  show ?case
  proof (cases "c = backslash \<and> quote \<noteq> Some CHR 0x27 \<and> cs \<noteq> []")
    case True
    obtain o1 n1 where r: "substitutions_from quote (tl cs) = (o1, n1)"
      by (metis prod.exhaust)
    from True have "cs = hd cs # tl cs" by simp
    then have "heavy cs = heavy [hd cs] + heavy (tl cs)"
      by (metis append_Cons append_Nil heavy_simps(3))
    with True r 2(1) [OF True r] "2.prems" show ?thesis
      by (auto simp: backslash_def less_SucI trans_less_add2)
  next
    case False
    note unescaped = False
    show ?thesis
    proof (cases "quote_char c")
      case True
      obtain o1 n1 where r: "substitutions_from (toggle_quote quote c) cs = (o1, n1)"
        by (metis prod.exhaust)
      from "2.prems" have "out = c # o1" "nested = n1"
        unfolding substitutions_from.simps(2) if_not_P [OF unescaped] if_P [OF True] r by simp_all
      with 2(2) [OF unescaped True r] show ?thesis by (auto simp: trans_less_add2)
    next
      case False
      note unquoted = False
      show ?thesis
      proof (cases "closed_substitution quote c cs")
        case None
        obtain o1 n1 where r: "substitutions_from quote cs = (o1, n1)"
          by (metis prod.exhaust)
        from "2.prems" have "out = c # o1" "nested = n1"
          unfolding substitutions_from.simps(2) if_not_P [OF unescaped] if_not_P [OF unquoted] None r by simp_all
        with 2(3) [OF unescaped unquoted None r] show ?thesis by (auto simp: trans_less_add2)
      next
        case (Some res)
        obtain n t where res: "res = (n, t)" by (metis prod.exhaust)
        obtain o1 n1 where r: "substitutions_from quote t = (o1, n1)"
          by (metis prod.exhaust)
        have parts: "out = ''SUBSTITUTION'' @ o1" "nested = n # n1"
          using "2.prems"
          unfolding substitutions_from.simps(2) if_not_P [OF unescaped] if_not_P [OF unquoted] Some res by (simp_all add: r)
        have mark: "c = CHR ''$'' \<or> c = CHR 0x60" "heavy n + heavy t < heavy cs"
          using Some res heavy_drop [of 1 cs]
            substitution_end_weight [of True None 1 "drop 1 cs" n t "\<lambda>c. if c = CHR ''$'' \<or> c = CHR 0x60 then 12 else 0"]
            substitution_end_weight [of False None 1 cs n t "\<lambda>c. if c = CHR ''$'' \<or> c = CHR 0x60 then 12 else 0"]
          by (auto simp: closed_substitution_def opens_substitution_def heavy_def split: if_splits)
        then have "heavy (c # cs) = 13 + heavy cs"
          by auto
        with parts mark(2) 2(4) [OF unescaped unquoted Some res [symmetric] r] show ?thesis
          by fastforce
      qed
    qed
  qed
qed simp

lemma cut_segments_heavy:
  "seg \<in> set (cut_segments marks current ts) \<Longrightarrow> heavy (concat seg) \<le> heavy (concat current) + heavy (concat ts)"
proof (induction marks current ts rule: cut_segments.induct)
  case (2 marks current t ts)
  then show ?case
    by (cases "all_in marks t") auto
qed simp

lemma segments_heavy:
  assumes "seg \<in> set (simple_shell_segments command)"
  shows "heavy (concat seg) \<le> heavy command"
proof -
  from assms obtain ts where ts: "lex_tokens simple_lexer command = Inr ts" "seg \<in> set (cut_segments ''|;&'' [] ts)"
    by (cases "lex_tokens simple_lexer command") (auto simp: simple_shell_segments_def split: if_splits)
  then have "heavy (concat seg) \<le> heavy (concat ts)"
    using cut_segments_heavy [of seg _ "[]" ts] by simp
  also have "\<dots> \<le> heavy command"
    unfolding heavy_def using ts(1) by (rule lex_tokens_weight)
  finally show ?thesis .
qed

lemma split_heavy: "heavy (concat (split_env_split_string s)) \<le> heavy s"
  using lex_tokens_weight [of plain_lexer s]
  by (auto simp: split_env_split_string_def shlex_split_def heavy_def split: sum.splits)

lemma after_first_heavy: "heavy (after_first c s) \<le> heavy s"
  unfolding after_first_def using heavy_drop heavy_dropWhile le_trans by blast

lemma attached_split_heavy: "attached_split token = Some s \<Longrightarrow> heavy s \<le> heavy token"
  using after_first_heavy [of "CHR ''=''" token] heavy_drop [of 2 token]
  by (auto simp: attached_split_def split: if_splits)

lemma concat_drop_heavy: "heavy (concat (drop n ts)) \<le> heavy (concat ts)"
  by (metis append_take_drop_id concat_append heavy_simps(3) le_add2)

lemma env_remaining_heavy: "heavy (concat (env_remaining ts)) \<le> heavy (concat ts)"
proof (induction ts rule: env_remaining.induct)
  case (2 token ts)
  show ?case
  proof (cases "token = ''--''")
    case False
    note dash = False
    show ?thesis
    proof (cases "token \<in> {''-S'', ''--split-string''}")
      case True
      show ?thesis
      proof (cases ts)
        case (Cons split_value us)
        with True dash 2(1) [OF dash True Cons] split_heavy [of split_value] show ?thesis
          by auto
      qed (use True dash in auto)
    next
      case False
      note plain = False
      show ?thesis
      proof (cases "attached_split token")
        case (Some s)
        with dash plain 2(4) [OF dash plain Some] split_heavy [of s] attached_split_heavy [OF Some] show ?thesis
          by auto
      next
        case None
        with dash plain 2(2) [OF dash plain None] 2(3) [OF dash plain None] concat_drop_heavy [of 1 ts] show ?thesis
          by auto
      qed
    qed
  qed simp
qed simp

lemma unwrap_heavy: "heavy (concat (unwrap_read_command ts)) \<le> heavy (concat ts)"
proof (induction ts rule: unwrap_read_command.induct)
  case (2 wrapper ts)
  then show ?case
    using env_remaining_heavy [of ts] by auto
qed simp

lemma unprivileged_heavy: "heavy (concat (unprivileged ts)) \<le> heavy (concat ts)"
proof -
  have drop: "heavy (concat (dropWhile f us)) \<le> heavy (concat us)" for f us
    by (induction us) auto
  show ?thesis
    using drop [of "\<lambda>t. starts_with t ''-''" "tl ts"] by (cases ts) (auto simp: unprivileged_def)
qed

lemma shell_argument_heavy:
  assumes "x \<in> set (shell_argument tokens)"
  shows "heavy x < heavy (concat tokens)"
proof -
  have shell: "tokens \<noteq> [] \<and> basename (hd tokens) \<in> {''sh'', ''bash'', ''zsh'', ''dash''}"
  proof (rule ccontr)
    assume "\<not> (tokens \<noteq> [] \<and> basename (hd tokens) \<in> {''sh'', ''bash'', ''zsh'', ''dash''})"
    then have "shell_argument tokens = []"
      unfolding shell_argument_def by (rule if_not_P)
    with assms show False by simp
  qed
  then obtain t ts where t: "tokens = t # ts"
    by (cases tokens) auto
  have "basename [] = []"
    by code_simp
  moreover have "basename ''-c'' = ''-c''"
    by code_simp
  ultimately have names: "t \<noteq> []" "t \<noteq> ''-c''"
    using shell t by auto
  have "shell_argument tokens = (case dropWhile (\<lambda>t. t \<noteq> ''-c'') tokens of _ # x # _ \<Rightarrow> [x] | _ \<Rightarrow> [])"
    unfolding shell_argument_def using shell by (rule if_P)
  then have "x \<in> set (case dropWhile (\<lambda>t. t \<noteq> ''-c'') ts of _ # x # _ \<Rightarrow> [x] | _ \<Rightarrow> [])"
    using assms t names(2) by simp
  then obtain y ys where "dropWhile (\<lambda>t. t \<noteq> ''-c'') ts = y # x # ys"
    by (cases "dropWhile (\<lambda>t. t \<noteq> ''-c'') ts"; cases "tl (dropWhile (\<lambda>t. t \<noteq> ''-c'') ts)") auto
  then have "x \<in> set ts"
    by (metis list.set_intros(1) list.set_intros(2) set_dropWhileD)
  with t heavy_pos [OF names(1)] heavy_member [of x ts] show ?thesis
    by simp
qed

lemma piece_heavy:
  assumes "k \<in> set ks" "c \<in> set (concat ks)" "prefix l k" "c \<notin> set l"
  shows "heavy l < heavy (concat ks)"
  using assms
proof (induction ks)
  case (Cons a ks)
  obtain x where x: "k = l @ x"
    using Cons.prems(3) by (auto simp: prefix_def)
  show ?case
  proof (cases "k = a")
    case True
    with Cons.prems(2,4) x have "c \<in> set x \<or> c \<in> set (concat ks)"
      by auto
    then have "x \<noteq> [] \<or> concat ks \<noteq> []"
      by (metis empty_iff empty_set)
    then have "0 < heavy x + heavy (concat ks)"
      using heavy_pos by (metis add_gr_0)
    moreover have "heavy a = heavy l + heavy x"
      using True x heavy_simps(3) by metis
    ultimately show ?thesis
      by simp
  next
    case False
    with Cons.prems(1) have k: "k \<in> set ks"
      by simp
    show ?thesis
    proof (cases "c \<in> set a")
      case True
      then have "a \<noteq> []"
        by auto
      then have "0 < heavy a"
        by (rule heavy_pos)
      moreover have "heavy l \<le> heavy k"
        unfolding x heavy_simps(3) by simp
      ultimately show ?thesis
        using heavy_member [OF k] by simp
    next
      case False
      with Cons.IH [OF k _ Cons.prems(3,4)] Cons.prems(2) show ?thesis by simp
    qed
  qed
qed simp

lemma splitlines_heavy:
  assumes "CHR 0x0A \<in> set s" "l \<in> set (splitlines s)"
  shows "heavy l < heavy s"
proof -
  from assms(2) obtain k where k: "k \<in> set (lines_keep s)" "l = takeWhile (\<lambda>c. \<not> line_break c) k"
    by (auto simp: splitlines_def)
  have "line_break CHR 0x0A"
    by code_simp
  then have "CHR 0x0A \<notin> set l"
    using k(2) by (auto dest: set_takeWhileD)
  moreover have "prefix l k"
    using k(2) by (simp add: takeWhile_is_prefix)
  ultimately show ?thesis
    using piece_heavy [OF k(1)] assms(1) by (simp add: lines_keep_concat)
qed

lemma critical_step_falls:
  assumes "x \<in> set (snd (critical_step command0))"
  shows "heavy x < heavy command0"
proof -
  obtain command nested where parts: "substitutions (critical_command_view command0) = (command, nested)"
    by (metis prod.exhaust)
  have view: "heavy command \<le> heavy command0" "\<forall>n \<in> set nested. heavy n < heavy command0"
    using substitutions_heavy [OF parts [unfolded substitutions_def]] view_heavy [of command0] by auto
  from assms consider "x \<in> set nested"
    | "CHR 0x0A \<in> set command" "x \<in> set (splitlines command)"
    | seg where "seg \<in> set (simple_shell_segments command)" "x \<in> set (shell_argument (segment_command seg))"
    unfolding critical_step_def parts by (auto simp: Let_def split: if_splits)
  then show ?thesis
  proof cases
    case 1
    with view show ?thesis by blast
  next
    case 2
    with view splitlines_heavy show ?thesis by fastforce
  next
    case 3
    have "heavy (concat (segment_command seg)) \<le> heavy (concat seg)"
      unfolding segment_command_def using unprivileged_heavy unwrap_heavy le_trans by blast
    with shell_argument_heavy [OF 3(2)] segments_heavy [OF 3(1)] view(1) show ?thesis
      by linarith
  qed
qed

function is_critical :: "string \<Rightarrow> bool" where
  "is_critical command \<longleftrightarrow>
     fst (critical_step command) \<or> (\<exists>inner \<in> set (snd (critical_step command)). is_critical inner)"
  by pat_completeness auto
termination
  by (relation "measure heavy") (auto simp: critical_step_falls)

declare is_critical.simps [simp del]

lemma critical_samples:
  "is_critical ''ls; sudo -n rm -rf /''" "\<not> is_critical ''git commit -m 'shutdown the server' ''"
  "is_critical ''bash -c 'echo $(mkfs.ext4 /dev/sda)' ''" "\<not> is_critical ''cat mkfs.txt''"
  by code_simp+

end
