(* ===== verification/Classifier.thy ===== *)
theory Classifier
  imports Read_Only_Calls Critical_Commands Decisions
begin

text \<open>
  \<^verbatim>\<open>classify\<close> of \<^verbatim>\<open>intaris/classifier.py\<close>: the paths a call names, the session's path
  policy, and the priority of denials, preferences, allowances, critical patterns and the read-only
  allowlist.
\<close>

datatype classification = READ | WRITE | CRITICAL | ESCALATE

fun classification_name :: "classification \<Rightarrow> string" where
  "classification_name READ = ''read''"
| "classification_name WRITE = ''write''"
| "classification_name CRITICAL = ''critical''"
| "classification_name ESCALATE = ''escalate''"

subsection \<open>The paths of a call\<close>

definition path_arg_keys :: "string list" where
  "path_arg_keys =
     [''filePath'', ''file_path'', ''path'', ''directory'', ''dir'', ''folder'', ''filename'', ''canonicalPath'',
      ''canonical_path'', ''realPath'', ''real_path'', ''resolvedPath'', ''resolved_path'']"

definition nonempty_str :: "pyval \<Rightarrow> string list" where
  "nonempty_str v = (case v of VStr s \<Rightarrow> if s \<noteq> [] then [s] else [] | _ \<Rightarrow> [])"

definition extract_paths :: "pydict \<Rightarrow> string list" where
  "extract_paths args = concat (map (\<lambda>key. nonempty_str (dget args key)) path_arg_keys)"

text \<open>\<^verbatim>\<open>^\<close> and \<^verbatim>\<open>$\<close> under \<^verbatim>\<open>re.MULTILINE\<close>.\<close>

definition line_start :: rx where
  "line_start = Look (\<lambda>b r. b = [] \<or> head_in (\<lambda>c. c = CHR 0x0A) b)"

definition line_end :: rx where
  "line_end = Look (\<lambda>b r. r = [] \<or> head_in (\<lambda>c. c = CHR 0x0A) r)"

definition header_paths :: "rx \<Rightarrow> string \<Rightarrow> string list" where
  "header_paths header patch_text =
     map (\<lambda>m. group_text m 1) (findall (seqs [line_start, header, Cap 1 (Many non_newline), line_end]) patch_text)"

definition apply_patch_path :: rx where
  "apply_patch_path = seqs [exact ''*** '', exacts [''Add'', ''Update'', ''Delete''], exact '' File: '']"

definition apply_patch_move :: rx where
  "apply_patch_move = exact ''*** Move to: ''"

definition unified_diff_path :: rx where
  "unified_diff_path = seqs [exacts [''---'', ''+++''], exact '' '']"

definition normalize_unified_diff_path :: "string \<Rightarrow> string option" where
  "normalize_unified_diff_path path_header =
     (let path = py_strip (before_first CHR 0x09 (py_strip path_header)) in
      if path = [] \<or> path = ''/dev/null'' then None
      else if starts_with path ''a/'' \<or> starts_with path ''b/'' then Some (drop 2 path)
      else Some path)"

definition add_new :: "string option \<Rightarrow> string list \<Rightarrow> string list" where
  "add_new p paths = (case p of Some path \<Rightarrow> if path \<noteq> [] \<and> path \<notin> set paths then paths @ [path] else paths | None \<Rightarrow> paths)"

definition extract_apply_patch_paths :: "string \<Rightarrow> string list" where
  "extract_apply_patch_paths patch_text =
     foldl (\<lambda>paths header. add_new (normalize_unified_diff_path header) paths)
       (nonempty_args (map py_strip (header_paths apply_patch_path patch_text))
        @ nonempty_args (map py_strip (header_paths apply_patch_move patch_text)))
       (header_paths unified_diff_path patch_text)"

definition path_char :: "char \<Rightarrow> bool" where
  "path_char c \<longleftrightarrow> is_letter c \<or> is_digit c \<or> one_of ''_./-'' c"

definition bash_absolute_path :: rx where
  "bash_absolute_path =
     Seq (not_after (\<lambda>c. is_letter c \<or> is_digit c \<or> one_of ''_:'' c)) (Cap 1 (Seq (exact ''/'') (Many path_char)))"

definition extract_bash_paths :: "string \<Rightarrow> string list" where
  "extract_bash_paths command =
     map (\<lambda>m. group_text m 1) (findall bash_absolute_path (strip_quoted_strings command))"

definition segment_operands :: "string list \<Rightarrow> string list" where
  "segment_operands segment =
     (let tokens = unwrap_read_command segment in
      if tokens \<noteq> [] \<and> hd tokens \<in> set bash_file_operand_commands then file_operands_for_command tokens else [])"

definition bash_raw_paths :: "string \<Rightarrow> string list" where
  "bash_raw_paths command =
     (if command = [] then []
      else extract_bash_paths command @ extract_sensitive_bash_paths command
           @ concat (map segment_operands (simple_shell_segments command)))"

definition raw_tool_paths :: "string \<Rightarrow> pydict \<Rightarrow> string list" where
  "raw_tool_paths tool args =
     extract_paths args
     @ (if tool = ''apply_patch'' then concat (map extract_apply_patch_paths (nonempty_str (dget args ''patchText''))) else [])
     @ (if tool = ''bash'' then bash_raw_paths (extract_bash_command args) else [])"

subsection \<open>Operands of Git\<close>

definition strip_quotes :: "string \<Rightarrow> string" where
  "strip_quotes s = rev (dropWhile quote_char (rev (dropWhile quote_char s)))"

definition git_global_value_options :: "string list" where
  "git_global_value_options =
     [''-C'', ''-c'', ''--git-dir'', ''--work-tree'', ''--namespace'', ''--config-env'', ''--super-prefix'']"

definition git_grep_value_options :: "string list" where
  "git_grep_value_options =
     [''-f'', ''-A'', ''-B'', ''-C'', ''-m'', ''--after-context'', ''--before-context'', ''--context'', ''--max-count'',
      ''--max-depth'', ''--threads'']"

text \<open>The position of the subcommand, and the positions of the search patterns behind \<^verbatim>\<open>grep\<close>.\<close>

fun subcommand_index :: "string list \<Rightarrow> nat" where
  "subcommand_index [] = 0"
| "subcommand_index [a] = (if starts_with a ''-'' then (if a \<in> set git_global_value_options then 2 else 1) else 0)"
| "subcommand_index (a # b # ts) =
     (if \<not> starts_with a ''-'' then 0
      else if a \<in> set git_global_value_options then 2 + subcommand_index ts
      else 1 + subcommand_index (b # ts))"

definition joined_pattern :: "string \<Rightarrow> bool" where
  "joined_pattern a \<longleftrightarrow> starts_with a ''--regexp='' \<or> starts_with a ''-e'' \<and> length a > 2"

definition pattern_file :: "string \<Rightarrow> bool" where
  "pattern_file a \<longleftrightarrow> starts_with a ''-f'' \<and> length a > 2"

function grep_patterns :: "bool \<Rightarrow> nat \<Rightarrow> string list \<Rightarrow> nat list" where
  "grep_patterns explicit i [] = []"
| "grep_patterns explicit i (a # ts) =
     (if a = ''--'' then []
      else if a \<in> {''-e'', ''--regexp''} then
        (if ts \<noteq> [] then [i + 1] else []) @ grep_patterns True (i + 2) (drop 1 ts)
      else if joined_pattern a then i # grep_patterns True (i + 1) ts
      else if a \<in> set git_grep_value_options then grep_patterns (explicit \<or> a = ''-f'') (i + 2) (drop 1 ts)
      else if starts_with a ''-'' then grep_patterns (explicit \<or> pattern_file a) (i + 1) ts
      else if \<not> explicit then [i] else [])"
  by pat_completeness auto
termination
  by (relation "measure (\<lambda>(explicit, i, ts). length ts)") auto

definition git_grep_pattern_indexes :: "string list \<Rightarrow> nat list" where
  "git_grep_pattern_indexes arguments =
     (let clean = map strip_quotes arguments; index = subcommand_index clean in
      case drop index clean of
        [] \<Rightarrow> []
      | sub # ts \<Rightarrow> if sub = ''grep'' then grep_patterns False (index + 1) ts else [])"

text \<open>
  The directory the global options change to, the directories on the way, and how many tokens they take:
  \<^verbatim>\<open>-C\<close> options apply one after the other.
\<close>

fun git_directory :: "string \<Rightarrow> string list \<Rightarrow> string \<times> string list \<times> nat" where
  "git_directory directory [] = (directory, [], 0)"
| "git_directory directory [a] = (directory, [], if a = ''--no-pager'' then 1 else 0)"
| "git_directory directory (a # b # ts) =
     (if a = ''--no-pager'' then
        (case git_directory directory (b # ts) of (d, ps, n) \<Rightarrow> (d, ps, n + 1))
      else if a = ''-C'' then
        (let d0 = (if b \<noteq> [] then resolve_path b directory else directory) in
         case git_directory d0 ts of (d, ps, n) \<Rightarrow> (d, (if b \<noteq> [] then [d0] else []) @ ps, n + 2))
      else (directory, [], 0))"

definition revision_chars :: "string \<Rightarrow> bool" where
  "revision_chars s \<longleftrightarrow> s \<noteq> [] \<and> list_all (\<lambda>c. is_letter c \<or> is_digit c \<or> one_of ''_./@^~-'' c) s"

definition operand_targets :: "bool \<Rightarrow> string \<Rightarrow> string list" where
  "operand_targets positional operand =
     operand # (if \<not> positional \<and> CHR '':'' \<in> set operand
                   \<and> revision_chars (before_first CHR '':'' operand) \<and> after_first CHR '':'' operand \<noteq> []
                then [after_first CHR '':'' operand] else [])"

text \<open>\<open>position\<close> counts from the command name; the patterns are positions behind it.\<close>

fun git_operands :: "string \<Rightarrow> nat list \<Rightarrow> bool \<Rightarrow> nat \<Rightarrow> string list \<Rightarrow> string list" where
  "git_operands directory patterns positional position [] = []"
| "git_operands directory patterns positional position (operand # ts) =
     (if operand = ''--'' \<and> \<not> positional then git_operands directory patterns True (position + 1) ts
      else if \<not> positional \<and> (starts_with operand ''-'' \<or> position - 1 \<in> set patterns)
      then git_operands directory patterns positional (position + 1) ts
      else map (\<lambda>target. resolve_path target directory) (operand_targets positional operand)
           @ git_operands directory patterns positional (position + 1) ts)"

definition git_segment_paths :: "string \<Rightarrow> string list \<Rightarrow> string list" where
  "git_segment_paths working_directory segment =
     (if system_command_name (hd segment) \<noteq> ''git'' then []
      else case git_directory working_directory (tl segment) of
        (directory, ps, n) \<Rightarrow>
          ps @ (if verified_line (py_strip (shlex_join segment))
                then git_operands directory (git_grep_pattern_indexes (tl segment)) False (n + 2) (drop (n + 2) segment)
                else []))"

definition resolve_tool_paths :: "string \<Rightarrow> pydict \<Rightarrow> string \<Rightarrow> string list" where
  "resolve_tool_paths tool args working_directory =
     map (\<lambda>p. resolve_path p working_directory) (raw_tool_paths tool args)
     @ (if tool = ''bash''
        then concat (map (git_segment_paths working_directory) (read_segments False (extract_bash_command args)))
        else [])"

definition reads_secret_location :: "string \<Rightarrow> pydict \<Rightarrow> string \<Rightarrow> bool" where
  "reads_secret_location tool args working_directory =
     (let candidates = resolve_tool_paths tool args working_directory
            @ (if py_lower tool = ''glob'' then nonempty_str (dget args ''pattern'') else [])
      in if list_ex is_sensitive_path candidates then True
         else if tool \<noteq> ''bash'' then False
         else list_ex segment_discloses_secrets (simple_shell_segments (extract_bash_command args)))"

subsection \<open>Session policy and preferences\<close>

text \<open>Patterns are the strings of a policy list; another value matches nothing.\<close>

definition policy_matches :: "pydict \<Rightarrow> string \<Rightarrow> string \<Rightarrow> bool" where
  "policy_matches policy key text =
     list_ex (\<lambda>pat. fnmatchcase text pat) (str_members (dget policy key))"

definition check_session_policy_deny :: "string \<Rightarrow> pydict \<Rightarrow> pydict \<Rightarrow> classification option" where
  "check_session_policy_deny tool args policy =
     (if py_in tool (dget policy ''deny_tools'') then Some CRITICAL
      else if tool = ''bash'' \<and> policy_matches policy ''deny_commands'' (extract_bash_command args) then Some CRITICAL
      else None)"

definition check_session_policy_allow :: "string \<Rightarrow> pydict \<Rightarrow> pydict \<Rightarrow> classification option" where
  "check_session_policy_allow tool args policy =
     (if py_in tool (dget policy ''allow_tools'') then Some READ
      else if tool = ''bash'' \<and> policy_matches policy ''allow_commands'' (extract_bash_command args) then Some READ
      else None)"

definition check_deny_paths :: "string list \<Rightarrow> pydict \<Rightarrow> bool" where
  "check_deny_paths resolved_paths policy = list_ex (policy_matches policy ''deny_paths'') resolved_paths"

definition check_allow_paths :: "string list \<Rightarrow> pydict \<Rightarrow> bool" where
  "check_allow_paths resolved_paths policy =
     (truthy (dget policy ''allow_paths'') \<and> list_all (policy_matches policy ''allow_paths'') resolved_paths)"

definition check_path_policy :: "string list \<Rightarrow> string \<Rightarrow> pydict \<Rightarrow> classification option" where
  "check_path_policy resolved_paths working_directory policy =
     (if resolved_paths = [] then None
      else if check_deny_paths resolved_paths policy then Some CRITICAL
      else if list_ex is_sensitive_path resolved_paths then Some WRITE
      else if check_allow_paths resolved_paths policy then None
      else if list_ex (\<lambda>rp. \<not> is_path_within rp working_directory) resolved_paths then Some WRITE
      else None)"

definition get_tool_preference :: "string \<Rightarrow> (string \<times> string) list option \<Rightarrow> string option" where
  "get_tool_preference tool preferences =
     (case preferences of
        None \<Rightarrow> None
      | Some prefs \<Rightarrow>
          (case map_of prefs tool of
             Some p \<Rightarrow> Some p
           | None \<Rightarrow> if CHR '':'' \<in> set tool then map_of prefs (after_first CHR '':'' tool) else None))"

subsection \<open>The classification\<close>

text \<open>\<^verbatim>\<open>None\<close> and the empty dictionary or string count as absent.\<close>

definition static_classification :: "string \<Rightarrow> pydict \<Rightarrow> pydict \<Rightarrow> string \<Rightarrow> classification" where
  "static_classification tool args policy working_directory =
     (if tool = ''bash'' \<and> extract_bash_command args \<noteq> [] \<and> is_critical (extract_bash_command args) then CRITICAL
      else if is_read_only tool args then
        (case (if working_directory \<noteq> []
               then check_path_policy (resolve_tool_paths tool args working_directory) working_directory policy else None) of
           Some c \<Rightarrow> c
         | None \<Rightarrow> if reads_secret_location tool args working_directory then WRITE else READ)
      else WRITE)"

definition classify ::
    "string \<Rightarrow> pydict \<Rightarrow> pydict \<Rightarrow> (string \<times> string) list option \<Rightarrow> string \<Rightarrow> classification" where
  "classify tool args policy preferences working_directory =
     (let pref = get_tool_preference tool preferences in
      if policy \<noteq> [] \<and> check_session_policy_deny tool args policy \<noteq> None then CRITICAL
      else if working_directory \<noteq> [] \<and> policy \<noteq> []
              \<and> check_deny_paths (resolve_tool_paths tool args working_directory) policy then CRITICAL
      else if pref = Some ''deny'' then CRITICAL
      else if pref = Some ''escalate'' then ESCALATE
      else if policy \<noteq> [] \<and> check_session_policy_allow tool args policy \<noteq> None then READ
      else if pref = Some ''auto-approve'' then READ
      else static_classification tool args policy working_directory)"

lemma path_policy_not_read: "check_path_policy ps wd policy \<noteq> Some READ"
  by (simp add: check_path_policy_def)

end
