(* ===== verification/Classifier_Properties.thy ===== *)
theory Classifier_Properties
  imports Classifier
begin

text \<open>
  What the static classification promises: configured denials prevail, a read approved without an
  evaluation stays in the project and off the secrets, a verified line carries none of the ways to
  write the documentation names, and the search for critical commands ends.
\<close>

subsection \<open>Denials prevail\<close>

text \<open>A denial of the session's policy, for the tool, the command or a path, or of the user's preferences.\<close>

definition configured_denial :: "string \<Rightarrow> pydict \<Rightarrow> pydict \<Rightarrow> (string \<times> string) list option \<Rightarrow> string \<Rightarrow> bool" where
  "configured_denial tool args policy preferences working_directory \<longleftrightarrow>
     py_in tool (dget policy ''deny_tools'')
     \<or> tool = ''bash'' \<and> policy_matches policy ''deny_commands'' (extract_bash_command args)
     \<or> working_directory \<noteq> []
       \<and> list_ex (policy_matches policy ''deny_paths'') (resolve_tool_paths tool args working_directory)
     \<or> get_tool_preference tool preferences = Some ''deny''"

lemma empty_policy [simp]: "dget [] k = VNone"
  by (simp add: dget_def)

lemma no_pattern [simp]: "\<not> policy_matches [] key text"
  by (simp add: policy_matches_def)

text \<open>C8. A configured denial prevails: when the session's policy denies the tool or the command, or, in a
  session with a working directory, one of the paths the call resolves to, or the user's preference denies
  the tool, the call is critical - whatever is allowed or preferred besides - and the decision made without
  an evaluation denies it.  Without a working directory no path is resolved or compared with a denial
  (\<open>no_directory_no_path_check\<close>).\<close>

theorem denied_call_is_critical:
  assumes "configured_denial tool args policy preferences working_directory"
  shows "classify tool args policy preferences working_directory = CRITICAL
     \<and> map_sum id d_outcome (make_fast_decision
          (classification_name (classify tool args policy preferences working_directory)) why) = Inr Deny"
proof -
  have "classify tool args policy preferences working_directory = CRITICAL"
    using assms
    by (cases "policy = []")
      (auto simp: configured_denial_def classify_def check_session_policy_deny_def check_deny_paths_def Let_def list_ex_iff)
  then show ?thesis
    by (simp add: make_fast_decision_def)
qed

theorem denied_call_is_critical_witness:
  "classify ''bash'' [(''command'', VStr ''cat ../../../etc/hosts'')]
     [(''deny_paths'', VStrs [''/etc/*'']), (''allow_tools'', VStrs [''bash''])] (Some [(''bash'', ''auto-approve'')]) ''/home/u/p'' = CRITICAL"
  by (rule denied_call_is_critical [THEN conjunct1]) code_simp

subsection \<open>Reads stay in the project\<close>

lemma two_slashes_stay: "initial_slashes s = 2 \<Longrightarrow> starts_with (normpath s) ''//''"
  by (cases "s = []") (simp_all add: normpath_def numeral_2_eq_2 starts_with_def initial_slashes_def)

lemma normpath_two_slashes:
  assumes "isabs path" "\<not> rooted path"
  shows "starts_with (normpath (normpath path)) ''//''"
proof -
  have two: "initial_slashes path = 2" "path \<noteq> []"
    using assms by (auto simp: rooted_def isabs_def initial_slashes_def starts_with_def split: if_splits)
  have plain: "list_all plain_name (follow [] path)"
    by (simp add: follow_plain)
  have norm: "normpath path = slash # absolute_path (follow [] path)"
    using two assms(1) by (simp add: normpath_def absolute_path_def norm_parts_follow numeral_2_eq_2)
  have "initial_slashes (normpath path) = 2"
    using join_no_slash [OF plain] unfolding norm
    by (simp add: initial_slashes_def starts_with_def absolute_path_def)
  then show ?thesis
    by (rule two_slashes_stay)
qed

lemma absolute_one_slash:
  "list_all plain_name ws \<Longrightarrow> ws \<noteq> [] \<Longrightarrow> \<not> starts_with (absolute_path ws @ t) ''//''"
  by (cases ws rule: remdups_adj.cases)
    (auto simp: absolute_path_def starts_with_def plain_name_def neq_Nil_conv)

lemma within_below:
  assumes "rooted wd" "follow [] wd \<noteq> []" "is_path_within (resolve_path path wd) wd"
  shows "prefix (follow [] wd) (destination path wd)"
proof (cases "isabs path \<longrightarrow> rooted path")
  case True
  with assms within_iff_below [OF assms(1) True assms(1,2)] show ?thesis
    by blast
next
  case False
  then have path: "isabs path" "\<not> rooted path"
    by auto
  then have "starts_with (normpath (resolve_path path wd)) ''//''"
    by (simp add: resolve_path_def normpath_two_slashes)
  moreover have "normpath (resolve_path path wd) = absolute_path (follow [] wd)
      \<or> starts_with (normpath (resolve_path path wd)) (absolute_path (follow [] wd) @ ''/'')"
    using assms(3) by (simp add: is_path_within_def Let_def normpath_rooted [OF assms(1)])
  then obtain t where "normpath (resolve_path path wd) = absolute_path (follow [] wd) @ t"
    by (metis append_Nil2 append_assoc starts_with_iff)
  moreover have "\<not> starts_with (absolute_path (follow [] wd) @ t) ''//''"
    using assms(2) by (intro absolute_one_slash) (simp_all add: follow_plain)
  ultimately show ?thesis
    by simp
qed

lemma static_read_checks:
  assumes "static_classification tool args policy wd = READ" "wd \<noteq> []"
  shows "is_read_only tool args \<and> \<not> reads_secret_location tool args wd
     \<and> check_path_policy (resolve_tool_paths tool args wd) wd policy = None"
  using assms path_policy_not_read by (auto simp: static_classification_def split: if_splits option.splits)

lemma path_policy_passes:
  assumes "check_path_policy ps wd policy = None" "p \<in> set ps"
  shows "\<not> policy_matches policy ''deny_paths'' p \<and> \<not> is_sensitive_path p
     \<and> (policy_matches policy ''allow_paths'' p \<or> is_path_within p wd)"
  using assms
  by (auto simp: check_path_policy_def check_deny_paths_def check_allow_paths_def list_ex_iff list_all_iff split: if_splits)

text \<open>
  The paths a call names, said without the extraction: the value of a path argument
  (\<^verbatim>\<open>docs/evaluation-pipeline.md\<close>, path extraction), and in a command line the words of a command
  that only reads its operands, up to its first option.
\<close>

definition path_keys :: "string list" where
  "path_keys =
     [''path'', ''file_path'', ''filePath'', ''filename'', ''directory'', ''dir'', ''folder'', ''real_path'', ''realPath'',
      ''resolved_path'', ''resolvedPath'', ''canonical_path'', ''canonicalPath'']"

definition plain_readers :: "string list" where
  "plain_readers =
     [''cat'', ''cut'', ''diff'', ''du'', ''file'', ''head'', ''less'', ''ls'', ''more'', ''sort'', ''stat'', ''tail'', ''tree'',
      ''uniq'', ''wc'']"

definition leading_operand :: "string list \<Rightarrow> string \<Rightarrow> bool" where
  "leading_operand segment path \<longleftrightarrow>
     segment \<noteq> [] \<and> hd segment \<in> set plain_readers
     \<and> path \<in> set (takeWhile (\<lambda>w. \<not> starts_with w ''-'') (tl segment))"

definition names_path :: "string \<Rightarrow> pydict \<Rightarrow> string \<Rightarrow> bool" where
  "names_path tool args path \<longleftrightarrow>
     (path \<noteq> [] \<and> list_ex (\<lambda>key. dget args key = VStr path) path_keys)
     \<or> (tool = ''bash'' \<and> list_ex (\<lambda>segment. leading_operand segment path)
                            (simple_shell_segments (extract_bash_command args)))"

lemma leading_operands_extracted:
  "path \<in> set (takeWhile (\<lambda>w. \<not> starts_with w ''-'') ws) \<Longrightarrow> path \<in> set (generic_file_operands False ws)"
proof (induction ws)
  case (Cons w ws)
  then show ?case by (cases "w = ''--''") (auto simp: starts_with_def split: if_splits)
qed simp

lemma plain_reader_facts:
  assumes "c \<in> set plain_readers"
  shows "c \<notin> set bash_command_wrappers" "c \<in> set bash_file_operand_commands" "c \<notin> {''grep'', ''rg'', ''sed'', ''awk''}"
proof -
  have "list_all (\<lambda>c. c \<notin> set bash_command_wrappers \<and> c \<in> set bash_file_operand_commands
      \<and> c \<notin> {''grep'', ''rg'', ''sed'', ''awk''}) plain_readers"
    by code_simp
  with assms show "c \<notin> set bash_command_wrappers" "c \<in> set bash_file_operand_commands" "c \<notin> {''grep'', ''rg'', ''sed'', ''awk''}"
    by (simp_all add: list_all_iff)
qed

lemma leading_operand_extracted:
  assumes "leading_operand segment path"
  shows "path \<in> set (segment_operands segment)"
proof -
  from assms obtain c ws where seg: "segment = c # ws" "c \<in> set plain_readers"
      and path: "path \<in> set (takeWhile (\<lambda>w. \<not> starts_with w ''-'') ws)"
    by (cases segment) (auto simp: leading_operand_def)
  note c = plain_reader_facts [OF seg(2)]
  have "unwrap_read_command segment = c # ws"
    using c(1) by (simp add: seg(1))
  moreover have "file_operands_for_command (c # ws) = generic_file_operands False ws"
    using c(3) by (simp add: file_operands_for_command_def)
  ultimately show ?thesis
    using c(2) leading_operands_extracted [OF path] by (simp add: segment_operands_def)
qed

lemma named_path_extracted:
  assumes "names_path tool args path"
  shows "path \<in> set (raw_tool_paths tool args)"
proof -
  from assms consider key where "path \<noteq> []" "key \<in> set path_keys" "dget args key = VStr path"
    | segment where "tool = ''bash''" "segment \<in> set (simple_shell_segments (extract_bash_command args))"
        "leading_operand segment path"
    by (auto simp: names_path_def list_ex_iff)
  then show ?thesis
  proof cases
    case (1 key)
    have "set path_keys = set path_arg_keys" by (auto simp: path_keys_def path_arg_keys_def)
    with 1 have "path \<in> set (extract_paths args)"
      by (auto simp: extract_paths_def nonempty_str_def intro!: bexI [of _ key])
    then show ?thesis by (simp add: raw_tool_paths_def)
  next
    case (2 segment)
    have "simple_shell_segments [] = []" by code_simp
    with 2(2) have "extract_bash_command args \<noteq> []" by auto
    with 2 leading_operand_extracted have "path \<in> set (bash_raw_paths (extract_bash_command args))"
      by (auto simp: bash_raw_paths_def)
    with 2(1) show ?thesis by (simp add: raw_tool_paths_def)
  qed
qed

text \<open>C9. Without an allowance, only contained reads are static.  Let the working directory be rooted and not
  the root.  When a call is classified as a read, and neither the session's policy nor a preference
  allowed it, it is on the read-only lists; no path the classifier extracts from it, operands of Git
  included, is denied, and none discloses a secret; and each lies in the project unless the policy
  exempts it.  For the paths named by a path argument or as leading operands of a reading command, the
  last is a walk: following the path from the working directory, dots, parents and repeated slashes
  included, ends inside the project.\<close>

theorem static_read_is_contained:
  assumes "classify tool args policy preferences wd = READ"
    and "check_session_policy_allow tool args policy = None" "get_tool_preference tool preferences \<noteq> Some ''auto-approve''"
    and "rooted wd" "follow [] wd \<noteq> []"
  shows "is_read_only tool args \<and> \<not> reads_secret_location tool args wd
     \<and> (\<forall>p \<in> set (resolve_tool_paths tool args wd).
          \<not> policy_matches policy ''deny_paths'' p \<and> \<not> is_sensitive_path p
          \<and> (policy_matches policy ''allow_paths'' p \<or> is_path_within p wd))
     \<and> (\<forall>path. names_path tool args path \<longrightarrow>
          \<not> policy_matches policy ''deny_paths'' (resolve_path path wd)
          \<and> \<not> is_sensitive_path (resolve_path path wd)
          \<and> (policy_matches policy ''allow_paths'' (resolve_path path wd) \<or> prefix (follow [] wd) (destination path wd)))"
proof -
  have wd: "wd \<noteq> []"
    using assms(4) by (auto simp: rooted_iff starts_with_def)
  have "static_classification tool args policy wd = READ"
    using assms(1-3) by (auto simp: classify_def Let_def split: if_splits)
  note checks = static_read_checks [OF this wd]
  have each: "\<not> policy_matches policy ''deny_paths'' p \<and> \<not> is_sensitive_path p
      \<and> (policy_matches policy ''allow_paths'' p \<or> is_path_within p wd)"
    if "p \<in> set (resolve_tool_paths tool args wd)" for p
    using path_policy_passes [OF checks [THEN conjunct2, THEN conjunct2] that] .
  moreover have "\<not> policy_matches policy ''deny_paths'' (resolve_path path wd) \<and> \<not> is_sensitive_path (resolve_path path wd)
      \<and> (policy_matches policy ''allow_paths'' (resolve_path path wd) \<or> prefix (follow [] wd) (destination path wd))"
    if "names_path tool args path" for path
    using each [of "resolve_path path wd"] named_path_extracted [OF that] within_below [OF assms(4,5)]
    by (auto simp: resolve_tool_paths_def)
  ultimately show ?thesis
    using checks by blast
qed

definition reading_line :: pydict where
  "reading_line = [(''command'', VStr ''cat src/a.py /home/u/p/../p//b.py | wc'')]"

theorem static_read_is_contained_witness:
  "prefix [''home'', ''u'', ''p''] (destination ''/home/u/p/../p//b.py'' ''/home/u/p'')"
proof -
  have facts: "classify ''bash'' reading_line [] None ''/home/u/p'' = READ"
    "check_session_policy_allow ''bash'' reading_line [] = None" "get_tool_preference ''bash'' None \<noteq> Some ''auto-approve''"
    "rooted ''/home/u/p''" "follow [] ''/home/u/p'' = [''home'', ''u'', ''p'']"
    "names_path ''bash'' reading_line ''/home/u/p/../p//b.py''"
    by code_simp+
  from static_read_is_contained [OF facts(1-4)] facts(5,6) show ?thesis by auto
qed

text \<open>What the extraction misses: the operands of \<^verbatim>\<open>find\<close> when they have no slash or are quoted, and a
  word behind an option that takes no value with this command.\<close>

lemma unextracted_operands_are_read:
  "classify ''bash'' [(''command'', VStr ''find ..'')] [] None ''/home/u/p'' = READ"
  "classify ''bash'' [(''command'', VStr ''find \"/etc\"'')] [] None ''/home/u/p'' = READ"
  "classify ''bash'' [(''command'', VStr ''ls -L ..'')] [] None ''/home/u/p'' = READ"
  by code_simp+

text \<open>Without a working directory no path is checked.\<close>

lemma no_directory_no_path_check:
  "classify ''bash'' [(''command'', VStr ''cat /etc/hosts'')] [(''deny_paths'', VStrs [''/etc/*''])] None [] = READ"
  by code_simp

text \<open>C32. Containment is decided as if the path were walked: for a project directory that is not the root, and
  absolute paths that begin with one slash, a resolved path counts as inside exactly when following its
  steps - empty ones and dots staying, two dots going up - from the working directory, or from the root,
  leads below the directory.  The root itself contains nothing (\<open>root_contains_nothing\<close>).\<close>

theorem containment_is_walking:
  assumes "rooted wd" "isabs path \<longrightarrow> rooted path" "rooted dir" "follow [] dir \<noteq> []"
  shows "is_path_within (resolve_path path wd) dir \<longleftrightarrow> prefix (follow [] dir) (destination path wd)"
  using assms by (rule within_iff_below)

theorem containment_is_walking_witness:
  "\<not> is_path_within (resolve_path ''../../u2/x'' ''/home/u/p'') ''/home/u''"
proof -
  have "\<not> prefix (follow [] ''/home/u'') (destination ''../../u2/x'' ''/home/u/p'')"
    by code_simp
  moreover have "is_path_within (resolve_path ''../../u2/x'' ''/home/u/p'') ''/home/u'' \<longleftrightarrow>
      prefix (follow [] ''/home/u'') (destination ''../../u2/x'' ''/home/u/p'')"
    by (rule containment_is_walking) code_simp+
  ultimately show ?thesis by simp
qed

subsection \<open>Verified lines\<close>











text \<open>What is checked is what was written.  The static allowlist joins each segment with quotes and
  splits the result again, and gets back exactly the tokens of the segment, whatever characters they
  hold; so a line is static exactly when it has segments and the tokens of each are on the list, with no
  redirection.\<close>

theorem joined_segments_survive:
  "shlex_split (shlex_join tokens) = Inr tokens
   \<and> (is_read_only_bash args \<longleftrightarrow>
        read_segments True (extract_bash_command args) \<noteq> []
        \<and> list_all (\<lambda>seg. \<not> has_shell_redirect (shlex_join seg) \<and> tokens_read_only seg)
             (read_segments True (extract_bash_command args)))"
  by (simp add: shlex_join_splits is_read_only_bash_def Let_def joined_check)

subsection \<open>Critical commands\<close>

text \<open>The commands a command runs, at any depth.\<close>

definition runs_inner :: "(string \<times> string) set" where
  "runs_inner = {(command, inner). inner \<in> set (snd (critical_step command))}"

lemma critical_reachable:
  assumes "(command, inner) \<in> runs_inner\<^sup>*" "fst (critical_step inner)"
  shows "is_critical command"
  using assms(1)
proof (induction rule: converse_rtrancl_induct)
  case base
  with assms(2) show ?case by (simp add: is_critical.simps [of inner])
next
  case (step c d)
  then show ?case
    by (subst is_critical.simps) (auto simp: runs_inner_def)
qed

lemma critical_has_reason: "is_critical command \<Longrightarrow> \<exists>inner. (command, inner) \<in> runs_inner\<^sup>* \<and> fst (critical_step inner)"
proof (induction command rule: is_critical.induct)
  case (1 command)
  then consider "fst (critical_step command)"
    | inner where "(command, inner) \<in> runs_inner" "is_critical inner"
    by (auto simp: runs_inner_def is_critical.simps [of command])
  then show ?case
    using 1(1) by cases (auto simp: runs_inner_def intro: converse_rtrancl_into_rtrancl)
qed

text \<open>C31. The search for critical commands ends, and finds exactly those reachable: the nesting of
  substitutions, shell arguments and script lines is well founded, and a command is critical when one of
  the commands it runs at any depth matches a critical pattern at the position where it is run.\<close>

theorem critical_search_complete:
  "wf (runs_inner\<inverse>)
   \<and> (is_critical command \<longleftrightarrow> (\<exists>inner. (command, inner) \<in> runs_inner\<^sup>* \<and> fst (critical_step inner)))"
proof
  have "runs_inner\<inverse> \<subseteq> measure heavy"
    by (auto simp: runs_inner_def critical_step_falls)
  then show "wf (runs_inner\<inverse>)"
    by (rule wf_subset [OF wf_measure])
  show "is_critical command \<longleftrightarrow> (\<exists>inner. (command, inner) \<in> runs_inner\<^sup>* \<and> fst (critical_step inner))"
    using critical_reachable critical_has_reason by blast
qed

subsection \<open>Where the code departs from its description\<close>

text \<open>
  The allowlist has \<^verbatim>\<open>env\<close> and \<^verbatim>\<open>find\<close> without regard to what they run: a removal behind them
  is a static read.
\<close>

lemma wrapped_removal_is_read:
  "classify ''bash'' [(''command'', VStr ''env rm -rf build'')] [] None ''/home/u/p'' = READ"
  "classify ''bash'' [(''command'', VStr ''find . -delete'')] [] None ''/home/u/p'' = READ"
  by code_simp+

text \<open>Two leading slashes name the same file and survive the normal form, so a denied path is not recognized.\<close>

lemma double_slash_not_denied:
  "classify ''bash'' [(''command'', VStr ''cat /etc/hosts'')] [(''deny_paths'', VStrs [''/etc/*''])] None ''/home/u/p'' = CRITICAL"
  "classify ''bash'' [(''command'', VStr ''cat //etc/hosts'')] [(''deny_paths'', VStrs [''/etc/*''])] None ''/home/u/p'' = WRITE"
  by code_simp+

text \<open>A relative path with a dot is taken for an absolute one, and nothing but itself is within the root.\<close>

lemma dotted_path_is_outside:
  "classify ''bash'' [(''command'', VStr ''cat src/a.py'')] [] None ''/home/u/p'' = READ"
  "classify ''bash'' [(''command'', VStr ''cat ./src/a.py'')] [] None ''/home/u/p'' = WRITE"
  "\<not> is_path_within ''/etc'' ''/''"
  by code_simp+

end
