(* ===== verification/Effect_Scope.thy ===== *)
theory Effect_Scope
  imports Read_Only_Calls Critical_Commands
begin

text \<open>
  \<^verbatim>\<open>intaris/effect_scope.py\<close>: which calls have an external or irreversible effect, by the paths they
  name, the words of the tool and the commands a shell line runs.  Upper-case comparisons with the
  methods of HTTP are made on lower case; the host of a URL is only compared with the local ones.
\<close>

subsection \<open>curl\<close>

definition curl_body_long :: "string list" where
  "curl_body_long =
     [''--data'', ''--data-raw'', ''--data-binary'', ''--data-urlencode'', ''--data-ascii'', ''--json'', ''--form'',
      ''--form-string'', ''--upload-file'']"

definition curl_value_long :: "string list" where
  "curl_value_long =
     [''--data'', ''--data-raw'', ''--data-binary'', ''--data-urlencode'', ''--data-ascii'', ''--json'', ''--header'',
      ''--output'', ''--request'', ''--user'', ''--user-agent'', ''--referer'', ''--cookie'', ''--cookie-jar'',
      ''--write-out'', ''--max-time'', ''--connect-timeout'', ''--retry'', ''--form'', ''--upload-file'', ''--cacert'',
      ''--cert'', ''--key'', ''--range'', ''--retry-delay'', ''--retry-max-time'', ''--limit-rate'', ''--max-filesize'',
      ''--speed-limit'', ''--speed-time'']"

definition curl_reroute_long :: "string list" where
  "curl_reroute_long = [''--proxy'', ''--preproxy'', ''--socks'', ''--resolve'', ''--connect-to'', ''--config'']"

definition curl_value_short :: string where
  "curl_value_short = ''dHoXuAebcwmFTErCDY''"

definition mutating_method :: "string \<Rightarrow> bool" where
  "mutating_method m \<longleftrightarrow> py_lower m \<in> {''post'', ''put'', ''patch'', ''delete''}"

definition curl_method_write :: rx where
  "curl_method_write =
     seqs [Alt (Seq (Lit ''-x'') opt_spaces) (Seq (Lit ''--request'') (Many (\<lambda>c. is_space c \<or> c = CHR ''=''))),
           alts [''post'', ''put'', ''patch'', ''delete''], boundary]"

definition curl_body_text :: rx where
  "curl_body_text =
     seqs [Alt at_start (One is_space),
       Alt (Seq (exact ''--data'') (Opt (Seq (exact ''-'') (Many is_lower))))
       (Alt (exacts [''--json'', ''--form'', ''--upload-file''])
            (seqs [exact ''-'', opt_class is_letter, One (one_of ''dFT'')])),
       Alt (before (\<lambda>c. is_space c \<or> c = CHR ''='')) at_end]"

definition curl_writes_text :: "string \<Rightarrow> bool" where
  "curl_writes_text text \<longleftrightarrow> found curl_method_write text \<or> found curl_body_text text"

datatype curl_expect = ExpectMethod | ExpectValue

text \<open>The letters of a bundle of short options: body, get and method seen, and what the next token is.\<close>

fun curl_short :: "bool \<Rightarrow> bool \<Rightarrow> bool \<Rightarrow> string \<Rightarrow> bool \<times> bool \<times> bool \<times> curl_expect option" where
  "curl_short body get meth [] = (body, get, meth, None)"
| "curl_short body get meth (l # rest) =
     (if l = CHR ''G'' then curl_short body True meth rest
      else if l = CHR ''X'' then
        (if rest \<noteq> [] then (body, get, meth \<or> mutating_method rest, None) else (body, get, meth, Some ExpectMethod))
      else let body' = (body \<or> one_of ''dFT'' l) in
        if one_of curl_value_short l then (body', get, meth, if rest = [] then Some ExpectValue else None)
        else curl_short body' get meth rest)"

fun curl_scan :: "bool \<Rightarrow> bool \<Rightarrow> bool \<Rightarrow> curl_expect option \<Rightarrow> string list \<Rightarrow> bool" where
  "curl_scan body get meth expect [] = (meth \<or> body \<and> \<not> get)"
| "curl_scan body get meth (Some e) (token # ts) =
     curl_scan body get (meth \<or> e = ExpectMethod \<and> mutating_method token) None ts"
| "curl_scan body get meth None (token # ts) =
     (if token = ''--'' then meth \<or> body \<and> \<not> get
      else if token \<in> {''--next'', ''-:''} then
        (if meth \<or> body \<and> \<not> get then True else curl_scan False False False None ts)
      else if starts_with token ''--'' then
        (let name = before_first CHR ''='' token; eq = (CHR ''='' \<in> set token); v = after_first CHR ''='' token in
         if name = ''--get'' then curl_scan body True meth None ts
         else if name = ''--no-get'' then curl_scan body False meth None ts
         else if name = ''--request'' then
           (if eq then curl_scan body get (meth \<or> mutating_method v) None ts else curl_scan body get meth (Some ExpectMethod) ts)
         else if name \<in> set curl_body_long then curl_scan True get meth (if eq then None else Some ExpectValue) ts
         else if name \<in> set curl_value_long \<and> \<not> eq then curl_scan body get meth (Some ExpectValue) ts
         else curl_scan body get meth None ts)
      else if starts_with token ''-'' \<and> length token > 1 then
        (case curl_short body get meth (tl token) of (b, g, m, e) \<Rightarrow> curl_scan b g m e ts)
      else curl_scan body get meth None ts)"

definition curl_writes :: "string list \<Rightarrow> bool" where
  "curl_writes tokens = curl_scan False False False None (drop 1 tokens)"

definition local_host :: "string \<Rightarrow> bool" where
  "local_host host0 \<longleftrightarrow>
     (let host = rstrip_chars ''.'' (py_lower host0) in
      host \<in> {''localhost'', ''127.0.0.1'', ''::1''} \<or> list_ex (ends_with host) [''.svc'', ''.svc.cluster.local''])"

text \<open>
  Whether \<^verbatim>\<open>urlsplit(url).hostname\<close> is local: an address in brackets is one only as
  \<^verbatim>\<open>::1\<close>, and what \<^verbatim>\<open>urlsplit\<close> rejects is not local.
\<close>

definition scheme_rest :: "string \<Rightarrow> string" where
  "scheme_rest url =
     (let scheme = before_first CHR '':'' url in
      if CHR '':'' \<in> set url \<and> scheme \<noteq> [] \<and> is_letter (hd scheme)
         \<and> list_all (\<lambda>c. is_letter c \<or> is_digit c \<or> one_of ''+-.'' c) scheme
      then after_first CHR '':'' url else url)"

definition url_local :: "string \<Rightarrow> bool" where
  "url_local url0 =
     (let url = filter (\<lambda>c. \<not> one_of [CHR 0x09, CHR 0x0A, CHR 0x0D] c)
                  (dropWhile (\<lambda>c. (of_char c :: nat) \<le> 32) url0);
          rest = scheme_rest url;
          netloc = (if starts_with rest ''//'' then takeWhile (\<lambda>c. \<not> one_of ''/?#'' c) (drop 2 rest) else []);
          hostinfo = last (split_on CHR ''@'' netloc)
      in if CHR ''['' \<in> set netloc \<or> CHR '']'' \<in> set netloc
         then starts_with hostinfo ''[::1]'' \<and> (drop 5 hostinfo = [] \<or> starts_with (drop 5 hostinfo) '':'')
              \<and> \<not> list_ex (one_of ''[]'') (take (length netloc - length hostinfo) netloc)
         else local_host (before_first CHR '':'' hostinfo))"

fun reroutes :: "string \<Rightarrow> bool \<times> bool" where
  "reroutes [] = (False, False)"
| "reroutes (l # rest) =
     (if one_of ''xK'' l then (True, False)
      else if one_of curl_value_short l then (False, rest = [])
      else reroutes rest)"

text \<open>The request targets; \<open>None\<close> when an option redirects the request.\<close>

fun curl_targets :: "bool \<Rightarrow> string list \<Rightarrow> string list option" where
  "curl_targets skip_value [] = Some []"
| "curl_targets skip_value (token # ts) =
     (if skip_value then curl_targets False ts
      else if starts_with token ''--'' then
        (let name = before_first CHR ''='' token; v = after_first CHR ''='' token in
         if list_ex (starts_with name) curl_reroute_long then None
         else map_option (\<lambda>us. (if name = ''--url'' \<and> v \<noteq> [] then [v] else []) @ us)
                (curl_targets (CHR ''='' \<notin> set token \<and> name \<in> set curl_value_long) ts))
      else if starts_with token ''-'' \<and> length token > 1 then
        (case reroutes (tl token) of (away, skip) \<Rightarrow> if away then None else curl_targets skip ts)
      else map_option (\<lambda>us. token # us) (curl_targets False ts))"

definition curl_local_only :: "string list \<Rightarrow> bool" where
  "curl_local_only tokens =
     (case curl_targets False (drop 1 tokens) of
        None \<Rightarrow> False
      | Some targets \<Rightarrow>
          targets \<noteq> [] \<and> list_all (\<lambda>t. url_local (if sublist ''://'' t then t else ''http://'' @ t)) targets)"

subsection \<open>Command lines\<close>

definition external_head :: rx where
  "external_head =
     seqs [Alt (exact ''git push'')
          (Alt (Seq (exact ''kubectl '') (exacts [''apply'', ''delete'', ''rollout'']))
          (Alt (Seq (exact ''helm '') (exacts [''upgrade'', ''install'']))
          (Alt (Seq (exact ''terraform '') (exacts [''apply'', ''destroy'']))
               (exacts [''rm'', ''rmdir'', ''passwd''])))),
       Alt (exact '' '') at_end]"

definition wrapper_value_options :: "(string \<times> string list) list" where
  "wrapper_value_options =
     [(''sudo'', [''-u'', ''-g'', ''-C'', ''-D'', ''-h'', ''-p'', ''-U'', ''-r'', ''-t'', ''-T'']),
      (''xargs'', [''-I'', ''-n'', ''-P'', ''-L'', ''-s'', ''-d'', ''-E'', ''-a'']),
      (''timeout'', [''-s'', ''-k'']), (''nice'', [''-n'']), (''nohup'', [])]"

definition numeral_char :: "char \<Rightarrow> bool" where
  "numeral_char c \<longleftrightarrow> is_digit c \<or> (of_char c :: nat) \<in> {178, 179, 185}"

function skip_wrapper_options :: "string list \<Rightarrow> string list \<Rightarrow> string list" where
  "skip_wrapper_options valued [] = []"
| "skip_wrapper_options valued (t # ts) =
     (if starts_with t ''-'' \<or> head_in numeral_char t
      then skip_wrapper_options valued (if t \<in> set valued then drop 1 ts else ts)
      else t # ts)"
  by pat_completeness auto
termination
  by (relation "measure (\<lambda>(valued, ts). length ts)") auto

lemma skip_wrapper_options_length: "length (skip_wrapper_options valued ts) \<le> length ts"
proof (induction valued ts rule: skip_wrapper_options.induct)
  case (2 valued t ts)
  then show ?case by (cases "t \<in> set valued") auto
qed simp

function unwrap_executed :: "string list \<Rightarrow> string list" where
  "unwrap_executed [] = []"
| "unwrap_executed (t # ts) =
     (case map_of wrapper_value_options t of
        None \<Rightarrow> t # ts
      | Some valued \<Rightarrow> unwrap_executed (skip_wrapper_options valued ts))"
  by pat_completeness auto
termination
  by (relation "measure length") (auto simp: skip_wrapper_options_length le_imp_less_Suc)

definition without_group :: "string list \<Rightarrow> string list" where
  "without_group segment =
     (case dropWhile (\<lambda>t. t \<in> {''('', ''{'', ''!''}) segment of
        [] \<Rightarrow> []
      | t # ts \<Rightarrow> (if starts_with t ''('' \<and> length t > 1 then dropWhile (\<lambda>c. c = CHR ''('') t else t) # ts)"

definition command_head :: "string list \<Rightarrow> string" where
  "command_head tokens =
     join_with '' '' (map (rstrip_chars '')'') (last (split_on slash (hd tokens)) # take 1 (tl tokens)))"

definition segment_external :: "string list \<Rightarrow> bool" where
  "segment_external segment =
     (let group = without_group segment; tokens = unwrap_executed (unwrap_read_command group) in
      group \<noteq> [] \<and> tokens \<noteq> []
      \<and> (matches_prefix external_head (command_head tokens)
         \<or> starts_with (command_head tokens) ''curl'' \<and> curl_writes tokens \<and> \<not> curl_local_only tokens))"

text \<open>A script as one line: \<open>None\<close> when a quote stays open.\<close>

function joined_lines :: "char option \<Rightarrow> string \<Rightarrow> string \<Rightarrow> string option" where
  "joined_lines quote out [] = (if quote \<noteq> None then None else Some out)"
| "joined_lines quote out (c # cs) =
     (if quote = Some CHR 0x27 then joined_lines (if c = CHR 0x27 then None else quote) (out @ [c]) cs
      else if c = backslash \<and> cs \<noteq> [] then
        joined_lines quote (if hd cs = CHR 0x0A then out else out @ [c, hd cs]) (tl cs)
      else if quote = Some CHR 0x22 then joined_lines (if c = CHR 0x22 then None else quote) (out @ [c]) cs
      else if quote_char c then joined_lines (Some c) (out @ [c]) cs
      else if c = CHR ''#'' \<and> (out = [] \<or> one_of ('' '' @ [CHR 0x09, CHR 0x0A] @ '';|&('') (last out)) then
        joined_lines quote out (dropWhile non_newline cs)
      else joined_lines quote (out @ [if c = CHR 0x0A then CHR '';'' else c]) cs)"
  by pat_completeness auto
termination
  by (relation "measure (\<lambda>(quote, out, s). length s)") (auto simp: le_imp_less_Suc length_dropWhile_le)

definition multiline_segments :: "string \<Rightarrow> string list list option" where
  "multiline_segments command =
     (if sublist ''<<'' command then None
      else case joined_lines None [] command of
        None \<Rightarrow> None
      | Some out \<Rightarrow>
          (case lex_tokens (simple_lexer\<lparr>lx_comment := []\<rparr>) out of
             Inl _ \<Rightarrow> None
           | Inr ts \<Rightarrow> Some (filter (\<lambda>seg. seg \<noteq> []) (cut_segments ''|;&'' [] ts))))"

definition external_text :: rx where
  "external_text =
     Alt (seqs [not_after (\<lambda>c. c = CHR ''-'' \<or> word_char c), exacts [''rm'', ''rmdir'', ''passwd''], One is_space])
         (seqs [exact ''git'', spaces, exact ''push''])"

definition segments_external :: "string \<Rightarrow> string list list \<Rightarrow> bool" where
  "segments_external command segments =
     (if segments = [] \<and> py_strip command \<noteq> [] then
        (let stripped = strip_quoted_strings command in
         found external_text stripped
         \<or> found (seqs [boundary, exact ''curl'', boundary]) stripped \<and> curl_writes_text stripped)
      else list_ex segment_external segments)"

text \<open>Whether a command is external by itself, and the commands in it that are asked in turn.\<close>

definition external_step :: "string \<Rightarrow> bool \<times> string list" where
  "external_step command0 =
     (let (command, nested) = substitutions command0 in
      if CHR 0x0A \<in> set command then
        (case multiline_segments command of
           None \<Rightarrow> (False, nested @ splitlines command)
         | Some segments \<Rightarrow> (segments_external command segments, nested))
      else (segments_external command (simple_shell_segments command), nested))"

lemma external_step_falls:
  assumes "x \<in> set (snd (external_step command0))"
  shows "heavy x < heavy command0"
proof -
  obtain command nested where parts: "substitutions command0 = (command, nested)"
    by (metis prod.exhaust)
  note falls = substitutions_heavy [OF parts [unfolded substitutions_def]]
  from assms consider "x \<in> set nested" | "CHR 0x0A \<in> set command" "x \<in> set (splitlines command)"
    unfolding external_step_def parts by (auto simp: Let_def split: if_splits option.splits)
  then show ?thesis
    using falls splitlines_heavy [of command x] by cases auto
qed

function bash_external :: "string \<Rightarrow> bool" where
  "bash_external command \<longleftrightarrow>
     (\<exists>inner \<in> set (snd (external_step command)). bash_external inner) \<or> fst (external_step command)"
  by pat_completeness auto
termination
  by (relation "measure heavy") (auto simp: external_step_falls)

declare bash_external.simps [simp del]

subsection \<open>Calls\<close>

definition credential_path :: rx where
  "credential_path = exacts [''credentials'', ''authorized_keys'', ''/.ssh/'', ''/.aws/'']"

definition external_words :: "string list" where
  "external_words =
     [''send'', ''publish'', ''payment'', ''pay'', ''purchase'', ''checkout'', ''order'', ''delete'', ''remove'',
      ''deploy'', ''deployment'', ''push'', ''credential'', ''password'', ''transfer'', ''book'', ''booking'']"

definition external_action :: "string \<Rightarrow> pydict \<Rightarrow> string list \<Rightarrow> bool \<Rightarrow> bool" where
  "external_action tool args paths name_hints =
     (if list_ex (\<lambda>path. found credential_path (py_lower path))
           (paths @ map (\<lambda>key. arg_text (dget_default args key (VStr []))) [''path'', ''file_path'', ''filePath'']) then True
      else if name_hints
              \<and> list_ex (\<lambda>w. w \<in> set external_words) (re_split (Many (\<lambda>c. \<not> is_lower c \<and> \<not> is_digit c)) (py_lower tool)) then True
      else if py_lower tool = ''bash'' then
        bash_external (arg_text (dget_default args ''command'' (dget_default args ''cmd'' (VStr []))))
      else False)"

lemma external_samples:
  "bash_external ''cd /x && sudo -u root xargs -I {} git push origin''"
  "bash_external ''echo \"$(rm -r x)\"''" "\<not> bash_external ''git commit -m 'git push' ''"
  "bash_external ''curl -XPOST https://example.org''" "\<not> bash_external ''curl -d x http://localhost:80/a''"
  by code_simp+

end
