(* ===== verification/Call_Observation.thy ===== *)
theory Call_Observation
  imports Classifier Effect_Scope
begin

text \<open>
  The static observations of a call that the policy evaluation starts from: \<^verbatim>\<open>name_effect\<close>,
  \<^verbatim>\<open>secret_argument_disclosure\<close> and \<^verbatim>\<open>observe_hybrid\<close> of \<^verbatim>\<open>intaris/classifier.py\<close>.
\<close>

definition name_effect :: "string \<Rightarrow> string option" where
  "name_effect tool =
     (let segment = last (re_split (Alt (One (one_of ''.:/'')) (exact ''__'')) (py_lower tool));
          verb = hd (re_split (One (one_of ''_-'')) segment)
      in if verb \<in> {''delete'', ''remove'', ''purge'', ''trash''} then Some ''delete''
         else if verb \<in> {''send'', ''post'', ''publish'', ''push'', ''deploy''} then Some ''transmit''
         else if verb \<in> {''write'', ''update'', ''edit'', ''create'', ''move'', ''rename''} then Some ''write''
         else if verb \<in> {''read'', ''get'', ''list'', ''search'', ''inspect'', ''describe'', ''show'', ''fetch''}
         then Some ''read'' else None)"

subsection \<open>Secret arguments\<close>

definition disclosure_commands :: "string list" where
  "disclosure_commands =
     [''git'', ''printenv'', ''env'', ''echo'', ''cat'', ''less'', ''more'', ''head'', ''tail'']"

definition secret_argument_patterns :: "string list" where
  "secret_argument_patterns =
     [''token'', ''tokens'', ''secret'', ''secrets'', ''password'', ''passwords'', ''passwd'', ''credential'',
      ''credentials'', ''api_key'', ''private_key'', ''.pem'', ''.p12'', ''.key'', ''.env'', ''id_rsa'']"

text \<open>The lexer keeps the quotes, so that a quoted separator is not one.\<close>

definition raw_lexer :: lexer where
  "raw_lexer =
     \<lparr>lx_posix = False, lx_punct = '';&|()<>'' @ [CHR 0x0A], lx_space = [CHR 0x20, CHR 0x09, CHR 0x0D], lx_comment = ''#''\<rparr>"

definition secret_word :: "string \<Rightarrow> rx" where
  "secret_word w =
     seqs [if starts_with w ''.'' then Lit [] else not_after (\<lambda>c. is_lower c \<or> is_digit c), exact w,
           not_before (\<lambda>c. is_lower c \<or> is_digit c)]"

definition secret_argument :: "string \<Rightarrow> bool" where
  "secret_argument a \<longleftrightarrow> list_ex (\<lambda>w. found (secret_word w) (py_lower a)) secret_argument_patterns"

definition kept_arguments :: "nat list \<Rightarrow> string list \<Rightarrow> string list" where
  "kept_arguments skipped segment =
     map snd (filter (\<lambda>(i, a). i \<notin> set skipped) (zip [0..<length segment] segment))"

definition command_mentions_secret :: "string \<Rightarrow> string list \<Rightarrow> bool" where
  "command_mentions_secret token rest =
     (let name = basename (strip_quotes token);
          segment = takeWhile (\<lambda>a. \<not> all_in ('';&|()<>'' @ [CHR 0x0A]) a) rest;
          skipped = (if name = ''git'' then git_grep_pattern_indexes segment else [])
      in name \<in> set disclosure_commands \<and> list_ex secret_argument (kept_arguments skipped segment))"

text \<open>Each token at the start, or behind a separator, is the name of a command.\<close>

fun mentions_secret :: "bool \<Rightarrow> string list \<Rightarrow> bool" where
  "mentions_secret starts [] = False"
| "mentions_secret starts (t # ts) =
     (starts \<and> command_mentions_secret t ts \<or> mentions_secret (all_in ('';&|('' @ [CHR 0x0A]) t) ts)"

definition secret_argument_disclosure :: "string \<Rightarrow> bool" where
  "secret_argument_disclosure command =
     (case lex_tokens raw_lexer command of Inl _ \<Rightarrow> False | Inr ts \<Rightarrow> mentions_secret True ts)"

subsection \<open>The observations\<close>

definition base_facts ::
    "string \<Rightarrow> pydict \<Rightarrow> pydict \<Rightarrow> string \<Rightarrow> (string \<times> string) list option \<Rightarrow> pydict" where
  "base_facts tool args policy working_directory preferences =
     (let paths = resolve_tool_paths tool args working_directory;
          pref = get_tool_preference tool preferences
      in [(''tool'', VStr tool),
          (''command'', if tool = ''bash'' then VStr (extract_bash_command args) else VNone),
          (''paths'', VStrs paths),
          (''paths_complete'', VBool (tool \<in> {''read'', ''edit'', ''write'', ''apply_patch''})),
          (''operation'', VStr (if is_read_only tool args then ''read'' else ''unknown'')),
          (''static_read'', VBool (classify tool args [] None working_directory = READ)),
          (''configured_deny'', VBool (check_session_policy_deny tool args policy \<noteq> None
             \<or> paths \<noteq> [] \<and> check_deny_paths paths policy \<or> pref = Some ''deny'')),
          (''configured_allow'', VBool (check_session_policy_allow tool args policy \<noteq> None \<or> pref = Some ''auto-approve'')),
          (''configured_review'', VBool (pref = Some ''escalate''))])"

definition with_risk :: "classification \<Rightarrow> pydict \<Rightarrow> pydict" where
  "with_risk factual facts = (if factual = CRITICAL then dset facts ''risk'' (VStr ''critical'') else facts)"

definition with_project_read :: "string \<Rightarrow> pydict \<Rightarrow> string list \<Rightarrow> pydict \<Rightarrow> pydict" where
  "with_project_read working_directory policy paths facts =
     (if dget facts ''operation'' = VStr ''read'' \<and> paths \<noteq> [] \<and> working_directory \<noteq> []
         \<and> check_path_policy paths working_directory policy \<in> {None, Some READ}
      then dset facts ''static_read'' (VBool True) else facts)"

definition disclosing :: "string \<Rightarrow> pydict \<Rightarrow> bool" where
  "disclosing tool args \<longleftrightarrow> tool = ''bash'' \<and> secret_argument_disclosure (extract_bash_command args)"

definition with_disclosure :: "string \<Rightarrow> pydict \<Rightarrow> pydict \<Rightarrow> pydict" where
  "with_disclosure tool args facts =
     (if disclosing tool args then
        dmerge facts
          [(''static_read'', VBool False), (''operation'', VStr ''disclose''), (''effects'', VStrs [''disclose'']),
           (''secret_argument'', VBool True),
           (''risk'', VStr (if dget facts ''risk'' = VStr ''critical'' then ''critical'' else ''high''))]
      else facts)"

definition secret_target :: "string \<Rightarrow> pydict \<Rightarrow> string \<Rightarrow> string list \<Rightarrow> bool" where
  "secret_target tool args working_directory paths \<longleftrightarrow>
     list_ex is_sensitive_path paths \<or> reads_secret_location tool args working_directory"

text \<open>Operands that a shell would expand: any under a deny-path policy, hidden files, brace alternatives.\<close>

definition hidden_glob :: rx where
  "hidden_glob = Seq (Alt at_start (exact ''/'')) (exact ''.*'')"

definition expands :: "pydict \<Rightarrow> string list \<Rightarrow> bool" where
  "expands policy operands \<longleftrightarrow>
     list_ex (list_ex (one_of ''*?[]{}~'')) operands \<and> truthy (dget policy ''deny_paths'')
     \<or> list_ex (found hidden_glob) operands
     \<or> list_ex (list_ex (one_of ''{}'')) operands"

definition observe_hybrid ::
    "string \<Rightarrow> pydict \<Rightarrow> pydict \<Rightarrow> string \<Rightarrow> (string \<times> string) list option \<Rightarrow> pydict" where
  "observe_hybrid tool args policy working_directory preferences =
     (let paths = resolve_tool_paths tool args working_directory;
          factual = classify tool args [] None working_directory;
          f1 = with_risk factual (base_facts tool args policy working_directory preferences);
          f2 = with_project_read working_directory policy paths f1;
          f3 = with_disclosure tool args f2;
          f4 = (if secret_target tool args working_directory paths then dset f3 ''static_read'' (VBool False) else f3);
          f5 = dset f4 ''external_or_irreversible'' (VBool (external_action tool args paths True));
          operands = concat (read_segments False (extract_bash_command args))
      in if tool = ''bash'' \<and> expands policy operands then dset f5 ''static_read'' (VBool False) else f5)"

subsection \<open>What a static read is\<close>

lemma dget_dmerge_single:
  "dget (dmerge d ((k, v) # e)) k' = dget (dmerge (dset d k v) e) k'"
  by (simp add: dmerge_def)

lemma base_static_read:
  "dget (base_facts tool args policy wd prefs) ''static_read'' = VBool (classify tool args [] None wd = READ)"
  "dget (base_facts tool args policy wd prefs) ''operation'' = VStr (if is_read_only tool args then ''read'' else ''unknown'')"
  by (simp_all add: base_facts_def dget_def Let_def)

lemma with_disclosure_static:
  "dget (with_disclosure tool args facts) ''static_read'' =
     (if disclosing tool args then VBool False else dget facts ''static_read'')"
  by (simp add: with_disclosure_def dmerge_def)

lemma with_project_static:
  "truthy (dget (with_project_read wd policy paths facts) ''static_read'') \<longleftrightarrow>
     truthy (dget facts ''static_read'')
     \<or> dget facts ''operation'' = VStr ''read'' \<and> paths \<noteq> [] \<and> wd \<noteq> []
       \<and> check_path_policy paths wd policy \<in> {None, Some READ}"
  by (auto simp: with_project_read_def)

lemma with_risk_facts [simp]:
  "dget (with_risk c facts) ''static_read'' = dget facts ''static_read''"
  "dget (with_risk c facts) ''operation'' = dget facts ''operation''"
  by (simp_all add: with_risk_def)

text \<open>The observation of a static read, exactly.  A call is observed as a static read when its
  classification without policy is a read, or it is on the read-only lists and its paths pass the
  session's path policy; and no argument of it names a secret, no path of it is one, and no operand
  spells one by expansion.  Preferences and allowances have no part in it.\<close>

theorem observed_static_read:
  "truthy (dget (observe_hybrid tool args policy wd prefs) ''static_read'') \<longleftrightarrow>
     (classify tool args [] None wd = READ
      \<or> is_read_only tool args \<and> resolve_tool_paths tool args wd \<noteq> [] \<and> wd \<noteq> []
        \<and> check_path_policy (resolve_tool_paths tool args wd) wd policy = None)
     \<and> \<not> disclosing tool args
     \<and> \<not> secret_target tool args wd (resolve_tool_paths tool args wd)
     \<and> \<not> (tool = ''bash'' \<and> expands policy (concat (read_segments False (extract_bash_command args))))"
  by (simp add: observe_hybrid_def Let_def with_disclosure_static with_project_static base_static_read path_policy_not_read)

text \<open>
  A wrapped critical command on a path of the project is observed both as critical and as a static read:
  the path stage does not look at the classification.
\<close>

lemma critical_static_read:
  "dget (observe_hybrid ''bash'' [(''command'', VStr ''env mkfs /p/x'')] [] ''/p'' None) ''static_read'' = VBool True"
  "dget (observe_hybrid ''bash'' [(''command'', VStr ''env mkfs /p/x'')] [] ''/p'' None) ''risk'' = VStr ''critical''"
  by code_simp+

end
