(* ===== verification/Path_Learning.thy ===== *)
theory Path_Learning
  imports Classifier "HOL-Library.AList"
begin

text \<open>
  The cache of approved path prefixes of \<^verbatim>\<open>Evaluator\<close> in \<^verbatim>\<open>intaris/evaluator.py\<close>: the
  prefix an approved read teaches, the merging of prefixes, the lookup that lets later reads pass, and
  the operations that clear the cache.  The dictionary is an association list with the order of
  insertion; every operation runs under one lock and is a step.
\<close>

type_synonym cache_key = "string \<times> string"
type_synonym path_cache = "(cache_key \<times> string list) list"

definition max_approved_paths_per_session :: nat where
  "max_approved_paths_per_session = 50"

definition min_merge_depth :: nat where
  "min_merge_depth = 4"

subsection \<open>Prefixes\<close>

text \<open>\<^verbatim>\<open>posixpath.dirname\<close>.\<close>

definition dirname :: "string \<Rightarrow> string" where
  "dirname path =
     (let head = rev (dropWhile (\<lambda>c. c \<noteq> slash) (rev path)) in
      if list_all (\<lambda>c. c = slash) head then head else rev (dropWhile (\<lambda>c. c = slash) (rev head)))"

definition path_parts :: "string \<Rightarrow> string list" where
  "path_parts path = split_on slash (normpath path)"

fun common_len :: "string list \<Rightarrow> string list \<Rightarrow> nat" where
  "common_len (a # as) (b # bs) = (if a = b then Suc (common_len as bs) else 0)"
| "common_len _ _ = 0"

definition compute_path_prefix :: "string \<Rightarrow> string \<Rightarrow> string" where
  "compute_path_prefix resolved_path working_directory =
     (let wd_parts = path_parts working_directory;
          parts = path_parts resolved_path;
          common = common_len wd_parts parts;
          min_depth = max 1 (length wd_parts - 1)
      in if common \<ge> min_depth \<and> common < length parts
         then join_with ''/'' (take (common + 1) parts)
         else normpath (dirname resolved_path))"

text \<open>\<^verbatim>\<open>None\<close> is the result \<^verbatim>\<open>False\<close>, which leaves the list as it was.\<close>

fun try_merge_prefix :: "string \<Rightarrow> string list \<Rightarrow> string list option" where
  "try_merge_prefix new_prefix [] = None"
| "try_merge_prefix new_prefix (existing # known) =
     (let new_parts = path_parts new_prefix; common = common_len new_parts (path_parts existing) in
      if common \<ge> min_merge_depth then Some (join_with ''/'' (take common new_parts) # known)
      else map_option ((#) existing) (try_merge_prefix new_prefix known))"

subsection \<open>The cache\<close>

definition cached :: "path_cache \<Rightarrow> cache_key \<Rightarrow> string list" where
  "cached cache k = (case map_of cache k of None \<Rightarrow> [] | Some known \<Rightarrow> known)"

definition add_prefix :: "string \<Rightarrow> string list \<Rightarrow> string list" where
  "add_prefix norm_prefix known =
     (if list_ex (is_path_within norm_prefix) known then known
      else case try_merge_prefix norm_prefix known of
             Some merged \<Rightarrow> merged
           | None \<Rightarrow> drop (length known + 1 - max_approved_paths_per_session) (known @ [norm_prefix]))"

definition approve_path_prefix :: "cache_key \<Rightarrow> string \<Rightarrow> path_cache \<Rightarrow> path_cache" where
  "approve_path_prefix k path_prefix cache =
     AList.update k (add_prefix (normpath path_prefix) (cached cache k)) cache"

definition check_approved_paths :: "path_cache \<Rightarrow> cache_key \<Rightarrow> string list \<Rightarrow> string \<Rightarrow> bool" where
  "check_approved_paths cache k resolved_paths working_directory =
     list_all (\<lambda>rp. is_path_within rp working_directory \<or> list_ex (is_path_within rp) (cached cache k))
       resolved_paths"

text \<open>The loop over the paths of an approved call, in \<^verbatim>\<open>_evaluation_flow\<close> and in
  \<^verbatim>\<open>learn_from_approved_escalation\<close>.\<close>

definition learn_path :: "cache_key \<Rightarrow> string \<Rightarrow> string \<Rightarrow> path_cache \<Rightarrow> path_cache" where
  "learn_path k working_directory rp cache =
     (if is_path_within rp working_directory then cache
      else approve_path_prefix k (compute_path_prefix rp working_directory) cache)"

definition learn_paths :: "cache_key \<Rightarrow> string \<Rightarrow> string list \<Rightarrow> path_cache \<Rightarrow> path_cache" where
  "learn_paths k working_directory resolved_paths cache =
     fold (learn_path k working_directory) resolved_paths cache"

definition clear_paths :: "cache_key \<Rightarrow> path_cache \<Rightarrow> path_cache" where
  "clear_paths k cache = AList.delete k cache"

definition sweep_paths :: "cache_key list \<Rightarrow> path_cache \<Rightarrow> path_cache \<times> nat" where
  "sweep_paths active cache =
     (let stale = filter (\<lambda>e. fst e \<notin> set active) cache in
      (filter (\<lambda>e. fst e \<in> set active) cache, length stale))"

subsection \<open>What a prefix covers\<close>

lemma common_len_prefix: "take (common_len as bs) as = take (common_len as bs) bs"
  by (induction as bs rule: common_len.induct) auto

lemma common_len_le: "common_len as bs \<le> length as" "common_len as bs \<le> length bs"
  by (induction as bs rule: common_len.induct) auto

lemma parts_nonempty [simp]: "path_parts p \<noteq> []"
  by (simp add: path_parts_def)

lemma parts_normal [simp]: "normpath (normpath p) = normpath p \<Longrightarrow> path_parts (normpath p) = path_parts p"
  by (simp add: path_parts_def)

lemma cached_update [simp]:
  "cached (AList.update k v cache) k' = (if k' = k then v else cached cache k')"
  by (simp add: cached_def update_conv')

lemma cached_delete [simp]:
  "cached (AList.delete k cache) k' = (if k' = k then [] else cached cache k')"
  by (simp add: cached_def delete_conv')

lemma cached_filter [simp]:
  "cached (filter (\<lambda>e. fst e \<in> set ks) cache) k = (if k \<in> set ks then cached cache k else [])"
  by (induction cache) (auto simp: cached_def)


subsection \<open>Runs\<close>

datatype cache_event =
    Learned cache_key string string
  | Cleared cache_key
  | Swept "cache_key list"

fun cache_step :: "cache_event \<Rightarrow> path_cache \<Rightarrow> path_cache" where
  "cache_step (Learned k wd path) cache = learn_path k wd path cache"
| "cache_step (Cleared k) cache = clear_paths k cache"
| "cache_step (Swept active) cache = fst (sweep_paths active cache)"

definition cache_after :: "cache_event list \<Rightarrow> path_cache" where
  "cache_after events = fold cache_step events []"

text \<open>The approvals a session still has: what was learned since it was last cleared or swept.\<close>

fun lesson_step :: "cache_key \<Rightarrow> cache_event \<Rightarrow> (string \<times> string) list \<Rightarrow> (string \<times> string) list" where
  "lesson_step k (Learned k' wd path) ls = (if k' = k then (path, wd) # ls else ls)"
| "lesson_step k (Cleared k') ls = (if k' = k then [] else ls)"
| "lesson_step k (Swept active) ls = (if k \<in> set active then ls else [])"

definition lessons :: "cache_key \<Rightarrow> cache_event list \<Rightarrow> (string \<times> string) list" where
  "lessons k events = fold (lesson_step k) events []"

lemma cache_after_snoc: "cache_after (events @ [e]) = cache_step e (cache_after events)"
  by (simp add: cache_after_def)

lemma lessons_snoc: "lessons k (events @ [e]) = lesson_step k e (lessons k events)"
  by (simp add: lessons_def)

lemma cached_step:
  "cached (cache_step e cache) k =
     (case e of
        Learned k' wd path \<Rightarrow>
          (if k' = k \<and> \<not> is_path_within path wd
           then add_prefix (normpath (compute_path_prefix path wd)) (cached cache k) else cached cache k)
      | Cleared k' \<Rightarrow> (if k' = k then [] else cached cache k)
      | Swept active \<Rightarrow> (if k \<in> set active then cached cache k else []))"
  by (cases e) (auto simp: learn_path_def approve_path_prefix_def clear_paths_def sweep_paths_def)

subsection \<open>Every prefix comes from an approval\<close>

definition deep_ancestor :: "string \<Rightarrow> string \<Rightarrow> bool" where
  "deep_ancestor d n \<longleftrightarrow>
     (\<exists>c. min_merge_depth \<le> c \<and> c \<le> length (path_parts n) \<and> d = join_with ''/'' (take c (path_parts n)))"

lemma try_merge_members:
  "try_merge_prefix n known = Some merged \<Longrightarrow> e \<in> set merged \<Longrightarrow> e \<in> set known \<or> deep_ancestor e n"
proof (induction n known arbitrary: merged rule: try_merge_prefix.induct)
  case (2 n existing known)
  then show ?case
    using common_len_le(1) by (fastforce simp: Let_def deep_ancestor_def split: if_splits)
qed simp

lemma try_merge_length: "try_merge_prefix n known = Some merged \<Longrightarrow> length merged = length known"
  by (induction n known arbitrary: merged rule: try_merge_prefix.induct) (auto simp: Let_def split: if_splits)

lemma add_prefix_members: "e \<in> set (add_prefix n known) \<Longrightarrow> e \<in> set known \<or> e = n \<or> deep_ancestor e n"
  by (auto simp: add_prefix_def split: if_splits option.splits dest: try_merge_members in_set_dropD)

lemma add_prefix_length:
  "length known \<le> max_approved_paths_per_session \<Longrightarrow> length (add_prefix n known) \<le> max_approved_paths_per_session"
  by (auto simp: add_prefix_def max_approved_paths_per_session_def dest: try_merge_length split: option.splits)

lemma prefix_has_lesson:
  "d \<in> set (cached (cache_after events) k) \<Longrightarrow>
     \<exists>(q, w) \<in> set (lessons k events). \<not> is_path_within q w
       \<and> (d = normpath (compute_path_prefix q w) \<or> deep_ancestor d (normpath (compute_path_prefix q w)))"
proof (induction events rule: rev_induct)
  case Nil
  then show ?case by (simp add: cache_after_def cached_def)
next
  case (snoc e events)
  show ?case
  proof (cases "d \<in> set (cached (cache_after events) k)")
    case True
    with snoc.prems have "set (lessons k events) \<subseteq> set (lessons k (events @ [e]))"
      unfolding cache_after_snoc lessons_snoc cached_step by (cases e) (auto split: if_splits)
    with snoc.IH [OF True] show ?thesis by blast
  next
    case False
    with snoc.prems obtain wd path where e: "e = Learned k wd path" and out: "\<not> is_path_within path wd"
      and d: "d \<in> set (add_prefix (normpath (compute_path_prefix path wd)) (cached (cache_after events) k))"
      unfolding cache_after_snoc cached_step by (cases e) (auto split: if_splits)
    from add_prefix_members [OF d] False out show ?thesis
      by (auto simp: e lessons_snoc)
  qed
qed


subsection \<open>Which directory an approval teaches\<close>

text \<open>
  In names: the sibling of the working directory the path lies in, when it shares the parent of the
  working directory, and the directory of the file otherwise.
\<close>

definition lesson_dir :: "string list \<Rightarrow> string list \<Rightarrow> string list" where
  "lesson_dir ws qs =
     (if take (length ws - 1) qs = butlast ws \<and> length ws \<le> length qs then take (length ws) qs else butlast qs)"

lemma lesson_dir_prefix: "prefix (lesson_dir ws qs) qs"
  by (auto simp: lesson_dir_def take_is_prefix prefixeq_butlast)

lemma parts_absolute:
  assumes "list_all plain_name ws" "ws \<noteq> []"
  shows "path_parts (absolute_path ws) = [] # ws"
proof -
  have "split_on slash (join_with ''/'' ws) = ws"
    using assms by (intro split_join) (auto simp: list_all_iff plain_name_def)
  then show ?thesis
    unfolding path_parts_def normpath_absolute [OF assms(1)] by (simp add: absolute_path_def)
qed

lemma parts_rooted:
  assumes "rooted p"
  shows "path_parts p = (if follow [] p = [] then [[], []] else [] # follow [] p)"
proof -
  have eq: "normpath p = absolute_path (follow [] p)"
    using assms by (rule normpath_rooted)
  show ?thesis
  proof (cases "follow [] p = []")
    case True
    with eq show ?thesis by (simp add: path_parts_def absolute_path_def)
  next
    case False
    have "path_parts p = path_parts (absolute_path (follow [] p))"
      by (simp add: path_parts_def eq normpath_absolute follow_plain)
    with False show ?thesis
      by (simp add: parts_absolute follow_plain)
  qed
qed

lemma common_len_split:
  "common_len as bs = n \<longleftrightarrow>
     n \<le> length as \<and> n \<le> length bs \<and> take n as = take n bs
     \<and> (n < length as \<and> n < length bs \<longrightarrow> as ! n \<noteq> bs ! n)"
proof (induction as bs arbitrary: n rule: common_len.induct)
  case (1 a as b bs)
  then show ?case by (cases n) auto
qed auto

lemma take_absolute:
  "c \<noteq> 0 \<Longrightarrow> ws \<noteq> [] \<Longrightarrow> join_with ''/'' ([] # take c ws) = absolute_path (take c ws)"
  by (cases "take c ws") (auto simp: absolute_path_def)

lemma plain_take: "list_all plain_name ws \<Longrightarrow> list_all plain_name (take n ws)"
  by (auto simp: list_all_iff dest: in_set_takeD)

lemma plain_butlast: "list_all plain_name ws \<Longrightarrow> list_all plain_name (butlast ws)"
  by (auto simp: list_all_iff dest: in_set_butlastD)

text \<open>\<^verbatim>\<open>dirname\<close> of a path in normal form drops the last name.\<close>

lemma dirname_absolute:
  assumes "list_all plain_name ws" "ws \<noteq> []"
  shows "normpath (dirname (absolute_path ws)) = absolute_path (butlast ws)"
proof -
  define w vs where "w = last ws" and "vs = butlast ws"
  have ws: "ws = vs @ [w]"
    using assms(2) by (simp add: w_def vs_def)
  have w: "slash \<notin> set w" and vs: "list_all plain_name vs"
    using assms(1) by (auto simp: ws plain_name_def)
  have abs: "absolute_path ws = (if vs = [] then ''/'' else absolute_path vs @ ''/'') @ w"
    by (simp add: ws absolute_path_def join_append)
  have drop: "dropWhile (\<lambda>c. c \<noteq> slash) (rev w @ slash # t) = slash # t" for t
    using w by (subst dropWhile_append2) auto
  show ?thesis
  proof (cases "vs = []")
    case True
    then have "dirname (absolute_path ws) = ''/''"
      using drop [of "[]"] by (simp add: dirname_def abs)
    with True show ?thesis
      by (simp add: ws normpath_absolute [of "[]", simplified absolute_path_def, simplified] absolute_path_def)
  next
    case False
    then have lastw: "last vs \<noteq> []" "slash \<notin> set (last vs)"
      using vs by (metis last_in_set list_all_iff plain_name_def)+
    have "\<exists>pre. absolute_path vs = pre @ last vs"
    proof (cases "butlast vs = []")
      case True
      with False have "vs = [last vs]" by (metis append_butlast_last_id append_Nil)
      then show ?thesis by (metis absolute_path_def append_Cons append_Nil join_with.simps(2))
    next
      case ne: False
      have "vs = butlast vs @ [last vs]" using False by simp
      then have "join_with ''/'' vs = join_with ''/'' (butlast vs) @ ''/'' @ last vs"
        using ne by (metis join_append join_with.simps(2) list.distinct(1))
      then show ?thesis by (auto simp: absolute_path_def intro: exI [of _ "slash # join_with ''/'' (butlast vs) @ ''/''"])
    qed
    then obtain pre where front: "absolute_path vs = pre @ last vs" by blast
    obtain a as where r: "rev (last vs) = a # as"
      using lastw(1) by (cases "rev (last vs)") auto
    then have a: "a \<noteq> slash" "a \<in> set (last vs)"
      using lastw(2) by (metis list.set_intros(1) set_rev)+
    then have tail: "dropWhile (\<lambda>c. c = slash) (rev (absolute_path vs)) = rev (absolute_path vs)"
      by (simp add: front r)
    have "\<not> list_all (\<lambda>c. c = slash) (absolute_path vs)"
      using a by (auto simp: list_all_iff front)
    then have "dirname (absolute_path ws) = absolute_path vs"
      using False drop [of "rev (absolute_path vs)"] tail by (simp add: dirname_def abs)
    with vs show ?thesis
      by (simp add: ws normpath_absolute)
  qed
qed


lemma within_rooted:
  assumes "rooted p" "rooted d" "follow [] d \<noteq> []"
  shows "is_path_within p d \<longleftrightarrow> prefix (follow [] d) (follow [] p)"
  using assms
  by (simp add: is_path_within_def normpath_rooted follow_plain absolute_inject below_iff strict_prefix_def) auto

lemma taught_directory:
  assumes "rooted q" "normpath q = q" "rooted w" "follow [] w \<noteq> []" "\<not> is_path_within q w" "follow [] q \<noteq> []"
  shows "normpath (compute_path_prefix q w) = absolute_path (lesson_dir (follow [] w) (follow [] q))"
proof -
  define ws qs where "ws = follow [] w" and "qs = follow [] q"
  have plain: "list_all plain_name ws" "list_all plain_name qs" and ne: "ws \<noteq> []" "qs \<noteq> []"
    using assms(4,6) by (simp_all add: ws_def qs_def follow_plain)
  have parts: "path_parts w = [] # ws" "path_parts q = [] # qs"
    using assms by (simp_all add: parts_rooted ws_def qs_def)
  have "\<not> prefix ws qs"
    using assms within_rooted by (simp add: ws_def qs_def)
  define c where "c = common_len ws qs"
  have split: "c \<le> length ws" "c \<le> length qs" "take c ws = take c qs"
    "c < length ws \<Longrightarrow> c < length qs \<Longrightarrow> ws ! c \<noteq> qs ! c"
    using common_len_split [of ws qs c] by (auto simp: c_def)
  have short: "c < length ws"
  proof (rule ccontr)
    assume "\<not> c < length ws"
    with split(1,3) have "ws = take c qs" by simp
    with \<open>\<not> prefix ws qs\<close> show False by (metis take_is_prefix)
  qed
  have sibling: "(length ws - 1 \<le> c \<and> c < length qs) \<longleftrightarrow>
      (take (length ws - 1) qs = butlast ws \<and> length ws \<le> length qs)" (is "?L \<longleftrightarrow> ?R")
  proof
    assume L: ?L
    with short have "c = length ws - 1" by auto
    with L split(3) short show ?R
      by (auto simp: butlast_conv_take)
  next
    assume R: ?R
    have "length ws - 1 \<le> c"
    proof (rule ccontr)
      assume "\<not> length ws - 1 \<le> c"
      then have less: "c < length ws - 1" by simp
      then have "qs ! c = take (length ws - 1) qs ! c" "ws ! c = butlast ws ! c"
        by (simp_all add: nth_butlast)
      with R less split(4) short show False by auto
    qed
    with R short show ?L by auto
  qed
  have cond: "(max 1 (length ([] # ws) - 1) \<le> Suc c \<and> Suc c < length ([] # qs)) \<longleftrightarrow>
      (length ws - 1 \<le> c \<and> c < length qs)"
    by auto
  have q: "q = absolute_path qs"
    using assms(1,2) by (simp add: normpath_rooted qs_def)
  have deep: "common_len (path_parts w) (path_parts q) = Suc c"
    by (simp add: parts c_def)
  show ?thesis
  proof (cases "length ws - 1 \<le> c \<and> c < length qs")
    case True
    then have c: "Suc c = length ws" using short by auto
    have "compute_path_prefix q w = join_with ''/'' (take (Suc (Suc c)) ([] # qs))"
      unfolding compute_path_prefix_def Let_def deep using True cond by (simp add: parts)
    also have "\<dots> = absolute_path (take (length ws) qs)"
      using take_absolute [of "length ws" qs] ne by (simp add: c)
    finally show ?thesis
      using True sibling plain_take [OF plain(2)] by (simp add: normpath_absolute lesson_dir_def flip: ws_def qs_def)
  next
    case False
    have "compute_path_prefix q w = normpath (dirname q)"
      unfolding compute_path_prefix_def Let_def deep using False cond by (auto simp: parts)
    then have "compute_path_prefix q w = absolute_path (butlast qs)"
      unfolding q using dirname_absolute [OF plain(2) ne(2)] by simp
    with False sibling show ?thesis
      using plain_butlast [OF plain(2)] by (auto simp: normpath_absolute lesson_dir_def simp flip: ws_def qs_def)
  qed
qed

text \<open>The lookups of a session that only saw paths and working directories in normal form.\<close>

definition normal_path :: "string \<Rightarrow> bool" where
  "normal_path p \<longleftrightarrow> rooted p \<and> normpath p = p \<and> p \<noteq> ''/''"

lemma normal_pathD:
  assumes "normal_path p"
  shows "rooted p" "normpath p = p" "follow [] p \<noteq> []" "p = absolute_path (follow [] p)"
  using assms normpath_rooted [of p] by (auto simp: normal_path_def absolute_path_def)

lemma within_absolute:
  assumes "rooted p" "is_path_within p (absolute_path ds)" "list_all plain_name ds"
  shows "prefix ds (follow [] p)"
  using assms within_rooted [of p "absolute_path ds"]
  by (cases "ds = []") (simp_all add: rooted_absolute follow_absolute)

definition shared_directory :: "string list \<Rightarrow> string \<Rightarrow> string \<Rightarrow> string \<Rightarrow> bool" where
  "shared_directory ds p q w \<longleftrightarrow>
     prefix ds (follow [] p) \<and> prefix ds (follow [] q)
     \<and> (ds = lesson_dir (follow [] w) (follow [] q)
        \<or> 3 \<le> length ds \<and> prefix ds (lesson_dir (follow [] w) (follow [] q)))"

lemma prefix_directory:
  assumes "normal_path q" "normal_path w" "\<not> is_path_within q w"
    and "d = normpath (compute_path_prefix q w) \<or> deep_ancestor d (normpath (compute_path_prefix q w))"
    and "rooted p" "is_path_within p d"
  shows "\<exists>ds. shared_directory ds p q w"
proof -
  define ls where "ls = lesson_dir (follow [] w) (follow [] q)"
  have taught: "normpath (compute_path_prefix q w) = absolute_path ls"
    unfolding ls_def using assms(3) normal_pathD [OF assms(1)] normal_pathD [OF assms(2)] by (intro taught_directory)
  have qs: "prefix ls (follow [] q)"
    unfolding ls_def by (rule lesson_dir_prefix)
  then have plain: "list_all plain_name ls"
    by (metis follow_plain list_all_append prefixE list.pred_inject(1))
  from assms(4) taught have "\<exists>c. d = absolute_path (take c ls) \<and> (ls = take c ls \<or> 3 \<le> length (take c ls))"
  proof (elim disjE)
    assume "deep_ancestor d (normpath (compute_path_prefix q w))"
    then obtain c where c: "min_merge_depth \<le> c" "c \<le> length (path_parts (absolute_path ls))"
      "d = join_with ''/'' (take c (path_parts (absolute_path ls)))"
      unfolding deep_ancestor_def taught by blast
    have "path_parts (absolute_path []) = [[], []]"
      by code_simp
    then have "ls \<noteq> []"
      using c(1,2) by (auto simp: min_merge_depth_def)
    then have parts: "path_parts (absolute_path ls) = [] # ls"
      using plain by (rule parts_absolute [rotated])
    from c(1) obtain c' where c': "c = Suc c'" "3 \<le> c'"
      by (cases c) (auto simp: min_merge_depth_def)
    with c(2,3) \<open>ls \<noteq> []\<close> show ?thesis
      by (intro exI [of _ c']) (auto simp: parts take_absolute)
  qed (auto intro: exI [of _ "length ls"])
  then obtain c where d: "d = absolute_path (take c ls)" and c: "ls = take c ls \<or> 3 \<le> length (take c ls)"
    by blast
  have "prefix (take c ls) (follow [] p)"
    using within_absolute assms(5,6) plain_take [OF plain] by (simp add: d)
  moreover have "prefix (take c ls) ls" by (rule take_is_prefix)
  ultimately show ?thesis
    using qs c unfolding shared_directory_def ls_def by (metis prefix_order.trans)
qed


subsection \<open>Properties\<close>

fun normal_event :: "cache_event \<Rightarrow> bool" where
  "normal_event (Learned k w q) \<longleftrightarrow> normal_path q \<and> normal_path w"
| "normal_event _ \<longleftrightarrow> True"

lemma lessons_normal:
  "list_all normal_event events \<Longrightarrow> (q, w) \<in> set (lessons k events) \<Longrightarrow> normal_path q \<and> normal_path w"
proof (induction events rule: rev_induct)
  case (snoc e events)
  then show ?case by (cases e) (auto simp: lessons_snoc split: if_splits)
qed (simp add: lessons_def)

text \<open>C33. A path outside the working directory passes the cache of approved prefixes only because a
  read was approved in the same session since its approvals were last cleared: both paths lie below
  one directory, which is the one that approval teaches (the sibling of that working directory, or the
  directory of the approved file) or an ancestor of it of at least three names.\<close>

theorem cached_read_is_near_an_approval:
  assumes "list_all normal_event events"
    and "check_approved_paths (cache_after events) k resolved_paths wd"
    and "p \<in> set resolved_paths" "rooted p" "\<not> is_path_within p wd"
  shows "\<exists>(q, w) \<in> set (lessons k events). \<not> is_path_within q w \<and> (\<exists>ds. shared_directory ds p q w)"
proof -
  obtain d where d: "d \<in> set (cached (cache_after events) k)" "is_path_within p d"
    using assms(2,3,5) by (auto simp: check_approved_paths_def list_all_iff list_ex_iff)
  from prefix_has_lesson [OF d(1)] obtain q w where qw: "(q, w) \<in> set (lessons k events)" "\<not> is_path_within q w"
    "d = normpath (compute_path_prefix q w) \<or> deep_ancestor d (normpath (compute_path_prefix q w))"
    by blast
  from lessons_normal [OF assms(1) qw(1)] prefix_directory [OF _ _ qw(2,3) assms(4) d(2)] qw(1,2)
  show ?thesis by blast
qed

definition sample_key :: cache_key where
  "sample_key = (''u'', ''s'')"

definition sample_events :: "cache_event list" where
  "sample_events = [Learned sample_key ''/home/u/p'' ''/home/u/l/a.py'']"

theorem cached_read_is_near_an_approval_witness:
  "\<exists>(q, w) \<in> set (lessons sample_key sample_events).
     \<not> is_path_within q w \<and> (\<exists>ds. shared_directory ds ''/home/u/l/sub/b.py'' q w)"
  by (rule cached_read_is_near_an_approval [of _ _ "[''/home/u/l/sub/b.py'']" "''/home/u/p''"]) code_simp+

text \<open>However many reads are approved, no session keeps more than fifty prefixes.\<close>

theorem approved_prefixes_bounded:
  "length (cached (cache_after events) k) \<le> max_approved_paths_per_session"
proof (induction events rule: rev_induct)
  case Nil
  then show ?case by (simp add: cache_after_def cached_def)
next
  case (snoc e events)
  then show ?case
    unfolding cache_after_snoc cached_step by (cases e) (simp_all add: add_prefix_length)
qed

text \<open>What is approved passes the next time, unless it lies in the root directory itself.\<close>

lemma within_trans:
  assumes "is_path_within q n" "is_path_within n d"
  shows "is_path_within q d"
  using assms by (auto simp: is_path_within_def Let_def starts_with_iff)

lemma merged_covers:
  assumes "try_merge_prefix (absolute_path ls) known = Some merged" "list_all plain_name ls" "ls \<noteq> []"
  shows "\<exists>d \<in> set merged. is_path_within (absolute_path ls) d"
  using assms(1)
proof (induction known arbitrary: merged)
  case (Cons existing known)
  define c where "c = common_len (path_parts (absolute_path ls)) (path_parts existing)"
  show ?case
  proof (cases "c \<ge> min_merge_depth")
    case True
    then obtain c' where c': "c = Suc c'" "c' \<noteq> 0"
      by (cases c) (auto simp: min_merge_depth_def)
    have d: "join_with ''/'' (take c (path_parts (absolute_path ls))) = absolute_path (take c' ls)"
      using assms(2,3) c' by (simp add: parts_absolute take_absolute)
    have "is_path_within (absolute_path ls) (absolute_path (take c' ls))"
      using assms(2,3) c'(2) plain_take [OF assms(2)]
      by (subst within_rooted) (auto simp: rooted_absolute follow_absolute take_is_prefix)
    moreover have "merged = absolute_path (take c' ls) # known"
      using Cons.prems True d by (simp add: Let_def flip: c_def)
    ultimately show ?thesis by simp
  next
    case False
    with Cons.prems obtain rest where "try_merge_prefix (absolute_path ls) known = Some rest" "merged = existing # rest"
      by (auto simp: Let_def simp flip: c_def)
    with Cons.IH show ?thesis by auto
  qed
qed simp

lemma add_prefix_covers:
  assumes "list_all plain_name ls" "ls \<noteq> []"
  shows "\<exists>d \<in> set (add_prefix (absolute_path ls) known). is_path_within (absolute_path ls) d"
proof (cases "list_ex (is_path_within (absolute_path ls)) known")
  case True
  then show ?thesis by (auto simp: add_prefix_def list_ex_iff)
next
  case False
  show ?thesis
  proof (cases "try_merge_prefix (absolute_path ls) known")
    case None
    let ?all = "known @ [absolute_path ls]"
    have "absolute_path ls \<in> set (drop (length known + 1 - max_approved_paths_per_session) ?all)"
      by (simp add: max_approved_paths_per_session_def)
    then have "absolute_path ls \<in> set (add_prefix (absolute_path ls) known)"
      using False None by (simp add: add_prefix_def)
    then show ?thesis
      by (rule bexI [rotated]) (simp add: is_path_within_def)
  next
    case (Some merged)
    with False merged_covers [OF Some assms] show ?thesis by (simp add: add_prefix_def)
  qed
qed

lemma learned_read_passes:
  assumes "normal_path q" "normal_path w" "2 \<le> length (follow [] q)"
  shows "check_approved_paths (learn_path k w q cache) k [q] w"
proof (cases "is_path_within q w")
  case False
  define ls where "ls = lesson_dir (follow [] w) (follow [] q)"
  note q = normal_pathD [OF assms(1)] and w = normal_pathD [OF assms(2)]
  have taught: "normpath (compute_path_prefix q w) = absolute_path ls"
    unfolding ls_def using False q w by (intro taught_directory)
  have ls: "prefix ls (follow [] q)" "ls \<noteq> []"
    using assms(3) w(3) lesson_dir_prefix by (auto simp: ls_def lesson_dir_def butlast_conv_take)
  then have plain: "list_all plain_name ls"
    by (metis follow_plain list_all_append prefixE list.pred_inject(1))
  have "is_path_within q (absolute_path ls)"
    using q(1) ls plain by (subst within_rooted) (simp_all add: rooted_absolute follow_absolute)
  moreover obtain d where "d \<in> set (add_prefix (absolute_path ls) (cached cache k))" "is_path_within (absolute_path ls) d"
    using add_prefix_covers [OF plain ls(2)] by blast
  ultimately show ?thesis
    using False within_trans
    by (auto simp: check_approved_paths_def learn_path_def approve_path_prefix_def taught list_ex_iff)
qed (simp add: check_approved_paths_def)

text \<open>Three names are enough to merge, and a working directory of one name approves a whole
  top-level directory.\<close>

lemma three_names_merge:
  "try_merge_prefix ''/home/u/src/a'' [''/home/u/src/b''] = Some [''/home/u/src'']"
  by code_simp

lemma shallow_project_teaches_top_level:
  "compute_path_prefix ''/var/log/app.log'' ''/app'' = ''/var''"
  "compute_path_prefix ''/var/log/app.log'' ''/home/u/app'' = ''/var/log''"
  by code_simp+

end
