(* ===== verification/Edit_Scopes.thy ===== *)
theory Edit_Scopes
  imports Path_Learning Audit_Resolution
begin

text \<open>
  Write scopes of \<^verbatim>\<open>Evaluator\<close> in \<^verbatim>\<open>intaris/evaluator.py\<close>: which edits may open or use a
  scope, what an approved edit records, and the lookup that lets a follow-up edit pass without a model,
  with \<^verbatim>\<open>resolve\<close> of \<^verbatim>\<open>intaris/read_only.py\<close> and the clauses of
  \<^verbatim>\<open>intaris/policy.py\<close>.  An absent working directory is the empty string.
\<close>

subsection \<open>The mode of a call\<close>

datatype overlay_error = InvalidChatMode | InvalidReadOnly | InvalidChatModeSource

definition bool_or_absent :: "pydict \<Rightarrow> string \<Rightarrow> bool" where
  "bool_or_absent values key \<longleftrightarrow> (case map_of values key of None \<Rightarrow> True | Some (VBool b) \<Rightarrow> True | Some _ \<Rightarrow> False)"

definition is_text :: "pyval \<Rightarrow> bool" where
  "is_text v \<longleftrightarrow> (case v of VStr _ \<Rightarrow> True | _ \<Rightarrow> False)"

definition resolve_overlay :: "pydict \<Rightarrow> pydict \<Rightarrow> overlay_error + pydict" where
  "resolve_overlay context policy =
     (let mode = dget_default context ''chat_mode'' (VStr ''default'') in
      if mode \<notin> {VStr ''default'', VStr ''plan'', VStr ''build''} then Inl InvalidChatMode
      else if \<not> bool_or_absent context ''read_only_required'' \<or> \<not> bool_or_absent policy ''read_only_required''
      then Inl InvalidReadOnly
      else if dhas context ''chat_mode_source'' \<and> \<not> is_text (dget context ''chat_mode_source'')
      then Inl InvalidChatModeSource
      else Inr [(''chat_mode'', mode), (''chat_mode_source'', dget context ''chat_mode_source''),
             (''read_only_required'',
              VBool (truthy (dget context ''read_only_required'') \<or> truthy (dget policy ''read_only_required'')))])"

subsection \<open>The directory of a call\<close>

definition absolute_text :: "pyval \<Rightarrow> string list" where
  "absolute_text v = (case v of VStr s \<Rightarrow> if isabs s then [normpath s] else [] | _ \<Rightarrow> [])"

definition head_or_empty :: "string list \<Rightarrow> string" where
  "head_or_empty xs = (case xs of [] \<Rightarrow> [] | x # _ \<Rightarrow> x)"

definition effective_working_directory :: "string \<Rightarrow> pydict \<Rightarrow> pydict \<Rightarrow> pydict \<Rightarrow> string" where
  "effective_working_directory tool args context session_details =
     (let candidates =
            (case dget context ''executor_environment'' of
               VDict environment \<Rightarrow> [dget context ''working_directory'', dget environment ''cwd'']
             | _ \<Rightarrow> [dget context ''working_directory'', dget session_details ''working_directory'']);
          base = head_or_empty (concat (map absolute_text candidates))
      in case (tool = ''bash'', dget args ''workdir'') of
           (True, VStr w) \<Rightarrow>
             (if w = [] then base else if isabs w then normpath w
              else if base \<noteq> [] then normpath (path_join base w) else base)
         | _ \<Rightarrow> base)"

subsection \<open>Targets of an edit\<close>

definition workspace_edit_tools :: "string list" where
  "workspace_edit_tools = [''edit'', ''write'', ''multiedit'', ''apply_patch'']"

definition deletes_file :: rx where
  "deletes_file = Seq line_start (exacts [''*** Delete File:'', ''+++ /dev/null''])"

definition patch_headers :: "pydict \<Rightarrow> string list option" where
  "patch_headers args =
     (case dget args ''patchText'' of
        VStr patch \<Rightarrow>
          (if extract_apply_patch_paths patch = [] \<or> found deletes_file patch then None
           else Some (extract_apply_patch_paths patch))
      | _ \<Rightarrow> None)"

definition nested_paths :: "pyval \<Rightarrow> string list" where
  "nested_paths item = (case item of VDict d \<Rightarrow> extract_paths d | _ \<Rightarrow> [])"

definition edit_targets :: "string \<Rightarrow> pydict \<Rightarrow> string \<Rightarrow> string list option" where
  "edit_targets tool args working_directory =
     (let name = py_lower tool in
      if name \<notin> set workspace_edit_tools \<or> (name = ''apply_patch'' \<and> tool \<noteq> ''apply_patch'') then None
      else case (if name = ''apply_patch'' then patch_headers args else Some []) of
        None \<Rightarrow> None
      | Some headers \<Rightarrow>
          (let raw = extract_paths args @ headers;
               targets = map (\<lambda>path. resolve_path path working_directory) raw;
               nested = concat (map nested_paths (items_of (dget args ''edits'')))
           in if raw = [] \<or> list_ex (\<lambda>path. starts_with path ''~'') raw then None
              else if working_directory = [] \<and> \<not> list_all isabs raw then None
              else if name = ''multiedit''
                   \<and> list_ex (\<lambda>path. resolve_path path working_directory \<notin> set targets) nested then None
              else Some targets))"

definition denied_targets :: "string \<Rightarrow> pydict \<Rightarrow> string \<Rightarrow> string list" where
  "denied_targets tool args working_directory =
     resolve_tool_paths (if py_lower tool = ''apply_patch'' then ''apply_patch'' else tool) args working_directory
     @ map (\<lambda>path. resolve_path path working_directory)
         (concat (map nested_paths (items_of (dget args ''edits''))))"

definition deploy_dirs :: "string list" where
  "deploy_dirs = [''deploy'', ''deployment'', ''deployments'', ''k8s'', ''kubernetes'', ''helm'']"

definition protected_edit_target :: "string \<Rightarrow> bool" where
  "protected_edit_target path =
     (let segments = split_on slash (py_lower (replace_char CHR 0x5C slash path)) in
      ''.git'' \<in> set segments
      \<or> list_ex (\<lambda>pair. pair = (''.github'', ''workflows'')) (zip segments (tl segments))
      \<or> last segments \<in> {''.gitlab-ci.yml'', ''jenkinsfile''}
      \<or> list_ex (\<lambda>segment. segment \<in> set deploy_dirs) (butlast segments))"

subsection \<open>The call an audit row records\<close>

text \<open>An overlay in a row is one that \<^verbatim>\<open>resolve\<close> wrote, so it has both keys that are read.\<close>

definition context_arg_key :: string where
  "context_arg_key = ''__intaris_context''"

definition recorded_call :: "audit \<Rightarrow> pydict \<Rightarrow> string \<times> pydict \<times> pydict \<times> string" where
  "recorded_call r session_details =
     (let tool = coalesce (a_tool r) [];
          stored = coalesce (a_args r) [];
          args = filter (\<lambda>e. fst e \<noteq> context_arg_key) stored;
          reason = dget (meta_of r) ''agent_reason'';
          context0 = entries_of (if truthy reason then reason else dget stored context_arg_key);
          overlay = dget (meta_of r) ''overlay'';
          context = (if truthy overlay
             then dset (dset context0 ''chat_mode'' (vget overlay ''chat_mode''))
                    ''read_only_required'' (vget overlay ''read_only_required'')
             else context0)
      in (tool, args, context, effective_working_directory tool args context session_details))"

subsection \<open>Which edits qualify\<close>

text \<open>Whether \<^verbatim>\<open>_normalize_policy_entries\<close> keeps an entry.\<close>

definition clause_value :: "pydict \<Rightarrow> pyval" where
  "clause_value item =
     (if truthy (dget item ''text'') then dget item ''text''
      else if truthy (dget item ''description'') then dget item ''description'' else dget item ''policy'')"

definition policy_entry :: "pyval \<Rightarrow> bool" where
  "policy_entry item =
     (case item of
        VStr s \<Rightarrow> py_strip s \<noteq> []
      | VDict d \<Rightarrow> (case clause_value d of VNone \<Rightarrow> False | VStr s \<Rightarrow> py_strip s \<noteq> [] | _ \<Rightarrow> True)
      | _ \<Rightarrow> False)"

definition normalized_entries :: "pyval \<Rightarrow> pyval list" where
  "normalized_entries raw =
     (case raw of VNone \<Rightarrow> [] | VList items \<Rightarrow> filter policy_entry items | v \<Rightarrow> filter policy_entry [v])"

definition session_policy_of :: "session \<Rightarrow> pydict" where
  "session_policy_of s = coalesce (s_policy s) []"

definition active_snapshot :: "pydict \<Rightarrow> pydict" where
  "active_snapshot policy = entries_of (dget policy ''active_policy'')"

definition policy_profile :: "pydict \<Rightarrow> pyval" where
  "policy_profile policy =
     (if truthy (dget (active_snapshot policy) ''profile'') then dget (active_snapshot policy) ''profile''
      else dget policy ''profile'')"

definition restrictive_prose :: "pydict \<Rightarrow> bool" where
  "restrictive_prose policy =
     (if active_snapshot policy \<noteq> []
      then list_ex (\<lambda>clause. vget clause ''effect'' \<noteq> VStr ''allow'')
             (items_of (dget (active_snapshot policy) ''advisory_clauses''))
      else normalized_entries (dget policy ''deny_policies'') \<noteq> [])"

definition workspace_edit_targets ::
    "session \<Rightarrow> string \<Rightarrow> pydict \<Rightarrow> pydict \<Rightarrow> string \<Rightarrow> 'm option \<Rightarrow> overlay_error + string list option" where
  "workspace_edit_targets s tool args context working_directory minimum =
     (let policy = session_policy_of s in
      if minimum \<noteq> None \<or> policy_profile policy = VStr ''strict'' then Inr None
      else bindE (resolve_overlay context policy) (\<lambda>overlay.
        if read_only_required (Some overlay) \<or> dget overlay ''chat_mode'' = VStr ''plan'' then Inr None
        else if restrictive_prose policy then Inr None
        else case edit_targets tool args working_directory of
          None \<Rightarrow> Inr None
        | Some targets \<Rightarrow>
            if targets = [] \<or> reads_secret_location tool args working_directory
               \<or> list_ex protected_edit_target targets \<or> check_deny_paths targets policy
            then Inr None else Inr (Some targets)))"


subsection \<open>The cache of scopes\<close>

type_synonym revision = "int \<times> int"
type_synonym scope_cache = "(cache_key \<times> revision \<times> string list) list"

definition session_revision :: "session \<Rightarrow> revision" where
  "session_revision s = (s_policy_revision s, s_state_revision s)"

definition scope_root :: "string \<Rightarrow> string option" where
  "scope_root working_directory =
     (if working_directory = [] \<or> normpath working_directory = ''/'' then None else Some (normpath working_directory))"

definition scope_of :: "string \<Rightarrow> string \<Rightarrow> string" where
  "scope_of working_directory target =
     (case scope_root working_directory of
        Some root' \<Rightarrow> if is_path_within target root' then root' else dirname target
      | None \<Rightarrow> dirname target)"

definition add_scope :: "string list \<Rightarrow> string \<Rightarrow> string list" where
  "add_scope recorded scope = (if list_ex (is_path_within scope) recorded then recorded else recorded @ [scope])"

definition keep_newest :: "string list \<Rightarrow> string list" where
  "keep_newest xs = drop (length xs - max_approved_paths_per_session) xs"

definition older :: "revision \<Rightarrow> revision \<Rightarrow> bool" where
  "older new old \<longleftrightarrow> fst new < fst old \<or> snd new < snd old"

definition record_workspace_edit ::
    "cache_key \<Rightarrow> revision \<Rightarrow> string list \<Rightarrow> string \<Rightarrow> scope_cache \<Rightarrow> scope_cache" where
  "record_workspace_edit k rev' targets working_directory cache =
     (let scopes = map (scope_of working_directory) targets;
          current = map_of cache k;
          store = (\<lambda>recorded. AList.update k (rev', keep_newest (foldl add_scope recorded scopes)) cache)
      in case current of
           None \<Rightarrow> store []
         | Some (r0, existing) \<Rightarrow>
             if r0 = rev' then store existing else if older rev' r0 then cache else store [])"

text \<open>\<^verbatim>\<open>AuditStore.get_human_denials\<close>.\<close>

definition human_denials :: "audit_state \<Rightarrow> string \<Rightarrow> string \<Rightarrow> audit list" where
  "human_denials st user sid =
     filter (\<lambda>r. a_user r = user \<and> a_session r = sid \<and> a_type r = ''tool_call''
               \<and> a_resolved_by r = Some ''user'' \<and> a_user_decision r = Some ''deny'') (au_log st)"

definition session_details_of :: "session \<Rightarrow> pydict" where
  "session_details_of s = entries_of (s_details s)"

definition denial_applies :: "session \<Rightarrow> string \<Rightarrow> string \<Rightarrow> string list \<Rightarrow> audit \<Rightarrow> bool" where
  "denial_applies s tool args_hash targets denial =
     ((a_tool denial = Some tool \<and> a_args_hash denial = Some args_hash)
      \<or> (case recorded_call denial (session_details_of s) of
           (tool', args', _, wd') \<Rightarrow> list_ex (\<lambda>t. t \<in> set targets) (denied_targets tool' args' wd')))"

fun match_scopes :: "string list \<Rightarrow> string list \<Rightarrow> string list option" where
  "match_scopes scopes [] = Some []"
| "match_scopes scopes (target # targets) =
     (case List.find (is_path_within target) scopes of
        None \<Rightarrow> None
      | Some scope \<Rightarrow> map_option ((#) scope) (match_scopes scopes targets))"

definition approved_workspace_scopes ::
    "audit_state \<Rightarrow> session \<Rightarrow> string \<Rightarrow> string \<Rightarrow> string list \<Rightarrow> scope_cache \<Rightarrow> string list option" where
  "approved_workspace_scopes st s tool args_hash targets cache =
     (case map_of cache (s_user s, s_id s) of
        None \<Rightarrow> None
      | Some (revision, scopes) \<Rightarrow>
          if revision \<noteq> session_revision s then None
          else case match_scopes scopes targets of
            None \<Rightarrow> None
          | Some matched \<Rightarrow>
              if list_ex (denial_applies s tool args_hash targets) (human_denials st (s_user s) (s_id s)) then None
              else Some (dedup matched))"

text \<open>\<^verbatim>\<open>_learn_workspace_edit\<close>: an edit that the Judge or a human approved later.\<close>

definition recorded_revision :: "audit \<Rightarrow> revision option \<Rightarrow> (pyval \<times> pyval) option" where
  "recorded_revision r resolution_revision =
     (if dhas (meta_of r) ''policy_revision'' \<and> dhas (meta_of r) ''state_revision''
      then Some (dget (meta_of r) ''policy_revision'', dget (meta_of r) ''state_revision'')
      else map_option (\<lambda>(p, q). (VNum (of_int p), VNum (of_int q))) resolution_revision)"

definition learn_workspace_edit ::
    "session \<Rightarrow> audit \<Rightarrow> revision option \<Rightarrow> scope_cache \<Rightarrow> overlay_error + scope_cache" where
  "learn_workspace_edit s r resolution_revision cache =
     (case recorded_call r (session_details_of s) of (tool, args, context, wd) \<Rightarrow>
        bindE (workspace_edit_targets s tool args context wd (a_minimum r)) (\<lambda>targets.
          case targets of
            None \<Rightarrow> Inr cache
          | Some ts \<Rightarrow>
              Inr (if recorded_revision r resolution_revision
                        = Some (VNum (of_int (s_policy_revision s)), VNum (of_int (s_state_revision s)))
                   then record_workspace_edit (a_user r, a_session r) (session_revision s) ts wd cache else cache)))"

definition clear_scopes :: "cache_key \<Rightarrow> scope_cache \<Rightarrow> scope_cache" where
  "clear_scopes k cache = AList.delete k cache"

definition sweep_scopes :: "cache_key list \<Rightarrow> scope_cache \<Rightarrow> scope_cache" where
  "sweep_scopes active cache = filter (\<lambda>e. fst e \<in> set active) cache"

subsection \<open>Runs\<close>

datatype scope_event =
    Recorded cache_key revision "string list" string
  | Scopes_cleared cache_key
  | Scopes_swept "cache_key list"

fun scope_step :: "scope_event \<Rightarrow> scope_cache \<Rightarrow> scope_cache" where
  "scope_step (Recorded k rev' targets wd) cache = record_workspace_edit k rev' targets wd cache"
| "scope_step (Scopes_cleared k) cache = clear_scopes k cache"
| "scope_step (Scopes_swept active) cache = sweep_scopes active cache"

definition scopes_after :: "scope_event list \<Rightarrow> scope_cache" where
  "scopes_after events = fold scope_step events []"

lemma scopes_after_snoc: "scopes_after (events @ [e]) = scope_step e (scopes_after events)"
  by (simp add: scopes_after_def)

lemma map_of_restricted:
  "map_of (filter (\<lambda>e. fst e \<in> set ks) cache) k = (if k \<in> set ks then map_of cache k else None)"
  by (induction cache) auto

lemma add_scopes_members: "d \<in> set (foldl add_scope recorded scopes) \<Longrightarrow> d \<in> set recorded \<or> d \<in> set scopes"
  by (induction scopes arbitrary: recorded) (fastforce simp: add_scope_def split: if_splits)+

lemma keep_newest_members: "d \<in> set (keep_newest xs) \<Longrightarrow> d \<in> set xs"
  by (simp add: keep_newest_def in_set_dropD)

text \<open>The approvals a session still has: what was recorded since it was last cleared or swept.\<close>

fun approval_step ::
    "cache_key \<Rightarrow> scope_event \<Rightarrow> (revision \<times> string list \<times> string) list \<Rightarrow> (revision \<times> string list \<times> string) list" where
  "approval_step k (Recorded k' rev' targets wd) as = (if k' = k then (rev', targets, wd) # as else as)"
| "approval_step k (Scopes_cleared k') as = (if k' = k then [] else as)"
| "approval_step k (Scopes_swept active) as = (if k \<in> set active then as else [])"

definition approvals :: "cache_key \<Rightarrow> scope_event list \<Rightarrow> (revision \<times> string list \<times> string) list" where
  "approvals k events = fold (approval_step k) events []"

definition approved_at :: "scope_event list \<Rightarrow> cache_key \<Rightarrow> revision \<Rightarrow> string \<Rightarrow> bool" where
  "approved_at events k rev' d \<longleftrightarrow>
     (\<exists>(r, targets, wd) \<in> set (approvals k events). r = rev' \<and> (\<exists>t \<in> set targets. d = scope_of wd t))"

lemma approvals_snoc: "approvals k (events @ [e]) = approval_step k e (approvals k events)"
  by (simp add: approvals_def)

lemma record_cases:
  assumes "map_of (record_workspace_edit k' rev' targets wd cache) k = Some (r, scopes)"
  shows "map_of cache k = Some (r, scopes)
    \<or> (k' = k \<and> rev' = r
       \<and> (\<exists>recorded. (recorded = [] \<or> map_of cache k = Some (r, recorded))
            \<and> scopes = keep_newest (foldl add_scope recorded (map (scope_of wd) targets))))"
  using assms
  by (auto simp: record_workspace_edit_def Let_def update_conv' split: if_splits option.splits)

lemma scope_was_approved:
  "map_of (scopes_after events) k = Some (r, scopes) \<Longrightarrow> d \<in> set scopes \<Longrightarrow> approved_at events k r d"
proof (induction events arbitrary: r scopes d rule: rev_induct)
  case (snoc e events)
  have stays: "approved_at (events @ [e]) k r d" if "approved_at events k r d" "map_of (scope_step e (scopes_after events)) k \<noteq> None" for r d
  proof -
    have "set (approvals k events) \<subseteq> set (approvals k (events @ [e]))"
      using that(2) by (cases e) (auto simp: approvals_snoc clear_scopes_def sweep_scopes_def delete_conv' map_of_restricted split: if_splits)
    with that(1) show ?thesis unfolding approved_at_def by fast
  qed
  show ?case
  proof (cases e)
    case (Recorded k' rev' targets wd)
    from snoc.prems(1) Recorded have "map_of (record_workspace_edit k' rev' targets wd (scopes_after events)) k = Some (r, scopes)"
      by (simp add: scopes_after_snoc)
    from record_cases [OF this] consider "map_of (scopes_after events) k = Some (r, scopes)"
      | recorded where "k' = k" "rev' = r" "recorded = [] \<or> map_of (scopes_after events) k = Some (r, recorded)"
          "scopes = keep_newest (foldl add_scope recorded (map (scope_of wd) targets))"
      by blast
    then show ?thesis
    proof cases
      case 1
      then show ?thesis
        using snoc stays by (simp add: scopes_after_snoc)
    next
      case 2
      note k = 2(1,2) and old = 2(3) and sc = 2(4)
      from snoc.prems(2) have "d \<in> set recorded \<or> d \<in> scope_of wd ` set targets"
        unfolding sc using add_scopes_members keep_newest_members by fastforce
      then show ?thesis
      proof
        assume "d \<in> set recorded"
        moreover from this old have "map_of (scopes_after events) k = Some (r, recorded)" by auto
        ultimately have "approved_at events k r d" by (rule snoc.IH [rotated])
        then show ?thesis using stays snoc.prems(1) by (simp add: scopes_after_snoc)
      next
        assume "d \<in> scope_of wd ` set targets"
        then have "\<exists>t \<in> set targets. d = scope_of wd t" by blast
        moreover have "(r, targets, wd) \<in> set (approvals k (events @ [e]))"
          by (simp add: Recorded k approvals_snoc)
        ultimately show ?thesis
          unfolding approved_at_def by (intro bexI [of _ "(r, targets, wd)"]) simp_all
      qed
    qed
  next
    case (Scopes_cleared k')
    with snoc stays show ?thesis
      by (simp add: scopes_after_snoc clear_scopes_def delete_conv' split: if_splits)
  next
    case (Scopes_swept active)
    with snoc stays show ?thesis
      by (simp add: scopes_after_snoc sweep_scopes_def map_of_restricted split: if_splits)
  qed
qed (simp add: scopes_after_def)

lemma match_scopes_within:
  "match_scopes scopes targets = Some matched \<Longrightarrow> t \<in> set targets
     \<Longrightarrow> \<exists>d \<in> set matched. d \<in> set scopes \<and> is_path_within t d"
proof (induction targets arbitrary: matched)
  case (Cons target targets)
  then show ?case
    by (fastforce simp: find_Some_iff split: option.splits dest: nth_mem)
qed simp

subsection \<open>Properties\<close>

text \<open>C34. An edit that passes without a model lies, target by target, in the scope of an edit that was
  approved in the same session at the present policy and state revision and not cleared since (the
  working directory around that edit's target, or the target's own directory), and no human denial of
  the session names this exact call or touches one of its targets.\<close>

theorem follow_up_edit_is_covered:
  assumes "approved_workspace_scopes st s tool args_hash targets (scopes_after events) = Some matched"
  shows "list_all (\<lambda>t. list_ex (\<lambda>d. is_path_within t d
             \<and> approved_at events (s_user s, s_id s) (session_revision s) d) matched) targets
         \<and> \<not> list_ex (denial_applies s tool args_hash targets) (human_denials st (s_user s) (s_id s))"
proof -
  from assms obtain scopes ms where entry: "map_of (scopes_after events) (s_user s, s_id s) = Some (session_revision s, scopes)"
    and ms: "match_scopes scopes targets = Some ms" and matched: "matched = dedup ms"
    and free: "\<not> list_ex (denial_applies s tool args_hash targets) (human_denials st (s_user s) (s_id s))"
    by (auto simp: approved_workspace_scopes_def split: option.splits if_splits prod.splits)
  have "\<exists>d \<in> set ms. is_path_within t d \<and> approved_at events (s_user s, s_id s) (session_revision s) d"
    if "t \<in> set targets" for t
    using match_scopes_within [OF ms that] scope_was_approved [OF entry] by blast
  with free matched show ?thesis
    by (simp add: list_all_iff list_ex_iff)
qed

definition sample_session :: session where
  "sample_session = new_session ''u'' ''s'' ''fix the parser'' 0"

definition sample_log :: audit_state where
  "sample_log = \<lparr>au_db = \<lparr>db_sessions = [sample_session], db_reservations = [], db_tasks = []\<rparr>,
     au_decls = [], au_log = []\<rparr>"

definition sample_edits :: "scope_event list" where
  "sample_edits = [Recorded (''u'', ''s'') (1, 1) [''/home/u/p/a.py''] ''/home/u/p'']"

theorem follow_up_edit_is_covered_witness:
  "list_all (\<lambda>t. list_ex (\<lambda>d. is_path_within t d
       \<and> approved_at sample_edits (s_user sample_session, s_id sample_session) (session_revision sample_session) d)
         [''/home/u/p'']) [''/home/u/p/src/b.py'']
   \<and> \<not> list_ex (denial_applies sample_session ''edit'' ''h'' [''/home/u/p/src/b.py''])
         (human_denials sample_log (s_user sample_session) (s_id sample_session))"
  by (rule follow_up_edit_is_covered) code_simp

lemma scopes_bounded:
  "map_of (scopes_after events) k = Some (r, scopes) \<Longrightarrow> length scopes \<le> max_approved_paths_per_session"
proof (induction events arbitrary: r scopes rule: rev_induct)
  case (snoc e events)
  show ?case
  proof (cases e)
    case (Recorded k' rev' targets wd)
    with snoc.prems have "map_of (record_workspace_edit k' rev' targets wd (scopes_after events)) k = Some (r, scopes)"
      by (simp add: scopes_after_snoc)
    from record_cases [OF this] snoc.IH [of r scopes] show ?thesis
      by (auto simp: keep_newest_def)
  qed (use snoc.IH [of r scopes] snoc.prems in \<open>simp_all add: scopes_after_snoc clear_scopes_def sweep_scopes_def
        delete_conv' map_of_restricted split: if_splits\<close>)
qed (simp add: scopes_after_def)

lemma older_approval_ignored:
  "map_of cache k = Some (r0, scopes) \<Longrightarrow> r0 \<noteq> r \<Longrightarrow> older r r0 \<Longrightarrow> record_workspace_edit k r targets wd cache = cache"
  by (simp add: record_workspace_edit_def Let_def)

end
