(* ===== verification/Precedent.thy ===== *)
theory Precedent
  imports Path_Learning Audit_Resolution
begin

text \<open>
  \<^verbatim>\<open>intaris/precedent.py\<close> and its use by the evaluator: the family and scope of a call, the
  newest human decision on a similar call, and what an approval found there does to the evaluation of
  a model.  A list of decisions holds the rows \<^verbatim>\<open>get_user_decisions\<close> returns, newest first.
\<close>

subsection \<open>Signatures\<close>

definition mutating_verbs :: "string list" where
  "mutating_verbs =
     [''add'', ''create'', ''update'', ''delete'', ''remove'', ''complete'', ''close'', ''reopen'', ''archive'', ''move'']"

definition lookup_verbs :: "string list" where
  "lookup_verbs = [''find'', ''list'', ''get'', ''search'']"

definition read_bash_cmds :: "string list" where
  "read_bash_cmds = [''rg'', ''grep'', ''find'', ''ls'', ''cat'', ''head'', ''tail'', ''tree'', ''wc'']"

definition git_read_cmds :: "string list" where
  "git_read_cmds = [''status'', ''diff'', ''log'', ''show'', ''branch'', ''rev-parse'']"

record signature =
  ps_family :: string
  ps_scope :: string

abbreviation sig :: "string \<Rightarrow> string \<Rightarrow> signature option" where
  "sig family scope \<equiv> Some \<lparr>ps_family = family, ps_scope = scope\<rparr>"

definition strip_char :: "char \<Rightarrow> string \<Rightarrow> string" where
  "strip_char c s = rev (dropWhile (\<lambda>x. x = c) (rev (dropWhile (\<lambda>x. x = c) s)))"

definition tool_word_char :: "char \<Rightarrow> bool" where
  "tool_word_char c \<longleftrightarrow> is_lower c \<or> is_digit c"

function collapse_other :: "string \<Rightarrow> string" where
  "collapse_other [] = []"
| "collapse_other (c # cs) =
     (if tool_word_char c then c # collapse_other cs
      else CHR ''_'' # collapse_other (dropWhile (\<lambda>x. \<not> tool_word_char x) cs))"
  by pat_completeness auto
termination
  by (relation "measure length") (auto simp: le_imp_less_Suc length_dropWhile_le)

definition normalize_tool :: "string \<Rightarrow> string" where
  "normalize_tool tool = strip_char CHR ''_'' (collapse_other (py_lower tool))"

function split_spaces :: "string \<Rightarrow> string list" where
  "split_spaces s =
     (case dropWhile is_space s of
        [] \<Rightarrow> []
      | c # cs \<Rightarrow> takeWhile (\<lambda>x. \<not> is_space x) (c # cs) # split_spaces (dropWhile (\<lambda>x. \<not> is_space x) cs))"
  by pat_completeness auto
termination
  by (relation "measure length")
     (simp_all, metis Suc_le_lessD length_Cons length_dropWhile_le order_trans not_less_eq_eq)

definition command_tokens :: "string \<Rightarrow> string list" where
  "command_tokens command =
     (if command = [] then []
      else case shlex_split command of Inr tokens \<Rightarrow> tokens | Inl _ \<Rightarrow> split_spaces command)"

definition first_text :: "pydict \<Rightarrow> string list \<Rightarrow> (string \<times> string) option" where
  "first_text args names =
     (case concat (map (\<lambda>k. map (Pair k) (nonempty_str (dget args k))) names) of [] \<Rightarrow> None | kv # _ \<Rightarrow> Some kv)"

definition rstrip_slash :: "string \<Rightarrow> string" where
  "rstrip_slash s = rev (dropWhile (\<lambda>c. c = slash) (rev s))"

definition first_pathish :: "pydict \<Rightarrow> string" where
  "first_pathish args =
     (case first_text args [''filePath'', ''file_path'', ''path'', ''directory'', ''dir'', ''folder''] of
        Some (_, v) \<Rightarrow> v
      | None \<Rightarrow>
          (case nonempty_str (dget args ''pattern'') of
             [] \<Rightarrow> []
           | pattern # _ \<Rightarrow>
               (let base = rstrip_slash (takeWhile (\<lambda>c. \<not> one_of ''*{['' c) pattern) in
                if base \<noteq> [] then base else pattern)))"

definition path_scope :: "string \<Rightarrow> string" where
  "path_scope path =
     (if path = [] then []
      else let normalized = normpath path in
           if normalized = ''.'' \<or> normalized = ''/'' then normalized
           else if dirname normalized \<noteq> [] then dirname normalized else normalized)"

definition todoist_scope :: "pydict \<Rightarrow> string" where
  "todoist_scope args =
     (case first_text args [''projectId'', ''project_id'', ''sectionId'', ''section_id'', ''taskId'', ''task_id''] of
        None \<Rightarrow> [] | Some (k, v) \<Rightarrow> k @ '':'' @ v)"

definition bash_signature :: "pydict \<Rightarrow> signature option" where
  "bash_signature args =
     (let command = dget args ''command'' in
      case command_tokens (if truthy command then arg_text command else []) of
        [] \<Rightarrow> None
      | cmd # rest \<Rightarrow>
          if py_lower cmd \<in> set read_bash_cmds then
            sig ''repo_read'' (path_scope (if rest \<noteq> [] then last rest else []))
          else if py_lower cmd = ''git'' \<and> rest \<noteq> [] \<and> py_lower (hd rest) \<in> set git_read_cmds then sig ''git_read'' []
          else None)"

definition build_precedent_signature :: "string \<Rightarrow> pydict \<Rightarrow> signature option" where
  "build_precedent_signature tool args =
     (let normalized = normalize_tool tool in
      if normalized \<in> {''web_search'', ''web_fetch''} then sig ''web_lookup'' []
      else if normalized \<in> {''read'', ''grep'', ''glob''} then sig ''repo_read'' (path_scope (first_pathish args))
      else if normalized \<in> {''write'', ''edit''} then sig ''repo_write'' (path_scope (first_pathish args))
      else if normalized = ''bash'' then bash_signature args
      else if sublist ''todoist'' normalized then
        (let tokens = split_on CHR ''_'' normalized in
         if list_ex (\<lambda>t. t \<in> set lookup_verbs) tokens then sig ''todoist_lookup'' (todoist_scope args)
         else if list_ex (\<lambda>t. t \<in> set mutating_verbs) tokens then sig ''todoist_mutation'' (todoist_scope args)
         else sig (''tool:'' @ normalized) [])
      else if normalized \<noteq> [] then sig (''tool:'' @ normalized) []
      else None)"

definition scopes_compatible :: "signature \<Rightarrow> signature \<Rightarrow> bool" where
  "scopes_compatible current prior \<longleftrightarrow>
     ps_family current = ps_family prior
     \<and> (ps_scope current = [] \<or> ps_scope prior = []
        \<or> starts_with (ps_scope current) (ps_scope prior) \<or> starts_with (ps_scope prior) (ps_scope current))"

subsection \<open>The newest decision\<close>

definition similar :: "signature \<Rightarrow> audit \<Rightarrow> bool" where
  "similar current r \<longleftrightarrow>
     (case build_precedent_signature (coalesce (a_tool r) []) (coalesce (a_args r) []) of
        None \<Rightarrow> False | Some prior \<Rightarrow> scopes_compatible current prior)"

definition human_word :: "audit \<Rightarrow> string" where
  "human_word r = py_lower (coalesce (a_user_decision r) [])"

fun newest_similar :: "signature \<Rightarrow> audit list \<Rightarrow> audit option" where
  "newest_similar current [] = None"
| "newest_similar current (r # rs) =
     (if \<not> similar current r then newest_similar current rs
      else if human_word r = ''deny'' then None
      else if human_word r = ''approve'' then Some r
      else newest_similar current rs)"

definition find_authoritative_precedent :: "string \<Rightarrow> pydict \<Rightarrow> audit list \<Rightarrow> audit option" where
  "find_authoritative_precedent tool args user_decisions =
     (case build_precedent_signature tool args of
        None \<Rightarrow> None | Some current \<Rightarrow> newest_similar current user_decisions)"

subsection \<open>Its effect on an evaluation\<close>

definition lenient_risk :: "string \<Rightarrow> bool" where
  "lenient_risk risk \<longleftrightarrow> py_lower risk \<in> {''low'', ''medium''}"

definition precedent_reasoning :: "string \<Rightarrow> audit \<Rightarrow> string \<Rightarrow> string" where
  "precedent_reasoning tool r why =
     (let note = py_strip (coalesce (a_user_note r) []); prior_tool = py_strip (coalesce (a_tool r) []) in
      ''Final human approval for a sufficiently similar operation in this session is authoritative precedent. '' @ why
      @ (if prior_tool \<noteq> [] \<and> prior_tool \<noteq> tool then '' Prior approved tool: '' @ prior_tool @ ''.'' else [])
      @ (if note \<noteq> [] then '' User note: \"'' @ note @ ''\".'' else []))"

definition apply_authoritative_user_precedent ::
    "string \<Rightarrow> pydict \<Rightarrow> audit list \<Rightarrow> evaluation_result \<Rightarrow> evaluation_result" where
  "apply_authoritative_user_precedent tool args_redacted user_decisions e =
     (if er_aligned e \<or> \<not> lenient_risk (er_risk e) then e
      else case find_authoritative_precedent tool args_redacted user_decisions of
        None \<Rightarrow> e
      | Some r \<Rightarrow>
          \<lparr>er_aligned = True, er_risk = er_risk e, er_reasoning = precedent_reasoning tool r (er_reasoning e),
           er_decision = ''approve''\<rparr>)"

text \<open>The end of \<^verbatim>\<open>_llm_evaluation_flow\<close>; \<open>jev\<close> tells which backend answered.\<close>

definition model_decision :: "bool \<Rightarrow> string \<Rightarrow> pydict \<Rightarrow> audit list \<Rightarrow> evaluation_result \<Rightarrow> final_decision" where
  "model_decision jev tool args_redacted user_decisions answer =
     (let e = apply_authoritative_user_precedent tool args_redacted user_decisions answer in
      if jev \<and> er_decision e = ''escalate'' then decide Escalate (er_risk e) (er_reasoning e) ''llm''
      else apply_decision_matrix e)"

text \<open>The Judge's variant in \<^verbatim>\<open>judge.py\<close>.\<close>

definition judge_precedent ::
    "string \<Rightarrow> pydict \<Rightarrow> string option \<Rightarrow> audit list \<Rightarrow> string \<times> string \<times> string \<Rightarrow> string \<times> string \<times> string" where
  "judge_precedent tool args_redacted risk user_decisions verdict =
     (if \<not> lenient_risk (coalesce risk []) then verdict
      else case find_authoritative_precedent tool args_redacted user_decisions of
        None \<Rightarrow> verdict
      | Some r \<Rightarrow> (''approve'', ''high'', precedent_reasoning tool r (snd (snd verdict))))"

subsection \<open>Properties\<close>

text \<open>An approval with no newer denial, both of similar calls.\<close>

definition undecided :: "signature \<Rightarrow> audit list \<Rightarrow> bool" where
  "undecided current ds \<longleftrightarrow> list_all (\<lambda>d. similar current d \<longrightarrow> human_word d \<notin> {''approve'', ''deny''}) ds"

definition precedent_in :: "string \<Rightarrow> pydict \<Rightarrow> audit list \<Rightarrow> audit \<Rightarrow> bool" where
  "precedent_in tool args ds r \<longleftrightarrow>
     (\<exists>current newer older'. build_precedent_signature tool args = Some current \<and> ds = newer @ r # older'
        \<and> similar current r \<and> human_word r = ''approve'' \<and> undecided current newer)"

lemma split_Cons:
  "(\<exists>n os. d # ds = n @ r # os \<and> P n) \<longleftrightarrow> (d = r \<and> P []) \<or> (\<exists>n os. ds = n @ r # os \<and> P (d # n))"
proof
  assume "\<exists>n os. d # ds = n @ r # os \<and> P n"
  then obtain n os where "d # ds = n @ r # os" "P n" by blast
  then show "(d = r \<and> P []) \<or> (\<exists>n os. ds = n @ r # os \<and> P (d # n))"
    by (cases n) auto
next
  assume "(d = r \<and> P []) \<or> (\<exists>n os. ds = n @ r # os \<and> P (d # n))"
  then show "\<exists>n os. d # ds = n @ r # os \<and> P n"
    by (metis append_Cons append_Nil)
qed

lemma newest_similar_iff:
  "newest_similar current ds = Some r \<longleftrightarrow>
     similar current r \<and> human_word r = ''approve'' \<and> (\<exists>newer older'. ds = newer @ r # older' \<and> undecided current newer)"
proof (induction ds)
  case (Cons d ds)
  then show ?case
    unfolding split_Cons by (auto simp: undecided_def)
qed simp

lemma find_precedent_iff: "find_authoritative_precedent tool args ds = Some r \<longleftrightarrow> precedent_in tool args ds r"
  by (auto simp: find_authoritative_precedent_def precedent_in_def newest_similar_iff split: option.splits)

text \<open>C35. A call the model found out of line with the intention is approved only at low or medium risk,
  and only when a human approved a similar call of the session and denied none since.\<close>

theorem unaligned_approval_has_precedent:
  assumes "d_outcome (model_decision jev tool args_redacted ds answer) = Approve" "\<not> er_aligned answer"
  shows "lenient_risk (er_risk answer) \<and> (\<exists>r \<in> set ds. precedent_in tool args_redacted ds r)"
proof -
  have "lenient_risk (er_risk answer) \<and> find_authoritative_precedent tool args_redacted ds \<noteq> None"
    using assms by (auto simp: model_decision_def Let_def apply_authoritative_user_precedent_def
        matrix_approves_iff split: if_splits option.splits)
  then obtain r where "lenient_risk (er_risk answer)" "precedent_in tool args_redacted ds r"
    using find_precedent_iff by blast
  moreover from this(2) have "r \<in> set ds"
    by (auto simp: precedent_in_def)
  ultimately show ?thesis by blast
qed


definition approved_read :: audit where
  "approved_read =
     \<lparr>a_id = ''1'', a_call = ''c1'', a_type = ''tool_call'', a_user = ''u'', a_session = ''s'', a_agent = None,
      a_timestamp = 0, a_tool = Some ''read'', a_args = Some [(''path'', VStr ''/home/u/app/x'')], a_content = None,
      a_classification = Some ''write'', a_path = ''llm'', a_decision = ''escalate'', a_risk = Some ''low'',
      a_reasoning = None, a_latency = 0, a_user_decision = Some ''approve'', a_user_note = None,
      a_resolved_at = Some 1, a_resolved_by = Some ''user'', a_scope = None, a_judge_reasoning = None,
      a_judge_decision = None, a_judge_risk = None, a_args_hash = None, a_profile_version = None,
      a_intention = None, a_injection = False, a_raw = ''escalate'', a_effective = ''approve'', a_maximum = None,
      a_minimum = None, a_override = None, a_meta = None, a_logical = VNone, a_digest = VNone\<rparr>"

definition doubtful_answer :: evaluation_result where
  "doubtful_answer = \<lparr>er_aligned = False, er_risk = ''Low'', er_reasoning = ''unrelated'', er_decision = ''deny''\<rparr>"

theorem unaligned_approval_has_precedent_witness:
  "lenient_risk (er_risk doubtful_answer)
   \<and> (\<exists>r \<in> set [approved_read]. precedent_in ''read'' [(''path'', VStr ''/home/u/app/y'')] [approved_read] r)"
  by (rule unaligned_approval_has_precedent [where jev = False]) code_simp+

text \<open>A directory and its namesake with a suffix are one scope, and a line of commands has the family
  of its first word.\<close>

lemma scope_ignores_boundaries:
  "find_authoritative_precedent ''read'' [(''path'', VStr ''/home/u/app-secrets/key'')] [approved_read] = Some approved_read"
  by code_simp

lemma family_of_first_word:
  "find_authoritative_precedent ''bash'' [(''command'', VStr ''cat /home/u/app/x; rm -r /home/u/app/data'')] [approved_read]
     = Some approved_read"
  by code_simp

end
