(* ===== verification/Policy_View.thy ===== *)
theory Policy_View
  imports Edit_Scopes Precedent
begin

text \<open>
  \<^verbatim>\<open>intaris/policy.py\<close> and \<^verbatim>\<open>_build_path_policy_context\<close> of \<^verbatim>\<open>intaris/evaluator.py\<close>:
  what a model is shown of a policy, with the path patterns that are covered by others left out, and the
  facts about the paths of a call.  \<open>str_of\<close> is Python's \<^verbatim>\<open>str\<close> on values that are not
  texts.
\<close>

subsection \<open>Clauses\<close>

definition value_text :: "(pyval \<Rightarrow> string) \<Rightarrow> pyval \<Rightarrow> string" where
  "value_text str_of v = (case v of VNone \<Rightarrow> [] | VStr s \<Rightarrow> py_strip s | _ \<Rightarrow> py_strip (str_of v))"

definition present_fields :: "pydict \<Rightarrow> string list \<Rightarrow> pydict" where
  "present_fields d keys = concat (map (\<lambda>k. if dget d k = VNone then [] else [(k, dget d k)]) keys)"

definition clause_entry :: "(pyval \<Rightarrow> string) \<Rightarrow> nat \<Rightarrow> pyval \<Rightarrow> pydict list" where
  "clause_entry str_of index item =
     (case item of
        VStr s \<Rightarrow> if py_strip s = [] then [] else [[(''text'', VStr (py_strip s))]]
      | VDict d \<Rightarrow>
          let w = value_text str_of (clause_value d);
              entry = (''text'', VStr w) # present_fields d [''id'', ''applies_to'', ''risk_ceiling'', ''severity'']
          in if w = [] then []
             else [if dhas entry ''id'' then entry
                   else dset entry ''id'' (VStr (''policy_'' @ nat_str (index + 1)))]
      | _ \<Rightarrow> [])"

definition normalize_policy_entries :: "(pyval \<Rightarrow> string) \<Rightarrow> pyval \<Rightarrow> pydict list" where
  "normalize_policy_entries str_of raw =
     (case raw of
        VNone \<Rightarrow> []
      | VList items \<Rightarrow> concat (map (\<lambda>i. clause_entry str_of i (items ! i)) [0..<length items])
      | v \<Rightarrow> clause_entry str_of 0 v)"

definition normalized_policy_clauses :: "(pyval \<Rightarrow> string) \<Rightarrow> pydict \<Rightarrow> pydict" where
  "normalized_policy_clauses str_of policy =
     concat (map (\<lambda>key. let entries = normalize_policy_entries str_of (dget policy key) in
                if entries = [] then [] else [(key, VList (map VDict entries))])
       [''allow_policies'', ''deny_policies''])"

subsection \<open>Redundant path patterns\<close>

definition subtree_pattern_root :: "string \<Rightarrow> string" where
  "subtree_pattern_root pattern =
     (let r = rstrip_slash (take (length pattern - 2) pattern) in if r = [] then ''/'' else r)"

definition simple_subtree_pattern :: "string \<Rightarrow> bool" where
  "simple_subtree_pattern pattern \<longleftrightarrow>
     starts_with pattern ''/'' \<and> ends_with pattern ''/*''
     \<and> \<not> list_ex (\<lambda>c. c \<in> set ''*?['') (subtree_pattern_root pattern)"

definition simple_root :: "pyval \<Rightarrow> string option" where
  "simple_root v =
     (case v of VStr s \<Rightarrow> if simple_subtree_pattern s then Some (subtree_pattern_root s) else None | _ \<Rightarrow> None)"

text \<open>Whether the pattern at index \<open>j\<close> makes the one at \<open>i\<close> go.\<close>

definition covers_pattern :: "pyval list \<Rightarrow> nat \<Rightarrow> nat \<Rightarrow> bool" where
  "covers_pattern paths i j \<longleftrightarrow>
     (case (simple_root (paths ! j), simple_root (paths ! i)) of
        (Some parent, Some child) \<Rightarrow>
          j \<noteq> i \<and> (if parent = child then j < i
                else length parent \<le> length child \<and> starts_with child (parent @ ''/''))
      | _ \<Rightarrow> False)"

definition reduce_allow_paths :: "pyval list \<Rightarrow> pyval list" where
  "reduce_allow_paths paths =
     map ((!) paths)
       (filter (\<lambda>i. \<not> list_ex (covers_pattern paths i) [0..<length paths]) [0..<length paths])"

definition effective_policy :: "(pyval \<Rightarrow> string) \<Rightarrow> pydict \<Rightarrow> pydict" where
  "effective_policy str_of policy =
     (let base = filter (\<lambda>e. fst e \<noteq> ''maximum_outcome'') policy;
          reduced = (case dget policy ''allow_paths'' of
                       VList paths \<Rightarrow> dset base ''allow_paths'' (VList (reduce_allow_paths paths)) | _ \<Rightarrow> base)
      in dmerge reduced (normalized_policy_clauses str_of policy))"

subsection \<open>Facts about paths\<close>

definition path_allowed_by_pattern :: "string \<Rightarrow> string \<Rightarrow> bool" where
  "path_allowed_by_pattern path pattern \<longleftrightarrow>
     fnmatchcase path pattern \<or> (ends_with pattern ''/*'' \<and> path = take (length pattern - 2) pattern)"

definition path_policy_context :: "(pyval \<Rightarrow> string) \<Rightarrow> string list \<Rightarrow> string \<Rightarrow> pydict \<Rightarrow> pydict" where
  "path_policy_context str_of resolved_paths working_directory policy =
     (let allow = str_members (dget policy ''allow_paths'');
          deny = str_members (dget policy ''deny_paths'')
      in [(''working_directory'', VStr working_directory),
          (''working_directory_allowed_by_policy'',
            VBool (working_directory \<noteq> [] \<and> list_ex (path_allowed_by_pattern working_directory) allow)),
          (''working_directory_denied_by_policy'',
            VBool (working_directory \<noteq> [] \<and> list_ex (path_allowed_by_pattern working_directory) deny)),
          (''target_paths'', VStrs resolved_paths),
          (''inside_working_directory'', VStrs (filter (\<lambda>p. is_path_within p working_directory) resolved_paths)),
          (''outside_working_directory'', VStrs (filter (\<lambda>p. \<not> is_path_within p working_directory) resolved_paths)),
          (''allow_paths'', VStrs (str_members (dget (effective_policy str_of policy) ''allow_paths''))),
          (''deny_paths'', VStrs deny),
          (''all_targets_allowed_by_policy'',
            VBool (resolved_paths \<noteq> [] \<and> allow \<noteq> [] \<and> list_all (\<lambda>p. list_ex (fnmatchcase p) allow) resolved_paths)),
          (''any_target_denied_by_policy'',
            VBool (resolved_paths \<noteq> [] \<and> list_ex (\<lambda>p. list_ex (fnmatchcase p) deny) resolved_paths))])"

subsection \<open>Patterns of subtrees\<close>

lemma glob_star [simp]: "glob_match [GStar] s"
  by (induction s) auto

lemma parse_literal:
  "\<not> list_ex (\<lambda>c. c \<in> set ''*?['') w \<Longrightarrow> glob_parse (w @ s) = map GLit w @ glob_parse s"
  by (induction w) auto

lemma match_literal: "glob_match (map GLit w @ gs) s \<longleftrightarrow> (\<exists>t. s = w @ t \<and> glob_match gs t)"
proof (induction w arbitrary: s)
  case (Cons a w)
  then show ?case by (cases s) auto
qed simp

lemma match_one_then_any: "glob_match [GLit a, GStar] s \<longleftrightarrow> (\<exists>t. s = a # t)"
  by (cases s) auto

lemma subtree_pattern_matches:
  assumes "\<not> list_ex (\<lambda>c. c \<in> set ''*?['') w"
  shows "fnmatchcase p (w @ ''/*'') \<longleftrightarrow> starts_with p (w @ ''/'')"
proof -
  have "\<not> list_ex (\<lambda>c. c \<in> set ''*?['') (w @ ''/'')" using assms by simp
  from parse_literal [OF this, of "''*''"] show ?thesis
    by (auto simp: fnmatchcase_def match_literal starts_with_iff match_one_then_any)
qed

lemma rstrip_slash_id: "xs = [] \<or> last xs \<noteq> slash \<Longrightarrow> rstrip_slash xs = xs"
  by (cases xs rule: rev_cases) (auto simp: rstrip_slash_def)

text \<open>A pattern whose root is followed by one slash only.\<close>

definition tidy_pattern :: "pyval \<Rightarrow> bool" where
  "tidy_pattern v \<longleftrightarrow> (case v of VStr s \<Rightarrow> \<not> ends_with s ''//*'' | _ \<Rightarrow> True)"

definition below_root :: "string \<Rightarrow> string \<Rightarrow> bool" where
  "below_root p r \<longleftrightarrow> starts_with p ((if r = ''/'' then [] else r) @ ''/'')"

lemma simple_pattern_matches:
  assumes "simple_root (VStr s) = Some r" "tidy_pattern (VStr s)"
  shows "fnmatchcase p s \<longleftrightarrow> below_root p r"
proof -
  from assms(1) have simple: "simple_subtree_pattern s" and r: "r = subtree_pattern_root s"
    by (auto simp: simple_root_def split: if_splits)
  from simple obtain w where s: "s = w @ ''/*''"
    by (metis simple_subtree_pattern_def ends_with_def append_take_drop_id)
  have w: "take (length s - 2) s = w" by (simp add: s)
  have "\<not> (w \<noteq> [] \<and> last w = slash)"
    using assms(2) by (cases w rule: rev_cases) (auto simp: tidy_pattern_def s ends_with_def)
  then have strip: "rstrip_slash w = w" using rstrip_slash_id by blast
  then have root: "r = (if w = [] then ''/'' else w)"
    unfolding r subtree_pattern_root_def w by (simp add: Let_def)
  have "w \<noteq> ''/''" using \<open>\<not> (w \<noteq> [] \<and> last w = slash)\<close> by auto
  moreover have "\<not> list_ex (\<lambda>c. c \<in> set ''*?['') w"
    using simple root by (auto simp: simple_subtree_pattern_def r [symmetric] split: if_splits)
  ultimately show ?thesis
    unfolding s subtree_pattern_matches [OF \<open>\<not> list_ex _ w\<close>] by (simp add: root below_root_def)
qed

lemma simple_root_nonempty: "simple_root v = Some r \<Longrightarrow> r \<noteq> []"
  by (auto simp: simple_root_def subtree_pattern_root_def Let_def split: pyval.splits if_splits)

lemma str_member_at: "s \<in> set (str_members (VList paths)) \<longleftrightarrow> (\<exists>i < length paths. paths ! i = VStr s)"
proof -
  have "s \<in> set (str_members (VList paths)) \<longleftrightarrow> VStr s \<in> set paths"
    by (induction paths) (auto split: pyval.splits)
  then show ?thesis by (auto simp: in_set_conv_nth)
qed

lemma below_trans:
  assumes "starts_with child (parent @ ''/'')" "below_root p child" "child \<noteq> ''/''"
  shows "below_root p parent"
  using assms by (auto simp: below_root_def starts_with_iff)

subsection \<open>Dropping a covered pattern\<close>

text \<open>The pattern that stays in place of the one at an index.\<close>

lemma covering_pattern_kept:
  assumes "i < length paths" "simple_root (paths ! i) = Some r" "below_root p r"
  shows "\<exists>j < length paths. \<exists>q. \<not> list_ex (covers_pattern paths j) [0..<length paths]
           \<and> simple_root (paths ! j) = Some q \<and> below_root p q"
  using assms
proof (induction "(length r, i)" arbitrary: i r rule: wf_induct_rule [OF wf_lex_prod [OF wf_less_than wf_less_than]])
  case (1 i r)
  show ?case
  proof (cases "list_ex (covers_pattern paths i) [0..<length paths]")
    case False
    with 1 show ?thesis by blast
  next
    case True
    then obtain j where j: "j < length paths" "covers_pattern paths i j"
      by (auto simp: list_ex_iff)
    with 1(3) obtain q where q: "simple_root (paths ! j) = Some q" "j \<noteq> i"
      "if q = r then j < i else length q \<le> length r \<and> starts_with r (q @ ''/'')"
      by (auto simp: covers_pattern_def split: option.splits)
    show ?thesis
    proof (cases "q = r")
      case True
      with q 1(4) show ?thesis
        using 1(1) [of r j] j by simp
    next
      case False
      with q(3) have sub: "starts_with r (q @ ''/'')" by simp
      then have "length q < length r" by (auto simp: starts_with_iff)
      moreover have "r \<noteq> ''/''"
        using sub simple_root_nonempty [OF q(1)] by (auto simp: starts_with_iff append_eq_Cons_conv)
      then have "below_root p q"
        using below_trans [OF sub 1(4)] by blast
      ultimately show ?thesis
        using 1(1) [of q j] j q(1) by simp
    qed
  qed
qed

subsection \<open>Properties\<close>

text \<open>C36. The reduced list of allowed paths that a model is shown grants the same paths as the stored one,
  when no stored pattern ends with a doubled slash before its star.  With such a pattern it can grant less
  (\<open>doubled_slash_hides_pattern\<close>).\<close>

theorem reduced_paths_allow_the_same:
  assumes "list_all tidy_pattern paths"
  shows "list_ex (fnmatchcase p) (str_members (VList (reduce_allow_paths paths)))
           \<longleftrightarrow> list_ex (fnmatchcase p) (str_members (VList paths))"
proof
  assume "list_ex (fnmatchcase p) (str_members (VList paths))"
  then obtain i s where i: "i < length paths" "paths ! i = VStr s" "fnmatchcase p s"
    unfolding list_ex_iff Bex_def str_member_at by blast
  show "list_ex (fnmatchcase p) (str_members (VList (reduce_allow_paths paths)))"
  proof (cases "list_ex (covers_pattern paths i) [0..<length paths]")
    case False
    with i show ?thesis
      by (force simp: list_ex_iff reduce_allow_paths_def)
  next
    case True
    then obtain r where r: "simple_root (paths ! i) = Some r"
      by (auto simp: covers_pattern_def list_ex_iff split: option.splits)
    moreover have "below_root p r"
      using simple_pattern_matches [of s r p] i r assms by (auto simp: list_all_length)
    ultimately obtain j q where j: "j < length paths" "\<not> list_ex (covers_pattern paths j) [0..<length paths]"
        "simple_root (paths ! j) = Some q" "below_root p q"
      using covering_pattern_kept [OF i(1)] by blast
    from j(3) obtain t where t: "paths ! j = VStr t"
      by (auto simp: simple_root_def split: pyval.splits)
    have "fnmatchcase p t"
      using simple_pattern_matches [of t q p] j t assms by (auto simp: list_all_length)
    with j t show ?thesis
      by (force simp: list_ex_iff reduce_allow_paths_def)
  qed
next
  assume "list_ex (fnmatchcase p) (str_members (VList (reduce_allow_paths paths)))"
  then show "list_ex (fnmatchcase p) (str_members (VList paths))"
    by (auto simp: list_ex_iff reduce_allow_paths_def split: pyval.splits)
qed

definition sample_paths :: "pyval list" where
  "sample_paths = [VStr ''/src/a/*'', VStr ''/src/*'', VStr ''/tmp/?'']"

theorem reduced_paths_allow_the_same_witness:
  "list_ex (fnmatchcase ''/src/a/b'') (str_members (VList (reduce_allow_paths sample_paths)))
     \<longleftrightarrow> list_ex (fnmatchcase ''/src/a/b'') (str_members (VList sample_paths))"
  by (rule reduced_paths_allow_the_same) code_simp

lemma doubled_slash_hides_pattern:
  "reduce_allow_paths [VStr ''/a//*'', VStr ''/a/*''] = [VStr ''/a//*'']"
  "fnmatchcase ''/a/x'' ''/a/*'' \<and> \<not> fnmatchcase ''/a/x'' ''/a//*''"
  by code_simp+

end
