(* ===== verification/Redaction.thy ===== *)
theory Redaction
  imports Pattern
begin

text \<open>
  \<^verbatim>\<open>intaris/redactor.py\<close>: what is put in place of secrets before the arguments of a call are
  stored or shown to a model.  The value of a sensitive key goes as a whole; in every other text the
  matches of the patterns go, in the order of the table, each on the result of the one before.
\<close>

subsection \<open>Patterns\<close>

definition at_least :: "nat \<Rightarrow> (char \<Rightarrow> bool) \<Rightarrow> rx" where
  "at_least n cls = Seq (seqs (replicate (n - 1) (One cls))) (Many cls)"

definition exactly :: "nat \<Rightarrow> (char \<Rightarrow> bool) \<Rightarrow> rx" where
  "exactly n cls = seqs (replicate n (One cls))"

definition plain_char :: "char \<Rightarrow> bool" where
  "plain_char c \<longleftrightarrow> is_letter c \<or> is_digit c"

definition is_upper :: "char \<Rightarrow> bool" where
  "is_upper c \<longleftrightarrow> is_letter c \<and> \<not> is_lower c"

definition token_char :: "char \<Rightarrow> bool" where
  "token_char c \<longleftrightarrow> plain_char c \<or> c \<in> set ''_-''"

definition base64_char :: "char \<Rightarrow> bool" where
  "base64_char c \<longleftrightarrow> plain_char c \<or> c \<in> set ''+/''"

definition secret_char :: "char \<Rightarrow> bool" where
  "secret_char c \<longleftrightarrow> plain_char c \<or> c \<in> set ''_-/+''"

definition quote_mark :: "char \<Rightarrow> bool" where
  "quote_mark c \<longleftrightarrow> c = CHR 0x22 \<or> c = CHR 0x27"

definition name_char :: "char \<Rightarrow> bool" where
  "name_char c \<longleftrightarrow> plain_char c \<or> c = CHR ''_''"

text \<open>\<^verbatim>\<open>_is_likely_api_key\<close> and \<^verbatim>\<open>_is_likely_aws_secret\<close>.\<close>

definition is_likely_api_key :: "string \<Rightarrow> bool" where
  "is_likely_api_key w \<longleftrightarrow> list_ex is_upper (drop 3 w) \<and> list_ex is_digit (drop 3 w)"

definition is_likely_aws_secret :: "string \<Rightarrow> bool" where
  "is_likely_aws_secret w \<longleftrightarrow>
     length (filter (\<lambda>c. c = CHR ''/'') w) \<le> 3 \<and> \<not> starts_with w ''/''
     \<and> \<not> list_all (\<lambda>c. c \<in> set ''0123456789abcdef'') w
     \<and> list_ex is_upper w \<and> list_ex is_lower w \<and> list_ex is_digit w"

text \<open>Curl's basic authentication: group 1 is the option, 2 the quote, 3 the user name.\<close>

definition user_option :: rx where
  "user_option =
     Cap 1 (Seq (not_after (\<lambda>c. \<not> is_space c))
       (Alt (Seq (exact ''--user'') (Alt (exact ''='') spaces)) (Seq (exact ''-u'') (Opt spaces))))"

definition quoted_auth :: "char \<Rightarrow> rx" where
  "quoted_auth q =
     seqs [Cap 2 (exact [q]), Cap 3 (Opt (Many (\<lambda>c. c \<noteq> CHR '':'' \<and> \<not> quote_mark c))), exact '':'',
       Many (\<lambda>c. \<not> quote_mark c), exact [q]]"

definition curl_quoted_basic_auth :: rx where
  "curl_quoted_basic_auth = Seq user_option (Alt (quoted_auth CHR 0x27) (quoted_auth CHR 0x22))"

definition curl_unquoted_basic_auth :: rx where
  "curl_unquoted_basic_auth =
     seqs [user_option, Cap 3 (Opt (Many (\<lambda>c. c \<noteq> CHR '':'' \<and> \<not> is_space c \<and> \<not> quote_mark c))), exact '':'',
       Many (\<lambda>c. \<not> is_space c \<and> \<not> quote_mark c)]"

definition key_value :: "rx \<Rightarrow> rx" where
  "key_value names = seqs [not_after name_char, names, exact ''='', Opt (One quote_mark), at_least 8 secret_char]"

definition two_words :: "string \<Rightarrow> string \<Rightarrow> rx" where
  "two_words a b = seqs [Lit a, Opt (One (\<lambda>c. c \<in> set ''_-'')), Lit b]"

definition credential_names :: rx where
  "credential_names =
     Alt (two_words ''api'' ''key'') (Alt (two_words ''api'' ''secret'') (Alt (two_words ''access'' ''token'')
       (Alt (two_words ''auth'' ''token'') (Alt (two_words ''secret'' ''key'') (two_words ''private'' ''key'')))))"

definition key_mark :: "string \<Rightarrow> rx" where
  "key_mark w =
     seqs [exact (''-----'' @ w), spaces, Opt (Seq (exact ''RSA'') spaces), exact ''PRIVATE'', spaces,
       exact ''KEY-----'']"

text \<open>The lazy \<^verbatim>\<open>[\s\S]*?\<close> stops where the end mark first matches.\<close>

definition private_key_block :: rx where
  "private_key_block =
     seqs [key_mark ''BEGIN'',
       Rep (Seq (Look (\<lambda>b r. rx_match (key_mark ''END'') (b, r) = [])) (One (\<lambda>_. True))), key_mark ''END'']"

definition value_patterns :: "(rx \<times> string \<times> (string \<Rightarrow> bool)) list" where
  "value_patterns =
     [(Seq (exact ''sk-'') (at_least 20 token_char), ''api_key'', is_likely_api_key),
      (Seq (exact ''AKIA'') (exactly 16 (\<lambda>c. is_upper c \<or> is_digit c)), ''aws_key'', \<lambda>_. True),
      (seqs [not_after base64_char, exactly 40 base64_char, not_before (\<lambda>c. base64_char c \<or> c = CHR ''='')],
        ''aws_secret'', is_likely_aws_secret),
      (seqs [exact ''gh'', One (\<lambda>c. c \<in> set ''ps''), exact ''_'', at_least 36 plain_char], ''github_token'', \<lambda>_. True),
      (Seq (exact ''github_pat_'') (at_least 22 name_char), ''github_token'', \<lambda>_. True),
      (Seq (exact ''glpat-'') (at_least 20 token_char), ''gitlab_token'', \<lambda>_. True),
      (seqs [exact ''xox'', One (\<lambda>c. c \<in> set ''bpras''), exact ''-'', Many (\<lambda>c. plain_char c \<or> c = CHR ''-'')],
        ''slack_token'', \<lambda>_. True),
      (seqs [exact ''Bearer'', spaces, at_least 20 (\<lambda>c. plain_char c \<or> c \<in> set ''._-'')], ''bearer_token'', \<lambda>_. True),
      (seqs [exacts [''postgresql'', ''postgres'', ''mysql'', ''mongodb'', ''redis'', ''amqp'', ''amqps''],
         exact ''://'', Many (\<lambda>c. \<not> is_space c \<and> \<not> quote_mark c)], ''connection_string'', \<lambda>_. True),
      (key_value credential_names, ''credential'', \<lambda>_. True),
      (key_value (Alt (Lit ''password'') (Lit ''passwd'')), ''password'', \<lambda>_. True),
      (seqs [exact ''eyJ'', Many token_char, exact ''.eyJ'', Many token_char, exact ''.'', Many token_char],
        ''jwt'', \<lambda>_. True),
      (private_key_block, ''private_key'', \<lambda>_. True)]"

definition sensitive_keys :: "string list" where
  "sensitive_keys =
     [''password'', ''passwd'', ''pwd'', ''secret'', ''token'', ''api_key'', ''apikey'', ''api-key'', ''access_key'',
      ''secret_key'', ''private_key'', ''auth'', ''authorization'', ''credential'', ''credentials'',
      ''connection_string'', ''dsn'']"

subsection \<open>Rewriting\<close>

text \<open>\<^verbatim>\<open>sub\<close> with a function of the match; group 0 is the whole match.\<close>

definition re_sub_with :: "rx \<Rightarrow> (groups \<Rightarrow> string) \<Rightarrow> string \<Rightarrow> string" where
  "re_sub_with pat f s = concat (map (case_sum (\<lambda>c. [c]) f) (scan (Cap 0 pat) [] s))"

definition marker :: "string \<Rightarrow> string" where
  "marker label = ''[REDACTED:'' @ label @ '']''"

definition redact_auth :: "string \<Rightarrow> string" where
  "redact_auth s =
     re_sub_with curl_unquoted_basic_auth
       (\<lambda>m. group_text m 1 @ group_text m 3 @ '':'' @ marker ''password'')
       (re_sub_with curl_quoted_basic_auth
          (\<lambda>m. group_text m 1 @ group_text m 2 @ group_text m 3 @ '':'' @ marker ''password'' @ group_text m 2) s)"

definition redact_pattern :: "rx \<times> string \<times> (string \<Rightarrow> bool) \<Rightarrow> string \<Rightarrow> string" where
  "redact_pattern p s =
     re_sub_with (fst p)
       (\<lambda>m. if snd (snd p) (group_text m 0) then marker (fst (snd p)) else group_text m 0) s"

definition sensitive_key :: "string option \<Rightarrow> bool" where
  "sensitive_key key \<longleftrightarrow> (case key of None \<Rightarrow> False | Some k \<Rightarrow> k \<noteq> [] \<and> py_lower k \<in> set sensitive_keys)"

definition redact_string :: "string option \<Rightarrow> string \<Rightarrow> string" where
  "redact_string key s =
     (if sensitive_key key then marker ''credential'' else fold redact_pattern value_patterns (redact_auth s))"

fun redact_value :: "string option \<Rightarrow> pyval \<Rightarrow> pyval" where
  "redact_value key (VDict d) = VDict (map (\<lambda>e. (fst e, redact_value (Some (fst e)) (snd e))) d)"
| "redact_value key (VList xs) = VList (map (redact_value None) xs)"
| "redact_value key (VStr s) = VStr (redact_string key s)"
| "redact_value key v = v"

definition redact :: "pydict \<Rightarrow> pydict" where
  "redact args = entries_of (redact_value None (VDict args))"

subsection \<open>Properties\<close>

lemma redact_entries: "redact args = map (\<lambda>e. (fst e, redact_value (Some (fst e)) (snd e))) args"
  by (simp add: redact_def)

text \<open>Values of one shape: the same constructors, keys and lengths; texts may differ.\<close>

fun same_shape :: "pyval \<Rightarrow> pyval \<Rightarrow> bool" where
  "same_shape (VDict d) (VDict e) = list_all2 (\<lambda>x y. fst x = fst y \<and> same_shape (snd x) (snd y)) d e"
| "same_shape (VList xs) (VList ys) = list_all2 same_shape xs ys"
| "same_shape (VStr s) (VStr t) = True"
| "same_shape v w = (v = w)"

lemma redacted_shape: "same_shape v (redact_value key v)"
  by (induction key v rule: redact_value.induct) (auto simp: list_all2_map2 list_all2_same)

text \<open>C24. Redaction keeps the shape of the arguments: the same keys in the same order, lists of the same
  lengths, texts in place of texts and every other value as it was.\<close>

theorem redaction_keeps_shape: "same_shape (VDict args) (VDict (redact args))"
  using redacted_shape [of "VDict args" None] by (simp add: redact_entries)

text \<open>Values that differ at most in the texts of sensitive keys.\<close>

fun same_public :: "string option \<Rightarrow> pyval \<Rightarrow> pyval \<Rightarrow> bool" where
  "same_public key (VDict d) (VDict e) = list_all2 (\<lambda>x y. fst x = fst y \<and> same_public (Some (fst x)) (snd x) (snd y)) d e"
| "same_public key (VList xs) (VList ys) = list_all2 (same_public None) xs ys"
| "same_public key (VStr s) (VStr t) = (sensitive_key key \<or> s = t)"
| "same_public key v w = (v = w)"

lemma maps_agree:
  assumes "list_all2 P xs ys" "\<And>x y. x \<in> set xs \<Longrightarrow> y \<in> set ys \<Longrightarrow> P x y \<Longrightarrow> f x = f y"
  shows "map f xs = map f ys"
  using assms by (induction rule: list_all2_induct) auto

lemma public_redacted: "same_public key v w \<Longrightarrow> redact_value key v = redact_value key w"
proof (induction key v w rule: same_public.induct)
  case (1 key d e)
  from 1(2) have "list_all2 (\<lambda>x y. fst x = fst y \<and> same_public (Some (fst x)) (snd x) (snd y)) d e"
    by simp
  then show ?case
    by (simp, elim maps_agree) (use 1(1) in fastforce)
next
  case (2 key xs ys)
  from 2(2) have "list_all2 (same_public None) xs ys" by simp
  then show ?case
    by (simp, elim maps_agree) (use 2(1) in blast)
qed (auto simp: redact_string_def)

text \<open>C23. The text of a sensitive key leaves no trace: two calls whose arguments differ only in texts that
  stand directly under sensitive keys have the same redacted arguments, at whatever depth the keys are.
  Lists and dictionaries under a sensitive key are compared like any other value: their texts are not
  redacted for that key (\<open>nested_secret_is_kept\<close>).\<close>

theorem sensitive_text_leaves_no_trace:
  assumes "same_public None (VDict args) (VDict other)"
  shows "redact args = redact other"
  using public_redacted [OF assms] by (simp add: redact_def)

theorem sensitive_text_leaves_no_trace_witness:
  "redact [(''host'', VStr ''db''), (''login'', VDict [(''Token'', VStr ''s3cret'')])]
     = redact [(''host'', VStr ''db''), (''login'', VDict [(''Token'', VStr ''other'')])]"
  by (rule sensitive_text_leaves_no_trace) code_simp

lemma nested_secret_is_kept:
  "redact [(''password'', VList [VStr ''hunter2'']), (''auth'', VDict [(''value'', VStr ''hunter2'')])]
     = [(''password'', VList [VStr ''hunter2'']), (''auth'', VDict [(''value'', VStr ''hunter2'')])]"
  by code_simp

lemma redaction_sample: "redact_auth ''-u b:p w'' = ''-u b:[REDACTED:password] w''"
  by code_simp

end
