(* ===== verification/Alignment_Barrier.thy ===== *)
theory Alignment_Barrier
  imports Session_Modes "HOL-Library.AList"
begin

text \<open>
  \<^verbatim>\<open>AlignmentBarrier\<close> of \<^verbatim>\<open>intaris/alignment.py\<close>: the verdicts and overrides kept in
  memory, the pending checks, and the asynchronous check itself, cut where it awaits.  What runs on the
  event loop between two awaits is one step; the answer of the reviewer is an argument.  A cancelled
  task never resumes its body, so cancelling removes the check; its event is set.
\<close>

type_synonym barrier_key = "string \<times> string"

datatype review_answer = Verdict bool string | Review_revoked | Review_failed string

datatype check_phase = Queued | Reviewing session session int | Finishing

record alignment_check =
  ck_id :: nat
  ck_key :: barrier_key
  ck_revision :: "int option"
  ck_phase :: check_phase

record barrier =
  ab_db :: database
  ab_misaligned :: "(barrier_key \<times> string) list"
  ab_overridden :: "barrier_key list"
  ab_pending :: "(barrier_key \<times> nat) list"
  ab_checks :: "alignment_check list"
  ab_next :: nat

definition hybrid_session :: "session \<Rightarrow> bool" where
  "hybrid_session s \<longleftrightarrow> oget (s_policy s) ''evaluation_policy_version'' = VStr ''hybrid_v1''"

subsection \<open>Verdicts and overrides\<close>

definition is_misaligned :: "barrier_key \<Rightarrow> barrier \<Rightarrow> string option" where
  "is_misaligned k st = (if k \<in> set (ab_overridden st) then None else map_of (ab_misaligned st) k)"

definition add_key :: "barrier_key \<Rightarrow> barrier_key list \<Rightarrow> barrier_key list" where
  "add_key k ks = (if k \<in> set ks then ks else ks @ [k])"

definition acknowledge :: "int \<Rightarrow> barrier_key \<Rightarrow> barrier \<Rightarrow> barrier" where
  "acknowledge now k st =
     st\<lparr>ab_overridden := add_key k (ab_overridden st), ab_misaligned := AList.delete k (ab_misaligned st),
        ab_db := set_alignment_overridden now (fst k) (snd k) True (ab_db st)\<rparr>"

definition clear_override :: "int \<Rightarrow> barrier_key \<Rightarrow> barrier \<Rightarrow> barrier" where
  "clear_override now k st =
     st\<lparr>ab_overridden := removeAll k (ab_overridden st),
        ab_db := set_alignment_overridden now (fst k) (snd k) False (ab_db st)\<rparr>"

definition clear_session :: "barrier_key \<Rightarrow> barrier \<Rightarrow> barrier" where
  "clear_session k st =
     st\<lparr>ab_misaligned := AList.delete k (ab_misaligned st), ab_overridden := removeAll k (ab_overridden st)\<rparr>"

definition restore_overrides :: "barrier \<Rightarrow> barrier \<times> nat" where
  "restore_overrides st =
     (let rows = filter (\<lambda>s. s_parent s \<noteq> None \<and> s_status s \<in> {''active'', ''idle''} \<and> s_alignment_overridden s)
                   (db_sessions (ab_db st))
      in (st\<lparr>ab_overridden := fold add_key (map session_key rows) (ab_overridden st)\<rparr>, length rows))"

definition sweep_alignment :: "barrier_key list \<Rightarrow> barrier \<Rightarrow> barrier \<times> nat" where
  "sweep_alignment active st =
     (st\<lparr>ab_misaligned := filter (\<lambda>e. fst e \<in> set active) (ab_misaligned st),
         ab_overridden := filter (\<lambda>k. k \<in> set active) (ab_overridden st)\<rparr>,
      length (filter (\<lambda>e. fst e \<notin> set active) (ab_misaligned st))
        + length (filter (\<lambda>k. k \<notin> set active) (ab_overridden st)))"

subsection \<open>Triggering and cancelling\<close>

definition drop_pending :: "barrier_key \<Rightarrow> barrier \<Rightarrow> barrier" where
  "drop_pending k st =
     (case map_of (ab_pending st) k of
        None \<Rightarrow> st
      | Some i \<Rightarrow> st\<lparr>ab_checks := filter (\<lambda>c. ck_id c \<noteq> i) (ab_checks st)\<rparr>)"

definition cancel :: "barrier_key \<Rightarrow> barrier \<Rightarrow> barrier" where
  "cancel k st =
     (let st1 = drop_pending k (clear_session k st) in st1\<lparr>ab_pending := AList.delete k (ab_pending st1)\<rparr>)"

definition start_check :: "barrier_key \<Rightarrow> int option \<Rightarrow> barrier \<Rightarrow> barrier" where
  "start_check k revision st =
     st\<lparr>ab_checks := ab_checks st @ [\<lparr>ck_id = ab_next st, ck_key = k, ck_revision = revision, ck_phase = Queued\<rparr>],
        ab_pending := AList.update k (ab_next st) (ab_pending st), ab_next := ab_next st + 1\<rparr>"

definition mark_pending :: "barrier_key \<Rightarrow> session \<Rightarrow> barrier \<Rightarrow> barrier" where
  "mark_pending k s st =
     (if hybrid_session s
      then (case set_alignment_state (fst k) (snd k) ''pending'' None None (ab_db st) of
              Inl _ \<Rightarrow> st | Inr (_, db) \<Rightarrow> st\<lparr>ab_db := db\<rparr>)
      else st)"

definition trigger :: "barrier_key \<Rightarrow> barrier \<Rightarrow> barrier" where
  "trigger k st =
     (let st1 = drop_pending k st in
      case find_session (ab_db st1) (fst k) (snd k) of
        None \<Rightarrow> start_check k None st1
      | Some s \<Rightarrow>
          if \<not> s_guardrails_enabled s then cancel k st1
          else start_check k (Some (s_guardrails_revision s)) (mark_pending k s st1))"

text \<open>\<^verbatim>\<open>recheck_children\<close>: the children classified as misaligned, durably or in memory.\<close>

definition misaligned_children :: "string \<Rightarrow> string \<Rightarrow> barrier \<Rightarrow> barrier_key list" where
  "misaligned_children user parent st =
     map (\<lambda>(u, sid, _). (user, sid))
       (filter (\<lambda>(u, sid, state). state = ''misaligned'' \<or> is_misaligned (user, sid) st \<noteq> None)
         (get_active_child_sessions (Some user) (Some parent) (ab_db st)))"

definition recheck_children :: "string \<Rightarrow> string \<Rightarrow> barrier \<Rightarrow> barrier \<times> nat" where
  "recheck_children user parent st =
     (fold trigger (misaligned_children user parent st) st, length (misaligned_children user parent st))"

subsection \<open>The check\<close>

definition set_phase :: "nat \<Rightarrow> check_phase \<Rightarrow> barrier \<Rightarrow> barrier" where
  "set_phase i p st = st\<lparr>ab_checks := map (\<lambda>c. if ck_id c = i then c\<lparr>ck_phase := p\<rparr> else c) (ab_checks st)\<rparr>"

definition find_check :: "nat \<Rightarrow> barrier \<Rightarrow> alignment_check option" where
  "find_check i st = List.find (\<lambda>c. ck_id c = i) (ab_checks st)"

text \<open>Up to the call of the reviewer in its thread.\<close>

definition review_subject :: "alignment_check \<Rightarrow> database \<Rightarrow> (session \<times> session \<times> int) option" where
  "review_subject c db =
     (case (find_session db (fst (ck_key c)) (snd (ck_key c)), new_fence db (fst (ck_key c)) (snd (ck_key c))) of
        (Some s, Inr revision) \<Rightarrow>
          if ck_revision c \<noteq> None \<and> ck_revision c \<noteq> Some revision then None
          else if s_parent s \<in> {None, Some []} then None
          else (case find_session db (fst (ck_key c)) (coalesce (s_parent s) []) of
                  None \<Rightarrow> None
                | Some p \<Rightarrow> if s_intention p = [] \<or> s_intention s = [] then None else Some (s, p, revision))
      | _ \<Rightarrow> None)"

definition begin_check :: "nat \<Rightarrow> barrier \<Rightarrow> barrier" where
  "begin_check i st =
     (case find_check i st of
        None \<Rightarrow> st
      | Some c \<Rightarrow>
          if ck_phase c \<noteq> Queued then st
          else case review_subject c (ab_db st) of
            None \<Rightarrow> set_phase i Finishing st
          | Some (s, p, revision) \<Rightarrow> set_phase i (Reviewing s p revision) st)"

text \<open>After it: the durable state by compare-and-set, then the verdict in memory.\<close>

definition misalignment_reason :: "session \<Rightarrow> session \<Rightarrow> string \<Rightarrow> string" where
  "misalignment_reason s p why =
     ''Child session misaligned with parent ('' @ coalesce (s_parent s) [] @ ''): '' @ why
       @ ''. Parent intention: '' @ s_intention p"

definition keep_verdict :: "barrier_key \<Rightarrow> session \<Rightarrow> session \<Rightarrow> bool \<Rightarrow> string \<Rightarrow> barrier \<Rightarrow> barrier" where
  "keep_verdict k s p aligned why st =
     (if aligned then st\<lparr>ab_misaligned := AList.delete k (ab_misaligned st)\<rparr>
      else if k \<in> set (ab_overridden st) then st
      else st\<lparr>ab_misaligned := AList.update k (misalignment_reason s p why) (ab_misaligned st)\<rparr>)"

definition store_state :: "barrier_key \<Rightarrow> session \<Rightarrow> string \<Rightarrow> string \<Rightarrow> barrier \<Rightarrow> bool \<times> barrier" where
  "store_state k s state why st =
     (if \<not> hybrid_session s then (True, st)
      else case set_alignment_state (fst k) (snd k) state (Some (s_state_revision s)) (Some why) (ab_db st) of
             Inl _ \<Rightarrow> (False, st) | Inr (written, db) \<Rightarrow> (written, st\<lparr>ab_db := db\<rparr>))"

definition conclude :: "barrier_key \<Rightarrow> session \<Rightarrow> session \<Rightarrow> int \<Rightarrow> review_answer \<Rightarrow> barrier \<Rightarrow> barrier" where
  "conclude k s p revision answer st =
     (case answer of
        Review_revoked \<Rightarrow> st
      | Review_failed kind \<Rightarrow>
          snd (store_state k s ''error'' (''Alignment review unavailable ('' @ kind @ ''); retry evaluation.'') st)
      | Verdict aligned why \<Rightarrow>
          if fence_check (ab_db st) (fst k) (snd k) revision \<noteq> Inr () then st
          else (let written = store_state k s
                      (if aligned \<or> k \<in> set (ab_overridden st) then ''ready'' else ''misaligned'') why st
                in if fst written then keep_verdict k s p aligned why (snd written) else snd written))"

definition finish_check :: "nat \<Rightarrow> review_answer \<Rightarrow> barrier \<Rightarrow> barrier" where
  "finish_check i answer st =
     (case find_check i st of
        None \<Rightarrow> st
      | Some c \<Rightarrow>
          (case ck_phase c of
             Reviewing s p revision \<Rightarrow> set_phase i Finishing (conclude (ck_key c) s p revision answer st)
           | _ \<Rightarrow> st))"

text \<open>Behind \<^verbatim>\<open>sleep(0)\<close>: only its own entry is removed.\<close>

definition clean_up :: "nat \<Rightarrow> barrier \<Rightarrow> barrier" where
  "clean_up i st =
     (case find_check i st of
        None \<Rightarrow> st
      | Some c \<Rightarrow>
          if ck_phase c \<noteq> Finishing then st
          else st\<lparr>ab_checks := filter (\<lambda>c. ck_id c \<noteq> i) (ab_checks st),
                  ab_pending := (if map_of (ab_pending st) (ck_key c) = Some i
                    then AList.delete (ck_key c) (ab_pending st) else ab_pending st)\<rparr>)"

subsection \<open>Waiting\<close>

text \<open>Whether \<^verbatim>\<open>wait\<close> blocks: an entry whose event is not set.\<close>

definition in_flight :: "alignment_check \<Rightarrow> bool" where
  "in_flight c \<longleftrightarrow> ck_phase c \<noteq> Finishing"

definition waits :: "barrier_key \<Rightarrow> barrier \<Rightarrow> bool" where
  "waits k st =
     (case map_of (ab_pending st) k of
        None \<Rightarrow> False
      | Some i \<Rightarrow> (case find_check i st of None \<Rightarrow> False | Some c \<Rightarrow> in_flight c))"

text \<open>
  \<^verbatim>\<open>wait\<close> up to where it may block: it passes at once (and the code returns False), or is held by the
  event of one check.  A session that is not found passes.
\<close>

datatype wait_result = Passed | Held nat

definition wait_alignment :: "barrier_key \<Rightarrow> barrier \<Rightarrow> wait_result \<times> barrier" where
  "wait_alignment k st =
     (case find_session (ab_db st) (fst k) (snd k) of
        None \<Rightarrow> (Passed, st)
      | Some s \<Rightarrow>
          if \<not> s_guardrails_enabled s then (Passed, cancel k st)
          else (case map_of (ab_pending st) k of
                  None \<Rightarrow> (Passed, st)
                | Some i \<Rightarrow> (if waits k st then Held i else Passed, st)))"

text \<open>
  The rest of it, in a later state: a held call goes on when the event of its check is set, or when the
  bounded wait times out, whatever the check does then (fail-open).  The event of a check is set when the
  check finishes or is cancelled.
\<close>

definition event_set :: "nat \<Rightarrow> barrier \<Rightarrow> bool" where
  "event_set i st \<longleftrightarrow> (case find_check i st of None \<Rightarrow> True | Some c \<Rightarrow> \<not> in_flight c)"

definition wait_returns :: "wait_result \<Rightarrow> bool \<Rightarrow> barrier \<Rightarrow> bool" where
  "wait_returns r timed_out st \<longleftrightarrow> (case r of Passed \<Rightarrow> True | Held i \<Rightarrow> timed_out \<or> event_set i st)"


subsection \<open>Runs\<close>

text \<open>Every interleaving of requests, checks and other writers of the database.\<close>

datatype barrier_event =
    Triggered barrier_key
  | Begun nat
  | Finished nat review_answer
  | Cleaned nat
  | Acknowledged int barrier_key
  | Override_cleared int barrier_key
  | Session_cleared barrier_key
  | Cancelled barrier_key
  | Swept_alignment "barrier_key list"
  | Database_moved database

fun barrier_step :: "barrier_event \<Rightarrow> barrier \<Rightarrow> barrier" where
  "barrier_step (Triggered k) st = trigger k st"
| "barrier_step (Begun i) st = begin_check i st"
| "barrier_step (Finished i answer) st = finish_check i answer st"
| "barrier_step (Cleaned i) st = clean_up i st"
| "barrier_step (Acknowledged now k) st = acknowledge now k st"
| "barrier_step (Override_cleared now k) st = clear_override now k st"
| "barrier_step (Session_cleared k) st = clear_session k st"
| "barrier_step (Cancelled k) st = cancel k st"
| "barrier_step (Swept_alignment active) st = fst (sweep_alignment active st)"
| "barrier_step (Database_moved db) st = st\<lparr>ab_db := db\<rparr>"

definition barrier_run :: "barrier_event list \<Rightarrow> barrier \<Rightarrow> barrier" where
  "barrier_run events st = fold barrier_step events st"

definition started :: "database \<Rightarrow> barrier" where
  "started db = fst (restore_overrides
     \<lparr>ab_db = db, ab_misaligned = [], ab_overridden = [], ab_pending = [], ab_checks = [], ab_next = 0\<rparr>)"

subsection \<open>The invariant\<close>

text \<open>
  An overridden session has no verdict; every check has an identifier of its own; a check that is not
  finished is the one its session waits for, and what a session waits for is a check of its own.
\<close>

definition verdicts_ok :: "barrier \<Rightarrow> bool" where
  "verdicts_ok st \<longleftrightarrow> (\<forall>k \<in> set (ab_overridden st). map_of (ab_misaligned st) k = None)"

definition checks_ok :: "barrier \<Rightarrow> bool" where
  "checks_ok st \<longleftrightarrow>
     distinct (map ck_id (ab_checks st)) \<and> (\<forall>c \<in> set (ab_checks st). ck_id c < ab_next st)
     \<and> (\<forall>c \<in> set (ab_checks st). in_flight c \<longrightarrow> map_of (ab_pending st) (ck_key c) = Some (ck_id c))
     \<and> (\<forall>k i. map_of (ab_pending st) k = Some i \<longrightarrow> (\<exists>c \<in> set (ab_checks st). ck_id c = i \<and> ck_key c = k))"

definition barrier_ok :: "barrier \<Rightarrow> bool" where
  "barrier_ok st \<longleftrightarrow> verdicts_ok st \<and> checks_ok st"

lemma find_check_iff:
  assumes "checks_ok st"
  shows "find_check i st = Some c \<longleftrightarrow> c \<in> set (ab_checks st) \<and> ck_id c = i"
proof -
  have "c = c'" if "c \<in> set (ab_checks st)" "c' \<in> set (ab_checks st)" "ck_id c = ck_id c'" for c c'
    using assms that unique_row [of ck_id "ab_checks st"] by (auto simp: checks_ok_def)
  moreover have "c' \<in> set (ab_checks st) \<and> ck_id c' = i" if "find_check i st = Some c'" for c'
    using that by (auto simp: find_check_def find_Some_iff)
  moreover have "find_check i st \<noteq> None" if "c \<in> set (ab_checks st)" "ck_id c = i"
    using that by (auto simp: find_check_def find_None_iff)
  ultimately show ?thesis by (metis not_None_eq)
qed

text \<open>Operations that leave one half alone.\<close>

lemma checks_ok_cong:
  "ab_checks st' = ab_checks st \<Longrightarrow> ab_pending st' = ab_pending st \<Longrightarrow> ab_next st' = ab_next st
     \<Longrightarrow> checks_ok st \<Longrightarrow> checks_ok st'"
  by (simp add: checks_ok_def)

lemma verdicts_ok_cong:
  "ab_misaligned st' = ab_misaligned st \<Longrightarrow> ab_overridden st' = ab_overridden st \<Longrightarrow> verdicts_ok st \<Longrightarrow> verdicts_ok st'"
  by (simp add: verdicts_ok_def)

lemma map_of_kept: "map_of (filter (\<lambda>e. fst e \<in> A) m) k = (if k \<in> A then map_of m k else None)"
  by (induction m) auto

lemma set_add_key [simp]: "set (add_key k ks) = insert k (set ks)"
  by (auto simp: add_key_def)

lemma verdicts_ok_memory [invariant_intros]:
  assumes "verdicts_ok st"
  shows "verdicts_ok (acknowledge now k st)" "verdicts_ok (clear_override now k st)" "verdicts_ok (clear_session k st)"
    "verdicts_ok (fst (sweep_alignment active st))" "verdicts_ok (keep_verdict k s p aligned why st)"
  using assms
  by (auto simp: verdicts_ok_def acknowledge_def clear_override_def clear_session_def sweep_alignment_def keep_verdict_def
      map_of_kept delete_conv' update_conv')

lemma drop_pending_simps [simp]:
  "ab_misaligned (drop_pending k st) = ab_misaligned st" "ab_overridden (drop_pending k st) = ab_overridden st"
  "ab_pending (drop_pending k st) = ab_pending st" "ab_next (drop_pending k st) = ab_next st"
  "ab_db (drop_pending k st) = ab_db st"
  by (simp_all add: drop_pending_def split: option.splits)

lemma mark_pending_simps [simp]:
  "ab_misaligned (mark_pending k s st) = ab_misaligned st" "ab_overridden (mark_pending k s st) = ab_overridden st"
  "ab_pending (mark_pending k s st) = ab_pending st" "ab_next (mark_pending k s st) = ab_next st"
  "ab_checks (mark_pending k s st) = ab_checks st"
  by (simp_all add: mark_pending_def split: sum.splits)

lemma set_phase_simps [simp]:
  "ab_misaligned (set_phase i p st) = ab_misaligned st" "ab_overridden (set_phase i p st) = ab_overridden st"
  "ab_pending (set_phase i p st) = ab_pending st" "ab_next (set_phase i p st) = ab_next st"
  "ab_db (set_phase i p st) = ab_db st"
  by (simp_all add: set_phase_def)

lemma store_state_simps [simp]:
  "ab_misaligned (snd (store_state k s state why st)) = ab_misaligned st"
  "ab_overridden (snd (store_state k s state why st)) = ab_overridden st"
  "ab_pending (snd (store_state k s state why st)) = ab_pending st"
  "ab_checks (snd (store_state k s state why st)) = ab_checks st" "ab_next (snd (store_state k s state why st)) = ab_next st"
  by (simp_all add: store_state_def split: sum.splits)

lemma keep_verdict_simps [simp]:
  "ab_overridden (keep_verdict k s p aligned why st) = ab_overridden st"
  "ab_pending (keep_verdict k s p aligned why st) = ab_pending st"
  "ab_checks (keep_verdict k s p aligned why st) = ab_checks st" "ab_next (keep_verdict k s p aligned why st) = ab_next st"
  by (simp_all add: keep_verdict_def)

lemma conclude_simps [simp]:
  "ab_overridden (conclude k s p revision answer st) = ab_overridden st"
  "ab_pending (conclude k s p revision answer st) = ab_pending st"
  "ab_checks (conclude k s p revision answer st) = ab_checks st" "ab_next (conclude k s p revision answer st) = ab_next st"
  by (cases answer; simp add: conclude_def Let_def)+

lemma verdicts_ok_conclude:
  assumes "verdicts_ok st"
  shows "verdicts_ok (conclude k s p revision answer st)"
proof -
  have "verdicts_ok (snd (store_state k s state why st))" for state why
    using assms by (rule verdicts_ok_cong [rotated 2]) simp_all
  then show ?thesis
    using assms by (cases answer) (simp_all add: conclude_def Let_def verdicts_ok_memory)
qed

lemma verdicts_ok_step: "verdicts_ok st \<Longrightarrow> verdicts_ok (barrier_step e st)"
proof (induction e)
  case (Triggered k)
  then show ?case
    by (auto simp: trigger_def Let_def cancel_def start_check_def clear_session_def verdicts_ok_def delete_conv' split: option.splits)
next
  case (Begun i)
  then show ?case
    by (auto simp: begin_check_def verdicts_ok_def split: option.splits)
next
  case (Finished i answer)
  have "verdicts_ok (set_phase i Finishing (conclude k s p revision answer st))" for k s p revision
    using verdicts_ok_conclude [OF Finished] by (rule verdicts_ok_cong [rotated 2]) simp_all
  with Finished show ?case
    by (auto simp: finish_check_def split: option.splits check_phase.splits)
next
  case (Cleaned i)
  then show ?case
    by (auto simp: clean_up_def verdicts_ok_def split: option.splits)
next
  case (Cancelled k)
  then show ?case
    by (auto simp: cancel_def Let_def clear_session_def verdicts_ok_def delete_conv')
qed (auto intro: verdicts_ok_memory verdicts_ok_cong)


lemma checks_okD:
  assumes "checks_ok st"
  shows "distinct (map ck_id (ab_checks st))" "c \<in> set (ab_checks st) \<Longrightarrow> ck_id c < ab_next st"
    "c \<in> set (ab_checks st) \<Longrightarrow> in_flight c \<Longrightarrow> map_of (ab_pending st) (ck_key c) = Some (ck_id c)"
    "map_of (ab_pending st) k = Some i \<Longrightarrow> \<exists>c \<in> set (ab_checks st). ck_id c = i \<and> ck_key c = k"
    "c \<in> set (ab_checks st) \<Longrightarrow> c' \<in> set (ab_checks st) \<Longrightarrow> ck_id c = ck_id c' \<Longrightarrow> c = c'"
  using assms unique_row [of ck_id "ab_checks st" c c'] unfolding checks_ok_def by blast+

lemma dropped_checks:
  assumes "checks_ok st"
  shows "set (ab_checks (drop_pending k st)) = {c \<in> set (ab_checks st). map_of (ab_pending st) k \<noteq> Some (ck_id c)}"
    "distinct (map ck_id (ab_checks (drop_pending k st)))"
  using checks_okD(1) [OF assms] by (auto simp: drop_pending_def distinct_map_filter split: option.splits)

lemma dropped_in_flight:
  "checks_ok st \<Longrightarrow> c \<in> set (ab_checks (drop_pending k st)) \<Longrightarrow> in_flight c \<Longrightarrow> ck_key c \<noteq> k"
  using checks_okD(3) dropped_checks(1) by fastforce

lemma dropped_pending:
  assumes "checks_ok st" "map_of (ab_pending st) k' = Some i" "k' \<noteq> k"
  shows "\<exists>c \<in> set (ab_checks (drop_pending k st)). ck_id c = i \<and> ck_key c = k'"
proof -
  obtain c where c: "c \<in> set (ab_checks st)" "ck_id c = i" "ck_key c = k'"
    using checks_okD(4) [OF assms(1,2)] by blast
  moreover have "map_of (ab_pending st) k \<noteq> Some (ck_id c)"
    using checks_okD(4,5) [OF assms(1)] c assms(3) by metis
  ultimately show ?thesis
    unfolding dropped_checks(1) [OF assms(1)] by blast
qed

lemma checks_ok_cancel:
  assumes "checks_ok st"
  shows "checks_ok (cancel k st)"
proof -
  have same: "checks_ok (clear_session k st)"
    using assms by (rule checks_ok_cong [rotated 3]) (simp_all add: clear_session_def)
  define st1 where "st1 = drop_pending k (clear_session k st)"
  have "ab_checks (cancel k st) = ab_checks st1" "ab_next (cancel k st) = ab_next (clear_session k st)"
    "map_of (ab_pending (cancel k st)) = (map_of (ab_pending (clear_session k st)))(k := None)"
    by (simp_all add: cancel_def Let_def st1_def delete_conv')
  moreover have "distinct (map ck_id (ab_checks st1))" "\<forall>c \<in> set (ab_checks st1). ck_id c < ab_next (clear_session k st)"
    using dropped_checks [OF same] checks_okD(2) [OF same] by (auto simp: st1_def)
  moreover have "map_of (ab_pending (clear_session k st)) (ck_key c) = Some (ck_id c) \<and> ck_key c \<noteq> k"
    if "c \<in> set (ab_checks st1)" "in_flight c" for c
    using that dropped_in_flight [OF same] dropped_checks(1) [OF same] checks_okD(3) [OF same] by (auto simp: st1_def)
  ultimately show ?thesis
    using dropped_pending [OF same] unfolding checks_ok_def by (auto simp: st1_def)
qed

lemma checks_ok_start:
  assumes "checks_ok st" and st1: "ab_checks st1 = ab_checks (drop_pending k st)" "ab_pending st1 = ab_pending st" "ab_next st1 = ab_next st"
  shows "checks_ok (start_check k r st1)"
proof -
  define new where "new = \<lparr>ck_id = ab_next st, ck_key = k, ck_revision = r, ck_phase = Queued\<rparr>"
  define rest where "rest = ab_checks (drop_pending k st)"
  have checks: "ab_checks (start_check k r st1) = rest @ [new]" and nxt: "ab_next (start_check k r st1) = ab_next st + 1"
    and pend: "map_of (ab_pending (start_check k r st1)) = (map_of (ab_pending st))(k \<mapsto> ab_next st)"
    using st1 by (simp_all add: start_check_def update_conv' new_def rest_def)
  have new: "ck_id new = ab_next st" "ck_key new = k" by (simp_all add: new_def)
  have ids: "ck_id c < ab_next st" if "c \<in> set rest" for c
    using that dropped_checks(1) [OF assms(1)] checks_okD(2) [OF assms(1)] by (auto simp: rest_def)
  then have d: "distinct (map ck_id (rest @ [new]))"
    using dropped_checks(2) [OF assms(1), of k] by (fastforce simp: new rest_def)
  have lt: "ck_id c < ab_next st + 1" if "c \<in> set (rest @ [new])" for c
    using that ids [of c] new by auto
  have fl: "((map_of (ab_pending st))(k \<mapsto> ab_next st)) (ck_key c) = Some (ck_id c)"
    if "c \<in> set (rest @ [new])" "in_flight c" for c
  proof (cases "c = new")
    case False
    with that have c: "c \<in> set rest" by simp
    then have "c \<in> set (ab_checks st)"
      unfolding rest_def dropped_checks(1) [OF assms(1)] by blast
    then have "map_of (ab_pending st) (ck_key c) = Some (ck_id c)"
      using checks_okD(3) [OF assms(1)] that(2) by blast
    moreover have "ck_key c \<noteq> k"
      using dropped_in_flight [OF assms(1)] c that(2) by (simp add: rest_def)
    ultimately show ?thesis by simp
  qed (simp add: new)
  have ex: "\<exists>c \<in> set (rest @ [new]). ck_id c = i \<and> ck_key c = k'"
    if "((map_of (ab_pending st))(k \<mapsto> ab_next st)) k' = Some i" for k' i
    using that dropped_pending [OF assms(1), of k' i k] new by (cases "k' = k") (auto simp: rest_def)
  show ?thesis
    unfolding checks_ok_def checks nxt pend
    by (intro conjI ballI allI impI) (fact d, erule lt, erule (1) fl, erule ex)
qed

lemma checks_ok_phase:
  assumes "checks_ok st" "p = Finishing \<or> (\<exists>c. find_check i st = Some c \<and> in_flight c)"
  shows "checks_ok (set_phase i p st)"
proof -
  define f where "f = (\<lambda>c::alignment_check. if ck_id c = i then c\<lparr>ck_phase := p\<rparr> else c)"
  have f: "ck_id (f c) = ck_id c" "ck_key (f c) = ck_key c" for c by (simp_all add: f_def)
  have checks: "ab_checks (set_phase i p st) = map f (ab_checks st)"
    by (simp add: set_phase_def f_def)
  have "in_flight c" if "c \<in> set (ab_checks st)" "in_flight (f c)" for c
    using that assms find_check_iff [OF assms(1)] checks_okD(5) [OF assms(1)]
    by (auto simp: in_flight_def f_def split: if_splits)
  then have "map_of (ab_pending st) (ck_key c) = Some (ck_id c)" if "c \<in> set (ab_checks st)" "in_flight (f c)" for c
    using that checks_okD(3) [OF assms(1)] by blast
  moreover have "distinct (map ck_id (map f (ab_checks st)))"
    using checks_okD(1) [OF assms(1)] by (simp add: f comp_def)
  moreover have "\<exists>c \<in> set (map f (ab_checks st)). ck_id c = i' \<and> ck_key c = k" if "map_of (ab_pending st) k = Some i'" for k i'
    using checks_okD(4) [OF assms(1) that] f by force
  ultimately show ?thesis
    using checks_okD(2) [OF assms(1)] unfolding checks_ok_def checks by (simp add: f)
qed

lemma checks_ok_clean:
  assumes "checks_ok st"
  shows "checks_ok (clean_up i st)"
proof (cases "\<exists>c. find_check i st = Some c \<and> ck_phase c = Finishing")
  case True
  then obtain c where c: "find_check i st = Some c" "ck_phase c = Finishing" by blast
  then have mem: "c \<in> set (ab_checks st)" "ck_id c = i"
    using find_check_iff [OF assms] by auto
  let ?st = "clean_up i st"
  have checks: "ab_checks ?st = filter (\<lambda>c. ck_id c \<noteq> i) (ab_checks st)" and nxt: "ab_next ?st = ab_next st"
    using c by (simp_all add: clean_up_def)
  have pend: "map_of (ab_pending ?st) k = (if k = ck_key c \<and> map_of (ab_pending st) k = Some i then None else map_of (ab_pending st) k)" for k
    using c by (auto simp: clean_up_def delete_conv')
  have "\<exists>c' \<in> set (ab_checks ?st). ck_id c' = i' \<and> ck_key c' = k" if "map_of (ab_pending ?st) k = Some i'" for k i'
  proof -
    have old: "map_of (ab_pending st) k = Some i'" "\<not> (k = ck_key c \<and> i' = i)"
      using that by (auto simp: pend split: if_splits)
    then obtain c' where c': "c' \<in> set (ab_checks st)" "ck_id c' = i'" "ck_key c' = k"
      using checks_okD(4) [OF assms] by blast
    with old(2) mem have "i' \<noteq> i"
      using checks_okD(5) [OF assms] by blast
    with c' show ?thesis by (auto simp: checks)
  qed
  moreover have "map_of (ab_pending ?st) (ck_key c') = Some (ck_id c')" if "c' \<in> set (ab_checks ?st)" "in_flight c'" for c'
    using that checks_okD(3) [OF assms] by (auto simp: checks pend)
  ultimately show ?thesis
    using assms unfolding checks_ok_def by (auto simp: checks nxt distinct_map_filter)
qed (use assms in \<open>auto simp: clean_up_def split: option.splits\<close>)

lemma checks_ok_step: "checks_ok st \<Longrightarrow> checks_ok (barrier_step e st)"
proof (induction e)
  case (Triggered k)
  have "checks_ok (start_check k r (mark_pending k s (drop_pending k st)))" "checks_ok (start_check k r (drop_pending k st))" for r s
    by (rule checks_ok_start [OF Triggered]; simp)+
  moreover have "cancel k (drop_pending k st) = cancel k st"
    by (simp add: cancel_def drop_pending_def clear_session_def Let_def split: option.splits)
  ultimately show ?case
    using checks_ok_cancel [OF Triggered] by (auto simp: trigger_def Let_def split: option.splits)
next
  case (Begun i)
  then show ?case
    using checks_ok_phase by (auto simp: begin_check_def in_flight_def split: option.splits)
next
  case (Finished i answer)
  then have "checks_ok (conclude k s p revision answer st)" for k s p revision
    by (rule checks_ok_cong [rotated 3]) simp_all
  then show ?case
    using Finished checks_ok_phase by (auto simp: finish_check_def split: option.splits check_phase.splits)
next
  case (Cleaned i)
  then show ?case by (simp add: checks_ok_clean)
next
  case (Cancelled k)
  then show ?case by (simp add: checks_ok_cancel)
qed (rule checks_ok_cong; simp add: acknowledge_def clear_override_def clear_session_def sweep_alignment_def)+


lemma set_fold_add_key [simp]: "set (fold add_key ks acc) = set ks \<union> set acc"
  by (induction ks arbitrary: acc) auto

lemma barrier_ok_started: "barrier_ok (started db)"
  by (simp add: barrier_ok_def started_def restore_overrides_def verdicts_ok_def checks_ok_def Let_def)

lemma barrier_ok_run: "barrier_ok st \<Longrightarrow> barrier_ok (barrier_run events st)"
  unfolding barrier_run_def
  by (induction events arbitrary: st) (auto simp: barrier_ok_def verdicts_ok_step checks_ok_step)

lemmas reachable_ok = barrier_ok_run [OF barrier_ok_started]

text \<open>A check that no longer exists; identifiers are not used again.\<close>

definition gone :: "nat \<Rightarrow> barrier \<Rightarrow> bool" where
  "gone i st \<longleftrightarrow> i < ab_next st \<and> i \<notin> set (map ck_id (ab_checks st))"

lemma gone_cong:
  assumes "gone i st" "ab_next st' = ab_next st" "ck_id ` set (ab_checks st') \<subseteq> ck_id ` set (ab_checks st)"
  shows "gone i st'"
  using assms by (auto simp: gone_def)

lemma dropped_ids: "ck_id ` set (ab_checks (drop_pending k st)) \<subseteq> ck_id ` set (ab_checks st)"
  by (auto simp: drop_pending_def split: option.splits)

lemma gone_drop: "gone i st \<Longrightarrow> gone i (drop_pending k st)"
  by (rule gone_cong [OF _ _ dropped_ids]) simp_all

lemma gone_cancel: "gone i st \<Longrightarrow> gone i (cancel k st)"
  using gone_drop [of i "clear_session k st" k] by (simp add: cancel_def Let_def gone_def clear_session_def)

lemma gone_start: "gone i st \<Longrightarrow> gone i (start_check k r st)"
  by (auto simp: gone_def start_check_def)

lemma gone_phase: "gone i (set_phase j p st) \<longleftrightarrow> gone i st"
proof -
  have "map ck_id (ab_checks (set_phase j p st)) = map ck_id (ab_checks st)"
    by (simp add: set_phase_def)
  then show ?thesis by (simp only: gone_def set_phase_simps)
qed

lemma gone_trigger: "gone i (drop_pending k st) \<Longrightarrow> gone i (trigger k st)"
  by (auto simp: trigger_def Let_def gone_cancel split: option.splits intro!: gone_start)
    (simp add: gone_def)

lemma gone_step: "gone i st \<Longrightarrow> gone i (barrier_step e st)"
proof (cases e)
  case (Triggered k)
  then show "gone i st \<Longrightarrow> ?thesis" by (simp add: gone_trigger gone_drop)
next
  case (Finished j answer)
  moreover have "gone i st \<Longrightarrow> gone i (conclude k s p revision answer st)" for k s p revision
    by (rule gone_cong) auto
  ultimately show "gone i st \<Longrightarrow> ?thesis"
    by (simp add: finish_check_def gone_phase split: option.splits check_phase.splits)
next
  case (Begun j)
  then show "gone i st \<Longrightarrow> ?thesis"
    by (simp add: begin_check_def gone_phase split: option.splits)
next
  case (Cleaned j)
  then show "gone i st \<Longrightarrow> ?thesis"
    by (auto simp: clean_up_def gone_def split: option.splits)
next
  case (Cancelled k)
  then show "gone i st \<Longrightarrow> ?thesis" by (simp add: gone_cancel)
qed (auto simp: gone_def acknowledge_def clear_override_def clear_session_def sweep_alignment_def)

lemma gone_run: "gone i st \<Longrightarrow> gone i (barrier_run events st)"
  unfolding barrier_run_def by (induction events arbitrary: st) (auto simp: gone_step)

lemma find_check_phase:
  "find_check i (set_phase i p st) = map_option (\<lambda>c. c\<lparr>ck_phase := p\<rparr>) (find_check i st)"
proof -
  have "List.find (\<lambda>c. ck_id c = i) (map (\<lambda>c. if ck_id c = i then c\<lparr>ck_phase := p\<rparr> else c) cs)
      = map_option (\<lambda>c. c\<lparr>ck_phase := p\<rparr>) (List.find (\<lambda>c. ck_id c = i) cs)" for cs
    by (induction cs) auto
  then show ?thesis by (simp add: find_check_def set_phase_def)
qed

lemma gone_find: "gone i st \<Longrightarrow> find_check i st = None"
  by (auto simp: gone_def find_check_def find_None_iff)

subsection \<open>Properties\<close>

definition nothing_in_flight :: "barrier_key \<Rightarrow> barrier \<Rightarrow> bool" where
  "nothing_in_flight k st \<longleftrightarrow> \<not> list_ex (\<lambda>c. ck_key c = k \<and> in_flight c) (ab_checks st)"

text \<open>The checks of a session that are in flight; only a trigger adds one.\<close>

definition flying :: "barrier_key \<Rightarrow> barrier \<Rightarrow> nat set" where
  "flying k st = {ck_id c |c. c \<in> set (ab_checks st) \<and> ck_key c = k \<and> in_flight c}"

lemma nothing_flying: "nothing_in_flight k st \<longleftrightarrow> flying k st = {}"
  by (auto simp: nothing_in_flight_def flying_def list_ex_iff)

lemma flying_subset: "set (ab_checks st') \<subseteq> set (ab_checks st) \<Longrightarrow> flying k st' \<subseteq> flying k st"
  by (auto simp: flying_def)

lemma flying_phase:
  assumes "checks_ok st" "find_check i st = Some c" "in_flight c \<or> p = Finishing"
  shows "flying k (set_phase i p st) \<subseteq> flying k st"
proof -
  have "in_flight d" if "d \<in> set (ab_checks st)" "ck_id d = i" "p \<noteq> Finishing" for d
    using assms that find_check_iff [OF assms(1)] checks_okD(5) [OF assms(1)] by metis
  then show ?thesis
    by (fastforce simp: flying_def set_phase_def in_flight_def split: if_splits)
qed

lemma drop_pending_subset: "set (ab_checks (drop_pending k st)) \<subseteq> set (ab_checks st)"
  by (auto simp: drop_pending_def split: option.splits)

lemma cancel_subset: "set (ab_checks (cancel k st)) \<subseteq> set (ab_checks st)"
  using drop_pending_subset [of k "clear_session k st"] by (auto simp: cancel_def Let_def clear_session_def)

lemma flying_trigger:
  assumes "k' \<noteq> k"
  shows "flying k (trigger k' st) \<subseteq> flying k st"
proof -
  have "flying k (start_check k' r st') = flying k st'" for r st'
    using assms by (auto simp: flying_def start_check_def)
  moreover have "flying k (mark_pending k' s st') = flying k st'" for s st'
    by (simp add: flying_def)
  ultimately show ?thesis
    using flying_subset [OF drop_pending_subset [of k' st], of k]
      flying_subset [OF cancel_subset [of k' "drop_pending k' st"], of k]
    by (auto simp: trigger_def Let_def split: option.splits)
qed

lemma flying_step:
  assumes "checks_ok st" "e \<noteq> Triggered k"
  shows "flying k (barrier_step e st) \<subseteq> flying k st"
proof (cases e)
  case (Triggered k')
  with assms(2) show ?thesis using flying_trigger by simp
next
  case (Begun i)
  then show ?thesis
    using flying_phase [OF assms(1)]
    by (auto simp: begin_check_def in_flight_def split: option.splits; blast)
next
  case (Finished i answer)
  show ?thesis
  proof (cases "find_check i st")
    case (Some c)
    have "flying k (set_phase i Finishing (conclude (ck_key c) s p revision answer st)) \<subseteq> flying k st" for s p revision
      by (auto simp: flying_def set_phase_def in_flight_def split: if_splits)
    with Some Finished show ?thesis by (auto simp: finish_check_def split: check_phase.splits)
  qed (simp add: Finished finish_check_def)
next
  case (Cleaned i)
  then show ?thesis by (auto simp: clean_up_def flying_def split: option.splits)
next
  case (Cancelled k')
  then show ?thesis using flying_subset [OF cancel_subset] by simp
qed (auto simp: flying_def acknowledge_def clear_override_def clear_session_def sweep_alignment_def)

lemma flying_run:
  "checks_ok st \<Longrightarrow> Triggered k \<notin> set later \<Longrightarrow> flying k (barrier_run later st) \<subseteq> flying k st"
proof (induction later arbitrary: st)
  case (Cons e later)
  then have "checks_ok (barrier_step e st)" "Triggered k \<notin> set later" by (auto intro: checks_ok_step)
  from Cons.IH [OF this] flying_step [OF Cons.prems(1), of e k] Cons.prems(2) show ?case
    by (auto simp: barrier_run_def)
qed (simp add: barrier_run_def)

lemma flying_pending: "checks_ok st \<Longrightarrow> i \<in> flying k st \<Longrightarrow> map_of (ab_pending st) k = Some i"
  using checks_okD(3) by (auto simp: flying_def)

lemma wait_alignment_flying:
  assumes "wait_alignment k st = (r, st')" "checks_ok st" "find_session (ab_db st) (fst k) (snd k) = Some s"
  shows "checks_ok st' \<and> flying k st' \<subseteq> (case r of Passed \<Rightarrow> {} | Held i \<Rightarrow> {i})"
proof (cases "s_guardrails_enabled s")
  case False
  with assms have r: "r = Passed" "st' = cancel k st" by (simp_all add: wait_alignment_def)
  have ok: "checks_ok st'" unfolding r(2) using checks_ok_step [OF assms(2), of "Cancelled k"] by simp
  have "map_of (ab_pending st') k = None" by (simp add: r(2) cancel_def Let_def delete_conv')
  with flying_pending [OF ok] r(1) ok show ?thesis by fastforce
next
  case True
  with assms have st': "st' = st" by (auto simp: wait_alignment_def split: option.splits)
  have "flying k st \<subseteq> (case r of Passed \<Rightarrow> {} | Held i \<Rightarrow> {i})"
  proof
    fix i assume i: "i \<in> flying k st"
    then obtain c where c: "c \<in> set (ab_checks st)" "ck_id c = i" "in_flight c" by (auto simp: flying_def)
    from flying_pending [OF assms(2) i] have p: "map_of (ab_pending st) k = Some i" .
    from c have "find_check i st = Some c" using find_check_iff [OF assms(2)] by simp
    with c(3) p have "waits k st" by (simp add: waits_def)
    with assms True p show "i \<in> (case r of Passed \<Rightarrow> {} | Held i \<Rightarrow> {i})" by (auto simp: wait_alignment_def)
  qed
  with st' assms(2) show ?thesis by simp
qed

text \<open>C16. When the barrier lets an evaluation of an existing session go on - at once, or when the event it was
  held by is set - no alignment check of the session is in flight, whatever triggers, cancellations and
  other checks were interleaved before and during the wait, unless the session's own check was triggered
  again after the wait began.  A wait that times out is fail-open and excluded, as is a session that does
  not exist.\<close>

theorem open_barrier_is_settled:
  assumes "wait_alignment k (barrier_run events (started db)) = (r, st)"
    and "find_session (ab_db (barrier_run events (started db))) (fst k) (snd k) = Some s"
    and "Triggered k \<notin> set later" "wait_returns r False (barrier_run later st)"
  shows "nothing_in_flight k (barrier_run later st)"
proof -
  have "checks_ok (barrier_run events (started db))"
    using reachable_ok by (simp add: barrier_ok_def)
  from wait_alignment_flying [OF assms(1) this assms(2)]
  have ok: "checks_ok st" and at: "flying k st \<subseteq> (case r of Passed \<Rightarrow> {} | Held i \<Rightarrow> {i})" by simp_all
  have fly: "flying k (barrier_run later st) \<subseteq> (case r of Passed \<Rightarrow> {} | Held i \<Rightarrow> {i})"
    using flying_run [OF ok assms(3)] at by blast
  have ok': "checks_ok (barrier_run later st)"
    using ok unfolding barrier_run_def by (induction later arbitrary: st) (auto simp: checks_ok_step)
  show ?thesis
  proof (cases r)
    case (Held i)
    have "i \<notin> flying k (barrier_run later st)"
    proof
      assume "i \<in> flying k (barrier_run later st)"
      then obtain c where "c \<in> set (ab_checks (barrier_run later st))" "ck_id c = i" "in_flight c" by (auto simp: flying_def)
      with assms(4) Held show False
        using find_check_iff [OF ok', of i c] by (simp add: wait_returns_def event_set_def)
    qed
    with fly Held show ?thesis by (auto simp: nothing_flying)
  qed (use fly in \<open>simp add: nothing_flying\<close>)
qed

text \<open>When an acknowledgement ends: with the session's alignment state, or by opting out of guardrails.\<close>

fun reopens :: "barrier_key \<Rightarrow> barrier_event \<Rightarrow> barrier \<Rightarrow> bool" where
  "reopens k (Override_cleared _ k') st = (k' = k)"
| "reopens k (Session_cleared k') st = (k' = k)"
| "reopens k (Cancelled k') st = (k' = k)"
| "reopens k (Swept_alignment active) st = (k \<notin> set active)"
| "reopens k (Triggered k') st =
     (k' = k \<and> (case find_session (ab_db st) (fst k) (snd k) of None \<Rightarrow> False | Some s \<Rightarrow> \<not> s_guardrails_enabled s))"
| "reopens k _ st = False"

fun undisturbed :: "barrier_key \<Rightarrow> barrier_event list \<Rightarrow> barrier \<Rightarrow> bool" where
  "undisturbed k [] st = True"
| "undisturbed k (e # es) st = (\<not> reopens k e st \<and> undisturbed k es (barrier_step e st))"

lemma override_kept:
  "k \<in> set (ab_overridden st) \<Longrightarrow> \<not> reopens k e st \<Longrightarrow> k \<in> set (ab_overridden (barrier_step e st))"
  by (cases e)
    (auto simp: trigger_def Let_def cancel_def start_check_def clear_session_def begin_check_def finish_check_def
      clean_up_def acknowledge_def clear_override_def sweep_alignment_def split: option.splits check_phase.splits)

text \<open>A human's acknowledgement holds: until the override is cleared or the session's alignment
  state is dropped, no check, finished before or after, makes the session misaligned again.\<close>

theorem acknowledged_stays_aligned:
  assumes "undisturbed k events (acknowledge now k st)"
  shows "is_misaligned k (barrier_run events (acknowledge now k st)) = None"
proof -
  have "k \<in> set (ab_overridden (barrier_run events st'))" if "k \<in> set (ab_overridden st')" "undisturbed k events st'" for st'
    using that override_kept unfolding barrier_run_def by (induction events arbitrary: st') auto
  then show ?thesis
    using assms by (simp add: is_misaligned_def acknowledge_def)
qed

definition family_db :: database where
  "family_db = \<lparr>db_sessions = [new_session ''u'' ''p'' ''write docs'' 0,
       (new_session ''u'' ''c'' ''delete the repository'' 0)\<lparr>s_parent := Some ''p''\<rparr>],
     db_reservations = [], db_tasks = []\<rparr>"

definition child_key :: barrier_key where
  "child_key = (''u'', ''c'')"

text \<open>The check that a session triggers at its creation, and its negative verdict.\<close>

definition checked_child :: "barrier_event list" where
  "checked_child = [Triggered child_key, Begun 0, Finished 0 (Verdict False ''unrelated''), Cleaned 0]"

lemma child_is_misaligned: "is_misaligned child_key (barrier_run checked_child (started family_db)) \<noteq> None"
  by code_simp

text \<open>A call held by a check that then ends; a timed out wait, which goes on with the check in flight; and a
  session that is not found.\<close>

definition held_state :: barrier where
  "held_state = barrier_run [Triggered child_key, Begun 0] (started family_db)"

definition check_ends :: "barrier_event list" where
  "check_ends = [Finished 0 (Verdict False ''unrelated'')]"

lemma held_child:
  "wait_alignment child_key held_state = (Held 0, held_state)"
  "map_option s_id (find_session (ab_db held_state) (fst child_key) (snd child_key)) = Some ''c''"
  "Triggered child_key \<notin> set check_ends" "wait_returns (Held 0) False (barrier_run check_ends held_state)"
  by code_simp+

theorem open_barrier_is_settled_witness: "nothing_in_flight child_key (barrier_run check_ends held_state)"
proof -
  from held_child(2) obtain s where "find_session (ab_db held_state) (fst child_key) (snd child_key) = Some s" by auto
  from open_barrier_is_settled [OF held_child(1) [unfolded held_state_def] this [unfolded held_state_def] held_child(3)]
  show ?thesis using held_child(4) by (simp add: held_state_def)
qed

lemma timeout_fails_open:
  "wait_returns (Held 0) True held_state \<and> \<not> nothing_in_flight child_key held_state"
  by code_simp

lemma unknown_session_passes:
  "fst (wait_alignment (''u'', ''x'') (barrier_run [Triggered (''u'', ''x'')] (started family_db))) = Passed
   \<and> \<not> nothing_in_flight (''u'', ''x'') (barrier_run [Triggered (''u'', ''x'')] (started family_db))"
  by code_simp

theorem acknowledged_stays_aligned_witness:
  "is_misaligned child_key (barrier_run [Triggered child_key, Begun 1, Finished 1 (Verdict False ''still unrelated'')]
     (acknowledge 1 child_key (barrier_run checked_child (started family_db)))) = None"
  by (rule acknowledged_stays_aligned) code_simp

text \<open>A check that a newer trigger superseded has no effect: whenever its answer arrives, nothing
  changes, in memory or in the database.\<close>

theorem superseded_check_is_inert:
  assumes "map_of (ab_pending (barrier_run before (started db))) k = Some i"
  shows "finish_check i answer (barrier_run later (trigger k (barrier_run before (started db))))
         = barrier_run later (trigger k (barrier_run before (started db)))"
proof -
  let ?st = "barrier_run before (started db)"
  have ok: "checks_ok ?st"
    using reachable_ok by (simp add: barrier_ok_def)
  have "gone i (drop_pending k ?st)"
    using assms checks_okD(2,4) [OF ok] dropped_checks(1) [OF ok, of k] by (fastforce simp: gone_def)
  then have "gone i (barrier_run later (trigger k ?st))"
    by (intro gone_run gone_trigger)
  then show ?thesis
    by (simp add: finish_check_def gone_find)
qed

theorem superseded_check_is_inert_witness:
  "finish_check 0 (Verdict False ''late'') (barrier_run [Begun 1] (trigger child_key (barrier_run [Triggered child_key, Begun 0] (started family_db))))
     = barrier_run [Begun 1] (trigger child_key (barrier_run [Triggered child_key, Begun 0] (started family_db)))"
  by (rule superseded_check_is_inert) code_simp

text \<open>C17. Every wait ends: from any state a run can reach, the check a session waits for takes three
  steps, whatever the reviewer answers or fails with, and then nothing is pending for the session.\<close>

theorem waiting_ends:
  assumes "map_of (ab_pending (barrier_run before (started db))) k = Some i"
  shows "\<not> waits k (barrier_run [Begun i, Finished i answer, Cleaned i] (barrier_run before (started db)))
         \<and> map_of (ab_pending (barrier_run [Begun i, Finished i answer, Cleaned i] (barrier_run before (started db)))) k = None"
proof -
  let ?st = "barrier_run before (started db)"
  have ok: "checks_ok ?st"
    using reachable_ok by (simp add: barrier_ok_def)
  obtain c where c: "find_check i ?st = Some c" "ck_key c = k"
    using checks_okD(4) [OF ok assms] find_check_iff [OF ok] by blast
  define st1 where "st1 = begin_check i ?st"
  have "\<exists>c1. find_check i st1 = Some c1 \<and> ck_key c1 = k \<and> ck_phase c1 \<noteq> Queued \<and> ab_pending st1 = ab_pending ?st"
    using c by (cases "review_subject c (ab_db ?st)") (auto simp: st1_def begin_check_def find_check_phase)
  then obtain c1 where c1: "find_check i st1 = Some c1" "ck_key c1 = k" "ck_phase c1 \<noteq> Queued"
      and p1: "ab_pending st1 = ab_pending ?st"
    by blast
  define st2 where "st2 = finish_check i answer st1"
  have keep: "find_check i (conclude k' s p revision answer st1) = find_check i st1" for k' s p revision
    by (simp add: find_check_def)
  obtain c2 where c2: "find_check i st2 = Some c2" "ck_key c2 = k" "ck_phase c2 = Finishing"
      and p2: "ab_pending st2 = ab_pending ?st"
    using c1 p1 by (cases "ck_phase c1") (auto simp: st2_def finish_check_def find_check_phase keep)
  have "map_of (ab_pending (clean_up i st2)) k = None"
    using c2 p2 assms by (simp add: clean_up_def delete_conv')
  then show ?thesis
    by (simp add: barrier_run_def waits_def st1_def st2_def)
qed

theorem waiting_ends_witness:
  "\<not> waits child_key (barrier_run [Begun 0, Finished 0 (Review_failed ''Timeout''), Cleaned 0] (barrier_run [Triggered child_key] (started family_db)))
   \<and> map_of (ab_pending (barrier_run [Begun 0, Finished 0 (Review_failed ''Timeout''), Cleaned 0] (barrier_run [Triggered child_key] (started family_db)))) child_key = None"
  by (rule waiting_ends) code_simp

text \<open>A verdict on a session that changed meanwhile is not written: the durable state is compared first.\<close>

lemma stale_verdict_not_kept:
  assumes "hybrid_session s" "find_session (ab_db st) (fst k) (snd k) = Some cur" "keys_ok (ab_db st)"
    and "s_state_revision cur \<noteq> s_state_revision s"
  shows "conclude k s p revision (Verdict aligned why) st = st"
proof -
  have "\<not> alignment_target (fst k) (snd k) (Some (s_state_revision s)) r" if "r \<in> set (db_sessions (ab_db st))" for r
  proof
    assume target: "alignment_target (fst k) (snd k) (Some (s_state_revision s)) r"
    then have "find_session (ab_db st) (fst k) (snd k) = Some r"
      using find_session_unique [OF assms(3) that] by (simp add: alignment_target_def is_session_def)
    with target assms(2,4) show False by (simp add: alignment_target_def)
  qed
  then have none: "row_count (alignment_target (fst k) (snd k) (Some (s_state_revision s))) (db_sessions (ab_db st)) = 0"
    "update_sessions (alignment_target (fst k) (snd k) (Some (s_state_revision s))) f (ab_db st) = ab_db st" for f
    by (simp_all add: row_count_zero update_sessions_def update_rows_id)
  have "store_state k s state why st = (False, st)" if "state \<in> {''ready'', ''misaligned''}" for state
    using that assms(1) none by (auto simp: store_state_def set_alignment_state_def alignment_states_def)
  then show ?thesis
    by (simp add: conclude_def Let_def)
qed

end
