(* ===== verification/Call_Evaluation.thy ===== *)
theory Call_Evaluation
  imports Policy_View Redaction Alignment_Barrier Session_Update Audit_Admission Task_Queue
begin

text \<open>
  \<^verbatim>\<open>Evaluator._evaluation_flow\<close> of \<^verbatim>\<open>intaris/evaluator.py\<close> for the sessions whose policy is
  not a hybrid one: from the request to the audit row, the counters, the caches and the decision.  What
  the model, the read-only assessor and the hash functions answer is part of \<open>call_env\<close>; the
  context arrives normalized.  Of the alignment barrier only its two lists are read, not its database.
\<close>

subsection \<open>Requests and state\<close>

record call_request =
  cq_user :: string
  cq_session :: string
  cq_agent :: "string option"
  cq_tool :: string
  cq_args :: pydict
  cq_original :: "pydict option"
  cq_context :: pydict
  cq_preferences :: "(string \<times> string) list option"
  cq_minimum :: "outcome option"
  cq_approval :: "string option"
  cq_judge :: bool
  cq_version :: "string option"
  cq_revision :: "int option"
  cq_hash :: "string option"

record call_env =
  ce_call :: string
  ce_row :: string
  ce_now :: int
  ce_latency :: int
  ce_forced :: bool
  ce_analysis :: bool
  ce_task :: string
  ce_profile :: "int option"
  ce_audit :: audit_env
  ce_policy :: policy_env
  ce_args_hash :: "pydict \<Rightarrow> string"
  ce_injected :: "pydict \<Rightarrow> string \<Rightarrow> bool"
  ce_str :: "pyval \<Rightarrow> string"
  ce_sources :: pyval
  ce_jev :: bool
  ce_answer :: "(evaluation_result \<times> pydict) option"
  ce_mutation :: "(string \<times> pydict) option"

record evaluator =
  ev_audit :: audit_state
  ev_paths :: path_cache
  ev_scopes :: scope_cache
  ev_barrier :: "barrier option"

datatype call_error =
    Hybrid_session
  | Bad_bound
  | Bad_overlay overlay_error
  | Version_mismatch
  | Stale_policy_revision
  | Stale_policy_hash
  | Lifecycle_changed
  | Ancestors_exhausted
  | Fast_path_error
  | Model_failed
  | Session_failed session_error
  | Audit_failed audit_error

record call_result =
  cr_decision :: outcome
  cr_raw :: "outcome option"
  cr_override :: "string option"
  cr_minimum :: "outcome option"
  cr_reasoning :: string
  cr_risk :: string
  cr_path :: string
  cr_class :: classification
  cr_status :: "string option"

definition call_key :: "call_request \<Rightarrow> string \<times> string" where
  "call_key q = (cq_user q, cq_session q)"

definition call_session :: "call_request \<Rightarrow> evaluator \<Rightarrow> session option" where
  "call_session q ev = find_session (au_db (ev_audit ev)) (cq_user q) (cq_session q)"

definition with_db :: "database \<Rightarrow> evaluator \<Rightarrow> evaluator" where
  "with_db db ev = ev\<lparr>ev_audit := (ev_audit ev)\<lparr>au_db := db\<rparr>\<rparr>"

text \<open>\<^verbatim>\<open>session_view\<close> of \<^verbatim>\<open>intaris/evaluation_override.py\<close>.\<close>

definition session_view :: "bool \<Rightarrow> session \<Rightarrow> session" where
  "session_view forced s =
     (if forced then s\<lparr>s_policy := Some (dset (session_policy_of s) ''evaluation_policy_version'' (VStr ''legacy''))\<rparr>
      else s)"

subsection \<open>Bounds\<close>

text \<open>A bound in a policy; an unknown text is a \<^verbatim>\<open>KeyError\<close> when it is used.\<close>

definition policy_bound :: "pyval \<Rightarrow> call_error + outcome option" where
  "policy_bound v =
     (if v = VNone then Inr None else case parse_outcome v of None \<Rightarrow> Inl Bad_bound | Some b \<Rightarrow> Inr (Some b))"

definition bound_word :: "pyval \<Rightarrow> string option" where
  "bound_word v = (case v of VStr s \<Rightarrow> Some s | _ \<Rightarrow> None)"

definition request_minimum :: "call_request \<Rightarrow> pydict \<Rightarrow> call_error + outcome option" where
  "request_minimum q policy =
     bindE (policy_bound (dget policy ''minimum_outcome'')) (\<lambda>floor.
       Inr (case floor of
              None \<Rightarrow> cq_minimum q
            | Some b \<Rightarrow> Some (clamp_outcome (coalesce (cq_minimum q) Approve) (Some b))))"

definition request_context :: "call_request \<Rightarrow> pydict" where
  "request_context q =
     (if cq_minimum q = None then cq_context q
      else dset (dset (cq_context q) ''minimum_outcome'' (VStr (outcome_text (coalesce (cq_minimum q) Deny))))
             ''approval_call_id'' (opt_str (cq_approval q)))"

definition floored_context :: "pydict \<Rightarrow> outcome option \<Rightarrow> pydict \<Rightarrow> pydict" where
  "floored_context policy minimum context =
     (case minimum of
        Some b \<Rightarrow> if dget policy ''minimum_outcome'' = VNone then context
                  else dset context ''minimum_outcome'' (VStr (outcome_text b))
      | None \<Rightarrow> context)"

definition no_interaction :: "pydict \<Rightarrow> pydict \<Rightarrow> bool" where
  "no_interaction policy context \<longleftrightarrow>
     dget policy ''interaction_mode'' = VStr ''none'' \<or> dget context ''interaction_mode'' = VStr ''none''"

subsection \<open>Recording a decision\<close>

record call_verdict =
  cv_decision :: outcome
  cv_raw :: "outcome option"
  cv_override :: "string option"
  cv_risk :: string
  cv_reasoning :: string
  cv_path :: string
  cv_class :: classification
  cv_hash :: "string option"
  cv_meta :: "pydict option"
  cv_snapshot :: "session option"

record call_row =
  rw_args :: pydict
  rw_profile :: "int option"
  rw_intention :: "string option"
  rw_injection :: bool
  rw_maximum :: pyval
  rw_minimum :: "outcome option"
  rw_status :: "string option"

definition stored_args :: "pydict \<Rightarrow> pydict \<Rightarrow> pydict" where
  "stored_args args context =
     (if context = [] then redact args
      else let stored = dset (redact args) context_arg_key (VDict (redact context)) in
        if dhas stored ''context'' then stored else dset stored ''context'' (VDict (redact context)))"

definition call_admission :: "call_env \<Rightarrow> call_request \<Rightarrow> call_row \<Rightarrow> call_verdict \<Rightarrow> admission" where
  "call_admission env q rw v =
     \<lparr>ar_call = ce_call env, ar_user = cq_user q, ar_session = cq_session q, ar_agent = cq_agent q,
      ar_tool = Some (cq_tool q), ar_args = Some (rw_args rw),
      ar_classification = Some (classification_name (cv_class v)), ar_path = cv_path v,
      ar_decision = outcome_text (cv_decision v), ar_risk = Some (cv_risk v),
      ar_reasoning = Some (cv_reasoning v), ar_latency = ce_latency env, ar_type = ''tool_call'',
      ar_content = None, ar_args_hash = cv_hash v, ar_profile_version = rw_profile rw,
      ar_intention = rw_intention rw, ar_injection = rw_injection rw,
      ar_raw = map_option outcome_text (cv_raw v), ar_maximum = bound_word (rw_maximum rw),
      ar_minimum = map_option outcome_text (rw_minimum rw), ar_override = cv_override v,
      ar_meta = cv_meta v, ar_snapshot = cv_snapshot v\<rparr>"

definition count_call :: "call_env \<Rightarrow> call_request \<Rightarrow> outcome \<Rightarrow> database \<Rightarrow> database" where
  "count_call env q d db =
     (case increment_counter (ce_now env) (cq_user q) (cq_session q) (outcome_text d) db of
        Inl _ \<Rightarrow> db | Inr db' \<Rightarrow> db')"

definition record_call ::
    "call_env \<Rightarrow> call_request \<Rightarrow> call_row \<Rightarrow> call_verdict \<Rightarrow> evaluator
      \<Rightarrow> (call_error + call_result) \<times> evaluator" where
  "record_call env q rw v ev =
     (case insert_audit (ce_audit env) (ce_now env) (ce_row env) (call_admission env q rw v) (ev_audit ev) of
        (Inl e, _) \<Rightarrow> (Inl (Audit_failed e), ev)
      | (Inr _, st) \<Rightarrow>
          (Inr \<lparr>cr_decision = cv_decision v, cr_raw = cv_raw v, cr_override = cv_override v,
                cr_minimum = rw_minimum rw, cr_reasoning = cv_reasoning v, cr_risk = cv_risk v,
                cr_path = cv_path v, cr_class = cv_class v, cr_status = rw_status rw\<rparr>,
           ev\<lparr>ev_audit := on_sessions (count_call env q (cv_decision v)) st\<rparr>))"

definition lifecycle_verdict :: "string \<Rightarrow> string \<Rightarrow> call_verdict" where
  "lifecycle_verdict reason override =
     \<lparr>cv_decision = Deny, cv_raw = None, cv_override = Some override, cv_risk = ''low'', cv_reasoning = reason,
      cv_path = ''fast'', cv_class = WRITE, cv_hash = None, cv_meta = None, cv_snapshot = None\<rparr>"

definition lifecycle_row :: "pydict \<Rightarrow> pydict \<Rightarrow> pyval \<Rightarrow> outcome option \<Rightarrow> string \<Rightarrow> call_row" where
  "lifecycle_row args context maximum minimum status =
     \<lparr>rw_args = stored_args args context, rw_profile = None, rw_intention = None, rw_injection = False,
      rw_maximum = maximum, rw_minimum = minimum, rw_status = Some status\<rparr>"

subsection \<open>Lifecycle denials\<close>

text \<open>\<^verbatim>\<open>_deny_inactive_parent\<close> walks up to the first stopped ancestor.\<close>

primrec stopped_ancestor :: "nat \<Rightarrow> database \<Rightarrow> string \<Rightarrow> session \<Rightarrow> call_error + session" where
  "stopped_ancestor 0 db user s = Inl Ancestors_exhausted"
| "stopped_ancestor (Suc n) db user s =
     (case parent_of s of
        None \<Rightarrow> Inr s
      | Some pid \<Rightarrow>
          (case find_session db user pid of
             None \<Rightarrow> Inl (Session_failed SessionNotFound)
           | Some p \<Rightarrow> if s_status p \<in> inactive_statuses then Inr p else stopped_ancestor n db user p))"

definition deny_inactive_parent ::
    "call_env \<Rightarrow> call_request \<Rightarrow> session \<Rightarrow> pydict \<Rightarrow> pydict \<Rightarrow> outcome option \<Rightarrow> evaluator
      \<Rightarrow> (call_error + call_result) \<times> evaluator" where
  "deny_inactive_parent env q s args context minimum ev =
     (let db = au_db (ev_audit ev) in
      case stopped_ancestor (length (db_sessions db) + 1) db (cq_user q) s of
        Inl e \<Rightarrow> (Inl e, ev)
      | Inr p \<Rightarrow>
          if s_status p \<notin> inactive_statuses then (Inl Lifecycle_changed, ev)
          else case update_status (ce_now env) (cq_user q) (s_id s) ''suspended''
                      (Some (''Parent session is '' @ s_status p)) db of
            Inl e \<Rightarrow> (Inl (Session_failed e), ev)
          | Inr db' \<Rightarrow>
              record_call env q
                (lifecycle_row args context
                   (dget_default context ''maximum_outcome'' (dget (session_policy_of s) ''maximum_outcome''))
                   minimum ''suspended'')
                (lifecycle_verdict (''Session suspended '' @ em_dash @ '' parent session is '' @ s_status p)
                   ''hard_stop.parent_lifecycle'')
                (with_db db' ev))"

definition stopped_statuses :: "string set" where
  "stopped_statuses = {''completed'', ''suspended'', ''terminated''}"

definition stopped_reason :: "session \<Rightarrow> string" where
  "stopped_reason s =
     ''Session is '' @ s_status s @ '' '' @ em_dash @ '' evaluation denied''
     @ (case s_status_reason s of None \<Rightarrow> [] | Some r \<Rightarrow> if r = [] then [] else ''. Reason: '' @ r)"

definition forget_session :: "string \<times> string \<Rightarrow> evaluator \<Rightarrow> evaluator" where
  "forget_session k ev =
     ev\<lparr>ev_paths := clear_paths k (ev_paths ev), ev_scopes := clear_scopes k (ev_scopes ev),
        ev_barrier := map_option (clear_session k) (ev_barrier ev)\<rparr>"

definition deny_stopped ::
    "call_env \<Rightarrow> call_request \<Rightarrow> session \<Rightarrow> pydict \<Rightarrow> pydict \<Rightarrow> outcome option \<Rightarrow> evaluator
      \<Rightarrow> (call_error + call_result) \<times> evaluator" where
  "deny_stopped env q s args context minimum ev =
     record_call env q
       (lifecycle_row args context (dget (session_policy_of s) ''maximum_outcome'') minimum (s_status s))
       (lifecycle_verdict (stopped_reason s) ''hard_stop.session_lifecycle'') (forget_session (call_key q) ev)"

subsection \<open>Classification and the caches\<close>

text \<open>The classification, whether a path outside the working directory made it a write, and the resolved
  paths; a read of an approved directory is a read again.\<close>

definition reclassifiable :: "string \<Rightarrow> pydict \<Rightarrow> string \<Rightarrow> bool" where
  "reclassifiable tool args wd \<longleftrightarrow> wd \<noteq> [] \<and> is_read_only tool args \<and> \<not> reads_secret_location tool args wd"

definition outside_paths :: "string \<Rightarrow> pydict \<Rightarrow> string \<Rightarrow> string list" where
  "outside_paths tool args wd = filter (\<lambda>rp. \<not> is_path_within rp wd) (resolve_tool_paths tool args wd)"

definition call_class ::
    "path_cache \<Rightarrow> string \<times> string \<Rightarrow> string \<Rightarrow> pydict \<Rightarrow> pydict \<Rightarrow> (string \<times> string) list option \<Rightarrow> string
      \<Rightarrow> classification \<times> bool \<times> string list" where
  "call_class cache k tool args policy preferences wd =
     (let c = classify tool args policy preferences wd in
      if c = WRITE \<and> reclassifiable tool args wd then
        (if outside_paths tool args wd = [] then (c, False, resolve_tool_paths tool args wd)
         else if check_approved_paths cache k (outside_paths tool args wd) wd
         then (READ, False, resolve_tool_paths tool args wd)
         else (c, True, resolve_tool_paths tool args wd))
      else (c, False, []))"

definition policy_facts :: "call_env \<Rightarrow> call_request \<Rightarrow> pydict \<Rightarrow> pydict \<Rightarrow> string \<Rightarrow> pydict \<Rightarrow> pydict" where
  "policy_facts env q args policy wd context =
     (let resolved = resolve_tool_paths (cq_tool q) (redact args) wd;
          paths = (if wd = [] \<and> \<not> list_all isabs resolved then [] else resolved)
      in if wd = [] \<and> paths = [] then context
         else dset (if wd = [] then context else dset context ''project_path'' (VStr wd)) ''path_policy''
                (VDict (path_policy_context (ce_str env) paths wd policy)))"

subsection \<open>Deciding\<close>

definition retry_ttl :: int where
  "retry_ttl = 10 * 60"

definition reused_approval ::
    "call_env \<Rightarrow> call_request \<Rightarrow> string \<Rightarrow> evaluator \<Rightarrow> (string \<times> string option) option" where
  "reused_approval env q hash ev =
     find_approved_escalation (ev_audit ev) (cq_user q) (cq_tool q) hash (ce_now env - retry_ttl)"

definition reuse_decision :: "string \<Rightarrow> final_decision" where
  "reuse_decision call =
     decide Approve ''low'' (''Reusing prior approval (call '' @ call @ '') '' @ em_dash
       @ '' same tool and arguments approved within 10 minutes'') ''fast''"

definition check_escalation_retry ::
    "call_env \<Rightarrow> call_request \<Rightarrow> string \<Rightarrow> outcome option \<Rightarrow> bool \<Rightarrow> evaluator \<Rightarrow> final_decision option" where
  "check_escalation_retry env q hash minimum unattended ev =
     (if minimum = None \<and> \<not> unattended
      then map_option (\<lambda>r. reuse_decision (fst r)) (reused_approval env q hash ev) else None)"

definition fast_decision :: "string \<Rightarrow> string \<Rightarrow> call_error + final_decision" where
  "fast_decision kind why =
     (case make_fast_decision kind why of Inl _ \<Rightarrow> Inl Fast_path_error | Inr d \<Rightarrow> Inr d)"

definition join_comma :: "string list \<Rightarrow> string" where
  "join_comma xs = concat (butlast (concat (map (\<lambda>x. [x, '', '']) xs)))"

definition scope_decision :: "string list \<Rightarrow> final_decision" where
  "scope_decision scopes =
     decide Approve ''low'' (''approved_workspace_edit: follow-up edit inside the approved write scope ''
       @ join_comma scopes) ''fast''"

definition user_decisions :: "audit_state \<Rightarrow> string \<Rightarrow> string \<Rightarrow> audit list" where
  "user_decisions st user sid =
     take 5 (List.rev (sort_key (\<lambda>r. coalesce (a_resolved_at r) (a_timestamp r))
       (filter (\<lambda>r. a_user r = user \<and> a_session r = sid \<and> a_type r = ''tool_call'' \<and> a_user_decision r \<noteq> None
          \<and> a_resolved_by r = Some ''user'' \<and> a_scope r \<noteq> Some ''action''
          \<and> a_user_note r \<noteq> Some ''Resolved via notification action link'') (au_log st))))"

definition ask_model ::
    "call_env \<Rightarrow> call_request \<Rightarrow> pydict \<Rightarrow> evaluator \<Rightarrow> call_error + final_decision \<times> pydict" where
  "ask_model env q args ev =
     (case ce_answer env of
        None \<Rightarrow> Inl Model_failed
      | Some (answer, meta) \<Rightarrow>
          Inr (model_decision (ce_jev env) (cq_tool q) (redact args)
                 (user_decisions (ev_audit ev) (cq_user q) (cq_session q)) answer, meta))"

definition read_reason :: "call_request \<Rightarrow> string \<Rightarrow> bool \<Rightarrow> string list \<Rightarrow> string" where
  "read_reason q wd reclassified resolved =
     ''Read-only tool call: '' @ cq_tool q
     @ (if resolved \<noteq> [] \<and> \<not> reclassified \<and> list_ex (\<lambda>rp. \<not> is_path_within rp wd) resolved
        then '' (path approved via prior evaluation)'' else [])"

text \<open>The decision and its metadata.\<close>

definition without_meta :: "call_error + final_decision \<Rightarrow> call_error + final_decision \<times> pydict" where
  "without_meta r = bindE r (\<lambda>d. Inr (d, []))"

definition decide_call ::
    "call_env \<Rightarrow> call_request \<Rightarrow> pydict \<Rightarrow> string \<Rightarrow> string list \<Rightarrow> classification \<times> bool \<times> string list
      \<Rightarrow> final_decision option \<Rightarrow> evaluator \<Rightarrow> call_error + final_decision \<times> pydict" where
  "decide_call env q args wd scopes class retry ev =
     (if fst class = READ
      then without_meta (fast_decision ''read'' (read_reason q wd (fst (snd class)) (snd (snd class))))
      else case retry of
        Some d \<Rightarrow> Inr (d, [])
      | None \<Rightarrow>
          if fst class = CRITICAL
          then without_meta (fast_decision ''critical'' (''Critical pattern detected in '' @ cq_tool q @ '' call''))
          else if fst class = ESCALATE
          then without_meta (fast_decision ''escalate'' (''Tool preference requires escalation for '' @ cq_tool q))
          else if scopes \<noteq> []
          then Inr (scope_decision scopes, [(''permission_basis'', VStr ''approved_workspace_edit''),
                 (''approved_workspace_scopes'', VStrs scopes)])
          else ask_model env q args ev)"

definition asks_model :: "string list \<Rightarrow> classification \<Rightarrow> final_decision option \<Rightarrow> bool" where
  "asks_model scopes c retry \<longleftrightarrow> c = WRITE \<and> retry = None \<and> scopes = []"

subsection \<open>Bounds, unattended tasks and the read-only ceiling\<close>

record bounded_call =
  bc_decision :: outcome
  bc_override :: "string option"
  bc_reasoning :: string

definition approval_matches :: "call_request \<Rightarrow> string \<Rightarrow> audit \<Rightarrow> bool" where
  "approval_matches q hash r \<longleftrightarrow>
     a_session r = cq_session q \<and> a_tool r = Some (cq_tool q) \<and> a_args_hash r = Some hash
     \<and> a_decision r = ''escalate'' \<and> a_user_decision r = Some ''approve'' \<and> a_resolved_by r = Some ''user''"

definition approval_given :: "call_request \<Rightarrow> bool" where
  "approval_given q \<longleftrightarrow> coalesce (cq_approval q) [] \<noteq> []"

definition user_approved :: "audit_state \<Rightarrow> call_request \<Rightarrow> string \<Rightarrow> bool" where
  "user_approved st q hash \<longleftrightarrow>
     approval_given q
     \<and> (case find_call st (cq_user q) (coalesce (cq_approval q) []) of None \<Rightarrow> False | Some r \<Rightarrow> approval_matches q hash r)"

definition capped_call :: "outcome option \<Rightarrow> final_decision \<Rightarrow> bounded_call" where
  "capped_call maximum d =
     \<lparr>bc_decision = cap_outcome (d_outcome d) maximum,
      bc_override = (if cap_outcome (d_outcome d) maximum \<noteq> d_outcome d
                     then Some ''session_policy.maximum_outcome'' else None),
      bc_reasoning = d_reasoning d\<rparr>"

definition floor_call ::
    "call_request \<Rightarrow> bool \<Rightarrow> outcome option \<Rightarrow> outcome \<Rightarrow> bounded_call \<Rightarrow> bounded_call" where
  "floor_call q approved minimum raw b =
     (case minimum of
        None \<Rightarrow> b
      | Some m \<Rightarrow>
          let b1 = (if approval_given q \<and> \<not> approved
                    then \<lparr>bc_decision = Deny, bc_override = Some ''invalid_approval'',
                          bc_reasoning = ''Approval does not match this evaluation.''\<rparr> else b)
          in if approved \<and> m = Escalate \<and> raw \<noteq> Deny
             then \<lparr>bc_decision = Approve, bc_override = Some ''human_approval'',
                   bc_reasoning = ''User approved call '' @ coalesce (cq_approval q) [] @ ''.''\<rparr>
             else
               let b2 = (if approved \<and> raw = Deny
                         then b1\<lparr>bc_decision := Deny, bc_override := Some ''request.minimum_outcome''\<rparr> else b1);
                   bounded = clamp_outcome (bc_decision b2) (Some m)
               in b2\<lparr>bc_decision := bounded,
                     bc_override := (if bounded \<noteq> bc_decision b2 then Some ''request.minimum_outcome''
                                     else bc_override b2)\<rparr>)"

definition unattended_stage ::
    "bool \<Rightarrow> bool \<Rightarrow> outcome option \<Rightarrow> outcome option \<Rightarrow> outcome \<Rightarrow> bounded_call \<Rightarrow> bounded_call" where
  "unattended_stage unattended judge minimum maximum raw b =
     (if unattended \<and> judge \<and> minimum = None \<and> raw \<in> {Deny, Escalate} \<and> maximum \<noteq> Some Deny
      then b\<lparr>bc_decision := Escalate, bc_override := Some unattended_review\<rparr>
      else if unattended \<and> (raw \<in> {Deny, Escalate} \<or> bc_decision b = Escalate)
      then \<lparr>bc_decision = Deny,
            bc_override = (if bc_decision b \<noteq> Deny then Some ''task.interaction_mode'' else bc_override b),
            bc_reasoning = bc_reasoning b @ '' Escalation is disabled for this unattended task.''\<rparr>
      else b)"

text \<open>\<^verbatim>\<open>observe\<close>, \<^verbatim>\<open>identity\<close> and \<^verbatim>\<open>explanation\<close> of
  \<^verbatim>\<open>intaris/read_only.py\<close>, the last without effects.\<close>

definition observe_mutation :: "string \<Rightarrow> pydict \<Rightarrow> string" where
  "observe_mutation tool args =
     (if py_lower tool \<in> {''write'', ''edit'', ''multiedit'', ''apply_patch''} then ''mutating''
      else
        let redirected = (case dget_default args ''command'' (dget_default args ''cmd'' (VStr [])) of
                            VStr c \<Rightarrow> unquoted_redirect c | _ \<Rightarrow> False)
        in if py_lower tool = ''bash'' \<and> redirected then ''mutating''
           else if py_lower tool = ''bash'' \<and> verified_read_only_bash args then ''read_only''
           else if verified_read_only tool args then ''read_only'' else ''unclear'')"

definition mode_identity :: "(pyval \<Rightarrow> string) \<Rightarrow> pydict \<Rightarrow> string" where
  "mode_identity digest overlay =
     digest (VDict [(''mode'', dget overlay ''chat_mode''), (''read_only'', dget overlay ''read_only_required'')])"

definition read_only_explanation :: "outcome \<Rightarrow> pydict \<Rightarrow> string \<Rightarrow> string option" where
  "read_only_explanation d overlay mutation =
     (if d \<noteq> Deny \<or> \<not> read_only_required (Some overlay) \<or> mutation = ''read_only'' then None
      else Some (''This explicit read-only restriction allows only read-only actions, and this ''
        @ (if mutation = ''mutating'' then ''action would make changes.''
           else ''command could not be verified as read-only.'')))"

definition assessed_mutation :: "call_env \<Rightarrow> string \<Rightarrow> pydict \<Rightarrow> string" where
  "assessed_mutation env tool args =
     (let seen = observe_mutation tool args in
      if seen = ''unclear'' then coalesce (map_option fst (ce_mutation env)) seen else seen)"

definition ceiling_stage :: "pydict \<Rightarrow> string \<Rightarrow> bounded_call \<Rightarrow> bounded_call" where
  "ceiling_stage overlay mutation b =
     (if \<not> read_only_required (Some overlay) then b
      else let e = enforce (bc_decision b) (Some overlay) mutation in
        \<lparr>bc_decision = fst e, bc_override = (if snd e \<noteq> None then snd e else bc_override b),
         bc_reasoning = coalesce (read_only_explanation (fst e) overlay mutation) (bc_reasoning b)\<rparr>)"

definition ceiling_stages :: "call_env \<Rightarrow> string \<Rightarrow> pydict \<Rightarrow> pyval list" where
  "ceiling_stages env tool args =
     (if observe_mutation tool args \<noteq> ''unclear'' then []
      else case ce_mutation env of
        None \<Rightarrow> [VDict [(''stage'', VStr ''read_only_l1''), (''status'', VStr ''unavailable'')]]
      | Some m \<Rightarrow> [VDict ((''stage'', VStr ''read_only_l1'') # snd m)])"

definition overlay_metadata :: "call_env \<Rightarrow> session \<Rightarrow> pydict \<Rightarrow> string \<Rightarrow> pyval list \<Rightarrow> pydict" where
  "overlay_metadata env s overlay mutation stages =
     [(''evaluation_policy_version'', VStr ''legacy''), (''overlay'', VDict overlay),
      (''mode_identity'', VStr (mode_identity (ae_digest (ce_audit env)) overlay)), (''mutation'', VStr mutation),
      (''policy_revision'', VNum (of_int (s_policy_revision s))),
      (''state_revision'', VNum (of_int (s_state_revision s))), (''stages'', VList stages),
      (''execution_state'', VStr ''not_dispatched'')]"

subsection \<open>The flow\<close>

definition mode_hash :: "call_env \<Rightarrow> pydict \<Rightarrow> string \<Rightarrow> string" where
  "mode_hash env overlay hash =
     ae_digest (ce_audit env) (VDict [(''args_hash'', VStr hash),
       (''mode'', VStr (mode_identity (ae_digest (ce_audit env)) overlay))])"

definition call_hash :: "call_env \<Rightarrow> pydict \<Rightarrow> pydict \<Rightarrow> pydict \<Rightarrow> string" where
  "call_hash env args context overlay =
     (if read_only_required (Some overlay) \<or> dget context ''chat_mode'' \<in> {VStr ''plan'', VStr ''build''}
      then mode_hash env overlay (ce_args_hash env args) else ce_args_hash env args)"

record call_frame =
  cf_session :: session
  cf_args :: pydict
  cf_context :: pydict
  cf_overlay :: pydict
  cf_minimum :: "outcome option"

definition cf_policy :: "call_frame \<Rightarrow> pydict" where
  "cf_policy f = session_policy_of (cf_session f)"

definition cf_unattended :: "call_frame \<Rightarrow> bool" where
  "cf_unattended f = no_interaction (cf_policy f) (cf_context f)"

definition cf_directory :: "call_request \<Rightarrow> call_frame \<Rightarrow> string" where
  "cf_directory q f =
     effective_working_directory (cq_tool q) (cf_args f) (cf_context f) (session_details_of (cf_session f))"

definition cf_hash :: "call_env \<Rightarrow> call_frame \<Rightarrow> string" where
  "cf_hash env f = call_hash env (cf_args f) (cf_context f) (cf_overlay f)"

definition cf_class :: "call_request \<Rightarrow> call_frame \<Rightarrow> evaluator \<Rightarrow> classification \<times> bool \<times> string list" where
  "cf_class q f ev =
     call_class (ev_paths ev) (call_key q) (cq_tool q) (cf_args f) (cf_policy f) (cq_preferences q) (cf_directory q f)"

definition cf_retry :: "call_env \<Rightarrow> call_request \<Rightarrow> call_frame \<Rightarrow> evaluator \<Rightarrow> final_decision option" where
  "cf_retry env q f ev =
     check_escalation_retry env q (cf_hash env f) (cf_minimum f) (cf_unattended f) ev"

definition cf_approved :: "call_env \<Rightarrow> call_request \<Rightarrow> call_frame \<Rightarrow> evaluator \<Rightarrow> bool" where
  "cf_approved env q f ev = user_approved (ev_audit ev) q (cf_hash env f)"

definition bound_call ::
    "call_env \<Rightarrow> call_request \<Rightarrow> call_frame \<Rightarrow> outcome option \<Rightarrow> final_decision \<Rightarrow> evaluator \<Rightarrow> bounded_call" where
  "bound_call env q f maximum d ev =
     ceiling_stage (cf_overlay f) (assessed_mutation env (cq_tool q) (cf_args f))
       (unattended_stage (cf_unattended f) (cq_judge q) (cf_minimum f) maximum (d_outcome d)
         (floor_call q (cf_approved env q f ev) (cf_minimum f) (d_outcome d) (capped_call maximum d)))"

definition cf_scopes :: "call_env \<Rightarrow> call_request \<Rightarrow> call_frame \<Rightarrow> string list \<Rightarrow> evaluator \<Rightarrow> string list" where
  "cf_scopes env q f targets ev =
     (if targets = [] then []
      else coalesce (approved_workspace_scopes (ev_audit ev) (cf_session f) (cq_tool q) (cf_hash env f) targets
             (ev_scopes ev)) [])"

definition learn_call ::
    "call_request \<Rightarrow> call_frame \<Rightarrow> string list \<Rightarrow> classification \<times> bool \<times> string list \<Rightarrow> outcome option
      \<Rightarrow> final_decision \<Rightarrow> outcome \<Rightarrow> evaluator \<Rightarrow> evaluator" where
  "learn_call q f targets class maximum d decision ev =
     ev\<lparr>ev_paths :=
          (if fst (snd class) \<and> decision = Approve \<and> cap_outcome (d_outcome d) maximum = d_outcome d
              \<and> cf_directory q f \<noteq> []
           then learn_paths (call_key q) (cf_directory q f) (snd (snd class)) (ev_paths ev) else ev_paths ev),
        ev_scopes :=
          (if targets \<noteq> [] \<and> d_path d = ''llm'' \<and> d_outcome d = Approve \<and> decision = Approve
           then record_workspace_edit (call_key q) (session_revision (cf_session f)) targets (cf_directory q f)
                  (ev_scopes ev)
           else ev_scopes ev)\<rparr>"

definition final_context ::
    "call_env \<Rightarrow> call_request \<Rightarrow> call_frame \<Rightarrow> classification \<Rightarrow> bool \<Rightarrow> pydict" where
  "final_context env q f c asked =
     (let facts = (if c = WRITE then policy_facts env q (cf_args f) (cf_policy f) (cf_directory q f) (cf_context f)
                   else cf_context f)
      in if asked then dset facts ''raw_task_sources'' (ce_sources env) else facts)"

definition final_row ::
    "call_env \<Rightarrow> call_request \<Rightarrow> call_frame \<Rightarrow> classification \<Rightarrow> bool \<Rightarrow> call_row" where
  "final_row env q f c asked =
     \<lparr>rw_args = stored_args (cf_args f) (final_context env q f c asked), rw_profile = ce_profile env,
      rw_intention = Some (s_intention (cf_session f)),
      rw_injection = ce_injected env (if cf_context f = [] then redact (cf_args f)
                       else dset (redact (cf_args f)) context_arg_key (VDict (redact (cf_context f))))
                       (s_intention (cf_session f)),
      rw_maximum = dget (cf_policy f) ''maximum_outcome'', rw_minimum = cf_minimum f, rw_status = None\<rparr>"

definition final_verdict ::
    "call_env \<Rightarrow> call_request \<Rightarrow> call_frame \<Rightarrow> string list \<Rightarrow> classification \<Rightarrow> final_decision \<Rightarrow> pydict
      \<Rightarrow> bounded_call \<Rightarrow> call_verdict" where
  "final_verdict env q f scopes c d meta b =
     (let ceiling' = read_only_required (Some (cf_overlay f));
          meta' = (if ceiling' then overlay_metadata env (cf_session f) (cf_overlay f)
                                      (assessed_mutation env (cq_tool q) (cf_args f))
                                      (ceiling_stages env (cq_tool q) (cf_args f))
                   else meta)
      in \<lparr>cv_decision = bc_decision b, cv_raw = Some (d_outcome d), cv_override = bc_override b, cv_risk = d_risk d,
          cv_reasoning = bc_reasoning b, cv_path = d_path d, cv_class = c, cv_hash = Some (cf_hash env f),
          cv_meta = (if meta' = [] then None else Some meta'),
          cv_snapshot = (if ceiling' \<or> (scopes \<noteq> [] \<and> d_path d = ''fast'' \<and> meta \<noteq> [])
                         then Some (cf_session f) else None)\<rparr>)"

text \<open>The tenth call of a session without user messages asks once for an intention.\<close>

definition bootstrap_intention :: "call_env \<Rightarrow> call_request \<Rightarrow> session \<Rightarrow> database \<Rightarrow> database" where
  "bootstrap_intention env q s db =
     (if s_total_calls s = 9 \<and> s_intention_source s = ''initial'' \<and> ce_analysis env
      then snd (enqueue_bootstrap_if_no_user_message (ce_now env) (ce_task env) (cq_user q) (cq_session q) 1 db)
      else db)"

text \<open>From the decision to the row, the caches and the counters.\<close>

definition conclude_call ::
    "call_env \<Rightarrow> call_request \<Rightarrow> call_frame \<Rightarrow> string list \<Rightarrow> string list \<Rightarrow> bool \<Rightarrow> classification \<times> bool \<times> string list
      \<Rightarrow> outcome option \<Rightarrow> final_decision \<Rightarrow> pydict \<Rightarrow> evaluator \<Rightarrow> (call_error + call_result) \<times> evaluator" where
  "conclude_call env q f targets scopes asked class maximum d meta ev =
     (let b = bound_call env q f maximum d ev;
          recorded = record_call env q (final_row env q f (fst class) asked)
                       (final_verdict env q f scopes (fst class) d meta b)
                       (learn_call q f targets class maximum d (bc_decision b) ev)
      in case fst recorded of
           Inl e \<Rightarrow> recorded
         | Inr r \<Rightarrow>
             (Inr r, (snd recorded)\<lparr>ev_audit :=
                on_sessions (bootstrap_intention env q (cf_session f)) (ev_audit (snd recorded))\<rparr>))"

definition evaluate_ready ::
    "call_env \<Rightarrow> call_request \<Rightarrow> call_frame \<Rightarrow> evaluator \<Rightarrow> (call_error + call_result) \<times> evaluator" where
  "evaluate_ready env q f ev =
     (case workspace_edit_targets (cf_session f) (cq_tool q) (cf_args f) (cf_context f) (cf_directory q f)
             (cf_minimum f) of
        Inl e \<Rightarrow> (Inl (Bad_overlay e), ev)
      | Inr found_targets \<Rightarrow>
          let targets = coalesce found_targets [];
              scopes = cf_scopes env q f targets ev;
              class = cf_class q f ev;
              retry = cf_retry env q f ev
          in case decide_call env q (cf_args f) (cf_directory q f) scopes class retry ev of
               Inl e \<Rightarrow> (Inl e, ev)
             | Inr (d, meta) \<Rightarrow>
                 (case policy_bound (dget (cf_policy f) ''maximum_outcome'') of
                    Inl e \<Rightarrow> (Inl e, ev)
                  | Inr maximum \<Rightarrow>
                      conclude_call env q f targets scopes (asks_model scopes (fst class) retry) class maximum d meta ev))"

text \<open>The stop of a child whose declared task the alignment barrier found incompatible.\<close>

definition misalignment_of :: "call_env \<Rightarrow> call_request \<Rightarrow> session \<Rightarrow> evaluator \<Rightarrow> string option" where
  "misalignment_of env q s ev =
     (if ce_forced env \<or> \<not> s_guardrails_enabled s then None
      else case ev_barrier ev of
        None \<Rightarrow> None
      | Some b \<Rightarrow> (case is_misaligned (call_key q) b of
            None \<Rightarrow> None | Some why \<Rightarrow> if why = [] then None else Some why))"

definition alignment_mutation :: "call_env \<Rightarrow> call_request \<Rightarrow> call_frame \<Rightarrow> call_error + string" where
  "alignment_mutation env q f =
     (let seen = observe_mutation (cq_tool q) (cf_args f) in
      if \<not> read_only_required (Some (cf_overlay f)) \<or> seen \<noteq> ''unclear''
         \<or> s_alignment_state (cf_session f) \<in> {''pending'', ''error''} then Inr seen
      else case ce_mutation env of None \<Rightarrow> Inl Model_failed | Some m \<Rightarrow> Inr (fst m))"

definition alignment_metadata :: "call_env \<Rightarrow> session \<Rightarrow> pydict \<Rightarrow> string \<Rightarrow> pydict" where
  "alignment_metadata env s overlay mutation =
     [(''evaluation_policy_version'', dget_default (session_policy_of s) ''evaluation_policy_version'' (VStr ''legacy'')),
      (''policy_revision'', VNum (of_int (s_policy_revision s))),
      (''state_revision'', VNum (of_int (s_state_revision s))), (''policy_hash'', dget (session_policy_of s) ''policy_hash''),
      (''human_approval_required'', VBool True), (''mandatory_rule_ids'', VList [VStr ''session.alignment'']),
      (''admission'', VNone), (''execution_state'', VStr ''not_dispatched''), (''overlay'', VDict overlay),
      (''mode_identity'', VStr (mode_identity (ae_digest (ce_audit env)) overlay)), (''mutation'', VStr mutation)]"

definition stop_misaligned ::
    "call_env \<Rightarrow> call_request \<Rightarrow> call_frame \<Rightarrow> string \<Rightarrow> evaluator \<Rightarrow> (call_error + call_result) \<times> evaluator" where
  "stop_misaligned env q f why ev =
     (case alignment_mutation env q f of
        Inl e \<Rightarrow> (Inl e, ev)
      | Inr mutation \<Rightarrow>
          let overlay = cf_overlay f; ceiling' = read_only_required (Some overlay);
              d0 = (if cf_unattended f then Deny else clamp_outcome Escalate (cf_minimum f));
              d = fst (enforce d0 (Some overlay) mutation)
          in record_call env q
               \<lparr>rw_args = stored_args (cf_args f) (cf_context f), rw_profile = None,
                rw_intention = Some (s_intention (cf_session f)), rw_injection = False,
                rw_maximum = dget (cf_policy f) ''maximum_outcome'', rw_minimum = cf_minimum f, rw_status = None\<rparr>
               \<lparr>cv_decision = d, cv_raw = Some Escalate,
                cv_override = Some (if cf_unattended f then ''task.interaction_mode'' else ''hard_stop.alignment''),
                cv_risk = ''high'', cv_reasoning = coalesce (read_only_explanation d overlay mutation) why,
                cv_path = ''alignment'', cv_class = WRITE,
                cv_hash = Some (if ceiling' then mode_hash env overlay (ce_args_hash env (cf_args f))
                                else ce_args_hash env (cf_args f)),
                cv_meta = (if ceiling' then Some (alignment_metadata env (cf_session f) overlay mutation) else None),
                cv_snapshot = (if ceiling' then Some (cf_session f) else None)\<rparr> ev)"

text \<open>An active session: its activity, its alignment, its parent, then the call.\<close>

definition evaluate_active ::
    "call_env \<Rightarrow> call_request \<Rightarrow> call_frame \<Rightarrow> evaluator \<Rightarrow> (call_error + call_result) \<times> evaluator" where
  "evaluate_active env q f ev =
     (let ev1 = with_db (update_activity (ce_now env) (cq_user q) (cq_session q) (au_db (ev_audit ev))) ev in
      case misalignment_of env q (cf_session f) ev1 of
        Some why \<Rightarrow> stop_misaligned env q f why ev1
      | None \<Rightarrow>
          (case (case parent_of (cf_session f) of
                   None \<Rightarrow> None | Some pid \<Rightarrow> find_session (au_db (ev_audit ev1)) (cq_user q) pid) of
             Some p \<Rightarrow>
               if s_status p \<in> inactive_statuses
               then deny_inactive_parent env q (cf_session f) (cf_args f) (cf_context f) (cf_minimum f) ev1
               else evaluate_ready env q f ev1
           | None \<Rightarrow> evaluate_ready env q f ev1))"

definition stale_expectation :: "call_env \<Rightarrow> call_request \<Rightarrow> session \<Rightarrow> call_error option" where
  "stale_expectation env q s =
     (let policy = session_policy_of s in
      if ce_forced env then None
      else if cq_version q \<noteq> None
              \<and> map_option VStr (cq_version q) \<noteq> Some (dget_default policy ''evaluation_policy_version'' (VStr ''legacy''))
      then Some Version_mismatch
      else if cq_revision q \<noteq> None \<and> cq_revision q \<noteq> Some (s_policy_revision s) then Some Stale_policy_revision
      else if cq_hash q \<noteq> None \<and> map_option VStr (cq_hash q) \<noteq> Some (dget policy ''policy_hash'') then Some Stale_policy_hash
      else None)"

definition resume_idle :: "call_env \<Rightarrow> call_request \<Rightarrow> session \<Rightarrow> evaluator \<Rightarrow> session \<times> evaluator" where
  "resume_idle env q s ev =
     (if s_status s \<noteq> ''idle'' then (s, ev)
      else case update_status (ce_now env) (cq_user q) (cq_session q) ''active'' None (au_db (ev_audit ev)) of
        Inl _ \<Rightarrow> (s, ev)
      | Inr db \<Rightarrow>
          (case find_session db (cq_user q) (cq_session q) of
             None \<Rightarrow> (s, with_db db ev)
           | Some s' \<Rightarrow> (session_view (ce_forced env) s', with_db db ev)))"

definition evaluate_loaded ::
    "call_env \<Rightarrow> call_request \<Rightarrow> session \<Rightarrow> evaluator \<Rightarrow> (call_error + call_result) \<times> evaluator" where
  "evaluate_loaded env q s0 ev =
     (case request_minimum q (session_policy_of s0) of
        Inl e \<Rightarrow> (Inl e, ev)
      | Inr minimum \<Rightarrow>
          let context = floored_context (session_policy_of s0) minimum (request_context q);
              s1 = session_view (ce_forced env) s0
          in if hybrid_session s1 then (Inl Hybrid_session, ev)
             else case resolve_overlay context (session_policy_of s1) of
               Inl e \<Rightarrow> (Inl (Bad_overlay e), ev)
             | Inr overlay \<Rightarrow>
                 let args = (if read_only_required (Some overlay) then coalesce (cq_original q) (cq_args q) else cq_args q)
                 in case stale_expectation env q s1 of
                      Some e \<Rightarrow> (Inl e, ev)
                    | None \<Rightarrow>
                        let (s, ev1) = resume_idle env q s1 ev in
                        if s_status s \<in> stopped_statuses then deny_stopped env q s args context minimum ev1
                        else evaluate_active env q \<lparr>cf_session = s, cf_args = args, cf_context = context,
                               cf_overlay = overlay, cf_minimum = minimum\<rparr> ev1)"

definition refresh_fuel :: nat where
  "refresh_fuel = 33"

definition evaluate_call ::
    "call_env \<Rightarrow> call_request \<Rightarrow> evaluator \<Rightarrow> (call_error + call_result) \<times> evaluator" where
  "evaluate_call env q ev =
     (case call_session q ev of
        None \<Rightarrow> (Inl (Session_failed SessionNotFound), ev)
      | Some s0 \<Rightarrow>
          if s_status s0 \<in> stopped_statuses then evaluate_loaded env q s0 ev
          else case refresh_inherited_policy refresh_fuel (ce_policy env) (ce_now env) (au_db (ev_audit ev))
                      (cq_user q) (cq_session q) [] of
            Inl InactiveParent \<Rightarrow> deny_inactive_parent env q s0 (cq_args q) (request_context q) (cq_minimum q) ev
          | Inl e \<Rightarrow> (Inl (Session_failed e), ev)
          | Inr (s, db) \<Rightarrow> evaluate_loaded env q s (with_db db ev))"

subsection \<open>What a later approval teaches\<close>

text \<open>\<^verbatim>\<open>learn_from_approved_escalation\<close>: the write scope, then the directories of an approved read.\<close>

definition judged_past_denial :: "audit \<Rightarrow> bool" where
  "judged_past_denial r \<longleftrightarrow>
     a_resolved_by r \<noteq> Some ''user'' \<and> a_raw r = ''deny'' \<and> a_maximum r \<in> {Some ''escalate'', Some ''approve''}"

definition learn_scopes_of :: "audit \<Rightarrow> revision option \<Rightarrow> evaluator \<Rightarrow> evaluator" where
  "learn_scopes_of r resolution ev =
     (case find_session (au_db (ev_audit ev)) (a_user r) (a_session r) of
        None \<Rightarrow> ev
      | Some s \<Rightarrow>
          (case learn_workspace_edit s r resolution (ev_scopes ev) of
             Inl _ \<Rightarrow> ev | Inr scopes \<Rightarrow> ev\<lparr>ev_scopes := scopes\<rparr>))"

definition learn_from_approved_escalation ::
    "audit \<Rightarrow> revision option \<Rightarrow> evaluator \<Rightarrow> call_error option \<times> evaluator" where
  "learn_from_approved_escalation r resolution ev =
     (if judged_past_denial r then (None, ev)
      else
        let ev1 = learn_scopes_of r resolution ev;
            tool = coalesce (a_tool r) []; args = coalesce (a_args r) []
        in if args = [] \<or> \<not> is_read_only tool args then (None, ev1)
           else case find_session (au_db (ev_audit ev1)) (a_user r) (a_session r) of
             None \<Rightarrow> (Some (Session_failed SessionNotFound), ev1)
           | Some s \<Rightarrow>
               (case dget (session_details_of s) ''working_directory'' of
                  VStr wd \<Rightarrow>
                    (None,
                     if wd = [] then ev1
                     else ev1\<lparr>ev_paths := learn_paths (a_user r, a_session r) wd (resolve_tool_paths tool args wd)
                                           (ev_paths ev1)\<rparr>)
                | _ \<Rightarrow> (None, ev1)))"

text \<open>\<^verbatim>\<open>waits_for_alignment\<close>.\<close>

definition waits_for_alignment :: "evaluator \<Rightarrow> string \<Rightarrow> string \<Rightarrow> bool" where
  "waits_for_alignment ev user sid =
     (case find_session (au_db (ev_audit ev)) user sid of
        None \<Rightarrow> True
      | Some s \<Rightarrow>
          s_guardrails_enabled s
          \<and> \<not> (hybrid_session s \<and> policy_profile (session_policy_of s) = VStr ''bounded_autonomy''))"

end
