(* ===== verification/Call_Properties.thy ===== *)
theory Call_Properties
  imports Call_Evaluation
begin

text \<open>
  What \<^verbatim>\<open>_evaluation_flow\<close> guarantees on the legacy path: every decision is on record, no
  approval without a basis, floors that only a matching human approval passes, and unattended tasks that
  never wait for a human.
\<close>

subsection \<open>What a recorded call leaves\<close>

definition plain_meta :: "pydict option \<Rightarrow> bool" where
  "plain_meta meta \<longleftrightarrow> \<not> veto_applies (case meta of None \<Rightarrow> [] | Some d \<Rightarrow> d)"

lemma admit_plain:
  assumes "admit_call env q snap st = Inr v" "plain_meta (ar_meta q)"
  shows "vs_decision v = ar_decision q"
proof -
  have "\<not> veto_applies (request_meta q)" using assms(2) by (simp add: plain_meta_def request_meta_def)
  moreover from this have "\<not> operator_bound (request_meta q)" by (simp add: veto_applies_def)
  ultimately show ?thesis
    using assms(1) by (auto simp: admit_call_def bindE_eq_Inr operator_stage_def veto_stage_def)
qed

lemma insert_recorded:
  assumes "insert_audit env now rid q st = (Inr row, st')"
  shows "au_log st' = au_log st @ [row] \<and> a_call row = ar_call q \<and> a_user row = ar_user q
    \<and> a_session row = ar_session q \<and> a_tool row = ar_tool q
    \<and> (ar_snapshot q = None \<or> plain_meta (ar_meta q) \<longrightarrow> a_decision row = ar_decision q)"
proof -
  from assms obtain v where
    v: "(case ar_snapshot q of
           None \<Rightarrow> Inr \<lparr>vs_decision = ar_decision q, vs_override = ar_override q, vs_reasoning = ar_reasoning q,
                     vs_meta = request_meta q\<rparr>
         | Some snap \<Rightarrow> admit_call env q snap (on_sessions (note_message q) st)) = Inr v"
    and row: "row = new_record now rid q v" "st' = (on_sessions (note_message q) st)\<lparr>au_log := au_log (on_sessions (note_message q) st) @ [row]\<rparr>"
    by (auto simp: insert_audit_def Let_def split: if_splits sum.splits option.splits)
  have "vs_decision v = ar_decision q" if "ar_snapshot q = None \<or> plain_meta (ar_meta q)"
    using v that admit_plain by (auto split: option.splits)
  then show ?thesis
    by (simp add: row new_record_def on_sessions_def)
qed

lemma record_call_result:
  assumes "record_call env q rw v ev = (Inr r, ev')"
  shows "cr_decision r = cv_decision v" "cr_override r = cv_override v"
    "\<exists>row. au_log (ev_audit ev') = au_log (ev_audit ev) @ [row] \<and> a_call row = ce_call env \<and> a_user row = cq_user q
       \<and> a_session row = cq_session q \<and> a_tool row = Some (cq_tool q)
       \<and> (cv_snapshot v = None \<or> plain_meta (cv_meta v) \<longrightarrow> a_decision row = outcome_text (cv_decision v))"
proof -
  from assms obtain row st where ins: "insert_audit (ce_audit env) (ce_now env) (ce_row env)
      (call_admission env q rw v) (ev_audit ev) = (Inr row, st)"
    and r: "cr_decision r = cv_decision v" "cr_override r = cv_override v"
      "ev_audit ev' = on_sessions (count_call env q (cv_decision v)) st"
    by (auto simp: record_call_def split: prod.splits sum.splits)
  show "cr_decision r = cv_decision v" "cr_override r = cv_override v" by (fact r)+
  show "\<exists>row. au_log (ev_audit ev') = au_log (ev_audit ev) @ [row] \<and> a_call row = ce_call env \<and> a_user row = cq_user q
       \<and> a_session row = cq_session q \<and> a_tool row = Some (cq_tool q)
       \<and> (cv_snapshot v = None \<or> plain_meta (cv_meta v) \<longrightarrow> a_decision row = outcome_text (cv_decision v))"
    using insert_recorded [OF ins]
    by (intro exI [of _ row]) (simp add: r(3) on_sessions_def call_admission_def)
qed

lemma record_call_error: "record_call env q rw v ev = (Inl e, ev') \<Longrightarrow> ev' = ev"
  by (auto simp: record_call_def split: prod.splits sum.splits)

lemma same_log [simp]:
  "au_log (ev_audit (with_db db ev)) = au_log (ev_audit ev)" "au_log (on_sessions g st) = au_log st"
  "ev_audit (forget_session k ev) = ev_audit ev" "ev_audit (learn_call q f ts c m d o' ev) = ev_audit ev"
  by (simp_all add: with_db_def on_sessions_def forget_session_def learn_call_def)

text \<open>The metadata of the rows admitted under a snapshot ask for none of the late checks.\<close>

lemma plain_metas:
  "plain_meta None" "plain_meta (Some (overlay_metadata env s overlay m stages))"
  "plain_meta (Some (alignment_metadata env s overlay m))"
  "plain_meta (Some [(''permission_basis'', VStr w), (''approved_workspace_scopes'', VStrs scopes)])"
  by (simp_all add: plain_meta_def veto_applies_def operator_bound_def overlay_metadata_def alignment_metadata_def dget_def)

text \<open>The outcome of a call is on record.\<close>

definition on_record :: "call_env \<Rightarrow> call_request \<Rightarrow> evaluator \<Rightarrow> (call_error + call_result) \<times> evaluator \<Rightarrow> bool" where
  "on_record env q ev res \<longleftrightarrow>
     (case fst res of
        Inl _ \<Rightarrow> au_log (ev_audit (snd res)) = au_log (ev_audit ev)
      | Inr r \<Rightarrow> \<exists>row. au_log (ev_audit (snd res)) = au_log (ev_audit ev) @ [row] \<and> a_call row = ce_call env
            \<and> a_user row = cq_user q \<and> a_session row = cq_session q \<and> a_tool row = Some (cq_tool q)
            \<and> a_decision row = outcome_text (cr_decision r))"

lemma on_record_error [simp]: "on_record env q ev (Inl e, ev') \<longleftrightarrow> au_log (ev_audit ev') = au_log (ev_audit ev)"
  by (simp add: on_record_def)

lemma record_call_recorded:
  assumes "cv_snapshot v = None \<or> plain_meta (cv_meta v)" "au_log (ev_audit ev) = au_log (ev_audit ev0)"
  shows "on_record env q ev0 (record_call env q rw v ev)"
proof (cases "fst (record_call env q rw v ev)")
  case (Inl e)
  then have "record_call env q rw v ev = (Inl e, snd (record_call env q rw v ev))" by (cases "record_call env q rw v ev") auto
  from record_call_error [OF this] show ?thesis by (simp add: on_record_def Inl assms(2))
next
  case (Inr r)
  then have "record_call env q rw v ev = (Inr r, snd (record_call env q rw v ev))" by (cases "record_call env q rw v ev") auto
  from record_call_result [OF this] show ?thesis using assms by (auto simp: on_record_def Inr)
qed

lemma deny_inactive_parent_recorded:
  "au_log (ev_audit ev) = au_log (ev_audit ev0) \<Longrightarrow> on_record env q ev0 (deny_inactive_parent env q s args context m ev)"
  unfolding deny_inactive_parent_def Let_def
  by (auto split: sum.splits intro!: record_call_recorded simp: lifecycle_verdict_def)

lemma final_verdict_plain:
  assumes "decide_call env q args wd scopes class retry ev = Inr (d, meta)"
  shows "cv_snapshot (final_verdict env q f scopes c d meta b) = None
    \<or> plain_meta (cv_meta (final_verdict env q f scopes c d meta b))"
  using assms plain_metas
  by (auto simp: final_verdict_def Let_def decide_call_def without_meta_def bindE_eq_Inr ask_model_def model_decision_def
      apply_decision_matrix_def scope_decision_def overlay_metadata_def split: if_splits option.splits sum.splits)

lemma conclude_call_recorded:
  assumes "decide_call env q args wd scopes class retry ev = Inr (d, meta)"
    and "au_log (ev_audit ev) = au_log (ev_audit ev0)"
  shows "on_record env q ev0 (conclude_call env q f targets scopes asked class' maximum d meta ev)"
proof -
  let ?res = "record_call env q (final_row env q f (fst class') asked)
    (final_verdict env q f scopes (fst class') d meta (bound_call env q f maximum d ev))
    (learn_call q f targets class' maximum d (bc_decision (bound_call env q f maximum d ev)) ev)"
  have "on_record env q ev0 ?res"
    using final_verdict_plain [OF assms(1)] assms(2) by (intro record_call_recorded) auto
  then show ?thesis
    unfolding conclude_call_def Let_def
    by (cases "fst ?res") (simp_all add: on_record_def)
qed

lemma evaluate_ready_recorded:
  "au_log (ev_audit ev) = au_log (ev_audit ev0) \<Longrightarrow> on_record env q ev0 (evaluate_ready env q f ev)"
  unfolding evaluate_ready_def Let_def
  by (auto split: sum.splits intro: conclude_call_recorded)

lemma stop_misaligned_recorded:
  "au_log (ev_audit ev) = au_log (ev_audit ev0) \<Longrightarrow> on_record env q ev0 (stop_misaligned env q f why ev)"
  unfolding stop_misaligned_def Let_def
  by (auto split: sum.splits intro!: record_call_recorded simp: plain_metas)

lemma evaluate_active_recorded:
  "au_log (ev_audit ev) = au_log (ev_audit ev0) \<Longrightarrow> on_record env q ev0 (evaluate_active env q f ev)"
  unfolding evaluate_active_def Let_def
  by (auto split: option.splits intro!: stop_misaligned_recorded evaluate_ready_recorded deny_inactive_parent_recorded)

lemma resume_idle_log [simp]: "resume_idle env q s ev = (s', ev') \<Longrightarrow> au_log (ev_audit ev') = au_log (ev_audit ev)"
  by (auto simp: resume_idle_def split: if_splits sum.splits option.splits)

lemma evaluate_loaded_recorded:
  assumes "au_log (ev_audit ev) = au_log (ev_audit ev0)"
  shows "on_record env q ev0 (evaluate_loaded env q s0 ev)"
  unfolding evaluate_loaded_def Let_def deny_stopped_def using assms
  by (auto split: sum.splits option.splits prod.splits
      intro!: evaluate_active_recorded record_call_recorded simp: lifecycle_verdict_def)

subsection \<open>The frame of a call\<close>

lemma find_session_is: "find_session db user sid = Some s \<Longrightarrow> is_session user sid s"
  by (auto simp: find_session_def find_Some_iff)

lemma refreshed_is_session:
  assumes "refresh_inherited_policy n env now db user sid seen = Inr (s, db')"
  shows "is_session user sid s"
proof (cases n)
  case (Suc m)
  from assms show ?thesis
    by (auto simp: Suc bindE_eq_Inr stored_Inr update_session_def find_session_is
        split: if_splits option.splits)
qed (use assms in simp)

text \<open>
  The frame a call is decided in, as the flow builds it from the request and the stored session: the
  policy of the (refreshed) session, the overlay its context resolves to, the arguments the overlay
  selects, the resumed session, and the state the evaluation then reads.
\<close>

definition loaded_frame :: "call_env \<Rightarrow> call_request \<Rightarrow> session \<Rightarrow> evaluator \<Rightarrow> (call_frame \<times> evaluator) option" where
  "loaded_frame env q s0 ev =
     (case request_minimum q (session_policy_of s0) of
        Inl _ \<Rightarrow> None
      | Inr minimum \<Rightarrow>
          let cx = floored_context (session_policy_of s0) minimum (request_context q);
              s1 = session_view (ce_forced env) s0
          in case resolve_overlay cx (session_policy_of s1) of
               Inl _ \<Rightarrow> None
             | Inr overlay \<Rightarrow>
                 let (s, ev1) = resume_idle env q s1 ev
                 in Some (\<lparr>cf_session = s,
                           cf_args = (if read_only_required (Some overlay) then coalesce (cq_original q) (cq_args q)
                                      else cq_args q),
                           cf_context = cx, cf_overlay = overlay, cf_minimum = minimum\<rparr>,
                          with_db (update_activity (ce_now env) (cq_user q) (cq_session q) (au_db (ev_audit ev1))) ev1))"

definition call_frame_for :: "call_env \<Rightarrow> call_request \<Rightarrow> evaluator \<Rightarrow> (call_frame \<times> evaluator) option" where
  "call_frame_for env q ev =
     (case call_session q ev of
        None \<Rightarrow> None
      | Some s0 \<Rightarrow>
          if s_status s0 \<in> stopped_statuses then loaded_frame env q s0 ev
          else case refresh_inherited_policy refresh_fuel (ce_policy env) (ce_now env) (au_db (ev_audit ev))
                      (cq_user q) (cq_session q) [] of
            Inl _ \<Rightarrow> None
          | Inr (s, db) \<Rightarrow> loaded_frame env q s (with_db db ev))"

text \<open>What the evaluated frame has of the request.\<close>

definition frame_of :: "call_request \<Rightarrow> call_frame \<Rightarrow> bool" where
  "frame_of q f \<longleftrightarrow>
     is_session (cq_user q) (cq_session q) (cf_session f)
     \<and> cf_args f \<in> {cq_args q, coalesce (cq_original q) (cq_args q)}
     \<and> dget (cf_context f) ''interaction_mode'' = dget (cq_context q) ''interaction_mode''
     \<and> (case cq_minimum q of None \<Rightarrow> True | Some m \<Rightarrow> \<exists>k. cf_minimum f = Some k \<and> k \<le> m)"

definition same_evidence :: "evaluator \<Rightarrow> evaluator \<Rightarrow> bool" where
  "same_evidence a b \<longleftrightarrow>
     au_log (ev_audit a) = au_log (ev_audit b) \<and> ev_paths a = ev_paths b \<and> ev_scopes a = ev_scopes b"

lemma same_evidence_db [simp]: "same_evidence (with_db db a) b \<longleftrightarrow> same_evidence a b"
  by (simp add: same_evidence_def with_db_def)

text \<open>How a call that was not denied for a lifecycle reason came to its result.\<close>

definition decided_in :: "call_env \<Rightarrow> call_request \<Rightarrow> call_result \<Rightarrow> call_frame \<Rightarrow> evaluator \<Rightarrow> bool" where
  "decided_in env q r f ev1 \<longleftrightarrow>
     (\<exists>why ev2. stop_misaligned env q f why ev1 = (Inr r, ev2)) \<or> (\<exists>ev2. evaluate_ready env q f ev1 = (Inr r, ev2))"

definition evaluated :: "call_env \<Rightarrow> call_request \<Rightarrow> call_result \<Rightarrow> evaluator \<Rightarrow> call_frame \<Rightarrow> evaluator \<Rightarrow> bool" where
  "evaluated env q r ev f ev1 \<longleftrightarrow>
     call_frame_for env q ev = Some (f, ev1) \<and> frame_of q f \<and> same_evidence ev1 ev \<and> decided_in env q r f ev1"

lemma lifecycle_denied: "record_call env q rw (lifecycle_verdict why o') ev = (Inr r, ev') \<Longrightarrow> cr_decision r = Deny"
  using record_call_result(1) by (fastforce simp: lifecycle_verdict_def)

lemma inactive_parent_denied:
  "deny_inactive_parent env q s args context m ev = (Inr r, ev') \<Longrightarrow> cr_decision r = Deny"
  by (auto simp: deny_inactive_parent_def Let_def dest: lifecycle_denied split: sum.splits if_splits)

lemma active_cases:
  assumes "evaluate_active env q f ev = (Inr r, ev')"
  shows "cr_decision r = Deny
    \<or> decided_in env q r f (with_db (update_activity (ce_now env) (cq_user q) (cq_session q) (au_db (ev_audit ev))) ev)"
    (is "_ \<or> decided_in env q r f ?ev1")
proof -
  from assms consider why where "stop_misaligned env q f why ?ev1 = (Inr r, ev')"
    | "deny_inactive_parent env q (cf_session f) (cf_args f) (cf_context f) (cf_minimum f) ?ev1 = (Inr r, ev')"
    | "evaluate_ready env q f ?ev1 = (Inr r, ev')"
    unfolding evaluate_active_def Let_def by (auto split: option.splits if_splits)
  then show ?thesis
    by cases (auto simp: decided_in_def dest: inactive_parent_denied)
qed

lemma request_minimum_le:
  assumes "request_minimum q policy = Inr minimum" "cq_minimum q = Some m"
  shows "\<exists>k. minimum = Some k \<and> k \<le> m"
  using assms by (auto simp: request_minimum_def bindE_eq_Inr coalesce_def split: option.splits)

lemma dget_dset_neq [simp]: "k \<noteq> k' \<Longrightarrow> dget (dset d k v) k' = dget d k'"
  by (simp add: dget_def)

lemma context_interaction:
  "dget (floored_context policy minimum (request_context q)) ''interaction_mode'' = dget (cq_context q) ''interaction_mode''"
  by (simp add: floored_context_def request_context_def split: option.splits)

lemma resume_idle_kept:
  assumes "resume_idle env q s ev = (s', ev')" "is_session (cq_user q) (cq_session q) s"
  shows "is_session (cq_user q) (cq_session q) s' \<and> (same_evidence ev' ev0 \<longleftrightarrow> same_evidence ev ev0)"
  using assms find_session_is
  by (auto simp: resume_idle_def session_view_def is_session_def split: if_splits sum.splits option.splits)

lemma loaded_cases:
  assumes "evaluate_loaded env q s0 ev = (Inr r, ev')" "is_session (cq_user q) (cq_session q) s0" "same_evidence ev ev0"
  shows "cr_decision r = Deny
    \<or> (\<exists>f ev1. loaded_frame env q s0 ev = Some (f, ev1) \<and> frame_of q f \<and> same_evidence ev1 ev0 \<and> decided_in env q r f ev1)"
proof -
  from assms(1) obtain minimum where m: "request_minimum q (session_policy_of s0) = Inr minimum"
    by (auto simp: evaluate_loaded_def split: sum.splits)
  let ?cx = "floored_context (session_policy_of s0) minimum (request_context q)"
  let ?s1 = "session_view (ce_forced env) s0"
  from assms(1) m obtain overlay where o': "resolve_overlay ?cx (session_policy_of ?s1) = Inr overlay"
    by (auto simp: evaluate_loaded_def Let_def split: sum.splits if_splits)
  obtain s ev1 where idle: "resume_idle env q ?s1 ev = (s, ev1)" by fastforce
  let ?args = "if read_only_required (Some overlay) then coalesce (cq_original q) (cq_args q) else cq_args q"
  let ?f = "\<lparr>cf_session = s, cf_args = ?args, cf_context = ?cx, cf_overlay = overlay, cf_minimum = minimum\<rparr>"
  from assms(1) m o' idle have
    run: "(if s_status s \<in> stopped_statuses then deny_stopped env q s ?args ?cx minimum ev1
           else evaluate_active env q ?f ev1) = (Inr r, ev')"
    by (auto simp: evaluate_loaded_def Let_def split: option.splits if_splits)
  have "is_session (cq_user q) (cq_session q) ?s1"
    using assms(2) by (auto simp: session_view_def is_session_def)
  from resume_idle_kept [OF idle this, of ev0] assms(3)
  have kept: "is_session (cq_user q) (cq_session q) s" "same_evidence ev1 ev0" by simp_all
  have frame: "frame_of q ?f"
    using kept(1) context_interaction request_minimum_le [OF m] by (auto simp: frame_of_def split: option.splits)
  show ?thesis
  proof (cases "s_status s \<in> stopped_statuses")
    case True
    with run show ?thesis by (auto simp: deny_stopped_def dest: lifecycle_denied)
  next
    case False
    with run have "evaluate_active env q ?f ev1 = (Inr r, ev')" by simp
    from active_cases [OF this] frame kept(2) show ?thesis
      by (auto simp: loaded_frame_def m o' idle Let_def)
  qed
qed

lemma evaluate_call_cases:
  assumes "evaluate_call env q ev = (Inr r, ev')"
  shows "cr_decision r = Deny \<or> (\<exists>f ev1. evaluated env q r ev f ev1)"
proof -
  have refl: "same_evidence ev ev" by (simp add: same_evidence_def)
  from assms obtain s0 where c0: "call_session q ev = Some s0"
    by (auto simp: evaluate_call_def split: option.splits)
  then have s0: "find_session (au_db (ev_audit ev)) (cq_user q) (cq_session q) = Some s0"
    by (simp add: call_session_def)
  from assms consider "s_status s0 \<in> stopped_statuses" "evaluate_loaded env q s0 ev = (Inr r, ev')"
    | "deny_inactive_parent env q s0 (cq_args q) (request_context q) (cq_minimum q) ev = (Inr r, ev')"
    | s db where "s_status s0 \<notin> stopped_statuses"
        "refresh_inherited_policy refresh_fuel (ce_policy env) (ce_now env) (au_db (ev_audit ev)) (cq_user q)
          (cq_session q) [] = Inr (s, db)" "evaluate_loaded env q s (with_db db ev) = (Inr r, ev')"
    by (auto simp: evaluate_call_def c0 split: sum.splits if_splits session_error.splits)
  then show ?thesis
  proof cases
    case 1
    from loaded_cases [OF 1(2) find_session_is [OF s0] refl] show ?thesis
      by (auto simp: evaluated_def call_frame_for_def c0 1(1))
  next
    case 2
    then show ?thesis using inactive_parent_denied by blast
  next
    case 3
    have "same_evidence (with_db db ev) ev" using refl by simp
    from loaded_cases [OF 3(3) refreshed_is_session [OF 3(2)] this] show ?thesis
      by (auto simp: evaluated_def call_frame_for_def c0 3(1,2))
  qed
qed

subsection \<open>Stages\<close>

lemma floor_stage_le:
  "bc_decision (floor_call q approved (Some m) raw b) \<le> m
   \<or> (approved \<and> m = Escalate \<and> raw \<noteq> Deny \<and> bc_decision (floor_call q approved (Some m) raw b) = Approve
      \<and> bc_override (floor_call q approved (Some m) raw b) = Some ''human_approval'')"
  by (simp add: floor_call_def Let_def)

lemma unattended_stage_floor:
  "bc_decision (unattended_stage u j (Some m) maximum raw b) = Deny \<or> unattended_stage u j (Some m) maximum raw b = b"
  by (simp add: unattended_stage_def)


lemma ceiling_stage_cases: "bc_decision (ceiling_stage overlay mutation b) = Deny
    \<or> (bc_decision (ceiling_stage overlay mutation b) = bc_decision b
       \<and> bc_override (ceiling_stage overlay mutation b) = bc_override b)"
  by (simp add: ceiling_stage_def enforce_cases Let_def)

lemma fst_pair: "fst p = x \<Longrightarrow> p = (x, snd p)"
  by (cases p) simp

lemma concluded_result:
  assumes "conclude_call env q f targets scopes asked class maximum d meta ev = (Inr r, ev')"
  shows "cr_decision r = bc_decision (bound_call env q f maximum d ev)
    \<and> cr_override r = bc_override (bound_call env q f maximum d ev)"
proof -
  let ?v = "final_verdict env q f scopes (fst class) d meta (bound_call env q f maximum d ev)"
  let ?res = "record_call env q (final_row env q f (fst class) asked) ?v
    (learn_call q f targets class maximum d (bc_decision (bound_call env q f maximum d ev)) ev)"
  have "fst ?res = Inr r"
    using assms by (simp add: conclude_call_def Let_def split: sum.splits)
  from fst_pair [OF this] have "cr_decision r = cv_decision ?v" "cr_override r = cv_override ?v"
    by (rule record_call_result)+
  then show ?thesis by (simp add: final_verdict_def Let_def)
qed

text \<open>The files a call is seen to edit, for the write scopes.\<close>

definition frame_targets :: "call_request \<Rightarrow> call_frame \<Rightarrow> overlay_error + string list option" where
  "frame_targets q f =
     workspace_edit_targets (cf_session f) (cq_tool q) (cf_args f) (cf_context f) (cf_directory q f) (cf_minimum f)"

lemma ready_result:
  assumes "evaluate_ready env q f ev = (Inr r, ev')"
  obtains d meta maximum hits where
    "frame_targets q f = Inr hits"
    "decide_call env q (cf_args f) (cf_directory q f) (cf_scopes env q f (coalesce hits []) ev) (cf_class q f ev)
       (cf_retry env q f ev) ev = Inr (d, meta)"
    "policy_bound (dget (cf_policy f) ''maximum_outcome'') = Inr maximum"
    "cr_decision r = bc_decision (bound_call env q f maximum d ev)"
    "cr_override r = bc_override (bound_call env q f maximum d ev)"
proof -
  from assms obtain d meta maximum hits where
    t: "frame_targets q f = Inr hits"
    and d: "decide_call env q (cf_args f) (cf_directory q f) (cf_scopes env q f (coalesce hits []) ev) (cf_class q f ev)
       (cf_retry env q f ev) ev = Inr (d, meta)"
    and m: "policy_bound (dget (cf_policy f) ''maximum_outcome'') = Inr maximum"
    and run: "conclude_call env q f (coalesce hits []) (cf_scopes env q f (coalesce hits []) ev)
        (asks_model (cf_scopes env q f (coalesce hits []) ev) (fst (cf_class q f ev)) (cf_retry env q f ev))
        (cf_class q f ev) maximum d meta ev = (Inr r, ev')"
    unfolding evaluate_ready_def Let_def frame_targets_def by (auto split: sum.splits)
  from concluded_result [OF run] that [OF t d m] show ?thesis by blast
qed

subsection \<open>Every decision is on record\<close>

text \<open>C4. A call that is decided leaves exactly one new row in the audit log, with the call's identity,
  session and tool and with the decision that is returned; a call that fails leaves none.\<close>

theorem every_decision_is_on_record: "on_record env q ev (evaluate_call env q ev)"
  unfolding evaluate_call_def
  by (auto split: option.splits sum.splits session_error.splits intro!: evaluate_loaded_recorded deny_inactive_parent_recorded)

subsection \<open>Unattended tasks, floors and the basis of an approval\<close>

lemma stopped_misaligned_result:
  assumes "stop_misaligned env q f why ev = (Inr r, ev')"
  shows "cr_decision r = Deny \<or> (\<not> cf_unattended f \<and> cr_decision r = clamp_outcome Escalate (cf_minimum f))"
proof -
  from assms obtain mutation where m: "alignment_mutation env q f = Inr mutation"
    by (auto simp: stop_misaligned_def split: sum.splits)
  let ?d0 = "if cf_unattended f then Deny else clamp_outcome Escalate (cf_minimum f)"
  have "cr_decision r = fst (enforce ?d0 (Some (cf_overlay f)) mutation)"
    using assms by (auto simp: stop_misaligned_def m Let_def dest!: record_call_result(1))
  then show ?thesis by (auto simp: enforce_cases)
qed


text \<open>C3. No decision is looser than the floor a request sets, unless the request names an escalation of
  the same session, tool and arguments that the user approved.\<close>

theorem request_floor_holds:
  assumes "evaluate_call env q ev = (Inr r, ev')" "cq_minimum q = Some m"
  shows "cr_decision r \<le> m
    \<or> (cr_override r = Some ''human_approval''
       \<and> (\<exists>f rec. frame_of q f \<and> find_call (ev_audit ev) (cq_user q) (coalesce (cq_approval q) []) = Some rec
            \<and> approval_matches q (cf_hash env f) rec))"
proof (cases "cr_decision r = Deny")
  case False
  with evaluate_call_cases [OF assms(1)] obtain f ev1 where f: "evaluated env q r ev f ev1" by auto
  then have frame: "frame_of q f" and same: "same_evidence ev1 ev" by (simp_all add: evaluated_def)
  from frame assms(2) obtain k where k: "cf_minimum f = Some k" "k \<le> m" by (auto simp: frame_of_def)
  from f False consider "cr_decision r = clamp_outcome Escalate (cf_minimum f)"
    | ev2 where "evaluate_ready env q f ev1 = (Inr r, ev2)"
    by (auto simp: evaluated_def decided_in_def dest: stopped_misaligned_result)
  then show ?thesis
  proof cases
    case 1
    with k show ?thesis by (auto simp: min.coboundedI2)
  next
    case 2
    then obtain d maximum where b: "cr_decision r = bc_decision (bound_call env q f maximum d ev1)"
        "cr_override r = bc_override (bound_call env q f maximum d ev1)"
      by (rule ready_result)
    let ?fl = "floor_call q (cf_approved env q f ev1) (Some k) (d_outcome d) (capped_call maximum d)"
    let ?u = "unattended_stage (cf_unattended f) (cq_judge q) (Some k) maximum (d_outcome d) ?fl"
    have u: "cr_decision r = bc_decision ?u" "cr_override r = bc_override ?u"
      using b False k(1) ceiling_stage_cases [of "cf_overlay f" "assessed_mutation env (cq_tool q) (cf_args f)" ?u]
      by (auto simp: bound_call_def)
    with False unattended_stage_floor have "?u = ?fl" by metis
    with u floor_stage_le [of q "cf_approved env q f ev1" k "d_outcome d" "capped_call maximum d"]
    consider "cr_decision r \<le> k"
      | "cf_approved env q f ev1" "cr_override r = Some ''human_approval''"
      by auto
    then show ?thesis
    proof cases
      case 1
      with k(2) show ?thesis by (blast intro: order_trans)
    next
      case 2
      have "find_call (ev_audit ev1) = find_call (ev_audit ev)"
        using same by (intro ext) (simp add: find_call_def same_evidence_def)
      with 2 frame show ?thesis
        by (auto simp: cf_approved_def user_approved_def split: option.splits)
    qed
  qed
qed simp

lemma latest_member: "latest rs = Some r \<Longrightarrow> r \<in> set rs"
proof -
  assume "latest rs = Some r"
  then have "r \<in> set (List.rev (sort_key (\<lambda>r. coalesce (a_resolved_at r) 0) rs))"
    by (auto simp: latest_def split: list.splits simp del: set_rev)
  then show ?thesis by simp
qed

definition approval_basis :: "call_env \<Rightarrow> call_request \<Rightarrow> call_frame \<Rightarrow> evaluator \<Rightarrow> bool" where
  "approval_basis env q f ev \<longleftrightarrow>
     fst (cf_class q f ev) = READ
     \<or> (cf_minimum f = None \<and> \<not> cf_unattended f
        \<and> list_ex (reusable_approval (cq_user q) (cq_tool q) (cf_hash env f) (ce_now env - retry_ttl))
            (au_log (ev_audit ev)))
     \<or> (fst (cf_class q f ev) = WRITE
        \<and> ((\<exists>targets scopes. frame_targets q f = Inr (Some targets) \<and> targets \<noteq> [] \<and> scopes \<noteq> []
              \<and> approved_workspace_scopes (ev_audit ev) (cf_session f) (cq_tool q) (cf_hash env f) targets (ev_scopes ev)
                 = Some scopes)
           \<or> (\<exists>d meta. ask_model env q (cf_args f) ev = Inr (d, meta) \<and> d_outcome d = Approve)))
     \<or> dget (cf_policy f) ''maximum_outcome'' = VStr ''approve''
     \<or> (cf_minimum f = Some Escalate \<and> cf_approved env q f ev)"

lemma bound_call_approves:
  assumes "bc_decision (bound_call env q f maximum d ev) = Approve"
  shows "d_outcome d = Approve \<or> maximum = Some Approve \<or> (cf_minimum f = Some Escalate \<and> cf_approved env q f ev)"
proof -
  let ?fl = "floor_call q (cf_approved env q f ev) (cf_minimum f) (d_outcome d) (capped_call maximum d)"
  have "bc_decision ?fl = Approve"
    using assms by (simp add: bound_call_def ceiling_stage_def enforce_cases unattended_stage_def Let_def split: if_splits)
  then consider "bc_decision (capped_call maximum d) = Approve" | "cf_minimum f = Some Escalate" "cf_approved env q f ev"
    by (auto simp: floor_call_def Let_def min_def split: option.splits if_splits)
  then show ?thesis
    by cases (auto simp: capped_call_def cap_outcome_def split: option.splits if_splits)
qed

lemma decide_call_approves:
  assumes "decide_call env q (cf_args f) (cf_directory q f) (cf_scopes env q f (coalesce hits []) ev) (cf_class q f ev)
      (cf_retry env q f ev) ev = Inr (d, meta)"
    and "frame_targets q f = Inr hits" "d_outcome d = Approve"
  shows "approval_basis env q f ev"
proof (cases "fst (cf_class q f ev) = READ")
  case False
  show ?thesis
  proof (cases "cf_retry env q f ev")
    case (Some d')
    then obtain prior where "reused_approval env q (cf_hash env f) ev = Some prior" "cf_minimum f = None" "\<not> cf_unattended f"
      by (auto simp: cf_retry_def check_escalation_retry_def split: if_splits)
    then show ?thesis
      by (auto simp: approval_basis_def reused_approval_def find_approved_escalation_def list_ex_iff dest!: latest_member)
  next
    case None
    with assms False have is_write: "fst (cf_class q f ev) = WRITE"
      by (cases "fst (cf_class q f ev)")
        (auto simp: decide_call_def without_meta_def fast_decision_def make_fast_decision_def bindE_eq_Inr)
    show ?thesis
    proof (cases "cf_scopes env q f (coalesce hits []) ev = []")
      case True
      with assms None is_write have "ask_model env q (cf_args f) ev = Inr (d, meta)" by (simp add: decide_call_def)
      with assms(3) is_write show ?thesis by (auto simp: approval_basis_def)
    next
      case False
      then obtain targets scopes where "hits = Some targets" "targets \<noteq> []" "scopes \<noteq> []"
          "approved_workspace_scopes (ev_audit ev) (cf_session f) (cq_tool q) (cf_hash env f) targets (ev_scopes ev)
             = Some scopes"
        by (auto simp: cf_scopes_def coalesce_def split: if_splits option.splits)
      with assms(2) is_write show ?thesis by (auto simp: approval_basis_def)
    qed
  qed
qed (simp add: approval_basis_def)

text \<open>C1. Nothing is approved without a basis.  In the frame and the state the flow itself evaluates the call in
  (\<^const>\<open>call_frame_for\<close>, a function of the request and the stored state), the call is classified a read, or a
  recent approval of the same user, tool and arguments is reused for an attended call without a floor, or
  it is a write whose target files all lie in write scopes approved before or that the model's decision
  approves, or the session's policy bounds outcomes by approve, or the user approved the very escalation
  an escalate floor asked for.\<close>

theorem every_approval_has_a_basis:
  assumes "evaluate_call env q ev = (Inr r, ev')" "cr_decision r = Approve"
  shows "\<exists>f ev1. call_frame_for env q ev = Some (f, ev1) \<and> frame_of q f \<and> same_evidence ev1 ev
    \<and> approval_basis env q f ev1"
proof -
  from evaluate_call_cases [OF assms(1)] assms(2) obtain f ev1 where f: "evaluated env q r ev f ev1" by auto
  have "clamp_outcome Escalate m \<noteq> Approve" for m
    unfolding clamp_outcome_def by (auto split: option.splits)
  with f assms(2) obtain ev2 where "evaluate_ready env q f ev1 = (Inr r, ev2)"
    by (auto simp: evaluated_def decided_in_def dest!: stopped_misaligned_result)
  then obtain d meta maximum hits where
    t: "frame_targets q f = Inr hits"
    and d: "decide_call env q (cf_args f) (cf_directory q f) (cf_scopes env q f (coalesce hits []) ev1) (cf_class q f ev1)
       (cf_retry env q f ev1) ev1 = Inr (d, meta)"
    and m: "policy_bound (dget (cf_policy f) ''maximum_outcome'') = Inr maximum"
    and b: "cr_decision r = bc_decision (bound_call env q f maximum d ev1)"
    by (rule ready_result)
  have "maximum = Some Approve \<Longrightarrow> dget (cf_policy f) ''maximum_outcome'' = VStr ''approve''"
    using m by (cases "dget (cf_policy f) ''maximum_outcome''") (auto simp: policy_bound_def split: if_splits)
  with bound_call_approves [of env q f maximum d ev1] assms(2) b decide_call_approves [OF d t]
  have "approval_basis env q f ev1" by (auto simp: approval_basis_def)
  with f show ?thesis by (auto simp: evaluated_def)
qed

subsection \<open>Concrete calls\<close>

definition call_sample_env :: "string \<Rightarrow> call_env" where
  "call_sample_env verdict =
     \<lparr>ce_call = ''c1'', ce_row = ''r1'', ce_now = 100, ce_latency = 5, ce_forced = False, ce_analysis = False,
      ce_task = ''t1'', ce_profile = None, ce_audit = \<lparr>ae_digest = (\<lambda>_. ''d''), ae_result = (\<lambda>_. None)\<rparr>,
      ce_policy = \<lparr>env_digest = (\<lambda>_. ''d''), env_prepare = (\<lambda>d _ _ _. Inr d), env_registry = (\<lambda>_ _. False)\<rparr>,
      ce_args_hash = (\<lambda>_. ''h''), ce_injected = (\<lambda>_ _. False), ce_str = (\<lambda>_. ''x''), ce_sources = VNone,
      ce_jev = False,
      ce_answer = Some (\<lparr>er_aligned = (verdict = ''approve''), er_risk = ''low'', er_reasoning = ''ok'', er_decision = verdict\<rparr>, []),
      ce_mutation = None\<rparr>"

definition call_sample_state :: evaluator where
  "call_sample_state =
     \<lparr>ev_audit = \<lparr>au_db = \<lparr>db_sessions = [new_session ''u'' ''s'' ''fix the parser'' 0], db_reservations = [], db_tasks = []\<rparr>,
                  au_decls = [], au_log = []\<rparr>,
      ev_paths = [], ev_scopes = [], ev_barrier = None\<rparr>"

definition call_sample :: "pydict \<Rightarrow> outcome option \<Rightarrow> call_request" where
  "call_sample context minimum =
     \<lparr>cq_user = ''u'', cq_session = ''s'', cq_agent = None, cq_tool = ''t'', cq_args = [], cq_original = None,
      cq_context = context, cq_preferences = None, cq_minimum = minimum, cq_approval = None, cq_judge = False,
      cq_version = None, cq_revision = None, cq_hash = None\<rparr>"

definition call_outcome :: "(call_error + call_result) \<times> evaluator \<Rightarrow> outcome option" where
  "call_outcome res = (case fst res of Inl _ \<Rightarrow> None | Inr r \<Rightarrow> Some (cr_decision r))"

lemma sample_approved: "call_outcome (evaluate_call (call_sample_env ''approve'') (call_sample [] None) call_sample_state) = Some Approve"
  by code_simp

lemma call_outcomeD: "call_outcome res = Some d \<Longrightarrow> \<exists>r ev'. res = (Inr r, ev') \<and> cr_decision r = d"
  by (cases res) (auto simp: call_outcome_def split: sum.splits)

theorem every_approval_has_a_basis_witness:
  "\<exists>f ev1. call_frame_for (call_sample_env ''approve'') (call_sample [] None) call_sample_state = Some (f, ev1)
     \<and> frame_of (call_sample [] None) f \<and> same_evidence ev1 call_sample_state
     \<and> approval_basis (call_sample_env ''approve'') (call_sample [] None) f ev1"
  using call_outcomeD [OF sample_approved] every_approval_has_a_basis by blast





lemma sample_floored:
  "call_outcome (evaluate_call (call_sample_env ''approve'') (call_sample [] (Some Escalate)) call_sample_state)
     = Some Escalate"
  by code_simp

theorem request_floor_holds_witness:
  "\<exists>r ev'. evaluate_call (call_sample_env ''approve'') (call_sample [] (Some Escalate)) call_sample_state = (Inr r, ev')
     \<and> (cr_decision r \<le> Escalate
        \<or> (cr_override r = Some ''human_approval''
           \<and> (\<exists>f rec. frame_of (call_sample [] (Some Escalate)) f
                \<and> find_call (ev_audit call_sample_state) (cq_user (call_sample [] (Some Escalate)))
                    (coalesce (cq_approval (call_sample [] (Some Escalate))) []) = Some rec
                \<and> approval_matches (call_sample [] (Some Escalate)) (cf_hash (call_sample_env ''approve'') f) rec)))"
proof -
  from call_outcomeD [OF sample_floored] obtain r ev' where
    r: "evaluate_call (call_sample_env ''approve'') (call_sample [] (Some Escalate)) call_sample_state = (Inr r, ev')"
    by blast
  have "cq_minimum (call_sample [] (Some Escalate)) = Some Escalate" by (simp add: call_sample_def)
  from request_floor_holds [OF r this] r show ?thesis by blast
qed

end
