(* ===== verification/Judge_Resolution.thy ===== *)
theory Judge_Resolution
  imports Precedent Audit_Properties
begin

text \<open>
  The Judge's legacy review in \<^verbatim>\<open>intaris/judge.py\<close>: which calls it reviews, what its modes
  and the session's resolution policy make of a model's answer, how the answer is written to the audit
  log, and the outcome returned to \<^verbatim>\<open>/evaluate\<close>.  The model's answer is an argument.
  Python's order of a set of strings is arbitrary: \<open>pick\<close> stands for \<^verbatim>\<open>next(iter(allowed))\<close>.
  The stage modelled is the one behind the early returns for hybrid records and for a read-only ceiling.
  Notifications and counters are left out.
\<close>

subsection \<open>The resolution policy\<close>

record judge_policy =
  jp_allowed :: "string list"
  jp_uncertain :: string
  jp_human :: bool

definition parse_optional_bool :: "pyval \<Rightarrow> bool option" where
  "parse_optional_bool v =
     (case v of
        VBool b \<Rightarrow> Some b
      | VStr s \<Rightarrow>
          (let normalized = py_lower (py_strip s) in
           if normalized \<in> {''true'', ''1'', ''yes'', ''on''} then Some True
           else if normalized \<in> {''false'', ''0'', ''no'', ''off''} then Some False else None)
      | _ \<Rightarrow> None)"

definition word_of_value :: "pyval \<Rightarrow> string" where
  "word_of_value v = py_lower (py_strip (if truthy v then arg_text v else []))"

definition judge_words :: "string list" where
  "judge_words = [''approve'', ''deny'', ''defer'']"

definition without_defer :: "string list \<Rightarrow> string list" where
  "without_defer allowed = filter (\<lambda>w. w \<noteq> ''defer'') allowed"

definition first_allowed :: "pydict \<Rightarrow> pydict \<Rightarrow> string \<Rightarrow> string list" where
  "first_allowed raw_policy judge config_mode =
     (case dget judge ''allowed_decisions'' of
        VList items \<Rightarrow> filter (\<lambda>w. w \<in> set judge_words) (map (\<lambda>i. py_lower (py_strip (arg_text i))) items)
      | _ \<Rightarrow>
          if word_of_value (dget raw_policy ''interaction_mode'') = ''none'' \<or> config_mode = ''auto''
          then [''approve'', ''deny''] else [''approve'', ''deny'', ''defer''])"

definition human_escalation :: "pydict \<Rightarrow> string list \<Rightarrow> bool" where
  "human_escalation judge allowed =
     (if dhas judge ''allow_human_escalation''
      then parse_optional_bool (dget judge ''allow_human_escalation'') = Some True
      else ''defer'' \<in> set allowed)"

definition or_else :: "string list \<Rightarrow> string list \<Rightarrow> string list" where
  "or_else xs ys = (if xs = [] then ys else xs)"

definition deny_or_pick :: "(string list \<Rightarrow> string) \<Rightarrow> string list \<Rightarrow> string" where
  "deny_or_pick pick allowed = (if ''deny'' \<in> set allowed then ''deny'' else pick allowed)"

definition uncertain_word :: "(string list \<Rightarrow> string) \<Rightarrow> pydict \<Rightarrow> string list \<Rightarrow> string" where
  "uncertain_word pick judge allowed =
     (let w0 = word_of_value (dget judge ''on_uncertain'');
          w1 = (if w0 \<notin> set judge_words then deny_or_pick pick allowed else w0);
          w2 = (if w1 = ''defer'' \<and> ''defer'' \<notin> set allowed then deny_or_pick pick allowed else w1)
      in if w2 \<notin> set allowed then deny_or_pick pick allowed else w2)"

definition judge_resolution_policy ::
    "(string list \<Rightarrow> string) \<Rightarrow> pydict option \<Rightarrow> string \<Rightarrow> judge_policy" where
  "judge_resolution_policy pick session_policy config_mode =
     (let raw_policy = coalesce session_policy [];
          judge = entries_of (dget raw_policy ''judge'');
          allowed1 = or_else (first_allowed raw_policy judge config_mode) [''approve'', ''deny''];
          human = human_escalation judge allowed1;
          allowed = or_else (if \<not> human \<or> config_mode = ''auto'' then without_defer allowed1 else allowed1) [''deny'']
      in \<lparr>jp_allowed = allowed, jp_uncertain = uncertain_word pick judge allowed,
          jp_human = (''defer'' \<in> set allowed \<and> human)\<rparr>)"

text \<open>A verdict is a decision, a confidence and a reasoning.\<close>

type_synonym judge_answer = "string \<times> string \<times> string"

text \<open>Python's \<^verbatim>\<open>repr\<close> of a text without quotes, backslashes or control characters.\<close>

definition py_quoted :: "string \<Rightarrow> string" where
  "py_quoted s = CHR 0x27 # s @ [CHR 0x27]"

definition apply_judge_resolution_policy ::
    "(string list \<Rightarrow> string) \<Rightarrow> judge_policy \<Rightarrow> judge_answer \<Rightarrow> judge_answer" where
  "apply_judge_resolution_policy pick policy v =
     (case v of (decision, confidence, why) \<Rightarrow>
        let normalized = py_lower (py_strip decision) in
        if normalized \<in> set (jp_allowed policy) then (normalized, confidence, why)
        else let replacement = (if jp_uncertain policy \<notin> set (jp_allowed policy)
                    then deny_or_pick pick (jp_allowed policy) else jp_uncertain policy)
             in (replacement, confidence,
                 ''Judge session policy disallowed decision '' @ py_quoted normalized @ ''; resolved as '' @ py_quoted replacement
                   @ ''. '' @ why))"

subsection \<open>The modes\<close>

definition risk_levels :: "string list" where
  "risk_levels = [''low'', ''medium'', ''high'', ''critical'']"

definition normalize_judge_risk :: "string option \<Rightarrow> string option \<Rightarrow> string" where
  "normalize_judge_risk raw fallback =
     (let given = (\<lambda>v. case v of None \<Rightarrow> [] | Some s \<Rightarrow> if s = [] then [] else [s]);
          first = (\<lambda>vs. py_lower (hd (vs @ [''high''])));
          risk = first (given raw @ given fallback)
      in if risk \<in> set risk_levels then risk
         else if first (given fallback) \<in> set risk_levels then first (given fallback) else ''high'')"

definition auto_denied :: "string \<Rightarrow> string \<Rightarrow> string \<Rightarrow> string" where
  "auto_denied confidence original why =
     ''Judge auto-denied (confidence='' @ confidence @ '', original_decision='' @ original @ ''): '' @ why"

definition auto_mode :: "string \<Rightarrow> judge_answer \<Rightarrow> judge_answer" where
  "auto_mode risk v =
     (case v of (original, confidence, why0) \<Rightarrow>
        let (decision, why) =
              (if risk = ''critical'' then
                 (''deny'', if original \<noteq> ''deny''
                    then ''Judge auto-denied critical-risk call in auto mode (original_decision='' @ original @ ''): '' @ why0
                    else why0)
               else if original = ''approve'' \<and> confidence = ''low'' then (''deny'', auto_denied confidence ''approve'' why0)
               else (original, why0))
        in if decision = ''defer'' \<or> confidence = ''low''
           then (''deny'', confidence, if decision \<noteq> ''deny'' then auto_denied confidence decision why else why)
           else (decision, confidence, why))"

definition advisory_note :: "string \<Rightarrow> string \<Rightarrow> string \<Rightarrow> string" where
  "advisory_note what original why =
     ''Judge '' @ what @ ''-risk call in advisory mode (original_decision='' @ original @ ''): '' @ why"

definition advisory_mode :: "bool \<Rightarrow> string \<Rightarrow> judge_answer \<Rightarrow> judge_answer" where
  "advisory_mode unattended risk v =
     (case v of (original, confidence, why) \<Rightarrow>
        if risk = ''low'' \<and> \<not> unattended then
          (''approve'', confidence, if original \<noteq> ''approve'' then advisory_note ''auto-approved low'' original why else why)
        else if risk = ''critical'' then
          (''deny'', confidence, if original \<noteq> ''deny'' then advisory_note ''denied critical'' original why else why)
        else if risk = ''medium'' \<and> (original \<noteq> ''approve'' \<or> confidence = ''low'') then
          (''defer'', confidence, advisory_note ''deferred medium'' original why)
        else if risk = ''high'' \<and> (original \<noteq> ''approve'' \<or> confidence \<noteq> ''high'') then
          (''defer'', confidence, advisory_note ''deferred high'' original why)
        else v)"

text \<open>What a mode other than the two decides is not written anywhere.\<close>

definition mode_verdict :: "string \<Rightarrow> bool \<Rightarrow> string \<Rightarrow> judge_answer \<Rightarrow> judge_answer" where
  "mode_verdict mode unattended risk v =
     (if mode = ''auto'' then auto_mode risk v else advisory_mode unattended risk v)"

definition judge_verdict :: "(string list \<Rightarrow> string) \<Rightarrow> judge_policy \<Rightarrow> string \<Rightarrow> bool \<Rightarrow> string \<Rightarrow> judge_answer \<Rightarrow> judge_answer" where
  "judge_verdict pick policy mode unattended risk v =
     apply_judge_resolution_policy pick policy (mode_verdict mode unattended risk v)"

subsection \<open>Which calls are reviewed, and what is written\<close>

definition judge_skips :: "audit \<Rightarrow> bool" where
  "judge_skips r \<longleftrightarrow>
     truthy (dget (meta_of r) ''operator_bound'')
     \<or> (a_decision r = ''deny''
        \<and> a_override r \<in> {Some ''request.read_only_unproven'', Some ''request.read_only_required''})
     \<or> a_minimum r = Some ''deny''
     \<or> (a_minimum r = Some ''escalate'' \<and> \<not> truthy (dget (meta_of r) ''judge_required''))
     \<or> a_type r \<noteq> ''tool_call'' \<or> a_user_decision r \<noteq> None"

datatype review_action =
    Nothing_written
  | Denial_capped string
  | Deferred string
  | Resolved resolution

definition unattended_row :: "audit \<Rightarrow> bool" where
  "unattended_row r \<longleftrightarrow> a_override r = Some unattended_review"

definition judge_resolution :: "audit \<Rightarrow> string \<Rightarrow> judge_answer \<Rightarrow> resolution" where
  "judge_resolution r risk v =
     (case v of (decision, confidence, why) \<Rightarrow>
        \<lparr>rs_call = a_call r, rs_user = a_user r, rs_decision = decision,
         rs_note = Some (''Judge ('' @ confidence @ '' confidence)''), rs_by = ''judge'', rs_reasoning = Some why,
         rs_judge_decision = Some decision, rs_judge_risk = Some risk, rs_meta = None\<rparr>)"

text \<open>The model's answer after the precedent of the session's human decisions, which the modes then treat.\<close>

definition judge_input :: "audit list \<Rightarrow> audit \<Rightarrow> string \<Rightarrow> judge_answer \<Rightarrow> judge_answer" where
  "judge_input user_decisions r risk answer =
     (if unattended_row r then answer
      else judge_precedent (coalesce (a_tool r) []) (coalesce (a_args r) []) (Some risk) user_decisions answer)"

definition judge_action ::
    "(string list \<Rightarrow> string) \<Rightarrow> judge_policy \<Rightarrow> string \<Rightarrow> audit list \<Rightarrow> audit \<Rightarrow> string option \<Rightarrow> judge_answer \<Rightarrow> review_action" where
  "judge_action pick policy mode user_decisions r answered_risk answer =
     (let risk = normalize_judge_risk answered_risk (a_risk r);
          v = judge_verdict pick policy mode (unattended_row r) risk (judge_input user_decisions r risk answer)
      in if judge_skips r \<or> mode \<notin> {''auto'', ''advisory''} then Nothing_written
         else if fst v = ''deny'' \<and> a_maximum r = Some ''escalate'' \<and> \<not> unattended_row r
         then Denial_capped (''Session maximum_outcome=escalate; judge denial capped. '' @ snd (snd v))
         else if mode = ''advisory'' \<and> fst v = ''defer'' then Deferred (snd (snd v))
         else Resolved (judge_resolution r risk v))"

text \<open>The record was read in \<open>st0\<close>; resolving reads it again in \<open>st1\<close> and writes in \<open>st2\<close>.\<close>

definition write_review ::
    "audit_env \<Rightarrow> int \<Rightarrow> audit \<Rightarrow> string \<Rightarrow> review_action \<Rightarrow> audit_state \<Rightarrow> audit_state \<Rightarrow> audit_state audited" where
  "write_review env now r risk act st1 st2 =
     (case act of
        Nothing_written \<Rightarrow> Inr st2
      | Denial_capped why \<Rightarrow>
          Inr (set_judge_reasoning (a_call r) why (a_user r) (Some ''deny'') (Some risk)
                 (Some ''session_policy.maximum_outcome:judge'') st2)
      | Deferred why \<Rightarrow> Inr (set_judge_reasoning (a_call r) why (a_user r) (Some ''defer'') (Some risk) None st2)
      | Resolved q \<Rightarrow> bindE (resolve_escalation env now q st1 st2) (\<lambda>(_, st3). Inr st3))"

subsection \<open>The outcome for the client\<close>

record judge_result =
  jo_decision :: string
  jo_reasoning :: "string option"
  jo_risk :: "string option"
  jo_event :: "string option"

definition first_some :: "string option list \<Rightarrow> string option" where
  "first_some vs = (case filter (\<lambda>v. v \<noteq> None \<and> v \<noteq> Some []) vs of [] \<Rightarrow> last vs | v # _ \<Rightarrow> v)"

definition effective_outcome_from_record :: "string option \<Rightarrow> string option \<Rightarrow> audit \<Rightarrow> judge_result" where
  "effective_outcome_from_record fallback_reasoning fallback_event r =
     (let persisted = py_lower (py_strip (coalesce (a_user_decision r) [])) in
      if persisted \<in> {''approve'', ''deny''} then
        \<lparr>jo_decision = persisted,
         jo_reasoning = first_some (if a_resolved_by r = Some ''user''
            then [a_user_note r, a_judge_reasoning r, a_reasoning r]
            else [a_judge_reasoning r, a_user_note r, a_reasoning r]),
         jo_risk = first_some [a_judge_risk r, a_risk r], jo_event = None\<rparr>
      else
        \<lparr>jo_decision = ''escalate'',
         jo_reasoning = first_some [fallback_reasoning, a_judge_reasoning r, a_reasoning r],
         jo_risk = first_some [a_judge_risk r, a_risk r],
         jo_event = (if fallback_event = None
                        \<and> (a_judge_decision r = Some ''defer''
                           \<or> a_override r = Some ''session_policy.maximum_outcome:judge'')
                     then Some ''judge_deferral'' else fallback_event)\<rparr>)"

definition unattended_denial :: "audit \<Rightarrow> resolution" where
  "unattended_denial r =
     \<lparr>rs_call = a_call r, rs_user = a_user r, rs_decision = ''deny'',
      rs_note = Some ''Unattended Judge review did not resolve'', rs_by = ''judge'',
      rs_reasoning = Some (''Judge review unavailable or timed out; unattended task denied without human escalation.''),
      rs_judge_decision = Some ''deny'', rs_judge_risk = first_some [a_judge_risk r, a_risk r], rs_meta = None\<rparr>"

text \<open>The end of \<^verbatim>\<open>review_for_evaluate\<close>: the row is read again, and an unattended call that is still escalated is
  denied.\<close>

definition finish_review ::
    "audit_env \<Rightarrow> int \<Rightarrow> string \<Rightarrow> string \<Rightarrow> string option \<Rightarrow> string option \<Rightarrow> audit_state \<Rightarrow> audit_state \<Rightarrow> audit_state
      \<Rightarrow> (judge_result \<times> audit_state) audited" where
  "finish_review env now user call fallback_reasoning fallback_event st0 st1 st2 =
     bindE (get_by_call_id st0 user call) (\<lambda>r.
       if unattended_row r \<and> a_effective r = ''escalate'' then
         bindE (resolve_escalation env now (unattended_denial r) st1 st2) (\<lambda>(_, st3).
         bindE (get_by_call_id st3 user call) (\<lambda>r'.
           Inr (effective_outcome_from_record fallback_reasoning fallback_event r', st3)))
       else Inr (effective_outcome_from_record fallback_reasoning fallback_event r, st2))"

text \<open>
  How the review ended: it ran, was cut off by its timeout, was refused as not reviewable (a
  \<^verbatim>\<open>ValueError\<close>), failed, or found the model's input too small for the evidence
  (\<^verbatim>\<open>ContextInsufficientError\<close>), which alone is raised again.
\<close>

datatype review_ending =
    Review_ran
  | Review_timed_out
  | Review_refused
  | Review_failed
  | Context_insufficient

datatype review_error =
    Review_context
  | Review_store audit_error

definition judge_failure_text :: "string \<Rightarrow> string" where
  "judge_failure_text what = ''Judge review '' @ what @ '' '' @ em_dash @ '' escalation requires human review''"

definition ending_reasoning :: "review_ending \<Rightarrow> string option" where
  "ending_reasoning ending =
     (case ending of
        Review_timed_out \<Rightarrow> Some (judge_failure_text ''timed out'')
      | Review_failed \<Rightarrow> Some (judge_failure_text ''failed'')
      | _ \<Rightarrow> None)"

definition ending_event :: "review_ending \<Rightarrow> string option" where
  "ending_event ending = (if ending \<in> {Review_timed_out, Review_failed} then Some ''judge_error'' else None)"

text \<open>\<open>stb\<close> is the state of the first reading, \<open>st0\<close>, \<open>st1\<close> and \<open>st2\<close> those after the review.\<close>

definition review_for_evaluate ::
    "audit_env \<Rightarrow> int \<Rightarrow> string \<Rightarrow> string \<Rightarrow> review_ending \<Rightarrow> audit_state \<Rightarrow> audit_state \<Rightarrow> audit_state \<Rightarrow> audit_state
      \<Rightarrow> review_error + (judge_result \<times> audit_state)" where
  "review_for_evaluate env now user call ending stb st0 st1 st2 =
     (case get_by_call_id stb user call of
        Inl e \<Rightarrow> Inl (Review_store e)
      | Inr _ \<Rightarrow>
          if ending = Context_insufficient then Inl Review_context
          else case finish_review env now user call (ending_reasoning ending) (ending_event ending) st0 st1 st2 of
            Inl e \<Rightarrow> Inl (Review_store e)
          | Inr res \<Rightarrow> Inr res)"

subsection \<open>What a verdict can be\<close>

definition picks :: "(string list \<Rightarrow> string) \<Rightarrow> bool" where
  "picks pick \<longleftrightarrow> (\<forall>xs. xs \<noteq> [] \<longrightarrow> pick xs \<in> set xs)"

lemma picks_hd: "picks hd"
  by (simp add: picks_def)

lemma deny_or_pick_member: "picks pick \<Longrightarrow> allowed \<noteq> [] \<Longrightarrow> deny_or_pick pick allowed \<in> set allowed"
  by (simp add: deny_or_pick_def picks_def)

lemma allowed_nonempty: "jp_allowed (judge_resolution_policy pick sp mode) \<noteq> []"
  by (simp add: judge_resolution_policy_def Let_def or_else_def)

lemma first_allowed_words: "set (first_allowed raw judge mode) \<subseteq> set judge_words"
proof (cases "dget judge ''allowed_decisions''")
  case (VList items)
  then show ?thesis by (auto simp: first_allowed_def)
qed (auto simp: first_allowed_def judge_words_def)

lemma set_or_else: "set (or_else xs ys) \<subseteq> set xs \<union> set ys"
  by (simp add: or_else_def)

lemma set_without_defer: "set (without_defer xs) \<subseteq> set xs"
  by (auto simp: without_defer_def)

lemma allowed_words: "set (jp_allowed (judge_resolution_policy pick sp mode)) \<subseteq> set judge_words"
proof -
  have two: "set [''approve'', ''deny''] \<subseteq> set judge_words" "set [''deny''] \<subseteq> set judge_words"
    by (simp_all add: judge_words_def)
  have one: "set (or_else (first_allowed raw judge mode) [''approve'', ''deny'']) \<subseteq> set judge_words" for raw judge
    using set_or_else first_allowed_words two(1) by blast
  then have "set (or_else (if c then without_defer (or_else (first_allowed raw judge mode) [''approve'', ''deny''])
       else or_else (first_allowed raw judge mode) [''approve'', ''deny'']) [''deny'']) \<subseteq> set judge_words" for c raw judge
    using set_or_else set_without_defer two(2) by (smt (verit) Un_least subset_trans)
  then show ?thesis
    by (simp add: judge_resolution_policy_def Let_def)
qed

lemma auto_never_defers: "''defer'' \<notin> set (jp_allowed (judge_resolution_policy pick sp ''auto''))"
  by (simp add: judge_resolution_policy_def Let_def or_else_def without_defer_def)

lemma uncertain_allowed:
  assumes "picks pick"
  shows "jp_uncertain (judge_resolution_policy pick sp mode) \<in> set (jp_allowed (judge_resolution_policy pick sp mode))"
proof -
  have "uncertain_word pick judge allowed \<in> set allowed" if "allowed \<noteq> []" for judge allowed
    using deny_or_pick_member [OF assms that] by (auto simp: uncertain_word_def Let_def)
  moreover have "\<exists>judge. jp_uncertain (judge_resolution_policy pick sp mode)
      = uncertain_word pick judge (jp_allowed (judge_resolution_policy pick sp mode))"
    by (auto simp: judge_resolution_policy_def Let_def)
  ultimately show ?thesis
    using allowed_nonempty by metis
qed

lemma policy_verdict_cases:
  assumes "picks pick" "policy = judge_resolution_policy pick sp mode"
  shows "fst (apply_judge_resolution_policy pick policy v) =
    (if py_lower (py_strip (fst v)) \<in> set (jp_allowed policy) then py_lower (py_strip (fst v)) else jp_uncertain policy)"
  using uncertain_allowed [OF assms(1)] assms(2)
  by (simp add: apply_judge_resolution_policy_def Let_def split: prod.splits)

text \<open>Whatever the model answers and whatever the session's policy holds, the Judge's verdict is one
  of the decisions the policy allows; in auto mode it never leaves a call to a human.\<close>

theorem judge_verdict_permitted:
  assumes "picks pick" "policy = judge_resolution_policy pick sp mode"
  shows "fst (judge_verdict pick policy mode unattended risk v) \<in> set (jp_allowed policy)
         \<and> fst (judge_verdict pick policy mode unattended risk v) \<in> set judge_words
         \<and> (mode = ''auto'' \<longrightarrow> fst (judge_verdict pick policy mode unattended risk v) \<noteq> ''defer'')"
proof -
  have member: "fst (judge_verdict pick policy mode unattended risk v) \<in> set (jp_allowed policy)"
    unfolding judge_verdict_def policy_verdict_cases [OF assms] using uncertain_allowed [OF assms(1)] assms(2) by simp
  moreover have "''defer'' \<notin> set (jp_allowed policy)" if "mode = ''auto''"
    using auto_never_defers assms(2) that by simp
  ultimately show ?thesis
    using allowed_words assms(2) by auto
qed

definition defer_policy :: pydict where
  "defer_policy = [(''judge'', VDict [(''allowed_decisions'', VStrs [''approve'', '' Defer '']), (''on_uncertain'', VStr ''deny'')])]"

theorem judge_verdict_permitted_witness:
  "fst (judge_verdict hd (judge_resolution_policy hd (Some defer_policy) ''advisory'') ''advisory'' False ''critical'' (''approve'', ''high'', ''ok''))
     \<in> set (jp_allowed (judge_resolution_policy hd (Some defer_policy) ''advisory''))
   \<and> fst (judge_verdict hd (judge_resolution_policy hd (Some defer_policy) ''advisory'') ''advisory'' False ''critical'' (''approve'', ''high'', ''ok''))
     \<in> set judge_words"
  using judge_verdict_permitted [OF picks_hd refl, of "Some defer_policy" "''advisory''" False "''critical''" "(''approve'', ''high'', ''ok'')"]
  by simp

text \<open>When a mode approves.\<close>

lemma mode_approves:
  assumes "py_lower (py_strip (fst (mode_verdict mode unattended risk (decision, confidence, why)))) = ''approve''"
    and "mode = ''auto'' \<or> mode = ''advisory''"
  shows "(py_lower (py_strip decision) = ''approve'' \<and> risk \<noteq> ''critical''
        \<and> (if mode = ''auto'' then confidence \<noteq> ''low''
           else (risk = ''medium'' \<longrightarrow> confidence \<noteq> ''low'') \<and> (risk = ''high'' \<longrightarrow> confidence = ''high'')))
     \<or> (mode = ''advisory'' \<and> risk = ''low'' \<and> \<not> unattended)"
proof -
  have words: "py_lower (py_strip ''deny'') = ''deny''" "py_lower (py_strip ''defer'') = ''defer''"
    by code_simp+
  show ?thesis
  proof (cases "mode = ''auto''")
    case True
    with assms words show ?thesis
      by (auto simp: mode_verdict_def auto_mode_def Let_def split: if_splits)
  next
    case False
    with assms words show ?thesis
      by (auto simp: mode_verdict_def advisory_mode_def split: if_splits)
  qed
qed

text \<open>C14. When the Judge resolves a call as approved, the call was open to its review and the approval has
  one of four bases: a human approved a similar operation of the session and denied none since, and the
  risk is low or medium; the model's answer approved a call below critical risk, with the confidence that
  the mode asks for at that risk; the mode is advisory, the call low risk and attended; or the mode's
  verdict is a decision that the session's policy does not allow, and the policy resolves doubt by approve.\<close>

theorem judge_approval_basis:
  assumes "picks pick" "policy = judge_resolution_policy pick sp mode" "risk = normalize_judge_risk answered (a_risk r)"
    and "judge_action pick policy mode ds r answered (decision, confidence, why) = Resolved q"
    and "rs_decision q = ''approve''"
  shows "\<not> judge_skips r \<and>
    ((\<not> unattended_row r \<and> lenient_risk risk
       \<and> (\<exists>p. precedent_in (coalesce (a_tool r) []) (coalesce (a_args r) []) ds p))
     \<or> (py_lower (py_strip decision) = ''approve'' \<and> risk \<noteq> ''critical''
        \<and> (if mode = ''auto'' then confidence \<noteq> ''low''
           else (risk = ''medium'' \<longrightarrow> confidence \<noteq> ''low'') \<and> (risk = ''high'' \<longrightarrow> confidence = ''high'')))
     \<or> (mode = ''advisory'' \<and> risk = ''low'' \<and> \<not> unattended_row r)
     \<or> (jp_uncertain policy = ''approve''
        \<and> py_lower (py_strip (fst (mode_verdict mode (unattended_row r) risk
             (judge_input ds r risk (decision, confidence, why))))) \<notin> set (jp_allowed policy)))"
proof -
  obtain decision' confidence' why' where v0: "judge_input ds r risk (decision, confidence, why) = (decision', confidence', why')"
    by (metis prod_cases3)
  let ?m = "mode_verdict mode (unattended_row r) risk (decision', confidence', why')"
  have open_call: "\<not> judge_skips r" "mode = ''auto'' \<or> mode = ''advisory''"
    using assms(4) by (auto simp: judge_action_def Let_def split: if_splits)
  have approve: "fst (judge_verdict pick policy mode (unattended_row r) risk (decision', confidence', why')) = ''approve''"
    using assms(4,5) unfolding v0 [symmetric] assms(3)
    by (auto simp: judge_action_def Let_def judge_resolution_def split: if_splits prod.splits)
  then consider "jp_uncertain policy = ''approve''" "py_lower (py_strip (fst ?m)) \<notin> set (jp_allowed policy)"
    | "py_lower (py_strip (fst ?m)) = ''approve''"
    unfolding judge_verdict_def policy_verdict_cases [OF assms(1,2)] by (auto split: if_splits)
  then show ?thesis
  proof cases
    case 1
    with open_call(1) v0 show ?thesis by simp
  next
    case 2
    note granted = mode_approves [OF 2 open_call(2)]
    show ?thesis
    proof (cases "(decision', confidence', why') = (decision, confidence, why)")
      case True
      then have same: "decision' = decision" "confidence' = confidence" by simp_all
      show ?thesis using granted open_call(1) unfolding same by blast
    next
      case False
      with v0 have "\<not> unattended_row r" "lenient_risk risk"
          "find_authoritative_precedent (coalesce (a_tool r) []) (coalesce (a_args r) []) ds \<noteq> None"
        by (auto simp: judge_input_def judge_precedent_def split: if_splits option.splits)
      with open_call(1) find_precedent_iff show ?thesis by blast
    qed
  qed
qed

definition reviewed_call :: audit where
  "reviewed_call = approved_read\<lparr>a_user_decision := None, a_resolved_by := None, a_resolved_at := None,
     a_effective := ''escalate'', a_risk := Some ''medium''\<rparr>"

definition sample_review :: review_action where
  "sample_review = judge_action hd (judge_resolution_policy hd None ''auto'') ''auto'' [] reviewed_call None
     (''Approve'', ''high'', ''ok'')"

lemma sample_review_facts:
  "(case sample_review of Resolved q \<Rightarrow> rs_decision q | _ \<Rightarrow> []) = ''approve''"
  "jp_uncertain (judge_resolution_policy hd None ''auto'') = ''deny''"
  "normalize_judge_risk None (a_risk reviewed_call) = ''medium''"
  by code_simp+

theorem judge_approval_basis_witness: "\<not> judge_skips reviewed_call"
proof -
  from sample_review_facts(1) obtain q where q: "sample_review = Resolved q" "rs_decision q = ''approve''"
    by (auto split: review_action.splits)
  from judge_approval_basis [OF picks_hd refl refl q(1) [unfolded sample_review_def] q(2)] show ?thesis by blast
qed

text \<open>Without a configuration, doubt is a denial; a policy that forbids denials and names no word for
  doubt leaves the choice to the order of a set.\<close>

lemma doubt_denies:
  "jp_uncertain (judge_resolution_policy hd None ''auto'') = ''deny''"
  "jp_uncertain (judge_resolution_policy hd None ''advisory'') = ''deny''"
  by code_simp+

definition no_denial_policy :: pydict where
  "no_denial_policy = [(''judge'', VDict [(''allowed_decisions'', VList [VStr ''approve'', VStr ''defer''])])]"

lemma doubt_depends_on_set_order:
  "jp_uncertain (judge_resolution_policy hd (Some no_denial_policy) ''advisory'') = ''approve''"
  "jp_uncertain (judge_resolution_policy last (Some no_denial_policy) ''advisory'') = ''defer''"
  by code_simp+


subsection \<open>Unattended calls\<close>

lemma find_call_update:
  assumes "\<And>r. is_call user call (f r) = is_call user call r"
  shows "find_call (update_log Q f st) user call = map_option (\<lambda>r. if Q r then f r else r) (find_call st user call)"
  unfolding find_call_def update_log_simps update_rows_def using assms by (intro find_map_key) simp

text \<open>What every row of the log says of its effect, and that a call has one row.\<close>

definition effect_recorded :: "audit \<Rightarrow> bool" where
  "effect_recorded r \<longleftrightarrow>
     (if a_user_decision r = None then a_effective r = a_decision r
      else a_effective r \<in> {''approve'', ''deny''} \<and> a_user_decision r = Some (a_effective r))"

definition effects_recorded :: "audit_state \<Rightarrow> bool" where
  "effects_recorded st \<longleftrightarrow> distinct (map a_call (au_log st)) \<and> (\<forall>r \<in> set (au_log st). effect_recorded r)"

lemma effects_update:
  assumes "effects_recorded st" "\<And>r. a_call (f r) = a_call r"
    and "\<And>r. P r \<Longrightarrow> effect_recorded r \<Longrightarrow> effect_recorded (f r)"
  shows "effects_recorded (update_log P f st)"
  using assms unfolding effects_recorded_def update_log_simps
  by (auto simp: update_rows_key [where key = a_call] set_update_rows)

lemma effects_same_log:
  "effects_recorded (on_sessions g st) = effects_recorded st"
  "effects_recorded (clear_alignment now q r st) = effects_recorded st"
  by (simp_all add: effects_recorded_def)

lemma effect_untouched:
  "effect_recorded (r\<lparr>a_meta := m\<rparr>) = effect_recorded r"
  "effect_recorded (r\<lparr>a_meta := m, a_judge_reasoning := j, a_judge_decision := d, a_judge_risk := k\<rparr>) = effect_recorded r"
  "effect_recorded (r\<lparr>a_judge_reasoning := j, a_judge_decision := d, a_judge_risk := k, a_override := w\<rparr>) = effect_recorded r"
  by (simp_all add: effect_recorded_def)

lemma write_resolution_cases:
  assumes "write_resolution now q r st = Inr st'"
  shows "st' = update_log (resolvable q r) (resolved_row now q (action_local q r)) st"
    and "\<exists>x \<in> set (au_log st). resolvable q r x"
  using assms by (auto simp: write_resolution_def row_count_def filter_empty_conv split: if_splits)

lemma resolve_parts:
  assumes "resolve_escalation env now q st0 st = Inr (revision, st')"
  obtains r meta st1 st2 where "write_meta q r meta st = Inr st1" "write_resolution now q r st1 = Inr st2"
    "move_session q r meta (clear_alignment now q r st2) = Inr (revision, st')" "rs_decision q \<in> {''approve'', ''deny''}"
proof -
  have word: "rs_decision q \<in> {''approve'', ''deny''}"
    using assms by (rule contrapos_pp) (simp add: resolve_escalation_def)
  obtain r meta st1 st2 where "write_meta q r meta st = Inr st1" "write_resolution now q r st1 = Inr st2"
      "move_session q r meta (clear_alignment now q r st2) = Inr (revision, st')"
    using assms by (auto simp: resolve_escalation_def resolve_transaction_def bindE_eq_Inr split: if_splits)
  with word that show thesis by blast
qed

lemma write_meta_effects: "write_meta q r meta st = Inr st' \<Longrightarrow> effects_recorded st \<Longrightarrow> effects_recorded st'"
  by (auto simp: write_meta_def Let_def effect_untouched split: option.splits if_splits intro!: effects_update)

lemma move_session_effects:
  "move_session q r meta st = Inr (revision, st') \<Longrightarrow> effects_recorded st \<Longrightarrow> effects_recorded st'"
  by (auto simp: move_session_def Let_def effect_untouched effects_same_log split: option.splits if_splits
      intro!: effects_update)

lemma resolve_effects:
  assumes "resolve_escalation env now q st0 st = Inr (revision, st')" "effects_recorded st"
  shows "effects_recorded st'"
  using assms(1)
proof (rule resolve_parts)
  fix r meta st1 st2
  assume w: "write_meta q r meta st = Inr st1" "write_resolution now q r st1 = Inr st2"
    "move_session q r meta (clear_alignment now q r st2) = Inr (revision, st')" "rs_decision q \<in> {''approve'', ''deny''}"
  have "effects_recorded st2"
    unfolding write_resolution_cases(1) [OF w(2)]
    by (rule effects_update [OF write_meta_effects [OF w(1) assms(2)]])
      (use w(4) in \<open>simp_all add: resolved_row_def effect_recorded_def\<close>)
  then have "effects_recorded (clear_alignment now q r st2)" by (simp only: effects_same_log)
  from move_session_effects [OF w(3) this] show ?thesis .
qed

lemma audit_step_effects: "audit_step st st' \<Longrightarrow> effects_recorded st \<Longrightarrow> effects_recorded st'"
proof (induction rule: audit_step.induct)
  case (inserted env now rid q st row st')
  from inserted.hyps show ?case
  proof (cases rule: insert_cases)
    case (1 v)
    with inserted.prems show ?thesis
      by (auto simp: effects_recorded_def effect_recorded_def new_record_def exists_row_iff)
  qed
next
  case (resolved env now q st0 st revision st')
  then show ?case by (rule resolve_effects)
next
  case (executed env at_time st0 st call user state meta st')
  from executed.hyps executed.prems show ?case
    by (cases rule: mark_execution_cases) (auto simp: effect_untouched intro: effects_update)
next
  case (reviewed env st0 st call user meta reasoning risk st')
  then show ?case
    by (auto simp: set_hybrid_review_def bindE_eq_Inr Let_def effect_untouched split: if_splits intro!: effects_update)
next
  case (viewed st call user stage view st')
  then show ?case
    by (auto simp: record_model_view_def bindE_eq_Inr Let_def effect_untouched split: if_splits intro!: effects_update)
next
  case (reasoned call reasoning user decision risk override st st')
  from reasoned.prems have "effects_recorded (set_judge_reasoning call reasoning user decision risk override st)"
    unfolding set_judge_reasoning_def by (rule effects_update) (simp_all add: effect_recorded_def)
  with reasoned.hyps show ?case by simp
qed (simp add: effects_recorded_def)

lemma audit_steps_effects: "audit_step\<^sup>*\<^sup>* st st' \<Longrightarrow> effects_recorded st \<Longrightarrow> effects_recorded st'"
  by (induction rule: rtranclp_induct) (auto intro: audit_step_effects)

text \<open>A resolution by the Judge that is written is what the row then says.\<close>

lemma find_call_member:
  assumes "distinct (map a_call (au_log st))" "x \<in> set (au_log st)" "is_call user call x"
  shows "find_call st user call = Some x"
proof -
  have "find_call st user call \<noteq> None"
    using assms(2,3) by (auto simp: find_call_def find_None_iff)
  then obtain y where y: "find_call st user call = Some y" by blast
  then have "y \<in> set (au_log st)" "is_call user call y" by (auto simp: find_call_def find_Some_iff)
  with assms y show ?thesis
    using unique_row [of a_call "au_log st" y x] by (simp add: is_call_def)
qed

lemma resolved_find:
  assumes "resolve_escalation env now q st0 st = Inr (revision, st')" "get_by_call_id st' (rs_user q) (rs_call q) = Inr x"
    and "rs_by q = ''judge''" "effects_recorded st"
  shows "a_user_decision x = Some (rs_decision q)"
  using assms(1)
proof (rule resolve_parts)
  fix r meta st1 st2
  assume w: "write_meta q r meta st = Inr st1" "write_resolution now q r st1 = Inr st2"
    "move_session q r meta (clear_alignment now q r st2) = Inr (revision, st')"
  have st': "au_log st' = au_log st2"
    using w(3) assms(3) by (auto simp: move_session_def split: if_splits)
  have one: "distinct (map a_call (au_log st1))"
    using write_meta_effects [OF w(1) assms(4)] by (simp add: effects_recorded_def)
  from write_resolution_cases(2) [OF w(2)] obtain y where y: "y \<in> set (au_log st1)" "resolvable q r y" by blast
  then have "find_call st1 (rs_user q) (rs_call q) = Some y"
    using find_call_member [OF one y(1)] by (simp add: resolvable_def)
  then have "find_call st2 (rs_user q) (rs_call q) = Some (resolved_row now q (action_local q r) y)"
    using y(2) by (simp add: write_resolution_cases(1) [OF w(2)] find_call_update is_call_def resolved_row_def)
  with st' assms(2) show ?thesis
    by (auto simp: get_by_call_id_def find_call_def resolved_row_def)
qed

text \<open>C15. A call of an unattended task that only the Judge may settle is never handed back for a human:
  when \<^verbatim>\<open>review_for_evaluate\<close> answers, after the review ran, timed out, was refused or failed and
  whatever else was written in the meantime, its outcome is an approval or a denial.  It does not answer
  when the evidence does not fit the model (\<^const>\<open>Context_insufficient\<close> is raised again, and the row stays escalated)
  or when the store refuses to read or write the row.\<close>

theorem unattended_call_is_settled:
  assumes "au_log init = []" "audit_step\<^sup>*\<^sup>* init st0" "audit_step\<^sup>*\<^sup>* st0 st2"
    and "review_for_evaluate env now user call ending stb st0 st1 st2 = Inr (out, st')"
    and "get_by_call_id st0 user call = Inr r" "unattended_row r" "a_decision r = ''escalate''"
  shows "jo_decision out \<in> {''approve'', ''deny''}"
proof -
  have words: "py_lower (py_strip ''approve'') = ''approve''" "py_lower (py_strip ''deny'') = ''deny''"
    by code_simp+
  then have final: "jo_decision (effective_outcome_from_record why event x) \<in> {''approve'', ''deny''}"
    if "a_user_decision x \<in> {Some ''approve'', Some ''deny''}" for x why event
    using that by (auto simp: effective_outcome_from_record_def Let_def)
  have ok: "effects_recorded st0" "effects_recorded st2"
    using audit_steps_effects [OF assms(2)] audit_steps_effects [OF assms(3)] assms(1)
    by (simp_all add: effects_recorded_def)
  have r: "a_user r = user" "a_call r = call" "r \<in> set (au_log st0)"
    using assms(5) by (auto simp: get_by_call_id_def find_call_def find_Some_iff is_call_def split: option.splits)
  with ok(1) have eff: "effect_recorded r" by (simp add: effects_recorded_def)
  obtain why event where fin: "finish_review env now user call why event st0 st1 st2 = Inr (out, st')"
    using assms(4) by (auto simp: review_for_evaluate_def split: sum.splits if_splits)
  show ?thesis
  proof (cases "a_effective r = ''escalate''")
    case False
    with eff assms(7) have "a_user_decision r \<in> {Some ''approve'', Some ''deny''}"
      by (auto simp: effect_recorded_def split: if_splits)
    from final [OF this] fin False assms(5) show ?thesis
      by (auto simp: finish_review_def)
  next
    case True
    with fin assms(5,6) obtain revision x where
        res: "resolve_escalation env now (unattended_denial r) st1 st2 = Inr (revision, st')"
      and x: "get_by_call_id st' user call = Inr x" and out: "out = effective_outcome_from_record why event x"
      by (auto simp: finish_review_def bindE_eq_Inr)
    have "a_user_decision x = Some (rs_decision (unattended_denial r))"
      by (rule resolved_find [OF res]) (use x r ok(2) in \<open>simp_all add: unattended_denial_def\<close>)
    with out final show ?thesis
      by (simp add: unattended_denial_def)
  qed
qed

text \<open>The ending that leaves the row escalated.\<close>

lemma context_failure_settles_nothing:
  "review_for_evaluate env now user call Context_insufficient stb st0 st1 st2 \<noteq> Inr res"
  by (simp add: review_for_evaluate_def split: sum.splits)

definition unattended_call :: admission where
  "unattended_call = (sample_request ''c1'' ''escalate'' None None)\<lparr>ar_override := Some unattended_review\<rparr>"

definition unattended_inserted :: "(audit_error + audit) \<times> audit_state" where
  "unattended_inserted = insert_audit sample_audit_env 1 ''r1'' unattended_call sample_state"

definition unattended_state :: audit_state where
  "unattended_state = snd unattended_inserted"

definition unattended_audit :: audit where
  "unattended_audit = hd (au_log unattended_state)"

definition settled_result :: "judge_result \<times> audit_state" where
  "settled_result =
     (case review_for_evaluate sample_audit_env 5 ''u'' ''c1'' Review_timed_out unattended_state
        unattended_state unattended_state unattended_state of Inr x \<Rightarrow> x
      | Inl _ \<Rightarrow> (\<lparr>jo_decision = ''escalate'', jo_reasoning = None, jo_risk = None, jo_event = None\<rparr>, unattended_state))"

lemma unattended_facts:
  "unattended_inserted = (Inr unattended_audit, unattended_state)"
  "review_for_evaluate sample_audit_env 5 ''u'' ''c1'' Review_timed_out unattended_state unattended_state
     unattended_state unattended_state = Inr (fst settled_result, snd settled_result)"
  "get_by_call_id unattended_state ''u'' ''c1'' = Inr unattended_audit"
  "unattended_row unattended_audit" "a_decision unattended_audit = ''escalate''"
  by code_simp+

theorem unattended_call_is_settled_witness: "jo_decision (fst settled_result) \<in> {''approve'', ''deny''}"
proof (rule unattended_call_is_settled [OF _ _ rtranclp.rtrancl_refl unattended_facts(2-5)])
  show "au_log sample_state = []" by (simp add: sample_state_def)
  show "audit_step\<^sup>*\<^sup>* sample_state unattended_state"
    by (rule r_into_rtranclp, rule audit_step.inserted) (rule unattended_facts(1) [unfolded unattended_inserted_def])
qed

end
