(* ===== verification/Resolution_Effects.thy ===== *)
theory Resolution_Effects
  imports Call_Properties Judge_Resolution
begin

text \<open>
  \<^verbatim>\<open>resolve_with_side_effects\<close> of \<^verbatim>\<open>intaris/judge.py\<close>: what the decision of a human or
  the Judge on a stopped call does to the audit row, the session, the alignment barrier and the caches of
  the evaluator.  The refresh of the intention, the event bus and the notifications are left out.
\<close>

text \<open>The barrier and the store share one database.\<close>

definition on_barrier :: "(barrier \<Rightarrow> barrier) \<Rightarrow> evaluator \<Rightarrow> evaluator" where
  "on_barrier g ev =
     (case ev_barrier ev of
        None \<Rightarrow> ev
      | Some b \<Rightarrow>
          let b' = g (b\<lparr>ab_db := au_db (ev_audit ev)\<rparr>) in with_db (ab_db b') (ev\<lparr>ev_barrier := Some b'\<rparr>))"

definition acknowledge_call :: "int \<Rightarrow> resolution \<Rightarrow> audit \<Rightarrow> evaluator \<Rightarrow> evaluator" where
  "acknowledge_call now q r ev =
     (if rs_decision q = ''approve'' \<and> a_path r = ''alignment'' \<and> a_session r \<noteq> []
      then on_barrier (acknowledge now (rs_user q, a_session r)) ev else ev)"

definition resolve_with_side_effects ::
    "audit_env \<Rightarrow> int \<Rightarrow> resolution \<Rightarrow> audit_state \<Rightarrow> evaluator \<Rightarrow> (call_error + audit option) \<times> evaluator" where
  "resolve_with_side_effects env now q st0 ev =
     (case resolve_escalation env now q st0 (ev_audit ev) of
        Inl e \<Rightarrow> (Inl (Audit_failed e), ev)
      | Inr (revision, st) \<Rightarrow>
          let ev1 = ev\<lparr>ev_audit := st\<rparr> in
          case find_call st (rs_user q) (rs_call q) of
            None \<Rightarrow> (Inr None, ev1)
          | Some r \<Rightarrow>
              let ev2 = acknowledge_call now q r ev1 in
              (Inr (Some r),
               if rs_decision q = ''approve'' then snd (learn_from_approved_escalation r revision ev2) else ev2))"

subsection \<open>The resolved row\<close>









lemma learned_log [simp]: "au_log (ev_audit (snd (learn_from_approved_escalation r revision ev))) = au_log (ev_audit ev)"
  by (auto simp: learn_from_approved_escalation_def learn_scopes_of_def Let_def
      split: option.splits sum.splits pyval.splits)

lemma acknowledged_log [simp]: "au_log (ev_audit (acknowledge_call now q r ev)) = au_log (ev_audit ev)"
  by (simp add: acknowledge_call_def on_barrier_def Let_def with_db_def split: option.splits)



subsection \<open>Properties\<close>


text \<open>A Judge's approval of a call that the policy denied teaches nothing: the caches of approved paths
  and write scopes stay as they were.\<close>

theorem judged_denial_teaches_nothing:
  assumes "resolve_with_side_effects env now q st0 ev = (Inr (Some r), ev1)"
    and "a_resolved_by r = Some ''judge''" "a_raw r = ''deny''" "a_maximum r \<in> {Some ''escalate'', Some ''approve''}"
  shows "ev_paths ev1 = ev_paths ev \<and> ev_scopes ev1 = ev_scopes ev"
proof -
  have kept: "ev_paths (acknowledge_call now q r e) = ev_paths e \<and> ev_scopes (acknowledge_call now q r e) = ev_scopes e" for e
    by (simp add: acknowledge_call_def on_barrier_def Let_def with_db_def split: option.splits)
  have "judged_past_denial r" using assms(2-4) by (simp add: judged_past_denial_def)
  then have "snd (learn_from_approved_escalation r revision e) = e" for revision e
    by (simp add: learn_from_approved_escalation_def)
  with assms(1) kept show ?thesis
    by (auto simp: resolve_with_side_effects_def Let_def split: sum.splits option.splits if_splits)
qed

subsection \<open>A concrete approval\<close>












end
