(* ===== verification/Spec2Isabelle.thy ===== *)
theory Spec2Isabelle
  imports Policy_Properties Rate_Limiter Decisions Queue_Properties Admission_Properties Activation_Properties
    Delegated_Denial Classifier_Properties Call_Observation Prompt_Boundary Resolution_Effects
begin

text \<open>
  Intaris decides, for every tool call of an AI agent, whether it is approved, denied or escalated to
  a human, and records what was decided.  This development models the parts of the Python service
  under \<^verbatim>\<open>src/intaris\<close> that make and keep such decisions, and proves what they promise.

  \<^bold>\<open>The way of a call.\<close>  A session is created with a policy (\<^verbatim>\<open>session.py\<close>); the policy of
  a delegated session is composed with its parent's (\<^verbatim>\<open>policy_inheritance.py\<close>), its English
  clauses are compiled by a language model and checked against what they say
  (\<^verbatim>\<open>policy_activation.py\<close>, \<^verbatim>\<open>policy_coverage.py\<close>), and the result is stored as JSON.  A call is
  observed statically (\<^verbatim>\<open>classifier.py\<close>, \<^verbatim>\<open>effect_scope.py\<close>), assessed by a model, and evaluated
  against the rules (\<^verbatim>\<open>hybrid.py\<close>, \<^verbatim>\<open>policy_evidence.py\<close>); the outcome is bounded
  (\<^verbatim>\<open>hybrid_runtime.py\<close>, \<^verbatim>\<open>read_only.py\<close>), admitted to the audit log and dispatched, or resolved
  later by a human or the Judge (\<^verbatim>\<open>audit.py\<close>, \<^verbatim>\<open>judge.py\<close>).  Without the hybrid mode,
  \<^verbatim>\<open>evaluator.py\<close> orchestrates: a static classification, a cache of approved directories, an earlier
  approval, a write scope or the model through the decision matrix (\<^verbatim>\<open>decision.py\<close>) decides; a
  similar human decision (\<^verbatim>\<open>precedent.py\<close>) corrects the model; caps, floors and the mode of the task bound
  the outcome; arguments are redacted before they are stored (\<^verbatim>\<open>redactor.py\<close>).  A delegated session is
  held back while its task is compared with its parent's (\<^verbatim>\<open>alignment.py\<close>).  A rate limiter guards the entry
  (\<^verbatim>\<open>ratelimit.py\<close>), a task queue runs the analyses behind the answer (\<^verbatim>\<open>background.py\<close>), and
  participation modes and workflow steps fence both (\<^verbatim>\<open>session_modes.py\<close>,
  \<^verbatim>\<open>workflow_scope.py\<close>).

  \<^bold>\<open>Theories and code.\<close>
    \<^item> \<open>Prelude\<close>: Python values, dictionaries and strings.  \<open>Pattern\<close>, \<open>Pattern_Measure\<close>: the regular
      expressions the code uses, as lists of matches in the order of the engine.  \<open>Json_Text\<close>:
      \<^verbatim>\<open>json.dumps\<close>.  \<open>Shell_Words\<close>: \<^verbatim>\<open>shlex\<close>.  \<open>Paths\<close>: \<^verbatim>\<open>posixpath\<close>,
      \<^verbatim>\<open>resolve_path\<close> and \<^verbatim>\<open>is_path_within\<close>.
    \<^item> \<open>Shell_Observations\<close> (\<^verbatim>\<open>shell_observations.py\<close>), \<open>Read_Operands\<close>, \<open>Secret_Paths\<close>,
      \<open>Read_Only_Calls\<close>, \<open>Critical_Commands\<close>, \<open>Classifier\<close>, \<open>Call_Observation\<close> (\<^verbatim>\<open>classifier.py\<close>),
      \<open>Effect_Scope\<close> (\<^verbatim>\<open>effect_scope.py\<close>), \<open>Classifier_Properties\<close>: the static view of a call.
    \<^item> \<open>Predicates\<close>, \<open>Rule_Codec\<close>, \<open>Hybrid_Policy\<close> (\<^verbatim>\<open>hybrid.py\<close>), \<open>Policy_Evidence\<close>
      (\<^verbatim>\<open>policy_evidence.py\<close>), \<open>Hybrid_Safety\<close>, \<open>Policy_Properties\<close>: rules, evidence, and
      \<^verbatim>\<open>evaluate_policy\<close> stage by stage.
    \<^item> \<open>Policy_Coverage\<close>, \<open>Policy_Activation\<close>, \<open>Activation_Properties\<close>: clauses, their compilation and the
      stored snapshot.  \<open>Policy_Inheritance\<close>, \<open>Delegated_Denial\<close>: composition along a chain of parents.
    \<^item> \<open>Decisions\<close> (\<^verbatim>\<open>decision.py\<close>), \<open>Outcome_Finalization\<close> (\<^verbatim>\<open>finalize_result\<close>).
    \<^item> \<open>Database\<close> (the rows of \<^verbatim>\<open>db.py\<close> the stores use), \<open>Sequence_Source\<close> (the contract of an
      event numbering), \<open>Session_Store\<close>, \<open>Session_Update\<close>, \<open>Session_Modes\<close>, \<open>Workflow_Scope\<close>.
    \<^item> \<open>Task_Queue\<close>, \<open>Queue_Safety\<close>, \<open>Queue_Properties\<close> (\<^verbatim>\<open>TaskQueue\<close>); \<open>Rate_Limiter\<close>.
    \<^item> \<open>Audit_Log\<close>, \<open>Audit_Admission\<close>, \<open>Audit_Resolution\<close>, \<open>Audit_Properties\<close>, \<open>Admission_Properties\<close>
      (\<^verbatim>\<open>audit.py\<close>).
    \<^item> \<open>Path_Learning\<close> and \<open>Edit_Scopes\<close> (\<^verbatim>\<open>evaluator.py\<close>): the caches of approved directories
      and of approved write scopes.  \<open>Precedent\<close> (\<^verbatim>\<open>precedent.py\<close>), \<open>Policy_View\<close>
      (\<^verbatim>\<open>policy.py\<close>), \<open>Redaction\<close> (\<^verbatim>\<open>redactor.py\<close>), \<open>Prompt_Boundary\<close>
      (\<^verbatim>\<open>sanitize.py\<close>): what the model is shown, and what its answer is held against.
    \<^item> \<open>Alignment_Barrier\<close> (\<^verbatim>\<open>alignment.py\<close>), \<open>Judge_Resolution\<close> (\<^verbatim>\<open>judge.py\<close>).
    \<^item> \<open>Call_Evaluation\<close>, \<open>Call_Properties\<close>: \<^verbatim>\<open>_evaluation_flow\<close> for a session without the hybrid
      mode, composed from the theories above; \<open>Resolution_Effects\<close>: \<^verbatim>\<open>resolve_with_side_effects\<close>.
      The properties of calls speak of the frame (the settled request, session and policy) that the flow
      itself builds, which \<open>call_frame_for\<close> computes from the request and the stored state.
    \<^item> This theory: the property that spans inheritance, activation, evaluation and finalization.

  \<^bold>\<open>How code becomes definitions.\<close>  A function keeps its name (a leading underscore is dropped); a
  Pydantic model or a row is a record; a raised error is a left value with the code's reason; a SQL
  transaction is a function from the database to a result and a database, and a transaction that fails
  leaves the old one.  What several workers do at once is a run: any sequence of the operations, each a
  transaction, as the database serializes them; code that runs between two transactions of one
  operation sees a state that other operations may have changed in between, which the model keeps as
  separate arguments (\<open>st0\<close> and \<open>st\<close>).  A stage of a long function is a definition of its own where the
  code has a comment or an early return.  Language models, clocks, random identifiers, content
  hashes and the identity of clients are arguments, with what the code checks of them and nothing else
  assumed.

  \<^bold>\<open>What is proved.\<close>
    \<^item> Denials: a configured denial, a deny rule that holds and one inherited from a parent decide; a
      mandatory denial is not resolved away; a human decision is final.
    \<^item> Approvals: each names a basis, leaves no obligation open, stays inside floors and ceilings, and is
      current when admitted; a call is dispatched once; what is approved as a static read is on the
      lists, stays in the project and off the secrets.
    \<^item> Calls: every decided call leaves one row with its decision; an approval names its basis; a floor
      binds; an unattended call is not left waiting for a human, and the Judge's review of one ends in an
      outcome when it answers at all; a human approval is remembered for ten minutes, whatever is written
      in between.
    \<^item> Memory: a cached directory or scope is near an approval and no human denial touches it; a model's
      doubt is overruled only by a similar human approval; a call that the barrier lets through has no check in flight unless
      its wait timed out (\<open>timeout_fails_open\<close>), and every wait ends.
    \<^item> Text: a boundary tag cannot be forged; a text directly under a sensitive key leaves no trace; the view of
      the policy allows the same paths, but for patterns with a doubled slash.
    \<^item> Meaning: compiled rules mean their clauses; containment means walking the path; a join of tokens
      splits into them; stored rules load again; the limiter answers as an unbounded log.
    \<^item> State: newly allocated numbers are never reused, whatever happens to the session in between
      (\<open>session_step\<close>: the store's operations, creations, updates and refreshes); revisions advance; tokens of workers are exclusive; participation
      holds from fence to check.
    \<^item> Termination: the searches through nested commands by a weight that counts the marks of a
      substitution more than the placeholder that masks them; the wrappers of a command by the length
      of its tokens; the lexer by its input; the refresh of inherited policies by fuel.

  \<^bold>\<open>Bounds and fuel.\<close>  Everything but the refresh of inherited policies is total without fuel.  The refresh
  takes 33, one more than the 32 links the code follows before it refuses a chain, and
  \<open>Session_Update.refresh_terminates\<close> shows that it never runs out.  The compilation cache keeps at
  most its capacity (128), a task counts at most three failures (the recovery of a stale worker is
  not counted), a repetition of a pattern at most as often as the
  text has characters.

  \<^bold>\<open>Not modelled.\<close>  The hybrid branch of \<^verbatim>\<open>_evaluation_flow\<close> between the facts it collects and
  \<^verbatim>\<open>evaluate_policy\<close>: \<open>evaluate_call\<close> returns \<open>Hybrid_session\<close> there.  The search for injection phrases
  and the enrichment of a call's context, which are arguments.  The refresh of intentions after an
  approval, published events and notifications, on which no decision depends.  Code points above 255 (a string is a list of characters below 256).  Python's type
  errors on values no validated request has.  The engines behind the decisions: prompts, model clients
  and their retries (\<^verbatim>\<open>llm.py\<close>, \<^verbatim>\<open>prompts.py\<close>, \<^verbatim>\<open>analyzer.py\<close>, \<^verbatim>\<open>judge.py\<close>), whose replies
  the modelled code treats as untrusted data; the interfaces through which the decisions use them are
  modelled.  Pure transport and storage: the HTTP, MCP and WebSocket
  servers, notification providers, search indices, metrics, the event files and the recording of
  benchmarks.  \<^verbatim>\<open>PROJECT.json\<close> lists each with its reason.
\<close>

section \<open>From a parent's policy to a decision\<close>

text \<open>C5. A parent's denial reaches every call of its delegates.  When a delegated session's policy is
  composed with its parent's, activated and loaded for an evaluation, a deny rule of the parent that
  holds of the evidence is not approved in the end: not by the child's own rules, the language model
  that compiled its clauses, the assessment, the reviewer's vote, an earlier human approval, the
  session's bounds or the Judge's configuration - only an operator's cap at approval or a human
  resolution of that very call can.\<close>

theorem inherited_denial_holds:
  assumes "inherit_policy digest pp cp = Inr policy"
    and "x \<in> set (items_of (dget (source_policy pp) ''rules''))" "parse_rule x = Some r" "r_effect r = DenyRule"
    and "prepare_policy env setting tenant scope existing (Some policy) cache = (Inr (Some v), cache')"
    and "dget v ''evaluation_policy_version'' = VStr policy_version"
    and "load_rules (items_of (vget (dget v ''active_policy'') ''rules'')) = Inr rules"
    and "rule_truth (settled_state rules st) r = TTrue"
    and "finalize_result (evaluate_policy rules st prof assessed) bd = Inr f"
    and "bd_human_resolution bd \<noteq> Some ''approve''" "bd_maximum bd \<noteq> Some Approve"
  shows "fr_decision f \<noteq> Approve"
proof -
  have "x \<in> set (items_of (dget policy ''rules''))"
    using composed_rules [OF assms(1)] assms(2) by blast
  with assms(5,6) have "r \<in> set rules"
    using assms(3,7) by (rule prepared_keeps_rules)
  then have "pr_outcome (evaluate_policy rules st prof assessed) = Denied"
    using assms(4,8) by (rule evaluated_denied)
  with assms(9) show ?thesis
    using assms(10,11) by (rule denied_not_approved)
qed

definition sample_parent_policy :: pydict where
  "sample_parent_policy =
     [(''evaluation_policy_version'', VStr policy_version),
      (''rules'', VList [VDict [(''id'', VStr ''no-push''), (''effect'', VStr ''deny''),
         (''when'', VDict [(''op'', VStr ''command_matches''), (''value'', VStr ''git push*'')])]])]"

definition sample_child_policy :: pydict where
  "sample_child_policy = [(''profile'', VStr ''bounded_autonomy'')]"

definition sample_delegated :: pydict where
  "sample_delegated =
     (case inherit_policy (\<lambda>v. ''hash'') (Some sample_parent_policy) (Some sample_child_policy) of
        Inr d \<Rightarrow> d | Inl _ \<Rightarrow> [])"

definition delegated_snapshot :: pydict where
  "delegated_snapshot =
     (case fst (prepare_policy sample_compiler_env ''hybrid_v1'' ''u'' [] None (Some sample_delegated) sample_compiler) of
        Inr (Some d) \<Rightarrow> d | _ \<Rightarrow> [])"

definition delegated_rule :: rule where
  "delegated_rule = sample_rule ''no-push'' DenyRule (Pred OpCommand None None (VStr ''git push*'') None)"

definition pushing_evidence :: evidence where
  "pushing_evidence =
     sample_evidence (sample_action ''low'') sample_serving (Some (sample_vote VoteApprove ''low''))"

definition delegated_final :: finalization where
  "delegated_final =
     projr (finalize_result (evaluate_policy [delegated_rule] pushing_evidence BoundedAutonomy True)
       (sample_bounds\<lparr>bd_human_approved := True\<rparr>))"

lemma delegated_evaluation:
  "finalize_result (evaluate_policy [delegated_rule] pushing_evidence BoundedAutonomy True)
     (sample_bounds\<lparr>bd_human_approved := True\<rparr>) = Inr delegated_final"
proof -
  have "\<not> isl (finalize_result (evaluate_policy [delegated_rule] pushing_evidence BoundedAutonomy True)
      (sample_bounds\<lparr>bd_human_approved := True\<rparr>))"
    by code_simp
  then show ?thesis
    by (simp add: delegated_final_def)
qed

lemma delegated_preparation:
  "prepare_policy sample_compiler_env ''hybrid_v1'' ''u'' [] None (Some sample_delegated) sample_compiler =
     (Inr (Some delegated_snapshot), sample_compiler)"
proof -
  have "(case prepare_policy sample_compiler_env ''hybrid_v1'' ''u'' [] None (Some sample_delegated) sample_compiler of
      (Inr (Some d), c) \<Rightarrow> cp_cache c = [] \<and> cp_capacity c = 128 | _ \<Rightarrow> False)"
    by code_simp
  then show ?thesis
    by (auto simp: delegated_snapshot_def sample_compiler_def split: prod.splits sum.splits option.splits)
qed

theorem inherited_denial_holds_witness:
  "fr_decision delegated_final \<noteq> Approve"
proof (rule inherited_denial_holds [where pp = "Some sample_parent_policy" and cp = "Some sample_child_policy"
      and digest = "\<lambda>v. ''hash''" and r = delegated_rule
      and x = "hd (items_of (dget sample_parent_policy ''rules''))"])
  show "inherit_policy (\<lambda>v. ''hash'') (Some sample_parent_policy) (Some sample_child_policy) = Inr sample_delegated"
    by code_simp
  show "prepare_policy sample_compiler_env ''hybrid_v1'' ''u'' [] None (Some sample_delegated) sample_compiler =
      (Inr (Some delegated_snapshot), sample_compiler)"
    by (rule delegated_preparation)
  show "finalize_result (evaluate_policy [delegated_rule] pushing_evidence BoundedAutonomy True)
      (sample_bounds\<lparr>bd_human_approved := True\<rparr>) = Inr delegated_final"
    by (rule delegated_evaluation)
qed code_simp+

end
